(* ===== verification/Pacyte_Prelude.thy ===== *)
theory Pacyte_Prelude
  imports Complex_Main "HOL-Library.Word" "HOL-Library.AList" "HOL-Library.Multiset"
begin

unbundle bit_operations_syntax

text \<open>
  The vocabulary every component shares: the machine integers and byte strings of the Rust
  sources, the saturating and checked operations of the standard library, little- and
  big-endian byte encodings, the result type of fallible operations, lock guards, and the
  association lists that stand for \<open>HashMap\<close> and \<open>DashMap\<close> where the code iterates over them.

  Machine arithmetic is that of the release profile (\<open>cargo build --release\<close>, the build the
  README documents; \<open>Cargo.toml\<close> sets no \<open>overflow-checks\<close>): \<open>+\<close>, \<open>-\<close> and \<open>*\<close> on a
  \<open>u64\<close> or \<open>u128\<close> wrap around, which is what the operations of a word type do.
\<close>

section \<open>Names of the model's types\<close>

type_synonym u8 = "8 word"
type_synonym u16 = "16 word"
type_synonym u32 = "32 word"
type_synonym u64 = "64 word"
type_synonym u128 = "128 word"
type_synonym usize = "64 word"

text \<open>\<open>Vec<u8>\<close>, \<open>&[u8]\<close> and the arrays \<open>[u8; 32]\<close> are byte lists.\<close>

type_synonym bytes = "u8 list"
type_synonym address = bytes
type_synonym hash = bytes
type_synonym signature = bytes
type_synonym timestamp = u64
type_synonym block_height = u64

abbreviation zero32 :: bytes where
  "zero32 \<equiv> replicate 32 0"

text \<open>Facts that unfold the model's operations, collected for the component proofs.\<close>

named_theorems rust_simps \<open>unsigned values of the standard library's integer operations\<close>
named_theorems keeps_inv \<open>operations that keep a component's invariant\<close>

section \<open>Integer operations of the standard library\<close>

lemma unat_bound: "unat (w :: 'a::len word) < 2 ^ LENGTH('a)"
  by (rule unsigned_less)

definition saturating_add :: "'a::len word \<Rightarrow> 'a word \<Rightarrow> 'a word" where
  "saturating_add a b = (if unat a + unat b < 2 ^ LENGTH('a) then a + b else - 1)"

definition saturating_sub :: "'a::len word \<Rightarrow> 'a word \<Rightarrow> 'a word" where
  "saturating_sub a b = (if a < b then 0 else a - b)"

definition checked_add :: "'a::len word \<Rightarrow> 'a word \<Rightarrow> 'a word option" where
  "checked_add a b = (if unat a + unat b < 2 ^ LENGTH('a) then Some (a + b) else None)"

lemma unat_add_no_overflow [rust_simps]:
  fixes a b :: "'a::len word"
  assumes "unat a + unat b < 2 ^ LENGTH('a)"
  shows "unat (a + b) = unat a + unat b"
  using assms by (simp add: unat_word_ariths)

lemma unat_ucast: "unat (ucast (w :: 'a::len word) :: 'b::len word) = unat w mod 2 ^ LENGTH('b)"
  by (simp add: unsigned_ucast_eq take_bit_eq_mod)

lemma unat_min: "unat (min a b :: 'a::len word) = min (unat a) (unat b)"
  by (simp add: min_def word_le_nat_alt)

lemma less_succ_word: "n \<noteq> - 1 \<Longrightarrow> n < n + (1 :: 'a::len word)"
proof -
  assume "n \<noteq> - 1"
  then have "n + 1 \<noteq> 0" by (metis add_eq_0_iff2)
  then have "unat (1 + n) = Suc (unat n)" by (intro unatSuc) (simp add: add.commute)
  then show ?thesis by (simp add: word_less_nat_alt add.commute)
qed

lemma unat_max_word: "unat (- 1 :: 'a::len word) = 2 ^ LENGTH('a) - 1"
  by (simp add: unsigned_minus_1_eq_mask mask_eq_exp_minus_1)

lemma unat_saturating_add [rust_simps]:
  fixes a b :: "'a::len word"
  shows "unat (saturating_add a b) = min (2 ^ LENGTH('a) - 1) (unat a + unat b)"
  by (simp add: saturating_add_def unat_add_no_overflow unat_max_word)

lemma unat_saturating_add_exact:
  fixes a b :: "'a::len word"
  assumes "unat a + unat b < 2 ^ LENGTH('a)"
  shows "unat (saturating_add a b) = unat a + unat b" "saturating_add a b = a + b"
  using assms by (simp_all add: saturating_add_def unat_add_no_overflow)

lemma unat_sub_le [rust_simps]:
  fixes a b :: "'a::len word"
  assumes "b \<le> a"
  shows "unat (a - b) = unat a - unat b"
  using assms by (simp add: unat_sub_if_size word_le_nat_alt)

lemma unat_saturating_sub [rust_simps]:
  "unat (saturating_sub a b) = unat a - unat b"
  by (auto simp: saturating_sub_def unat_sub_le not_less word_less_nat_alt word_le_nat_alt)

lemma checked_add_Some:
  fixes a b c :: "'a::len word"
  assumes "checked_add a b = Some c"
  shows "unat c = unat a + unat b"
  using assms by (auto simp: checked_add_def unat_add_no_overflow split: if_splits)

lemma checked_add_None_iff:
  fixes a b :: "'a::len word"
  shows "checked_add a b = None \<longleftrightarrow> 2 ^ LENGTH('a) \<le> unat a + unat b"
  by (simp add: checked_add_def not_less)

section \<open>Byte encodings of integers\<close>

text \<open>\<open>le_bytes\<close> is \<open>to_le_bytes\<close> and \<open>be_bytes\<close> is \<open>to_be_bytes\<close> of the integer types.\<close>

fun nat_le_bytes :: "nat \<Rightarrow> nat \<Rightarrow> bytes" where
  "nat_le_bytes 0 n = []"
| "nat_le_bytes (Suc k) n = of_nat (n mod 256) # nat_le_bytes k (n div 256)"

fun le_nat :: "bytes \<Rightarrow> nat" where
  "le_nat [] = 0"
| "le_nat (b # bs) = unat b + 256 * le_nat bs"

definition le_bytes :: "'a::len word \<Rightarrow> bytes" where
  "le_bytes w = nat_le_bytes (LENGTH('a) div 8) (unat w)"

definition be_bytes :: "'a::len word \<Rightarrow> bytes" where
  "be_bytes w = rev (le_bytes w)"

definition be_nat :: "bytes \<Rightarrow> nat" where
  "be_nat bs = le_nat (rev bs)"

lemma length_nat_le_bytes [simp]: "length (nat_le_bytes k n) = k"
  by (induction k arbitrary: n) simp_all

lemma length_le_bytes [simp]: "length (le_bytes (w :: 'a::len word)) = LENGTH('a) div 8"
  by (simp add: le_bytes_def)

lemma length_be_bytes [simp]: "length (be_bytes (w :: 'a::len word)) = LENGTH('a) div 8"
  by (simp add: be_bytes_def)

lemma unat_byte_of_nat: "unat (of_nat (n mod 256) :: u8) = n mod 256"
  by (simp add: unat_of_nat)

lemma le_nat_nat_le_bytes: "le_nat (nat_le_bytes k n) = n mod 256 ^ k"
proof (induction k arbitrary: n)
  case 0
  then show ?case by simp
next
  case (Suc k)
  have "n mod 256 ^ Suc k = 256 * (n div 256 mod 256 ^ k) + n mod 256"
    by (simp add: mod_mult2_eq)
  then show ?case
    using Suc by (simp add: unat_byte_of_nat)
qed

lemma le_nat_less: "le_nat bs < 256 ^ length bs"
proof (induction bs)
  case Nil
  then show ?case by simp
next
  case (Cons b bs)
  have "unat b < 256"
    using unsigned_less [of b] by simp
  with Cons show ?case by simp
qed

lemma le_nat_append: "le_nat (xs @ ys) = le_nat xs + 256 ^ length xs * le_nat ys"
  by (induction xs) (simp_all add: algebra_simps)

lemma nat_le_bytes_le_nat: "nat_le_bytes (length bs) (le_nat bs) = bs"
proof (induction bs)
  case Nil
  then show ?case by simp
next
  case (Cons b bs)
  have "unat b < 256"
    using unsigned_less [of b] by simp
  then have "le_nat (b # bs) mod 256 = unat b" and "le_nat (b # bs) div 256 = le_nat bs"
    by simp_all
  with Cons show ?case by simp
qed

lemma le_nat_inject: "length xs = length ys \<Longrightarrow> le_nat xs = le_nat ys \<Longrightarrow> xs = ys"
  by (metis nat_le_bytes_le_nat)

lemma be_nat_append: "be_nat (xs @ ys) = be_nat xs * 256 ^ length ys + be_nat ys"
  by (simp add: be_nat_def le_nat_append)

lemma be_nat_Cons: "be_nat (b # bs) = unat b * 256 ^ length bs + be_nat bs"
  using be_nat_append [of "[b]" bs] by (simp add: be_nat_def)

lemma be_nat_less: "be_nat bs < 256 ^ length bs"
  using le_nat_less [of "rev bs"] by (simp add: be_nat_def)

lemma be_nat_inject: "length xs = length ys \<Longrightarrow> be_nat xs = be_nat ys \<Longrightarrow> xs = ys"
  using le_nat_inject [of "rev xs" "rev ys"] by (simp add: be_nat_def)

lemma le_nat_le_bytes:
  fixes w :: "'a::len word"
  assumes "8 dvd LENGTH('a)"
  shows "le_nat (le_bytes w) = unat w"
proof -
  from assms obtain k where k: "LENGTH('a) = 8 * k"
    by (auto elim: dvdE)
  then have "256 ^ (LENGTH('a) div 8) = (2 ^ LENGTH('a) :: nat)"
    by (simp add: power_mult)
  then show ?thesis
    by (simp add: le_bytes_def le_nat_nat_le_bytes)
qed

lemma le_bytes_inject:
  fixes v w :: "'a::len word"
  assumes "8 dvd LENGTH('a)"
  shows "le_bytes v = le_bytes w \<longleftrightarrow> v = w"
  using assms by (metis le_nat_le_bytes word_unat_eq_iff)

lemma le_bytes_inject_fixed [simp]:
  "le_bytes (a :: u32) = le_bytes a' \<longleftrightarrow> a = a'"
  "le_bytes (b :: u64) = le_bytes b' \<longleftrightarrow> b = b'"
  "le_bytes (c :: u128) = le_bytes c' \<longleftrightarrow> c = c'"
  by (simp_all add: le_bytes_inject)

section \<open>Decimal printing\<close>

text \<open>\<open>show_nat\<close> is \<open>{}\<close> of \<open>format!\<close> on an unsigned integer.\<close>

fun show_nat :: "nat \<Rightarrow> string" where
  "show_nat n = (if n < 10 then [char_of (48 + n)] else show_nat (n div 10) @ [char_of (48 + n mod 10)])"

declare show_nat.simps [simp del]

abbreviation show_word :: "'a::len word \<Rightarrow> string" where
  "show_word w \<equiv> show_nat (unat w)"

text \<open>The bytes of an ASCII string.\<close>

definition ascii :: "string \<Rightarrow> bytes" where
  "ascii s = map (\<lambda>c. of_nat (of_char c)) s"

lemma ascii_append [simp]: "ascii (s @ t) = ascii s @ ascii t"
  by (simp add: ascii_def)

section \<open>Lock guards\<close>

text \<open>
  The managers keep their fields in \<open>parking_lot::RwLock\<close>s, which are not reentrant: a thread
  that asks for a write guard on a lock it already holds, or for a read guard on a lock it
  holds for writing, waits for itself forever. Operations that take a guard while another is
  alive are modelled with the guards the thread holds, and \<open>Blocked\<close> is the call that does
  not return.
\<close>

datatype lock_mode = ReadGuard | WriteGuard

type_synonym 'l guards = "('l \<times> lock_mode) list"

datatype 'a outcome = Returned 'a | Blocked

definition may_read :: "'l guards \<Rightarrow> 'l \<Rightarrow> bool" where
  "may_read gs l \<longleftrightarrow> (l, WriteGuard) \<notin> set gs"

definition may_write :: "'l guards \<Rightarrow> 'l \<Rightarrow> bool" where
  "may_write gs l \<longleftrightarrow> (l, ReadGuard) \<notin> set gs \<and> (l, WriteGuard) \<notin> set gs"

lemma may_write_imp_may_read: "may_write gs l \<Longrightarrow> may_read gs l"
  by (simp add: may_write_def may_read_def)

lemma guard_simps [simp]:
  "may_read [] l" "may_write [] l"
  "may_read ((l', ReadGuard) # gs) l \<longleftrightarrow> may_read gs l"
  "may_read ((l', WriteGuard) # gs) l \<longleftrightarrow> l \<noteq> l' \<and> may_read gs l"
  "may_write ((l', m) # gs) l \<longleftrightarrow> l \<noteq> l' \<and> may_write gs l"
  by (cases m; auto simp: may_read_def may_write_def)+

section \<open>Association lists for hash maps\<close>

text \<open>
  A \<open>HashMap\<close> or \<open>DashMap\<close> that the code iterates over is an association list with distinct
  keys; its order is the order the iteration happens to take, so a statement about every list
  is a statement about every iteration order. \<open>insert\<close> is \<open>AList.update\<close>, \<open>get\<close> is
  \<open>map_of\<close> and \<open>remove\<close> is \<open>AList.delete\<close>.
\<close>

abbreviation wf_map :: "('k \<times> 'v) list \<Rightarrow> bool" where
  "wf_map al \<equiv> distinct (map fst al)"

definition alist_sum :: "('v \<Rightarrow> nat) \<Rightarrow> ('k \<times> 'v) list \<Rightarrow> nat" where
  "alist_sum f al = sum_list (map (f \<circ> snd) al)"

lemma alist_sum_simps [simp]:
  "alist_sum f [] = 0"
  "alist_sum f (p # al) = f (snd p) + alist_sum f al"
  by (simp_all add: alist_sum_def)

lemma map_of_AList_update [simp]: "map_of (AList.update k v al) k' = (if k' = k then Some v else map_of al k')"
  by (simp add: update_conv')

lemma map_of_AList_delete [simp]: "map_of (AList.delete k al) k' = (if k' = k then None else map_of al k')"
  by (simp add: delete_conv')

lemma wf_map_update [simp, intro]: "wf_map al \<Longrightarrow> wf_map (AList.update k v al)"
  by (rule distinct_update)

lemma wf_map_delete [simp, intro]: "wf_map al \<Longrightarrow> wf_map (AList.delete k al)"
  by (rule distinct_delete)

lemma update_fresh: "map_of al k = None \<Longrightarrow> AList.update k v al = al @ [(k, v)]"
  by (induction al) (auto split: if_splits)

lemma alist_sum_append [simp]: "alist_sum f (al @ bl) = alist_sum f al + alist_sum f bl"
  by (simp add: alist_sum_def)

lemma alist_sum_update_None:
  "map_of al k = None \<Longrightarrow> alist_sum f (AList.update k v al) = alist_sum f al + f v"
  by (simp add: update_fresh)

lemma alist_sum_update_Some:
  "map_of al k = Some v0 \<Longrightarrow> alist_sum f (AList.update k v al) + f v0 = alist_sum f al + f v"
  by (induction al) (auto split: if_splits)

lemma alist_sum_delete:
  "wf_map al \<Longrightarrow> map_of al k = Some v0 \<Longrightarrow> alist_sum f (AList.delete k al) + f v0 = alist_sum f al"
proof (induction al)
  case Nil
  then show ?case by simp
next
  case (Cons p al)
  show ?case
  proof (cases "fst p = k")
    case True
    with Cons.prems have "k \<notin> fst ` set al" and "f v0 = f (snd p)"
      by (auto simp: image_iff)
    with True show ?thesis
      by (simp add: delete_notin_dom)
  next
    case False
    with Cons show ?thesis by auto
  qed
qed

lemma alist_member_le: "map_of al k = Some v \<Longrightarrow> f v \<le> alist_sum f al"
  by (induction al) (auto split: if_splits)

lemma length_update:
  "length (AList.update k v al) = (if map_of al k = None then Suc (length al) else length al)"
  by (induction al) auto

lemma ex_entry_delete:
  "(\<exists>k' v. map_of (AList.delete k al) k' = Some v \<and> P v) \<longleftrightarrow> (\<exists>k' v. k' \<noteq> k \<and> map_of al k' = Some v \<and> P v)"
proof
  assume "\<exists>k' v. k' \<noteq> k \<and> map_of al k' = Some v \<and> P v"
  then obtain k' v where "k' \<noteq> k" "map_of al k' = Some v" "P v" by blast
  then show "\<exists>k' v. map_of (AList.delete k al) k' = Some v \<and> P v" by (intro exI [of _ k']) simp
qed (auto split: if_splits)

lemma ex_entry_update:
  assumes "map_of al k = None"
  shows "(\<exists>k' v'. map_of (AList.update k v al) k' = Some v' \<and> P v') \<longleftrightarrow>
         P v \<or> (\<exists>k' v'. map_of al k' = Some v' \<and> P v')"
proof
  assume "P v \<or> (\<exists>k' v'. map_of al k' = Some v' \<and> P v')"
  then show "\<exists>k' v'. map_of (AList.update k v al) k' = Some v' \<and> P v'"
  proof
    assume "\<exists>k' v'. map_of al k' = Some v' \<and> P v'"
    then obtain k' v' where "map_of al k' = Some v'" "P v'" by blast
    with assms show ?thesis by (intro exI [of _ k']) auto
  qed (auto intro!: exI [of _ k])
qed (auto split: if_splits)

lemma map_of_in_set: "wf_map al \<Longrightarrow> (k, v) \<in> set al \<longleftrightarrow> map_of al k = Some v"
  by auto

lemma map_of_rev_wf: "wf_map al \<Longrightarrow> map_of (rev al) = map_of al"
  by (simp add: map_of_inject_set flip: rev_map)

declare map_of_eq_Some_iff [simp del] Some_eq_map_of_iff [simp del]

section \<open>Sums under an update\<close>

lemma sum_fun_upd_nat:
  fixes f :: "'a \<Rightarrow> nat"
  assumes "finite A" "a \<in> A"
  shows "sum (f(a := x)) A + f a = sum f A + x"
proof -
  have "sum (f(a := x)) (A - {a}) = sum f (A - {a})"
    by (rule sum.cong) auto
  then show ?thesis
    using assms by (simp add: sum.remove [of A a])
qed

lemma sum_fun_upd2_nat:
  fixes f :: "'a \<Rightarrow> nat"
  assumes "finite A" "a \<in> A" "b \<in> A" "a \<noteq> b"
  shows "sum (f(a := x, b := y)) A + f a + f b = sum f A + x + y"
  using sum_fun_upd_nat [OF assms(1,3), of "f(a := x)" y] sum_fun_upd_nat [OF assms(1,2), of f x] assms(4)
  by simp

lemma sum_two_le_nat:
  fixes f :: "'a \<Rightarrow> nat"
  assumes "finite A" "a \<in> A" "b \<in> A" "a \<noteq> b"
  shows "f a + f b \<le> sum f A"
  using sum_mono2 [of A "{a, b}" f] assms by simp

end
