(* ===== verification/Pacyte_Error.thy ===== *)
theory Pacyte_Error
  imports Pacyte_Prelude
begin

text \<open>
  \<open>PacyteError\<close> of \<open>src/types/error.rs\<close>, with the constructors in the source's order and the
  payload of each variant as its arguments, and \<open>PacyteResult\<close>, whose \<open>Err\<close> is \<open>Inl\<close> and whose
  \<open>Ok\<close> is \<open>Inr\<close>.
\<close>

datatype (plugins only:) pacyte_error =
    StateLocked u32
  | InsufficientBalance u128 u128
  | InsufficientSupply
  | AccountNotFound string
  | InvalidNonce u64 u64
  | RocksDBError string
  | WalCorruption u64
  | DiskIoFailure string
  | StateRootMismatch string string
  | NetworkError string
  | ConnectionClosed
  | HandshakeFailed string
  | PeerNotFound string
  | MaxPeersReached usize
  | NetworkTimeout u64
  | ConsensusTimeout u64 u64
  | InvalidProposal string
  | DoubleVoting u64
  | InsufficientVotes usize usize
  | NotValidator
  | InvalidSignature
  | TransactionExpired u64
  | TransactionTooLarge usize usize
  | GasLimitExceeded u64 u64
  | InvalidRecipient
  | CryptoError string
  | InvalidPublicKey
  | KeyDerivationFailed
  | BridgeExpired u64
  | BridgeAlreadyFinalized
  | ShardNotFound u64
  | CrossShardVerificationFailed
  | HardwareInsufficient
  | ZkLatencyTooHigh u64 u64
  | ValidatorSlashed string
  | InsufficientStake u128 u128
  | DormantAccount u32
  | DormantReactivationDenied
  | InvalidRpcRequest string
  | MethodNotFound string
  | RateLimitExceeded string
  | Unauthorized string
  | ConfigError string
  | NotImplemented string
  | Internal string
  | BlockNotFound block_height
  | PeerBanned string
  | PeerAlreadyConnected string
  | ValidatorAlreadyExists
  | ValidatorSetFull
  | ValidatorNotFound u64
  | ValidatorInactive u64
  | InvalidTimestamp
  | InvalidProposer "u64 option" u64
  | DoubleProposal u64
  | SafetyViolation string
  | BlockAlreadyCommitted block_height
  | ContractAlreadyExists address
  | ContractNotFound address
  | ContractNotUpgradeable address
  | SerializationError string
  | PrecompileNotFound address
  | InvalidWasmModule
  | WasmModuleNotFound
  | WasmFunctionNotFound string
  | ExecutionError string
  | OutOfGas
  | AmountTooSmall u128 u128
  | SelfTransfer
  | InvalidAmount
  | SameShardTransfer
  | BridgeNotFound u64
  | BridgeAmountTooLarge u128 u128
  | InvalidBridgeStatus string string
  | HandshakeTimeout

type_synonym 'a pacyte_result = "pacyte_error + 'a"

definition unwrap_or :: "'a \<Rightarrow> 'a pacyte_result \<Rightarrow> 'a" where
  "unwrap_or d r = (case r of Inr v \<Rightarrow> v | Inl _ \<Rightarrow> d)"

lemma unwrap_or_simps [simp]: "unwrap_or d (Inr v) = v" "unwrap_or d (Inl e) = d"
  by (simp_all add: unwrap_or_def)

text \<open>Sequencing of fallible, state-changing calls: \<open>f(..)?; g(..)\<close>.\<close>

definition bind_res ::
    "'a pacyte_result \<times> 't \<Rightarrow> ('a \<Rightarrow> 't \<Rightarrow> 'b pacyte_result \<times> 't) \<Rightarrow> 'b pacyte_result \<times> 't" where
  "bind_res p f = (case p of (Inl e, s) \<Rightarrow> (Inl e, s) | (Inr a, s) \<Rightarrow> f a s)"

lemma bind_res_simps [simp]:
  "bind_res (Inl e, s) f = (Inl e, s)" "bind_res (Inr a, s) f = f a s"
  by (simp_all add: bind_res_def)

lemma bind_res_ok: "bind_res p f = (Inr b, s') \<longleftrightarrow> (\<exists>a s. p = (Inr a, s) \<and> f a s = (Inr b, s'))"
  by (cases p; cases "fst p") (auto simp: bind_res_def)

text \<open>A predicate that the first call and every continuation keep.\<close>

lemma bind_res_keeps:
  assumes "P (snd p)" "\<And>a s. p = (Inr a, s) \<Longrightarrow> P s \<Longrightarrow> P (snd (f a s))"
  shows "P (snd (bind_res p f))"
  using assms by (cases p; cases "fst p") (auto simp: bind_res_def)

end
