(* ===== verification/Core_Types.thy ===== *)
theory Core_Types
  imports Pacyte_Error
begin

text \<open>
  The data of \<open>src/types\<close>: accounts, transactions and blocks, with every method
  of \<open>account.rs\<close>, \<open>transaction.rs\<close> and \<open>block.rs\<close> that computes (the JSON conversions, which
  only call \<open>serde_json\<close>, are left out).

  The clock (\<open>current_timestamp\<close>) is the argument \<open>now\<close>: an operation reads one instant. Code
  of other crates is the record \<open>externals\<close>: the hash functions of \<open>sha3\<close>, the serialiser of
  \<open>bincode\<close>, the hexadecimal printer of \<open>hex\<close> and the two signature verifiers.
\<close>

section \<open>Accounts\<close>

datatype account_type = User | Sovereign | System | Bridge

record account =
  acc_address :: address
  balance :: u128
  nonce :: u64
  staked :: u128
  created_at :: timestamp
  last_activity :: timestamp
  is_dormant :: bool
  is_validator :: bool
  validator_key :: "bytes option"
  account_kind :: account_type

definition account_new :: "timestamp \<Rightarrow> address \<Rightarrow> u128 \<Rightarrow> account" where
  "account_new now addr initial_balance =
     \<lparr>acc_address = addr, balance = initial_balance, nonce = 0, staked = 0,
      created_at = now, last_activity = now, is_dormant = False, is_validator = False,
      validator_key = None, account_kind = User\<rparr>"

definition genesis_sovereign :: "timestamp \<Rightarrow> u128 \<Rightarrow> account" where
  "genesis_sovereign now bal =
     \<lparr>acc_address = zero32, balance = bal, nonce = 0, staked = 0,
      created_at = now, last_activity = now, is_dormant = False, is_validator = True,
      validator_key = None, account_kind = Sovereign\<rparr>"

definition six_years_secs :: u64 where
  "six_years_secs = 6 * 365 * 24 * 60 * 60"

definition check_dormancy :: "timestamp \<Rightarrow> account \<Rightarrow> bool \<times> account" where
  "check_dormancy current_time a =
     (if \<not> is_dormant a \<and> current_time - last_activity a > six_years_secs
      then (True, a\<lparr>is_dormant := True\<rparr>) else (False, a))"

definition record_activity :: "timestamp \<Rightarrow> account \<Rightarrow> account" where
  "record_activity now a = a\<lparr>last_activity := now, is_dormant := False\<rparr>"

definition increment_nonce :: "timestamp \<Rightarrow> account \<Rightarrow> u64 \<times> account" where
  "increment_nonce now a =
     (let a' = record_activity now (a\<lparr>nonce := nonce a + 1\<rparr>) in (nonce a', a'))"

definition credit :: "timestamp \<Rightarrow> u128 \<Rightarrow> account \<Rightarrow> account" where
  "credit now amount a = record_activity now (a\<lparr>balance := saturating_add (balance a) amount\<rparr>)"

definition debit :: "timestamp \<Rightarrow> u128 \<Rightarrow> account \<Rightarrow> bool \<times> account" where
  "debit now amount a =
     (if balance a \<ge> amount
      then (True, record_activity now (a\<lparr>balance := balance a - amount\<rparr>)) else (False, a))"

definition stake :: "timestamp \<Rightarrow> u128 \<Rightarrow> account \<Rightarrow> bool \<times> account" where
  "stake now amount a =
     (if balance a \<ge> amount
      then (True, record_activity now
              (a\<lparr>balance := balance a - amount, staked := staked a + amount\<rparr>))
      else (False, a))"

definition unstake :: "timestamp \<Rightarrow> u128 \<Rightarrow> account \<Rightarrow> bool \<times> account" where
  "unstake now amount a =
     (if staked a \<ge> amount
      then (True, record_activity now
              (a\<lparr>staked := staked a - amount, balance := balance a + amount\<rparr>))
      else (False, a))"

definition register_validator :: "timestamp \<Rightarrow> bytes \<Rightarrow> account \<Rightarrow> account" where
  "register_validator now key a =
     record_activity now (a\<lparr>is_validator := True, validator_key := Some key\<rparr>)"

definition unregister_validator :: "timestamp \<Rightarrow> account \<Rightarrow> account" where
  "unregister_validator now a =
     record_activity now (a\<lparr>is_validator := False, validator_key := None\<rparr>)"

definition total_wealth :: "account \<Rightarrow> u128" where
  "total_wealth a = saturating_add (balance a) (staked a)"

definition account_is_empty :: "account \<Rightarrow> bool" where
  "account_is_empty a \<longleftrightarrow> balance a = 0 \<and> staked a = 0"

section \<open>Transactions and blocks\<close>

record transaction =
  tx_from :: address
  tx_to :: address
  tx_amount :: u128
  tx_fee :: u128
  tx_nonce :: u64
  tx_signature :: signature
  tx_timestamp :: timestamp

record block_header =
  hdr_height :: block_height
  previous_hash :: hash
  hdr_transactions_root :: hash
  state_root :: hash
  hdr_timestamp :: timestamp
  proposer :: address
  transaction_count :: u32
  block_size :: u32
  hdr_signature :: signature

record block =
  header :: block_header
  transactions :: "transaction list"

text \<open>What the sources call in other crates.\<close>

record externals =
  sha3_256 :: "bytes \<Rightarrow> hash"
  keccak256 :: "bytes \<Rightarrow> hash"
  hex_encode :: "bytes \<Rightarrow> string"
  ser_account :: "account \<Rightarrow> bytes"
  ser_transaction :: "transaction \<Rightarrow> bytes"
  ser_body :: "transaction list \<Rightarrow> bytes"
  ed25519_verify :: "bytes \<Rightarrow> signature \<Rightarrow> bytes \<Rightarrow> bool"
  dilithium5_verify :: "bytes \<Rightarrow> signature \<Rightarrow> bytes \<Rightarrow> bool"

definition address_short :: "externals \<Rightarrow> address \<Rightarrow> string" where
  "address_short X addr =
     ''0x'' @ hex_encode X (take 4 addr) @ ''...'' @ hex_encode X (drop 28 addr)"

text \<open>\<open>format!("{:?}", bytes)\<close>.\<close>

definition debug_bytes :: "bytes \<Rightarrow> string" where
  "debug_bytes bs =
     ''['' @ concat (map (\<lambda>i. (if i = 0 then [] else '', '') @ show_word (bs ! i)) [0..<length bs]) @ '']''"

definition transaction_new :: "timestamp \<Rightarrow> address \<Rightarrow> address \<Rightarrow> u128 \<Rightarrow> u128 \<Rightarrow> u64 \<Rightarrow> transaction" where
  "transaction_new now from to amount fee n =
     \<lparr>tx_from = from, tx_to = to, tx_amount = amount, tx_fee = fee, tx_nonce = n,
      tx_signature = [], tx_timestamp = now\<rparr>"

text \<open>The bytes \<open>sighash\<close> feeds to the hasher, in the order of its \<open>update\<close> calls.\<close>

definition sighash_preimage :: "transaction \<Rightarrow> bytes" where
  "sighash_preimage tx =
     tx_from tx @ tx_to tx @ le_bytes (tx_amount tx) @ le_bytes (tx_fee tx) @
     le_bytes (tx_nonce tx) @ le_bytes (tx_timestamp tx)"

definition sighash :: "externals \<Rightarrow> transaction \<Rightarrow> hash" where
  "sighash X tx = sha3_256 X (sighash_preimage tx)"

definition tx_hash :: "externals \<Rightarrow> transaction \<Rightarrow> hash" where
  "tx_hash X tx = sha3_256 X (sighash X tx @ tx_signature tx)"

definition tx_sign :: "signature \<Rightarrow> transaction \<Rightarrow> transaction" where
  "tx_sign sig tx = tx\<lparr>tx_signature := sig\<rparr>"

definition validate_basic :: "timestamp \<Rightarrow> u64 \<Rightarrow> transaction \<Rightarrow> bool" where
  "validate_basic now max_tx_age_secs tx =
     (if tx_from tx = zero32 \<or> tx_to tx = zero32 \<or> tx_from tx = tx_to tx then False
      else if tx_amount tx = 0 \<or> checked_add (tx_amount tx) (tx_fee tx) = None then False
      else if tx_timestamp tx > now + 30 \<or> now - tx_timestamp tx > max_tx_age_secs then False
      else tx_signature tx \<noteq> [] \<and> length (tx_signature tx) \<le> 5000)"

definition tx_size :: "externals \<Rightarrow> transaction \<Rightarrow> usize" where
  "tx_size X tx = of_nat (length (ser_transaction X tx))"

definition total_cost :: "transaction \<Rightarrow> u128" where
  "total_cost tx = saturating_add (tx_amount tx) (tx_fee tx)"

datatype tx_validation_result =
    TxValid
  | TxInsufficientBalance u128 u128
  | TxInvalidNonce u64 u64
  | TxInvalidSignature
  | TxExpired u64 u64
  | TxTooLarge usize usize
  | TxFeeTooLow u128 u128
  | TxAccountDormant u32
  | TxOther string

definition is_valid :: "tx_validation_result \<Rightarrow> bool" where
  "is_valid r \<longleftrightarrow> r = TxValid"

fun error_message :: "tx_validation_result \<Rightarrow> string" where
  "error_message TxValid = ''Valid''"
| "error_message (TxInsufficientBalance required available) =
     ''Insufficient balance: required='' @ show_word required @ '', available='' @ show_word available"
| "error_message (TxInvalidNonce expected got) =
     ''Invalid nonce: expected='' @ show_word expected @ '', got='' @ show_word got"
| "error_message TxInvalidSignature = ''Invalid signature''"
| "error_message (TxExpired age max_age) =
     ''Expired: age='' @ show_word age @ ''s, max='' @ show_word max_age @ ''s''"
| "error_message (TxTooLarge sz max_sz) = ''Too large: size='' @ show_word sz @ '', max='' @ show_word max_sz"
| "error_message (TxFeeTooLow fee min_fee) =
     ''Fee too low: fee='' @ show_word fee @ '', min='' @ show_word min_fee"
| "error_message (TxAccountDormant years) = ''Account dormant for '' @ show_word years @ '' years''"
| "error_message (TxOther msg) = msg"

definition header_preimage :: "block_header \<Rightarrow> bytes" where
  "header_preimage h =
     le_bytes (hdr_height h) @ previous_hash h @ hdr_transactions_root h @ state_root h @
     le_bytes (hdr_timestamp h) @ proposer h @ le_bytes (transaction_count h) @
     le_bytes (block_size h)"

definition header_hash :: "externals \<Rightarrow> block_header \<Rightarrow> hash" where
  "header_hash X h = sha3_256 X (header_preimage h)"

definition header_validate :: "externals \<Rightarrow> timestamp \<Rightarrow> block_header \<Rightarrow> block_header \<Rightarrow> bool" where
  "header_validate X now h parent =
     (if hdr_height h \<noteq> hdr_height parent + 1 then False
      else if previous_hash h \<noteq> header_hash X parent then False
      else if hdr_timestamp h > now + 30 \<or> hdr_timestamp h < hdr_timestamp parent then False
      else True)"

text \<open>
  \<open>transactions_root\<close>: one pass of its \<open>while\<close> loop hashes \<open>chunks(2)\<close>, an odd last hash
  with itself; the loop stops at one hash.
\<close>

fun root_level :: "externals \<Rightarrow> hash list \<Rightarrow> hash list" where
  "root_level X [] = []"
| "root_level X [x] = [sha3_256 X (x @ x)]"
| "root_level X (x # y # hs) = sha3_256 X (x @ y) # root_level X hs"

lemma length_root_level [simp]: "length (root_level X hs) = (length hs + 1) div 2"
  by (induction X hs rule: root_level.induct) auto

function root_loop :: "externals \<Rightarrow> hash list \<Rightarrow> hash list" where
  "root_loop X hs = (if length hs > 1 then root_loop X (root_level X hs) else hs)"
  by pat_completeness auto
termination
  by (relation "measure (\<lambda>(X, hs). length hs)") auto

declare root_loop.simps [simp del]

definition transactions_root :: "externals \<Rightarrow> transaction list \<Rightarrow> hash" where
  "transactions_root X txs =
     (if txs = [] then zero32 else hd (root_loop X (map (tx_hash X) txs)))"

definition total_fees :: "transaction list \<Rightarrow> u128" where
  "total_fees txs = sum_list (map tx_fee txs)"

definition body_size :: "externals \<Rightarrow> transaction list \<Rightarrow> usize" where
  "body_size X txs = of_nat (length (ser_body X txs))"

definition block_new ::
    "externals \<Rightarrow> timestamp \<Rightarrow> block_height \<Rightarrow> hash \<Rightarrow> transaction list \<Rightarrow> address \<Rightarrow> block" where
  "block_new X now h prev txs prop =
     \<lparr>header = \<lparr>hdr_height = h, previous_hash = prev,
         hdr_transactions_root = transactions_root X txs, state_root = zero32,
         hdr_timestamp = now, proposer = prop,
         transaction_count = of_nat (length txs), block_size = ucast (body_size X txs),
         hdr_signature = []\<rparr>,
      transactions = txs\<rparr>"

definition block_genesis :: "externals \<Rightarrow> timestamp \<Rightarrow> block" where
  "block_genesis X now = block_new X now 0 zero32 [] zero32"

definition block_hash :: "externals \<Rightarrow> block \<Rightarrow> hash" where
  "block_hash X b = header_hash X (header b)"

definition set_state_root :: "hash \<Rightarrow> block \<Rightarrow> block" where
  "set_state_root rt b = b\<lparr>header := (header b)\<lparr>state_root := rt\<rparr>\<rparr>"

definition block_sign :: "signature \<Rightarrow> block \<Rightarrow> block" where
  "block_sign sig b = b\<lparr>header := (header b)\<lparr>hdr_signature := sig\<rparr>\<rparr>"

definition block_validate :: "externals \<Rightarrow> timestamp \<Rightarrow> block \<Rightarrow> block \<Rightarrow> bool" where
  "block_validate X now b parent \<longleftrightarrow>
     header_validate X now (header b) (header parent) \<and>
     hdr_transactions_root (header b) = transactions_root X (transactions b) \<and>
     block_size (header b) = ucast (body_size X (transactions b)) \<and>
     transaction_count (header b) = of_nat (length (transactions b))"

section \<open>Accounts keep their wealth\<close>

definition wealth :: "account \<Rightarrow> nat" where
  "wealth a = unat (balance a) + unat (staked a)"

lemma record_activity_simps [simp]:
  "balance (record_activity now a) = balance a" "nonce (record_activity now a) = nonce a"
  "staked (record_activity now a) = staked a" "last_activity (record_activity now a) = now"
  "acc_address (record_activity now a) = acc_address a"
  "\<not> is_dormant (record_activity now a)"
  by (simp_all add: record_activity_def)

lemma wealth_record_activity [simp]: "wealth (record_activity now a) = wealth a"
  by (simp add: wealth_def)

lemma stake_wealth:
  assumes "wealth a < 2 ^ 128"
  shows "wealth (snd (stake now x a)) = wealth a"
proof (cases "balance a \<ge> x")
  case True
  then have "unat x \<le> unat (balance a)" by (simp add: word_le_nat_alt)
  with assms True show ?thesis
    by (simp add: stake_def wealth_def unat_sub_le unat_add_no_overflow)
qed (simp add: stake_def)

lemma unstake_wealth:
  assumes "wealth a < 2 ^ 128"
  shows "wealth (snd (unstake now x a)) = wealth a"
proof (cases "staked a \<ge> x")
  case True
  then have "unat x \<le> unat (staked a)" by (simp add: word_le_nat_alt)
  with assms True show ?thesis
    by (simp add: unstake_def wealth_def unat_sub_le unat_add_no_overflow)
qed (simp add: unstake_def)

lemma debit_wealth:
  "wealth (snd (debit now x a)) = (if fst (debit now x a) then wealth a - unat x else wealth a)"
  by (auto simp: debit_def wealth_def unat_sub_le word_le_nat_alt)

lemma credit_wealth:
  assumes "wealth a + unat x < 2 ^ 128"
  shows "wealth (credit now x a) = wealth a + unat x"
  using assms by (simp add: credit_def wealth_def unat_saturating_add_exact unat_add_no_overflow)

lemma unstake_after_stake:
  assumes "balance a \<ge> x" "wealth a < 2 ^ 128"
  shows "let a' = snd (stake now x a) in
         fst (stake now x a) \<and> fst (unstake now x a') \<and>
         balance (snd (unstake now x a')) = balance a \<and> staked (snd (unstake now x a')) = staked a"
proof -
  have "unat (staked a) + unat x < 2 ^ 128"
    using assms by (simp add: wealth_def word_le_nat_alt)
  then have "x \<le> staked a + x"
    by (simp add: word_le_nat_alt unat_add_no_overflow)
  with assms(1) show ?thesis
    by (simp add: stake_def unstake_def Let_def)
qed

section \<open>What a hash binds\<close>

lemma sighash_preimage_inject:
  assumes "length (tx_from a) = 32" "length (tx_to a) = 32"
    and "length (tx_from b) = 32" "length (tx_to b) = 32"
    and "sighash_preimage a = sighash_preimage b"
  shows "tx_from a = tx_from b \<and> tx_to a = tx_to b \<and> tx_amount a = tx_amount b \<and>
         tx_fee a = tx_fee b \<and> tx_nonce a = tx_nonce b \<and> tx_timestamp a = tx_timestamp b"
  using assms by (simp add: sighash_preimage_def)

lemma header_preimage_inject:
  assumes "\<forall>h \<in> {a, b}. length (previous_hash h) = 32 \<and> length (hdr_transactions_root h) = 32 \<and>
             length (state_root h) = 32 \<and> length (proposer h) = 32"
    and "header_preimage a = header_preimage b"
  shows "a\<lparr>hdr_signature := s\<rparr> = b\<lparr>hdr_signature := s\<rparr>"
  using assms by (simp add: header_preimage_def)

section \<open>Admission of transactions and blocks\<close>

lemma clock_slack:
  fixes now ts :: u64
  assumes "unat now + 30 < 2 ^ 64" "unat max_age + 30 < 2 ^ 64"
  shows "\<not> (ts > now + 30 \<or> now - ts > max_age) \<longleftrightarrow> ts \<le> now \<and> unat now - unat ts \<le> unat max_age"
proof (cases "ts \<le> now")
  case True
  then have "unat ts \<le> unat now" by (simp add: word_le_nat_alt)
  moreover have "unat (now + 30) = unat now + 30"
    using assms(1) by (simp add: unat_add_no_overflow)
  ultimately show ?thesis
    using True by (auto simp: word_less_nat_alt not_less unat_sub_le)
next
  case False
  then have lt: "unat now < unat ts" by (simp add: word_le_nat_alt)
  have add: "unat (now + 30) = unat now + 30"
    using assms(1) by (simp add: unat_add_no_overflow)
  have "unat ts < 2 ^ 64" using unsigned_less [of ts] by simp
  have "unat (now - ts) = 2 ^ 64 + unat now - unat ts"
    using lt by (simp add: unat_sub_if_size word_size)
  then have "unat max_age < unat (now - ts)" if "unat ts \<le> unat now + 30"
    using that lt assms(2) by simp
  then show ?thesis
    using False add by (auto simp: word_less_nat_alt not_less)
qed

lemma validate_basic_iff:
  assumes "unat now + 30 < 2 ^ 64" "unat max_age + 30 < 2 ^ 64"
  shows "validate_basic now max_age tx \<longleftrightarrow>
     tx_from tx \<noteq> zero32 \<and> tx_to tx \<noteq> zero32 \<and> tx_from tx \<noteq> tx_to tx \<and>
     0 < unat (tx_amount tx) \<and> unat (tx_amount tx) + unat (tx_fee tx) < 2 ^ 128 \<and>
     tx_timestamp tx \<le> now \<and> unat now - unat (tx_timestamp tx) \<le> unat max_age \<and>
     0 < length (tx_signature tx) \<and> length (tx_signature tx) \<le> 5000"
  using clock_slack [OF assms, of "tx_timestamp tx"]
  by (auto simp: validate_basic_def checked_add_None_iff unat_gt_0 not_le)

lemma block_new_validates:
  assumes "hdr_timestamp (header parent) \<le> now" "unat now + 30 < 2 ^ 64"
  shows "block_validate X now
           (block_new X now (hdr_height (header parent) + 1) (block_hash X parent) txs prop) parent"
proof -
  have "\<not> now + 30 < now"
    using assms(2) by (simp add: word_less_nat_alt unat_add_no_overflow)
  with assms(1) show ?thesis
    by (simp add: block_validate_def header_validate_def block_new_def block_hash_def not_less)
qed

section \<open>Properties of the data types\<close>

text \<open>
  Concrete stand-ins for the other crates, for the closed examples: the "digest" is the first
  32 bytes of the padded message.
\<close>

definition sample_externals :: externals where
  "sample_externals =
     \<lparr>sha3_256 = (\<lambda>bs. take 32 (bs @ zero32)), keccak256 = (\<lambda>bs. take 32 (bs @ zero32)),
      hex_encode = (\<lambda>bs. concat (map (\<lambda>b. show_nat (unat b)) bs)),
      ser_account = (\<lambda>a. le_bytes (balance a)), ser_transaction = sighash_preimage,
      ser_body = (\<lambda>txs. concat (map sighash_preimage txs)),
      ed25519_verify = (\<lambda>m sig pk. sig = m @ m), dilithium5_verify = (\<lambda>m sig pk. False)\<rparr>"

lemma length_sample_sha3 [simp]: "length (sha3_256 sample_externals m) = 32"
  by (auto simp: sample_externals_def min_def)

definition sample_tx :: transaction where
  "sample_tx = \<lparr>tx_from = replicate 32 1, tx_to = replicate 32 2, tx_amount = 500, tx_fee = 10,
     tx_nonce = 0, tx_signature = replicate 64 7, tx_timestamp = 1000\<rparr>"

definition sample_account :: account where
  "sample_account = account_new 900 (replicate 32 1) 1000"





text \<open>
  What \<open>validate_basic\<close> admits, for clock values and age limits at least 30 seconds below the
  64-bit range: non-zero distinct addresses, a positive amount whose sum with the fee fits,
  a timestamp that is not in the future and not older than the limit, and a signature of 1 to
  5000 bytes. In particular the 30 seconds of clock drift that the first comparison allows are
  never granted: \<open>now - timestamp\<close> wraps for a future timestamp and exceeds the age limit.
\<close>

theorem validate_basic_spec:
  assumes "unat now + 30 < 2 ^ 64" "unat max_age + 30 < 2 ^ 64"
  shows "validate_basic now max_age tx \<longleftrightarrow>
     tx_from tx \<noteq> zero32 \<and> tx_to tx \<noteq> zero32 \<and> tx_from tx \<noteq> tx_to tx \<and>
     0 < unat (tx_amount tx) \<and> unat (tx_amount tx) + unat (tx_fee tx) < 2 ^ 128 \<and>
     unat (tx_timestamp tx) \<le> unat now \<and> unat now - unat (tx_timestamp tx) \<le> unat max_age \<and>
     0 < length (tx_signature tx) \<and> length (tx_signature tx) \<le> 5000"
  using validate_basic_iff [OF assms] by (simp add: word_le_nat_alt)

theorem validate_basic_spec_witness:
  "validate_basic 1200 3600 sample_tx \<and> \<not> validate_basic 990 3600 sample_tx"
  using validate_basic_spec [of 1200 3600 sample_tx] validate_basic_spec [of 990 3600 sample_tx]
  by (simp add: sample_tx_def)

end
