(* ===== verification/Vault_Bridge.thy ===== *)
theory Vault_Bridge
  imports Core_Types
begin

text \<open>
  \<open>src/vault/bridge.rs\<close>: cross-shard bridge transfers. \<open>BridgeManager\<close> keeps every transfer with
  its status, the open transfers of each shard, and two counters; every operation is one
  function here, and \<open>reaper_tick\<close> is one round of the background loop of \<open>BridgeReaper\<close>.
  The locks of an operation are taken in a fixed order and released before it returns, so an
  operation is one step. The step relation \<open>bridge_step\<close> is a client that calls any of them
  (\<open>mark_reverted\<close> only through the reaper), and the life cycle of a transfer, the accounting
  of finalized amounts and the shard lists are invariants of it.
\<close>

type_synonym shard_id = u64

datatype bridge_status = Pending | Locked | Relayed | Finalized | Reverting | Reverted | Expired

record bridge_transaction =
  bt_id :: u64
  bt_sender :: address
  bt_recipient :: address
  bt_amount :: u128
  source_shard :: shard_id
  target_shard :: shard_id
  bt_status :: bridge_status
  created_at :: timestamp
  expires_at :: timestamp
  bt_hash :: hash

definition BRIDGE_TIMEOUT_SECS :: u64 where "BRIDGE_TIMEOUT_SECS = 60"
definition MAX_BRIDGE_AMOUNT :: u128 where "MAX_BRIDGE_AMOUNT = 10000000000000"
definition BRIDGE_FEE_BPS :: u128 where "BRIDGE_FEE_BPS = 10"

fun status_to_string :: "bridge_status \<Rightarrow> string" where
  "status_to_string Pending = ''Pending''"
| "status_to_string Locked = ''Locked''"
| "status_to_string Relayed = ''Relayed''"
| "status_to_string Finalized = ''Finalized''"
| "status_to_string Reverting = ''Reverting''"
| "status_to_string Reverted = ''Reverted''"
| "status_to_string Expired = ''Expired''"

definition bridge_transaction_new ::
    "timestamp \<Rightarrow> u64 \<Rightarrow> address \<Rightarrow> address \<Rightarrow> u128 \<Rightarrow> shard_id \<Rightarrow> shard_id \<Rightarrow> bridge_transaction" where
  "bridge_transaction_new now i sender recipient amount source target =
     \<lparr>bt_id = i, bt_sender = sender, bt_recipient = recipient, bt_amount = amount,
      source_shard = source, target_shard = target, bt_status = Pending, created_at = now,
      expires_at = now + BRIDGE_TIMEOUT_SECS, bt_hash = zero32\<rparr>"

definition bt_is_expired :: "timestamp \<Rightarrow> bridge_transaction \<Rightarrow> bool" where
  "bt_is_expired current_time tx \<longleftrightarrow> current_time > expires_at tx"

definition time_remaining :: "timestamp \<Rightarrow> bridge_transaction \<Rightarrow> u64" where
  "time_remaining current_time tx =
     (if current_time \<ge> expires_at tx then 0 else expires_at tx - current_time)"

definition bridge_calculate_fee :: "bridge_transaction \<Rightarrow> u128" where
  "bridge_calculate_fee tx = (bt_amount tx * BRIDGE_FEE_BPS) div 10000"

record bridge_manager =
  bridges :: "(u64 \<times> bridge_transaction) list"
  pending_by_shard :: "(shard_id \<times> u64 list) list"
  processed :: "(hash \<times> bridge_status) list"
  next_bridge_id :: u64
  total_bridged :: u128
  total_failed :: u64

definition bridge_manager_new :: bridge_manager where
  "bridge_manager_new =
     \<lparr>bridges = [], pending_by_shard = [], processed = [], next_bridge_id = 1,
      total_bridged = 0, total_failed = 0\<rparr>"

text \<open>\<open>entry(shard).or_insert_with(Vec::new).push(id)\<close> and \<open>get_mut(shard)\<close> with \<open>retain\<close>.\<close>

definition push_pending :: "shard_id \<Rightarrow> u64 \<Rightarrow> (shard_id \<times> u64 list) list \<Rightarrow> (shard_id \<times> u64 list) list" where
  "push_pending s i p =
     AList.update s ((case map_of p s of Some l \<Rightarrow> l | None \<Rightarrow> []) @ [i]) p"

definition retain_pending :: "shard_id \<Rightarrow> u64 \<Rightarrow> (shard_id \<times> u64 list) list \<Rightarrow> (shard_id \<times> u64 list) list" where
  "retain_pending s i p =
     (case map_of p s of
        Some l \<Rightarrow> AList.update s (filter (\<lambda>j. j \<noteq> i) l) p
      | None \<Rightarrow> p)"

definition initiate_bridge ::
    "timestamp \<Rightarrow> address \<Rightarrow> address \<Rightarrow> u128 \<Rightarrow> shard_id \<Rightarrow> shard_id \<Rightarrow> bridge_manager \<Rightarrow>
     bridge_transaction pacyte_result \<times> bridge_manager" where
  "initiate_bridge now sender recipient amount source target m =
     (if amount > MAX_BRIDGE_AMOUNT then (Inl (BridgeAmountTooLarge amount MAX_BRIDGE_AMOUNT), m)
      else if source = target then (Inl SameShardTransfer, m)
      else
        let i = next_bridge_id m;
            tx = bridge_transaction_new now i sender recipient amount source target
        in (Inr tx,
            m\<lparr>next_bridge_id := i + 1, bridges := AList.update i tx (bridges m),
              pending_by_shard := push_pending source i (pending_by_shard m)\<rparr>))"

text \<open>The common opening of the operations on one transfer.\<close>

definition with_bridge ::
    "u64 \<Rightarrow> (bridge_transaction \<Rightarrow> bridge_manager \<Rightarrow> unit pacyte_result \<times> bridge_manager) \<Rightarrow>
     bridge_manager \<Rightarrow> unit pacyte_result \<times> bridge_manager" where
  "with_bridge i f m =
     (case map_of (bridges m) i of None \<Rightarrow> (Inl (BridgeNotFound i), m) | Some tx \<Rightarrow> f tx m)"

definition set_status :: "u64 \<Rightarrow> bridge_status \<Rightarrow> bridge_transaction \<Rightarrow> bridge_manager \<Rightarrow> bridge_manager" where
  "set_status i st tx m = m\<lparr>bridges := AList.update i (tx\<lparr>bt_status := st\<rparr>) (bridges m)\<rparr>"

definition lock_bridge :: "u64 \<Rightarrow> bridge_manager \<Rightarrow> unit pacyte_result \<times> bridge_manager" where
  "lock_bridge i = with_bridge i (\<lambda>tx m.
     if bt_status tx \<noteq> Pending
     then (Inl (InvalidBridgeStatus (status_to_string Pending) (status_to_string (bt_status tx))), m)
     else (Inr (), set_status i Locked tx m))"

definition relay_bridge :: "u64 \<Rightarrow> bridge_manager \<Rightarrow> unit pacyte_result \<times> bridge_manager" where
  "relay_bridge i = with_bridge i (\<lambda>tx m.
     if bt_status tx \<noteq> Locked
     then (Inl (InvalidBridgeStatus (status_to_string Locked) (status_to_string (bt_status tx))), m)
     else (Inr (), (set_status i Relayed tx m)
            \<lparr>pending_by_shard :=
               push_pending (target_shard tx) i (retain_pending (source_shard tx) i (pending_by_shard m))\<rparr>))"

definition finalize_bridge :: "u64 \<Rightarrow> bridge_manager \<Rightarrow> unit pacyte_result \<times> bridge_manager" where
  "finalize_bridge i = with_bridge i (\<lambda>tx m.
     if bt_status tx \<noteq> Relayed
     then (Inl (InvalidBridgeStatus (status_to_string Relayed) (status_to_string (bt_status tx))), m)
     else (Inr (), (set_status i Finalized tx m)
            \<lparr>total_bridged := total_bridged m + bt_amount tx,
             processed := AList.update (bt_hash tx) Finalized (processed m),
             pending_by_shard := retain_pending (target_shard tx) i (pending_by_shard m)\<rparr>))"

definition revert_bridge :: "u64 \<Rightarrow> bridge_manager \<Rightarrow> unit pacyte_result \<times> bridge_manager" where
  "revert_bridge i = with_bridge i (\<lambda>tx m.
     if bt_status tx = Finalized then (Inl BridgeAlreadyFinalized, m)
     else (Inr (), set_status i Reverting tx m))"

definition mark_reverted :: "u64 \<Rightarrow> bridge_manager \<Rightarrow> unit pacyte_result \<times> bridge_manager" where
  "mark_reverted i = with_bridge i (\<lambda>tx m.
     (Inr (), (set_status i Reverted tx m)
       \<lparr>total_failed := total_failed m + 1,
        pending_by_shard := map (\<lambda>(s, l). (s, filter (\<lambda>j. j \<noteq> i) l)) (pending_by_shard m)\<rparr>))"

definition find_expired_bridges :: "timestamp \<Rightarrow> bridge_manager \<Rightarrow> u64 list" where
  "find_expired_bridges current_time m =
     map fst (filter (\<lambda>(_, tx). bt_status tx \<noteq> Finalized \<and> bt_status tx \<noteq> Reverted \<and>
                                bt_is_expired current_time tx) (bridges m))"

definition get_bridge :: "u64 \<Rightarrow> bridge_manager \<Rightarrow> bridge_transaction option" where
  "get_bridge i m = map_of (bridges m) i"

definition get_pending_for_shard :: "shard_id \<Rightarrow> bridge_manager \<Rightarrow> bridge_transaction list" where
  "get_pending_for_shard s m =
     (case map_of (pending_by_shard m) s of
        Some ids \<Rightarrow> List.map_filter (\<lambda>i. map_of (bridges m) i) ids
      | None \<Rightarrow> [])"

definition get_all_pending :: "bridge_manager \<Rightarrow> bridge_transaction list" where
  "get_all_pending m =
     filter (\<lambda>tx. bt_status tx = Pending \<or> bt_status tx = Locked \<or> bt_status tx = Relayed)
       (map snd (bridges m))"

record bridge_stats =
  total_bridges :: u64
  stat_pending :: u64
  stat_locked :: u64
  stat_relayed :: u64
  stat_finalized :: u64
  stat_reverted :: u64
  stat_total_bridged :: u128
  stat_total_failed :: u64

definition count_status :: "(bridge_status \<Rightarrow> bool) \<Rightarrow> bridge_manager \<Rightarrow> u64" where
  "count_status P m = fold (\<lambda>(_, tx) n. if P (bt_status tx) then n + 1 else n) (bridges m) 0"

definition bridge_manager_stats :: "bridge_manager \<Rightarrow> bridge_stats" where
  "bridge_manager_stats m =
     \<lparr>total_bridges = of_nat (length (bridges m)), stat_pending = count_status (\<lambda>st. st = Pending) m,
      stat_locked = count_status (\<lambda>st. st = Locked) m, stat_relayed = count_status (\<lambda>st. st = Relayed) m,
      stat_finalized = count_status (\<lambda>st. st = Finalized) m,
      stat_reverted = count_status (\<lambda>st. st = Reverting \<or> st = Reverted) m,
      stat_total_bridged = total_bridged m, stat_total_failed = total_failed m\<rparr>"

text \<open>One round of the reaper: \<open>revert_bridge\<close> and, when it succeeds, \<open>mark_reverted\<close>.\<close>

definition reap :: "u64 \<Rightarrow> bridge_manager \<Rightarrow> bridge_manager" where
  "reap i m = (case revert_bridge i m of (Inl _, m') \<Rightarrow> m' | (Inr _, m') \<Rightarrow> snd (mark_reverted i m'))"

definition reaper_tick :: "timestamp \<Rightarrow> bridge_manager \<Rightarrow> bridge_manager" where
  "reaper_tick now m = fold reap (find_expired_bridges now m) m"

section \<open>Clients, and what every sequence of calls keeps\<close>

inductive bridge_step :: "bridge_manager \<Rightarrow> bridge_manager \<Rightarrow> bool" where
  initiate: "bridge_step m (snd (initiate_bridge now sender recipient amount source target m))"
| lock: "bridge_step m (snd (lock_bridge i m))"
| relay: "bridge_step m (snd (relay_bridge i m))"
| finalize: "bridge_step m (snd (finalize_bridge i m))"
| revert: "bridge_step m (snd (revert_bridge i m))"
| reaper: "bridge_step m (reaper_tick now m)"

inductive bridge_reachable :: "bridge_manager \<Rightarrow> bool" where
  start: "bridge_reachable bridge_manager_new"
| step: "bridge_reachable m \<Longrightarrow> bridge_step m m' \<Longrightarrow> bridge_reachable m'"

definition pend :: "bridge_manager \<Rightarrow> shard_id \<Rightarrow> u64 list" where
  "pend m s = (case map_of (pending_by_shard m) s of Some l \<Rightarrow> l | None \<Rightarrow> [])"

text \<open>Where an open transfer is listed, and where it may still be listed while it is reverted.\<close>

definition must_list :: "bridge_transaction \<Rightarrow> shard_id \<Rightarrow> bool" where
  "must_list tx s \<longleftrightarrow> (bt_status tx \<in> {Pending, Locked} \<and> s = source_shard tx) \<or>
                     (bt_status tx = Relayed \<and> s = target_shard tx)"

definition may_list :: "bridge_transaction \<Rightarrow> shard_id \<Rightarrow> bool" where
  "may_list tx s \<longleftrightarrow> must_list tx s \<or> (bt_status tx = Reverting \<and> s \<in> {source_shard tx, target_shard tx})"

definition finalized_amount :: "bridge_transaction \<Rightarrow> nat" where
  "finalized_amount tx = (if bt_status tx = Finalized then unat (bt_amount tx) else 0)"

definition bridge_inv :: "bridge_manager \<Rightarrow> bool" where
  "bridge_inv m \<longleftrightarrow>
     wf_map (bridges m) \<and> unat (next_bridge_id m) = length (bridges m) + 1 \<and>
     (\<forall>i tx. map_of (bridges m) i = Some tx \<longrightarrow>
        i < next_bridge_id m \<and> bt_id tx = i \<and> bt_amount tx \<le> MAX_BRIDGE_AMOUNT \<and>
        source_shard tx \<noteq> target_shard tx \<and> (\<forall>s. must_list tx s \<longrightarrow> i \<in> set (pend m s))) \<and>
     (\<forall>s i. i \<in> set (pend m s) \<longrightarrow> (\<exists>tx. map_of (bridges m) i = Some tx \<and> may_list tx s)) \<and>
     total_bridged m = of_nat (alist_sum finalized_amount (bridges m))"

lemma pend_push [simp]:
  "pend (m\<lparr>pending_by_shard := push_pending s i p\<rparr>) s' =
     (if s' = s then pend (m\<lparr>pending_by_shard := p\<rparr>) s @ [i] else pend (m\<lparr>pending_by_shard := p\<rparr>) s')"
  by (simp add: pend_def push_pending_def)

lemma pend_retain [simp]:
  "pend (m\<lparr>pending_by_shard := retain_pending s i p\<rparr>) s' =
     (if s' = s then filter (\<lambda>j. j \<noteq> i) (pend (m\<lparr>pending_by_shard := p\<rparr>) s)
      else pend (m\<lparr>pending_by_shard := p\<rparr>) s')"
  by (auto simp: pend_def retain_pending_def split: option.splits)

lemma map_of_map_snd: "map_of (map (\<lambda>(k, v). (k, f v)) al) k = map_option f (map_of al k)"
  by (induction al) auto

lemma pend_filter_all [simp]:
  "pend (m\<lparr>pending_by_shard := map (\<lambda>(s, l). (s, filter P l)) p\<rparr>) s' =
     filter P (pend (m\<lparr>pending_by_shard := p\<rparr>) s')"
  by (auto simp: pend_def map_of_map_snd split: option.splits)

lemma pend_frame [simp]:
  "pend (m\<lparr>bridges := b\<rparr>) = pend m" "pend (m\<lparr>next_bridge_id := n\<rparr>) = pend m"
  "pend (m\<lparr>total_bridged := t\<rparr>) = pend m" "pend (m\<lparr>total_failed := f\<rparr>) = pend m"
  "pend (m\<lparr>processed := q\<rparr>) = pend m"
  by (simp_all add: pend_def fun_eq_iff)

lemma length_update_existing: "map_of al k = Some v0 \<Longrightarrow> length (AList.update k v al) = length al"
  by (induction al) (auto split: if_splits)

lemma bridge_inv_new: "bridge_inv bridge_manager_new"
  by (simp add: bridge_inv_def bridge_manager_new_def pend_def)

lemma pend_copy [simp]: "pend (m\<lparr>pending_by_shard := pending_by_shard m'\<rparr>) = pend m'"
  by (simp add: pend_def fun_eq_iff)

lemma bridge_inv_status:
  assumes inv: "bridge_inv m" and i: "map_of (bridges m) i = Some tx"
    and m': "bridges m' = AList.update i (tx\<lparr>bt_status := st\<rparr>) (bridges m)" "next_bridge_id m' = next_bridge_id m"
    and others: "\<And>s j. j \<noteq> i \<Longrightarrow> j \<in> set (pend m' s) \<longleftrightarrow> j \<in> set (pend m s)"
    and must: "\<And>s. must_list (tx\<lparr>bt_status := st\<rparr>) s \<Longrightarrow> i \<in> set (pend m' s)"
    and may: "\<And>s. i \<in> set (pend m' s) \<Longrightarrow> may_list (tx\<lparr>bt_status := st\<rparr>) s"
    and tot: "total_bridged m' + of_nat (finalized_amount tx) =
              total_bridged m + of_nat (finalized_amount (tx\<lparr>bt_status := st\<rparr>))"
  shows "bridge_inv m'"
proof -
  let ?tx = "tx\<lparr>bt_status := st\<rparr>"
  have "(of_nat (alist_sum finalized_amount (bridges m')) + of_nat (finalized_amount tx) :: u128) =
        of_nat (alist_sum finalized_amount (bridges m)) + of_nat (finalized_amount ?tx)"
    using alist_sum_update_Some [OF i, of finalized_amount ?tx] by (simp add: m' flip: of_nat_add)
  then have "total_bridged m' = of_nat (alist_sum finalized_amount (bridges m'))"
    using tot inv by (simp add: bridge_inv_def) (metis add_right_cancel)
  moreover have "(\<forall>j tx'. map_of (bridges m') j = Some tx' \<longrightarrow>
        j < next_bridge_id m' \<and> bt_id tx' = j \<and> bt_amount tx' \<le> MAX_BRIDGE_AMOUNT \<and>
        source_shard tx' \<noteq> target_shard tx' \<and> (\<forall>s. must_list tx' s \<longrightarrow> j \<in> set (pend m' s)))"
    using inv i must others by (auto simp: bridge_inv_def m')
  moreover have "\<forall>s j. j \<in> set (pend m' s) \<longrightarrow> (\<exists>tx'. map_of (bridges m') j = Some tx' \<and> may_list tx' s)"
    using inv may others by (auto simp: bridge_inv_def m')
  moreover have "wf_map (bridges m')" "unat (next_bridge_id m') = length (bridges m') + 1"
    using inv i by (simp_all add: bridge_inv_def m' length_update_existing)
  ultimately show ?thesis by (simp only: bridge_inv_def)
qed

lemma bridge_inv_at:
  assumes "bridge_inv m" "map_of (bridges m) i = Some tx"
  shows "source_shard tx \<noteq> target_shard tx" "\<forall>s. must_list tx s \<longrightarrow> i \<in> set (pend m s)"
    "\<forall>s. \<not> may_list tx s \<longrightarrow> i \<notin> set (pend m s)"
  using assms unfolding bridge_inv_def by (blast, blast, metis option.inject)

lemmas bridge_ops = lock_bridge_def relay_bridge_def finalize_bridge_def revert_bridge_def mark_reverted_def
  with_bridge_def set_status_def

lemma lock_inv [keeps_inv]: "bridge_inv m \<Longrightarrow> bridge_inv (snd (lock_bridge i m))"
proof (cases "map_of (bridges m) i")
  case (Some tx)
  assume inv: "bridge_inv m"
  note at = bridge_inv_at [OF inv Some]
  show ?thesis
  proof (cases "bt_status tx = Pending")
    case True
    then have "bridge_inv (set_status i Locked tx m)"
      using at by (intro bridge_inv_status [OF inv Some, where st = Locked])
        (auto simp: set_status_def must_list_def may_list_def finalized_amount_def)
    with True Some show ?thesis by (simp add: lock_bridge_def with_bridge_def)
  qed (use inv Some in \<open>simp add: lock_bridge_def with_bridge_def\<close>)
qed (simp add: lock_bridge_def with_bridge_def)

lemma relay_inv [keeps_inv]: "bridge_inv m \<Longrightarrow> bridge_inv (snd (relay_bridge i m))"
proof (cases "map_of (bridges m) i")
  case (Some tx)
  assume inv: "bridge_inv m"
  note at = bridge_inv_at [OF inv Some]
  show ?thesis
  proof (cases "bt_status tx = Locked")
    case True
    then have "bridge_inv (snd (relay_bridge i m))"
      using at Some by (intro bridge_inv_status [OF inv Some, where st = Relayed])
        (auto simp: relay_bridge_def with_bridge_def set_status_def must_list_def may_list_def finalized_amount_def
          split: if_splits)
    then show ?thesis .
  qed (use inv Some in \<open>simp add: relay_bridge_def with_bridge_def\<close>)
qed (simp add: relay_bridge_def with_bridge_def)

lemma finalize_inv [keeps_inv]: "bridge_inv m \<Longrightarrow> bridge_inv (snd (finalize_bridge i m))"
proof (cases "map_of (bridges m) i")
  case (Some tx)
  assume inv: "bridge_inv m"
  note at = bridge_inv_at [OF inv Some]
  show ?thesis
  proof (cases "bt_status tx = Relayed")
    case True
    then show ?thesis
      using at Some by (intro bridge_inv_status [OF inv Some, where st = Finalized])
        (auto simp: finalize_bridge_def with_bridge_def set_status_def must_list_def may_list_def finalized_amount_def
          split: if_splits)
  qed (use inv Some in \<open>simp add: finalize_bridge_def with_bridge_def\<close>)
qed (simp add: finalize_bridge_def with_bridge_def)

lemma revert_inv [keeps_inv]: "bridge_inv m \<Longrightarrow> bridge_inv (snd (revert_bridge i m))"
proof (cases "map_of (bridges m) i")
  case (Some tx)
  assume inv: "bridge_inv m"
  note at = bridge_inv_at [OF inv Some]
  show ?thesis
  proof (cases "bt_status tx = Finalized")
    case False
    then show ?thesis
      using at Some by (intro bridge_inv_status [OF inv Some, where st = Reverting])
        (auto simp: revert_bridge_def with_bridge_def set_status_def must_list_def may_list_def finalized_amount_def)
  qed (use inv Some in \<open>simp add: revert_bridge_def with_bridge_def\<close>)
qed (simp add: revert_bridge_def with_bridge_def)

lemma reap_inv [keeps_inv]: "bridge_inv m \<Longrightarrow> bridge_inv (reap i m)"
proof (cases "map_of (bridges m) i")
  case (Some tx)
  assume inv: "bridge_inv m"
  note at = bridge_inv_at [OF inv Some]
  show ?thesis
  proof (cases "bt_status tx = Finalized")
    case False
    then show ?thesis
      using at Some by (intro bridge_inv_status [OF inv Some, where st = Reverted])
        (auto simp: reap_def bridge_ops must_list_def may_list_def finalized_amount_def)
  qed (use inv Some in \<open>simp add: reap_def bridge_ops\<close>)
qed (simp add: reap_def bridge_ops)

lemma tick_inv [keeps_inv]: "bridge_inv m \<Longrightarrow> bridge_inv (reaper_tick now m)"
proof -
  have "bridge_inv m \<Longrightarrow> bridge_inv (fold reap is m)" for "is"
    by (induction "is" arbitrary: m) (auto intro: reap_inv)
  then show "bridge_inv m \<Longrightarrow> ?thesis" by (simp add: reaper_tick_def)
qed

lemma initiate_inv:
  assumes inv: "bridge_inv m" and room: "length (bridges (snd (initiate_bridge now a b amount s t m))) < 2 ^ 64 - 1"
  shows "bridge_inv (snd (initiate_bridge now a b amount s t m))"
proof (cases "amount > MAX_BRIDGE_AMOUNT \<or> s = t")
  case True
  with inv show ?thesis by (auto simp: initiate_bridge_def)
next
  case False
  let ?i = "next_bridge_id m" and ?tx = "bridge_transaction_new now (next_bridge_id m) a b amount s t"
  let ?m = "m\<lparr>next_bridge_id := ?i + 1, bridges := AList.update ?i ?tx (bridges m),
              pending_by_shard := push_pending s ?i (pending_by_shard m)\<rparr>"
  have eq: "snd (initiate_bridge now a b amount s t m) = ?m"
    using False by (simp add: initiate_bridge_def Let_def)
  have fresh: "map_of (bridges m) ?i = None"
    using inv by (metis bridge_inv_def not_None_eq order_less_irrefl)
  have nopend: "?i \<notin> set (pend m s')" for s'
    using inv fresh by (force simp: bridge_inv_def)
  have upd: "AList.update ?i ?tx (bridges m) = bridges m @ [(?i, ?tx)]"
    by (rule update_fresh [OF fresh])
  have len: "length (bridges m) + 2 < 2 ^ 64"
    using room by (simp add: eq upd)
  then have n: "unat (?i + 1) = unat ?i + 1"
    using inv by (subst unat_add_no_overflow) (auto simp: bridge_inv_def)
  have less: "j < ?i \<Longrightarrow> j < ?i + 1" "?i < ?i + 1" for j
    using n by (simp_all add: word_less_nat_alt)
  have tx: "finalized_amount ?tx = 0" "bt_id ?tx = ?i" "bt_amount ?tx = amount" "source_shard ?tx = s"
    "target_shard ?tx = t" "must_list ?tx s' \<longleftrightarrow> s' = s" for s'
    by (simp_all add: bridge_transaction_new_def finalized_amount_def must_list_def)
  have c1: "j < next_bridge_id ?m \<and> bt_id tx = j \<and> bt_amount tx \<le> MAX_BRIDGE_AMOUNT \<and> source_shard tx \<noteq> target_shard tx \<and>
      (\<forall>s. must_list tx s \<longrightarrow> j \<in> set (pend ?m s))"
    if "map_of (bridges ?m) j = Some tx" for j tx
  proof (cases "j = ?i")
    case True
    with that False less show ?thesis by (auto simp: tx not_less)
  next
    case False
    with that have old: "map_of (bridges m) j = Some tx" by simp
    then have "j < ?i" using inv by (simp add: bridge_inv_def)
    then show ?thesis using inv old less(1) [of j] by (auto simp: bridge_inv_def)
  qed
  have c2: "\<exists>tx. map_of (bridges ?m) j = Some tx \<and> may_list tx s'" if "j \<in> set (pend ?m s')" for j s'
    using that inv nopend [of s'] by (auto simp: bridge_inv_def may_list_def tx split: if_splits)
  have "wf_map (bridges ?m)" "unat (next_bridge_id ?m) = length (bridges ?m) + 1"
    using inv upd n fresh by (simp_all add: bridge_inv_def map_of_eq_None_iff)
  moreover have "total_bridged ?m = of_nat (alist_sum finalized_amount (bridges ?m))"
    using inv by (simp add: upd tx(1) bridge_inv_def)
  ultimately show ?thesis
    unfolding eq bridge_inv_def using c1 c2 by blast
qed

lemma reap_length: "length (bridges (reap i m)) = length (bridges m)"
  by (auto simp: reap_def bridge_ops length_update_existing split: option.splits)

lemma length_update_ge: "length al \<le> length (AList.update k v al)"
  by (induction al) auto

lemma step_length: "bridge_step m m' \<Longrightarrow> length (bridges m) \<le> length (bridges m')"
proof (induction rule: bridge_step.induct)
  case (reaper m now)
  have "length (bridges (fold reap is m)) = length (bridges m)" for "is" m
    by (induction "is" arbitrary: m) (simp_all add: reap_length)
  then show ?case by (simp add: reaper_tick_def)
qed (auto simp: initiate_bridge_def bridge_ops Let_def length_update_ge length_update_existing split: option.splits)

lemma step_inv:
  assumes "bridge_step m m'" "bridge_inv m" "length (bridges m') < 2 ^ 64 - 1"
  shows "bridge_inv m'"
  using assms by cases (auto intro: keeps_inv initiate_inv)

lemma reachable_inv: "bridge_reachable m \<Longrightarrow> length (bridges m) < 2 ^ 64 - 1 \<Longrightarrow> bridge_inv m"
proof (induction rule: bridge_reachable.induct)
  case start
  show ?case by (rule bridge_inv_new)
next
  case (step m m')
  then show ?case using step_inv step_length by fastforce
qed

text \<open>Finalized amounts are bounded by the cap per transfer, so their sum never wraps.\<close>

lemma finalized_sum_le:
  assumes "\<forall>(i, tx) \<in> set al. bt_amount tx \<le> MAX_BRIDGE_AMOUNT"
  shows "alist_sum finalized_amount al \<le> length al * 10000000000000"
  using assms
proof (induction al)
  case (Cons p al)
  then have "finalized_amount (snd p) \<le> 10000000000000"
    by (auto simp: finalized_amount_def MAX_BRIDGE_AMOUNT_def word_le_nat_alt)
  with Cons show ?case by simp
qed simp

lemma inv_total:
  assumes "bridge_inv m" "length (bridges m) < 2 ^ 64 - 1"
  shows "unat (total_bridged m) = alist_sum finalized_amount (bridges m)"
proof -
  have "alist_sum finalized_amount (bridges m) \<le> length (bridges m) * 10000000000000"
    using assms(1) by (intro finalized_sum_le) (auto simp: bridge_inv_def dest!: map_of_is_SomeI [rotated])
  then have "alist_sum finalized_amount (bridges m) < 2 ^ 128"
    using assms(2) by simp
  then show ?thesis
    using assms(1) by (simp add: bridge_inv_def unat_of_nat)
qed

section \<open>Properties of the bridge\<close>

text \<open>What the reaper makes of a transfer it handles.\<close>

definition reaped :: "bridge_transaction \<Rightarrow> bridge_transaction" where
  "reaped tx = (if bt_status tx = Finalized then tx else tx\<lparr>bt_status := Reverted\<rparr>)"

lemma get_bridge_reap: "get_bridge i (reap j m) = (if i = j then map_option reaped (get_bridge i m) else get_bridge i m)"
  by (auto simp: reap_def bridge_ops get_bridge_def reaped_def split: option.splits)

lemma get_bridge_fold_reap:
  "get_bridge i (fold reap is m) = (if i \<in> set is then map_option reaped (get_bridge i m) else get_bridge i m)"
proof (induction "is" arbitrary: m)
  case (Cons j js)
  have "reaped \<circ> reaped = reaped" by (auto simp: reaped_def)
  with Cons show ?case by (auto simp: get_bridge_reap option.map_comp)
qed simp

lemma fold_reap_wf: "wf_map (bridges m) \<Longrightarrow> wf_map (bridges (fold reap is m))"
proof (induction "is" arbitrary: m)
  case (Cons j js)
  have "wf_map (bridges (reap j m))"
    using Cons.prems by (auto simp: reap_def bridge_ops split: option.splits)
  with Cons.IH show ?case by simp
qed simp

lemma in_find_expired:
  "wf_map (bridges m) \<Longrightarrow> i \<in> set (find_expired_bridges now m) \<longleftrightarrow>
     (\<exists>tx. get_bridge i m = Some tx \<and> bt_status tx \<noteq> Finalized \<and> bt_status tx \<noteq> Reverted \<and> bt_is_expired now tx)"
  by (force simp: find_expired_bridges_def get_bridge_def map_of_eq_Some_iff)


definition sample_bridge :: bridge_manager where
  "sample_bridge = snd (finalize_bridge 1 (snd (relay_bridge 1 (snd (lock_bridge 1
     (snd (initiate_bridge 1000 [1] [2] 500 0 1 bridge_manager_new)))))))"

lemma sample_bridge_reachable: "bridge_reachable sample_bridge"
  unfolding sample_bridge_def
  by (rule bridge_reachable.step [OF bridge_reachable.step [OF bridge_reachable.step
      [OF bridge_reachable.step [OF start initiate] lock] relay] finalize])

lemma sample_bridge_eq:
  "bridges sample_bridge = [(1, (bridge_transaction_new 1000 1 [1] [2] 500 0 1)\<lparr>bt_status := Finalized\<rparr>)]"
  "total_bridged sample_bridge = 500"
  by (simp_all add: sample_bridge_def initiate_bridge_def bridge_ops bridge_manager_new_def Let_def
      MAX_BRIDGE_AMOUNT_def bridge_transaction_new_def)






text \<open>
  \<open>mark_reverted\<close> has no guard: called on a finalized transfer it succeeds, the transfer is
  Reverted and counted as failed while its amount stays in \<open>total_bridged\<close>.
\<close>

theorem mark_reverted_unguarded:
  assumes "get_bridge i m = Some tx" "bt_status tx = Finalized"
  shows "fst (mark_reverted i m) = Inr () \<and>
     get_bridge i (snd (mark_reverted i m)) = Some (tx\<lparr>bt_status := Reverted\<rparr>) \<and>
     total_failed (snd (mark_reverted i m)) = total_failed m + 1 \<and>
     total_bridged (snd (mark_reverted i m)) = total_bridged m"
  using assms by (simp add: bridge_ops get_bridge_def)

theorem mark_reverted_unguarded_witness:
  "bridge_reachable sample_bridge \<and> total_bridged (snd (mark_reverted 1 sample_bridge)) = 500 \<and>
   map_option bt_status (get_bridge 1 (snd (mark_reverted 1 sample_bridge))) = Some Reverted"
  using mark_reverted_unguarded [of 1 sample_bridge
      "(bridge_transaction_new 1000 1 [1] [2] 500 0 1)\<lparr>bt_status := Finalized\<rparr>"]
  by (simp add: sample_bridge_reachable sample_bridge_eq get_bridge_def)

end
