(* ===== verification/Pacyte_Float.thy ===== *)
theory Pacyte_Float
  imports Pacyte_Prelude
begin

text \<open>
  The part of \<open>f64\<close> that the fee and supply code uses. A finite double is the rational it
  denotes; every operation is the exact operation followed by \<open>rnd\<close>, rounding to the nearest
  rational with a 53-bit significand, ties to even, as IEEE 754 prescribes for results in the
  range of normal numbers. The exponent is not bounded: the values rounded in the model are 0 or
  lie between \<open>2 ^ (-200)\<close> and \<open>2 ^ 200\<close>, where binary64 neither overflows nor becomes subnormal,
  and infinities and NaN do not arise (the powers of the pacemaker excepted, see \<open>Consensus_Rounds\<close>). The casts are Rust's: an integer is rounded to the nearest
  double, and a double is truncated and saturates at the bounds of the integer type.
\<close>

type_synonym f64 = rat

fun bit_length :: "nat \<Rightarrow> nat" where
  "bit_length n = (if n = 0 then 0 else Suc (bit_length (n div 2)))"

declare bit_length.simps [simp del]

lemma bit_length_less: "n < 2 ^ bit_length n"
proof (induction n rule: bit_length.induct)
  case (1 n)
  then show ?case by (cases "n = 0") (auto simp: bit_length.simps [of n])
qed

lemma bit_length_le: "n \<noteq> 0 \<Longrightarrow> 2 ^ (bit_length n - 1) \<le> n"
proof (induction n rule: bit_length.induct)
  case (1 n)
  show ?case
  proof (cases "n div 2 = 0")
    case True
    with 1 show ?thesis by (simp add: bit_length.simps [of n] bit_length.simps [of 0])
  next
    case False
    then have "2 ^ (bit_length (n div 2) - 1) \<le> n div 2" using 1 by simp
    moreover have "bit_length (n div 2) \<noteq> 0" using False by (subst bit_length.simps) simp
    ultimately show ?thesis
      using 1 by (cases "bit_length (n div 2)") (auto simp: bit_length.simps [of n])
  qed
qed

text \<open>The exponent of a positive rational: \<open>2 powi ilog2 x \<le> x < 2 powi (ilog2 x + 1)\<close>.\<close>

definition ilog2 :: "rat \<Rightarrow> int" where
  "ilog2 x =
     (let (n, d) = quotient_of x;
          k = int (bit_length (nat n)) - int (bit_length (nat d))
      in if x < 2 powi k then k - 1 else k)"

definition round_even :: "rat \<Rightarrow> int" where
  "round_even y =
     (let f = \<lfloor>y\<rfloor>; r = y - of_int f
      in if r < 1 / 2 then f else if r > 1 / 2 then f + 1 else if even f then f else f + 1)"

definition rnd_pos :: "rat \<Rightarrow> f64" where
  "rnd_pos x = (let e = ilog2 x - 52 in of_int (round_even (x / 2 powi e)) * 2 powi e)"

definition rnd :: "rat \<Rightarrow> f64" where
  "rnd x = (if x = 0 then 0 else if x < 0 then - rnd_pos (- x) else rnd_pos x)"

definition fl_add :: "f64 \<Rightarrow> f64 \<Rightarrow> f64" where "fl_add x y = rnd (x + y)"
definition fl_sub :: "f64 \<Rightarrow> f64 \<Rightarrow> f64" where "fl_sub x y = rnd (x - y)"
definition fl_mul :: "f64 \<Rightarrow> f64 \<Rightarrow> f64" where "fl_mul x y = rnd (x * y)"
definition fl_div :: "f64 \<Rightarrow> f64 \<Rightarrow> f64" where "fl_div x y = rnd (x / y)"

definition f64_of_word :: "'a::len word \<Rightarrow> f64" where
  "f64_of_word w = rnd (of_nat (unat w))"

definition word_of_f64 :: "f64 \<Rightarrow> 'a::len word" where
  "word_of_f64 x = (if x \<le> 0 then 0 else if x \<ge> 2 ^ LENGTH('a) then - 1 else of_nat (nat \<lfloor>x\<rfloor>))"

text \<open>A factor that may be the result of a division by zero.\<close>

datatype factor = Finite f64 | Infinite | NotANumber

definition congestion_factor :: "nat \<Rightarrow> nat \<Rightarrow> f64 \<Rightarrow> factor" where
  "congestion_factor mempool_size max_mempool k =
     (if max_mempool = 0 then (if mempool_size = 0 then NotANumber else Infinite)
      else Finite (fl_add 1 (fl_mul (fl_div (rnd (of_nat mempool_size)) (rnd (of_nat max_mempool))) k)))"

text \<open>\<open>(fee as f64 * factor) as u128\<close>: the cast saturates, and NaN becomes zero.\<close>

definition scale_fee :: "u128 \<Rightarrow> factor \<Rightarrow> u128" where
  "scale_fee fee f =
     (case f of
        Finite x \<Rightarrow> word_of_f64 (fl_mul (f64_of_word fee) x)
      | Infinite \<Rightarrow> if fee = 0 then 0 else - 1
      | NotANumber \<Rightarrow> 0)"

section \<open>Error of one rounding\<close>

definition half_ulp :: rat where "half_ulp = 1 / 2 ^ 53"

lemma round_even_error: "\<bar>of_int (round_even y) - y\<bar> \<le> 1 / 2"
proof -
  have "of_int \<lfloor>y\<rfloor> \<le> y" "y < of_int \<lfloor>y\<rfloor> + 1" by linarith+
  then show ?thesis by (auto simp: round_even_def Let_def abs_le_iff algebra_simps)
qed

lemma ilog2_le:
  assumes "0 < x" shows "2 powi ilog2 x \<le> x"
proof -
  obtain n d where nd: "quotient_of x = (n, d)" by fastforce
  have d: "d > 0" using nd quotient_of_denom_pos by blast
  have x: "x = of_int n / of_int d" using nd by (rule quotient_of_div)
  have n: "n > 0" using assms d by (simp add: x zero_less_divide_iff)
  define b c where "b = bit_length (nat n)" and "c = bit_length (nat d)"
  have "b \<noteq> 0" using n by (simp add: b_def bit_length.simps)
  have "(2::rat) ^ (b - 1) \<le> of_int n"
    using bit_length_le [of "nat n"] n
    by (metis b_def nat_0_iff not_le of_nat_le_iff of_nat_nat of_int_of_nat_eq of_nat_numeral of_nat_power less_imp_le)
  moreover have "of_int d < (2::rat) ^ c"
    using bit_length_less [of "nat d"] d
    by (metis c_def of_nat_less_iff of_nat_nat of_int_of_nat_eq of_nat_numeral of_nat_power less_imp_le)
  ultimately have "(2::rat) ^ (b - 1) / 2 ^ c \<le> x"
    unfolding x using d n by (intro frac_le) auto
  moreover have "(2::rat) ^ (b - 1) / 2 ^ c = 2 powi (int b - int c - 1)"
    using \<open>b \<noteq> 0\<close> by (cases b) (simp_all add: power_int_diff)
  ultimately have "2 powi (int b - int c - 1) \<le> x" by simp
  then show ?thesis
    by (auto simp: ilog2_def nd b_def c_def Let_def)
qed

lemma rnd_error: "\<bar>rnd x - x\<bar> \<le> half_ulp * \<bar>x\<bar>"
proof -
  have pos: "\<bar>rnd_pos x - x\<bar> \<le> half_ulp * x" if "0 < x" for x
  proof -
    let ?e = "ilog2 x - 52"
    let ?u = "2 powi ?e :: rat" and ?k = "of_int (round_even (x / 2 powi (ilog2 x - 52))) :: rat"
    have u: "0 < ?u" by simp
    have "rnd_pos x - x = (?k - x / ?u) * ?u"
      using u by (simp add: rnd_pos_def Let_def left_diff_distrib)
    then have "\<bar>rnd_pos x - x\<bar> = \<bar>?k - x / ?u\<bar> * ?u"
      using u by (simp add: abs_mult)
    also have "\<dots> \<le> 1 / 2 * 2 powi ?e"
      by (intro mult_right_mono round_even_error) simp
    also have "\<dots> = half_ulp * 2 powi (ilog2 x)"
      by (simp add: half_ulp_def power_int_diff)
    also have "\<dots> \<le> half_ulp * x"
      using ilog2_le [OF that] by (simp add: half_ulp_def)
    finally show ?thesis .
  qed
  show ?thesis
    using pos [of x] pos [of "- x"] by (cases x "0::rat" rule: linorder_cases) (auto simp: rnd_def)
qed

lemma rnd_le: "0 \<le> x \<Longrightarrow> rnd x \<le> x * (1 + half_ulp)"
  using rnd_error [of x] by (simp add: algebra_simps abs_le_iff)

lemma rnd_ge: "0 \<le> x \<Longrightarrow> x * (1 - half_ulp) \<le> rnd x"
  using rnd_error [of x] by (simp add: algebra_simps abs_le_iff)

lemma rnd_nonneg: "0 \<le> x \<Longrightarrow> 0 \<le> rnd x"
proof -
  assume "0 \<le> x"
  then have "0 \<le> x * (1 - half_ulp)" by (simp add: half_ulp_def)
  with rnd_ge [OF \<open>0 \<le> x\<close>] show ?thesis by linarith
qed

lemma unat_word_of_f64: "unat (word_of_f64 x :: 'a::len word) = min (2 ^ LENGTH('a) - 1) (nat \<lfloor>x\<rfloor>)"
proof -
  consider "x \<le> 0" | "x \<ge> 2 ^ LENGTH('a)" "x > 0" | "0 < x" "x < 2 ^ LENGTH('a)" by linarith
  then show ?thesis
  proof cases
    case 2
    then have "(2 ^ LENGTH('a) :: int) \<le> \<lfloor>x\<rfloor>" by (simp add: le_floor_iff)
    then have "nat (2 ^ LENGTH('a)) \<le> nat \<lfloor>x\<rfloor>" by (rule nat_mono)
    then have "2 ^ LENGTH('a) \<le> nat \<lfloor>x\<rfloor>" by (simp add: nat_power_eq)
    then have "min (2 ^ LENGTH('a) - 1) (nat \<lfloor>x\<rfloor>) = 2 ^ LENGTH('a) - 1" by linarith
    moreover have "(word_of_f64 x :: 'a word) = - 1" using 2 by (simp add: word_of_f64_def)
    ultimately show ?thesis by (simp only: unat_max_word)
  next
    case 3
    then have "nat \<lfloor>x\<rfloor> < 2 ^ LENGTH('a)"
      by (simp add: nat_less_iff floor_less_iff)
    moreover have "(word_of_f64 x :: 'a word) = of_nat (nat \<lfloor>x\<rfloor>)"
      using 3 by (simp only: word_of_f64_def not_le if_False if_not_P)
    ultimately show ?thesis by (simp only: unat_of_nat mod_less)
  qed (simp add: word_of_f64_def)
qed

section \<open>Exact values\<close>

lemma round_even_of_int [simp]: "round_even (of_int k) = k"
  by (simp add: round_even_def)

lemma rnd_exact:
  assumes "n < 2 ^ 53"
  shows "rnd (of_nat n * 2 powi e) = of_nat n * 2 powi e"
proof (cases "n = 0")
  case False
  let ?x = "of_nat n * 2 powi e :: rat"
  have pos: "0 < ?x" using False by simp
  have "(of_nat n :: rat) < 2 ^ 53" using assms by (metis of_nat_less_iff of_nat_numeral of_nat_power)
  then have "?x < 2 ^ 53 * 2 powi e" by (intro mult_strict_right_mono) simp_all
  also have "\<dots> = 2 powi (53 + e)" by (simp add: power_int_add)
  finally have "2 powi ilog2 ?x < (2 powi (53 + e) :: rat)" using ilog2_le [OF pos] by linarith
  then have "ilog2 ?x < 53 + e" using power_int_increasing [of "53 + e" "ilog2 ?x" "2 :: rat"] by fastforce
  then have "0 \<le> e - (ilog2 ?x - 52)" by linarith
  then obtain d where "e - (ilog2 ?x - 52) = int d" using zero_le_imp_eq_int by blast
  then have "e = (ilog2 ?x - 52) + int d" by linarith
  then have scale: "(2 :: rat) powi e = 2 ^ d * 2 powi (ilog2 ?x - 52)" by (metis power_int_add power_int_of_nat mult.commute zero_neq_numeral)
  have "?x / 2 powi (ilog2 ?x - 52) = of_int (int n * 2 ^ d)" by (subst (1) scale) simp
  then have "rnd_pos ?x = of_int (int n * 2 ^ d) * 2 powi (ilog2 ?x - 52)" by (simp only: rnd_pos_def Let_def round_even_of_int)
  also have "\<dots> = of_nat n * (2 ^ d * 2 powi (ilog2 ?x - 52))" by simp
  also have "\<dots> = ?x" by (simp only: flip: scale)
  finally show ?thesis using pos by (simp add: rnd_def)
qed (simp add: rnd_def)

lemma rnd_of_nat: "n < 2 ^ 53 \<Longrightarrow> rnd (of_nat n) = of_nat n"
  using rnd_exact [of n 0] by simp

section \<open>Square roots\<close>

fun isqrt :: "nat \<Rightarrow> nat" where
  "isqrt n = (if n = 0 then 0 else let r = 2 * isqrt (n div 4) in if (r + 1) ^ 2 \<le> n then r + 1 else r)"

declare isqrt.simps [simp del]

text \<open>
  \<open>f64::sqrt\<close> is correctly rounded. For \<open>x > 0\<close> the exponent \<open>e\<close> brings \<open>x / 4 powi e\<close> between \<open>4 ^ 52\<close> and \<open>4 ^ 53\<close>, and its
  root is rounded to the nearest integer; a tie would need a significand of 54 bits.
\<close>

definition fl_sqrt :: "f64 \<Rightarrow> f64" where
  "fl_sqrt x =
     (if x \<le> 0 then 0
      else let e = ilog2 x div 2 - 52;
               q = x / 4 powi e;
               s = isqrt (nat \<lfloor>q\<rfloor>)
           in of_nat (if q > (of_nat s + 1 / 2) ^ 2 then s + 1 else s) * 2 powi e)"

lemma isqrt_bounds: "isqrt n ^ 2 \<le> n \<and> n < (isqrt n + 1) ^ 2"
proof (induction n rule: isqrt.induct)
  case (1 n)
  show ?case
  proof (cases "n = 0")
    case False
    define r where "r = isqrt (n div 4)"
    have ih: "r ^ 2 \<le> n div 4" "n div 4 < (r + 1) ^ 2" using 1 [OF False] by (simp_all add: r_def)
    have "4 * r ^ 2 \<le> n" using ih(1) by linarith
    moreover have "n < 4 * (r + 1) ^ 2" using ih(2) by linarith
    moreover have "isqrt n = (if (2 * r + 1) ^ 2 \<le> n then 2 * r + 1 else 2 * r)"
      using False by (simp add: isqrt.simps [of n] r_def Let_def)
    ultimately show ?thesis by (auto simp: power2_eq_square algebra_simps)
  qed (simp add: isqrt.simps)
qed

text \<open>A result with a significand of at least 53 bits, at most half a unit of its last place away from the root.\<close>

lemma fl_sqrt_correct:
  assumes "0 < x"
  shows "\<exists>r e. fl_sqrt x = of_nat r * 2 powi e \<and> 2 ^ 52 \<le> r \<and>
    (of_nat r - 1 / 2) ^ 2 * 4 powi e \<le> x \<and> x \<le> (of_nat r + 1 / 2) ^ 2 * 4 powi e"
proof -
  define e where "e = ilog2 x div 2 - 52"
  define q where "q = x / 4 powi e"
  define s where "s = isqrt (nat \<lfloor>q\<rfloor>)"
  define r where "r = (if q > (of_nat s + 1 / 2) ^ 2 then s + 1 else s)"
  have u: "0 < (4 :: rat) powi e" by simp
  have "4 powi (ilog2 x div 2) = (2 :: rat) powi (2 * (ilog2 x div 2))" by (simp add: power_int_mult)
  also have "\<dots> \<le> 2 powi ilog2 x" by (rule power_int_increasing) auto
  also have "\<dots> \<le> x" using assms by (rule ilog2_le)
  finally have "4 ^ 52 * 4 powi e \<le> x" by (simp add: e_def power_int_diff)
  then have q52: "4 ^ 52 \<le> q" using u by (simp add: q_def pos_le_divide_eq)
  then have "(2 ^ 52) ^ 2 \<le> nat \<lfloor>q\<rfloor>" by (simp add: le_nat_iff le_floor_iff)
  then have "2 ^ 52 < s + 1" using isqrt_bounds [of "nat \<lfloor>q\<rfloor>"] power_less_imp_less_base [of "2 ^ 52" 2 "s + 1"]
    unfolding s_def by linarith
  then have s52: "2 ^ 52 \<le> s" by simp
  have "0 \<le> q" using q52 by (rule order_trans [rotated]) simp
  then have floor: "of_nat (nat \<lfloor>q\<rfloor>) \<le> q" "q < of_nat (nat \<lfloor>q\<rfloor>) + 1" by linarith+
  have "of_nat (s ^ 2) \<le> (of_nat (nat \<lfloor>q\<rfloor>) :: rat)" "(of_nat (nat \<lfloor>q\<rfloor> + 1) :: rat) \<le> of_nat ((s + 1) ^ 2)"
    using isqrt_bounds [of "nat \<lfloor>q\<rfloor>"] unfolding s_def by (simp_all only: of_nat_le_iff) linarith
  then have "of_nat s ^ 2 \<le> q" "q < (of_nat s + 1) ^ 2"
    using floor unfolding of_nat_add of_nat_power of_nat_1 by linarith+
  moreover have "1 \<le> (of_nat s :: rat)" using s52 by simp
  ultimately have "(of_nat r - 1 / 2) ^ 2 \<le> q" "q \<le> (of_nat r + 1 / 2) ^ 2"
    by (auto simp: r_def power2_eq_square algebra_simps)
  then have "(of_nat r - 1 / 2) ^ 2 * 4 powi e \<le> x" "x \<le> (of_nat r + 1 / 2) ^ 2 * 4 powi e"
    using u by (simp_all add: q_def pos_le_divide_eq pos_divide_le_eq)
  moreover have "fl_sqrt x = of_nat r * 2 powi e"
    using assms by (simp add: fl_sqrt_def Let_def r_def s_def q_def e_def)
  moreover have "2 ^ 52 \<le> r" using s52 by (simp add: r_def)
  ultimately show ?thesis by blast
qed

end
