(* ===== verification/Vault_Supply.thy ===== *)
theory Vault_Supply
  imports Pacyte_Float Core_Types
begin

text \<open>
  Supply phases and their rates (\<open>src/vault/mod.rs\<close>), the burn ledger (\<open>src/vault/burn.rs\<close>) and
  the tracking of dormant accounts (\<open>src/vault/dormancy.rs\<close>). The rates are \<open>f64\<close> expressions and
  are computed with the rounding of \<open>Pacyte_Float\<close>; everything else is integer arithmetic at
  its width. The reporting functions that only format or estimate (\<open>burn_percentage\<close>,
  \<open>annual_deflation_rate\<close>, \<open>estimate_days_to_target\<close>, \<open>stats\<close>) are not modelled.
\<close>

section \<open>Supply phases\<close>

definition TOTAL_SUPPLY :: u128 where "TOTAL_SUPPLY = 550000000000000"
definition GENESIS_BALANCE :: u128 where "GENESIS_BALANCE = 122500000000000"
definition MIN_BALANCE :: u128 where "MIN_BALANCE = 1000"

datatype supply_phase = GreatBurn | Transition | GoldenEra

definition from_supply :: "u128 \<Rightarrow> supply_phase" where
  "from_supply supply =
     (if supply > 400000000000000 then GreatBurn
      else if supply > 250000000000000 then Transition else GoldenEra)"

fun burn_rate :: "supply_phase \<Rightarrow> u128 \<Rightarrow> f64" where
  "burn_rate GreatBurn supply =
     (let progress = fl_div (f64_of_word (TOTAL_SUPPLY - supply)) 150000000000000
      in fl_add (rnd (60 / 100)) (fl_mul progress (rnd (30 / 100))))"
| "burn_rate Transition supply =
     (let progress = fl_div (f64_of_word (supply - 250000000000000)) 150000000000000
      in fl_mul (rnd (90 / 100)) progress)"
| "burn_rate GoldenEra supply = 0"

fun genesis_rate :: "supply_phase \<Rightarrow> u128 \<Rightarrow> f64" where
  "genesis_rate GreatBurn supply = fl_sub (fl_sub 1 (burn_rate GreatBurn supply)) (rnd (36 / 100))"
| "genesis_rate Transition supply =
     (let progress = fl_div (f64_of_word (400000000000000 - supply)) 150000000000000
      in fl_add (rnd (1 / 100)) (fl_mul progress (rnd (9 / 100))))"
| "genesis_rate GoldenEra supply = rnd (10 / 100)"

fun node_rate :: "supply_phase \<Rightarrow> u128 \<Rightarrow> f64" where
  "node_rate GreatBurn supply = rnd (36 / 100)"
| "node_rate Transition supply =
     fl_sub (fl_sub 1 (burn_rate Transition supply)) (genesis_rate Transition supply)"
| "node_rate GoldenEra supply = rnd (90 / 100)"

section \<open>The burn ledger\<close>

datatype burn_reason =
    TransactionFee | DormantAccountBurn | Slashing | SovereignDirective | BridgeTimeout | Other string

record burn_record =
  br_amount :: u128
  br_reason :: burn_reason
  br_timestamp :: timestamp
  br_block_height :: "block_height option"
  remaining_supply :: u128
  br_phase :: supply_phase

record burn_manager =
  bm_total_burned :: u128
  burn_history :: "burn_record list"
  current_supply :: u128

definition burn_manager_new :: "u128 \<Rightarrow> burn_manager" where
  "burn_manager_new initial_supply =
     \<lparr>bm_total_burned = 0, burn_history = [], current_supply = initial_supply\<rparr>"

definition burn ::
    "timestamp \<Rightarrow> u128 \<Rightarrow> burn_reason \<Rightarrow> block_height option \<Rightarrow> burn_manager \<Rightarrow>
     burn_record pacyte_result \<times> burn_manager" where
  "burn now amount reason h m =
     (if amount = 0 then (Inl InvalidAmount, m)
      else if current_supply m < amount then (Inl InsufficientSupply, m)
      else
        let supply = current_supply m - amount;
            r = \<lparr>br_amount = amount, br_reason = reason, br_timestamp = now, br_block_height = h,
                 remaining_supply = supply, br_phase = from_supply supply\<rparr>
        in (Inr r, m\<lparr>current_supply := supply, bm_total_burned := bm_total_burned m + amount,
                    burn_history := burn_history m @ [r]\<rparr>))"

definition get_history :: "nat \<Rightarrow> burn_manager \<Rightarrow> burn_record list" where
  "get_history limit m = take limit (rev (burn_history m))"

definition total_burned_by_reason :: "burn_reason \<Rightarrow> burn_manager \<Rightarrow> u128" where
  "total_burned_by_reason reason m =
     sum_list (map br_amount (filter (\<lambda>r. br_reason r = reason) (burn_history m)))"

text \<open>The inner loop of \<open>burned_by_phase\<close>: the first entry of the record's phase is increased.\<close>

fun add_to_phase :: "burn_record \<Rightarrow> (supply_phase \<times> u128) list \<Rightarrow> (supply_phase \<times> u128) list" where
  "add_to_phase r [] = []"
| "add_to_phase r ((phase, tot) # ts) =
     (if phase = br_phase r then (phase, tot + br_amount r) # ts
      else (phase, tot) # add_to_phase r ts)"

definition burned_by_phase :: "burn_manager \<Rightarrow> (supply_phase \<times> u128) list" where
  "burned_by_phase m = fold add_to_phase (burn_history m) [(GreatBurn, 0), (Transition, 0), (GoldenEra, 0)]"

section \<open>Dormant accounts\<close>

definition DORMANCY_THRESHOLD_SECONDS :: u64 where "DORMANCY_THRESHOLD_SECONDS = 6 * 365 * 24 * 60 * 60"
definition GRACE_PERIOD_SECONDS :: u64 where "GRACE_PERIOD_SECONDS = 30 * 24 * 60 * 60"

record dormant_record =
  dr_address :: address
  dr_balance :: u128
  dr_last_activity :: timestamp
  dormant_since :: timestamp
  dr_burned :: bool
  burned_at :: "timestamp option"

record dormancy_manager =
  dm_last_activity :: "(address \<times> timestamp) list"
  warnings_sent :: "(address \<times> timestamp) list"
  dormant_accounts :: "(address \<times> dormant_record) list"
  total_dormant_accounts :: usize
  total_dormant_value :: u128

definition dormancy_manager_new :: dormancy_manager where
  "dormancy_manager_new =
     \<lparr>dm_last_activity = [], warnings_sent = [], dormant_accounts = [],
      total_dormant_accounts = 0, total_dormant_value = 0\<rparr>"

definition dm_record_activity :: "timestamp \<Rightarrow> address \<Rightarrow> dormancy_manager \<Rightarrow> dormancy_manager" where
  "dm_record_activity now a m =
     (let m1 = m\<lparr>dm_last_activity := AList.update a now (dm_last_activity m),
                 dormant_accounts := AList.delete a (dormant_accounts m)\<rparr>
      in if map_of (dormant_accounts m) a \<noteq> None
         then m1\<lparr>total_dormant_accounts := total_dormant_accounts m - 1\<rparr> else m1)"

definition dm_add_account :: "timestamp \<Rightarrow> address \<Rightarrow> dormancy_manager \<Rightarrow> dormancy_manager" where
  "dm_add_account now a m = m\<lparr>dm_last_activity := AList.update a now (dm_last_activity m)\<rparr>"

definition dm_remove_account :: "address \<Rightarrow> dormancy_manager \<Rightarrow> dormancy_manager" where
  "dm_remove_account a m =
     (let m1 = m\<lparr>dm_last_activity := AList.delete a (dm_last_activity m),
                 dormant_accounts := AList.delete a (dormant_accounts m)\<rparr>
      in case map_of (dormant_accounts m) a of
           Some r \<Rightarrow> m1\<lparr>total_dormant_accounts := total_dormant_accounts m - 1,
                       total_dormant_value := total_dormant_value m - dr_balance r\<rparr>
         | None \<Rightarrow> m1)"

definition dm_check_dormancy :: "timestamp \<Rightarrow> dormancy_manager \<Rightarrow> address list" where
  "dm_check_dormancy current_time m =
     (let threshold = saturating_sub current_time DORMANCY_THRESHOLD_SECONDS
      in map fst (filter (\<lambda>(a, last_active). map_of (dormant_accounts m) a = None \<and> last_active < threshold)
           (dm_last_activity m)))"

definition mark_dormant :: "timestamp \<Rightarrow> address \<Rightarrow> u128 \<Rightarrow> dormancy_manager \<Rightarrow> dormancy_manager" where
  "mark_dormant now a bal m =
     (let last_active = (case map_of (dm_last_activity m) a of Some t \<Rightarrow> t | None \<Rightarrow> now);
          r = \<lparr>dr_address = a, dr_balance = bal, dr_last_activity = last_active, dormant_since = now,
               dr_burned = False, burned_at = None\<rparr>;
          m1 = m\<lparr>dormant_accounts := AList.update a r (dormant_accounts m)\<rparr>
      in if map_of (dormant_accounts m) a = None
         then m1\<lparr>total_dormant_accounts := total_dormant_accounts m + 1,
                 total_dormant_value := total_dormant_value m + bal\<rparr> else m1)"

definition burn_dormant :: "timestamp \<Rightarrow> address \<Rightarrow> dormancy_manager \<Rightarrow> u128 option \<times> dormancy_manager" where
  "burn_dormant now a m =
     (case map_of (dormant_accounts m) a of
        Some r \<Rightarrow>
          if \<not> dr_burned r \<and> now \<ge> dormant_since r + DORMANCY_THRESHOLD_SECONDS + GRACE_PERIOD_SECONDS
          then (Some (dr_balance r),
                m\<lparr>dormant_accounts := AList.update a (r\<lparr>dr_burned := True, burned_at := Some now\<rparr>) (dormant_accounts m),
                  total_dormant_value := total_dormant_value m - dr_balance r\<rparr>)
          else (None, m)
      | None \<Rightarrow> (None, m))"

definition get_accounts_needing_warning :: "timestamp \<Rightarrow> dormancy_manager \<Rightarrow> address list" where
  "get_accounts_needing_warning current_time m =
     (let warning_threshold = saturating_sub current_time (DORMANCY_THRESHOLD_SECONDS - GRACE_PERIOD_SECONDS)
      in map fst (filter (\<lambda>(a, last_active).
           (case map_of (warnings_sent m) a of
              Some last_warning \<Rightarrow> \<not> (current_time - last_warning < GRACE_PERIOD_SECONDS)
            | None \<Rightarrow> True) \<and>
           map_of (dormant_accounts m) a = None \<and> last_active < warning_threshold) (dm_last_activity m)))"

definition mark_warning_sent :: "timestamp \<Rightarrow> address \<Rightarrow> dormancy_manager \<Rightarrow> dormancy_manager" where
  "mark_warning_sent now a m = m\<lparr>warnings_sent := AList.update a now (warnings_sent m)\<rparr>"

definition dm_is_dormant :: "address \<Rightarrow> dormancy_manager \<Rightarrow> bool" where
  "dm_is_dormant a m \<longleftrightarrow> map_of (dormant_accounts m) a \<noteq> None"

definition inactive_duration :: "timestamp \<Rightarrow> address \<Rightarrow> dormancy_manager \<Rightarrow> u64 option" where
  "inactive_duration now a m = map_option (saturating_sub now) (map_of (dm_last_activity m) a)"

definition list_dormant_accounts :: "dormancy_manager \<Rightarrow> dormant_record list" where
  "list_dormant_accounts m = map snd (dormant_accounts m)"

section \<open>Properties of the burn ledger\<close>

definition burn_inv :: "u128 \<Rightarrow> burn_manager \<Rightarrow> bool" where
  "burn_inv initial m \<longleftrightarrow>
     unat (current_supply m) + unat (bm_total_burned m) = unat initial \<and>
     sum_list (map (unat \<circ> br_amount) (burn_history m)) = unat (bm_total_burned m) \<and>
     (\<forall>r \<in> set (burn_history m). 0 < br_amount r \<and> current_supply m \<le> remaining_supply r \<and>
        br_phase r = from_supply (remaining_supply r))"

lemma burn_keeps_inv [keeps_inv]:
  assumes "burn_inv initial m"
  shows "burn_inv initial (snd (burn now amount reason h m))"
proof (cases "amount = 0 \<or> current_supply m < amount")
  case True
  with assms show ?thesis by (auto simp: burn_def)
next
  case False
  then have le: "amount \<le> current_supply m" "0 < amount" by (simp_all add: not_less word_neq_0_conv)
  have sub: "unat (current_supply m - amount) = unat (current_supply m) - unat amount"
    by (rule unat_sub_le [OF le(1)])
  have "unat (bm_total_burned m) + unat amount < 2 ^ 128"
    using assms le(1) unat_bound [of initial] by (auto simp: burn_inv_def word_le_nat_alt)
  then have add: "unat (bm_total_burned m + amount) = unat (bm_total_burned m) + unat amount"
    by (simp add: unat_add_no_overflow)
  have shrink: "current_supply m - amount \<le> current_supply m"
    using sub by (simp add: word_le_nat_alt)
  show ?thesis
    using assms le sub add shrink by (auto simp: burn_def burn_inv_def Let_def word_le_nat_alt)
qed

lemma sum_add_to_phase:
  "br_phase r \<in> fst ` set ts \<Longrightarrow> sum_list (map snd (add_to_phase r ts)) = sum_list (map snd ts) + br_amount r"
  "map fst (add_to_phase r ts) = map fst ts"
  by (induction r ts rule: add_to_phase.induct) auto

lemma sum_burned_by_phase:
  "sum_list (map snd (burned_by_phase m)) = sum_list (map br_amount (burn_history m))"
proof -
  have "sum_list (map snd (fold add_to_phase rs ts)) = sum_list (map snd ts) + sum_list (map br_amount rs)"
    if "fst ` set ts = UNIV" for rs ts
    using that
  proof (induction rs arbitrary: ts)
    case (Cons r rs)
    have "fst ` set (add_to_phase r ts) = UNIV"
      using Cons.prems sum_add_to_phase(2) [of r ts] by (metis list.set_map)
    with Cons show ?case by (simp add: sum_add_to_phase(1))
  qed simp
  moreover have "fst ` set [(GreatBurn, 0), (Transition, 0), (GoldenEra, 0 :: u128)] = UNIV"
    by (auto intro: supply_phase.exhaust)
  ultimately show ?thesis by (simp add: burned_by_phase_def)
qed

lemma of_nat_sum_unat: "of_nat (sum_list (map (unat \<circ> f) xs)) = sum_list (map f xs)"
  by (induction xs) auto

text \<open>
  C14. The burn ledger balances, whatever burns are requested: what is left plus what was
  burned is the initial supply, the history accounts for every unit burned, the totals per
  phase add up to it, and no record shows less supply than is left now.
\<close>

theorem burn_ledger_balances:
  "let m = fold (\<lambda>(now, amount, reason, h) m. snd (burn now amount reason h m)) calls (burn_manager_new initial)
   in unat (current_supply m) + unat (bm_total_burned m) = unat initial \<and>
      sum_list (map (unat \<circ> br_amount) (burn_history m)) = unat (bm_total_burned m) \<and>
      sum_list (map snd (burned_by_phase m)) = bm_total_burned m \<and>
      set (burn_history m) \<subseteq> {r. 0 < br_amount r \<and> current_supply m \<le> remaining_supply r \<and>
                                br_phase r = from_supply (remaining_supply r)}"
proof -
  have keep: "burn_inv initial m \<Longrightarrow>
      burn_inv initial (fold (\<lambda>(now, amount, reason, h) m. snd (burn now amount reason h m)) calls m)" for m
    by (induction calls arbitrary: m) (auto intro: keeps_inv)
  define m where
    "m = fold (\<lambda>(now, amount, reason, h) m. snd (burn now amount reason h m)) calls (burn_manager_new initial)"
  have inv: "burn_inv initial m"
    unfolding m_def by (rule keep) (simp add: burn_inv_def burn_manager_new_def)
  then have "sum_list (map snd (burned_by_phase m)) = bm_total_burned m"
    unfolding sum_burned_by_phase by (simp add: burn_inv_def flip: of_nat_sum_unat)
  with inv show ?thesis
    by (auto simp: burn_inv_def Let_def simp flip: m_def)
qed

section \<open>Properties of the dormancy tracking\<close>

inductive dormancy_step :: "dormancy_manager \<Rightarrow> dormancy_manager \<Rightarrow> bool" where
  "dormancy_step m (dm_record_activity now a m)"
| "dormancy_step m (dm_add_account now a m)"
| "dormancy_step m (dm_remove_account a m)"
| "dormancy_step m (mark_dormant now a bal m)"
| "dormancy_step m (snd (burn_dormant now a m))"
| "dormancy_step m (mark_warning_sent now a m)"

inductive dormancy_reachable :: "dormancy_manager \<Rightarrow> bool" where
  dormancy_start: "dormancy_reachable dormancy_manager_new"
| dormancy_next: "dormancy_reachable m \<Longrightarrow> dormancy_step m m' \<Longrightarrow> dormancy_reachable m'"

lemma length_delete_existing:
  "wf_map al \<Longrightarrow> map_of al k = Some v \<Longrightarrow> Suc (length (AList.delete k al)) = length al"
  using alist_sum_delete [of al k v "\<lambda>_. 1"] by (simp add: alist_sum_def sum_list_triv comp_def)

lemma delete_fresh: "map_of al k = None \<Longrightarrow> AList.delete k al = al"
  by (simp add: delete_id map_of_eq_None_iff)

lemma length_update_known: "map_of al k = Some v0 \<Longrightarrow> length (AList.update k v al) = length al"
  by (induction al) (auto split: if_splits)

definition dormancy_inv :: "dormancy_manager \<Rightarrow> bool" where
  "dormancy_inv m \<longleftrightarrow> wf_map (dormant_accounts m) \<and>
     total_dormant_accounts m = of_nat (length (dormant_accounts m))"

lemma dormancy_step_inv:
  assumes "dormancy_step m m'" "dormancy_inv m"
  shows "dormancy_inv m'"
proof -
  have del: "of_nat (length (AList.delete a (dormant_accounts m))) = (total_dormant_accounts m - 1 :: usize)"
    if "map_of (dormant_accounts m) a = Some r" for a r
    using assms(2) length_delete_existing [OF _ that]
    by (simp add: dormancy_inv_def) (metis add_diff_cancel_left' of_nat_Suc)
  show ?thesis
    using assms del
    by cases (auto simp: dormancy_inv_def dm_record_activity_def dm_add_account_def dm_remove_account_def
        mark_dormant_def burn_dormant_def mark_warning_sent_def Let_def delete_fresh update_fresh
        length_update_known split: option.splits)
qed

text \<open>
  The counter of dormant accounts is exact (modulo the word size) after any sequence of
  calls, the records are unique per address, and \<open>check_dormancy\<close> never reports an account
  that is already dormant.
\<close>

theorem dormant_count_exact:
  assumes "dormancy_reachable m"
  shows "total_dormant_accounts m = of_nat (length (dormant_accounts m)) \<and>
     wf_map (dormant_accounts m) \<and>
     list_all (\<lambda>a. \<not> dm_is_dormant a m) (dm_check_dormancy now m)"
proof -
  have "dormancy_inv m"
    using assms
  proof induction
    case dormancy_start
    then show ?case by (simp add: dormancy_inv_def dormancy_manager_new_def)
  next
    case (dormancy_next m m')
    then show ?case using dormancy_step_inv by blast
  qed
  then show ?thesis
    by (auto simp: dormancy_inv_def dm_check_dormancy_def dm_is_dormant_def list_all_iff Let_def)
qed

theorem dormant_count_exact_witness:
  "let m = mark_dormant 200000000 [1] 50 (dm_add_account 0 [1] dormancy_manager_new)
   in dormancy_reachable m \<and> total_dormant_accounts m = 1 \<and> length (dormant_accounts m) = 1"
proof -
  let ?m = "mark_dormant 200000000 [1] 50 (dm_add_account 0 [1] dormancy_manager_new)"
  have r: "dormancy_reachable ?m"
    by (rule dormancy_next [OF dormancy_next [OF dormancy_start]]) (rule dormancy_step.intros)+
  have "length (dormant_accounts ?m) = 1"
    by (simp add: mark_dormant_def dm_add_account_def dormancy_manager_new_def Let_def)
  then show ?thesis
    using dormant_count_exact [OF r] r by simp
qed

text \<open>
  The counter of dormant value drifts. Reactivating an account that had been marked
  dormant removes its record but leaves its balance in \<open>total_dormant_value\<close>; removing an
  account after its dormant balance was burned subtracts the balance a second time.
\<close>

theorem dormant_value_drifts:
  assumes "map_of (dormant_accounts m) a = None"
    and "now' \<ge> now + DORMANCY_THRESHOLD_SECONDS + GRACE_PERIOD_SECONDS"
  shows "dormant_accounts (dm_record_activity t a (mark_dormant now a bal m)) = dormant_accounts m \<and>
     total_dormant_value (dm_record_activity t a (mark_dormant now a bal m)) = total_dormant_value m + bal \<and>
     dormant_accounts (dm_remove_account a (snd (burn_dormant now' a (mark_dormant now a bal m)))) =
       dormant_accounts m \<and>
     total_dormant_value (dm_remove_account a (snd (burn_dormant now' a (mark_dormant now a bal m)))) =
       total_dormant_value m - bal"
proof -
  have del: "AList.delete a (AList.update a r (dormant_accounts m)) = dormant_accounts m"
    "AList.delete a (AList.update a r (AList.update a r' (dormant_accounts m))) = dormant_accounts m" for r r'
    using assms(1) by (simp_all add: delete_update_same delete_fresh)
  show ?thesis
    using assms by (simp add: mark_dormant_def dm_record_activity_def dm_remove_account_def burn_dormant_def
        Let_def del)
qed

theorem dormant_value_drifts_witness:
  "total_dormant_value (dm_remove_account [1] (snd (burn_dormant 300000000 [1]
     (mark_dormant 0 [1] 50 dormancy_manager_new)))) = - 50 \<and>
   total_dormant_value (dm_record_activity 5 [1] (mark_dormant 0 [1] 50 dormancy_manager_new)) = 50"
  using dormant_value_drifts [of dormancy_manager_new "[1]" 0 300000000 5 50]
  by (simp add: dormancy_manager_new_def DORMANCY_THRESHOLD_SECONDS_def GRACE_PERIOD_SECONDS_def)

text \<open>
  When a dormant balance is burned: an account that \<open>check_dormancy\<close> reports at time \<open>t\<close>
  and that is marked at \<open>t\<close> is burned by a call at \<open>now\<close> exactly when six years and thirty days
  have passed since the marking, so after more than twelve years and thirty days without
  activity (times below \<open>2 ^ 63\<close>, so that nothing wraps).
\<close>

theorem burn_dormant_delay:
  assumes "a \<in> set (dm_check_dormancy t m)" "wf_map (dm_last_activity m)"
    and "unat t < 2 ^ 63" "unat now < 2 ^ 63"
  shows "\<exists>last. map_of (dm_last_activity m) a = Some last \<and> unat last + 189216000 < unat t \<and>
     fst (burn_dormant now a (mark_dormant t a bal m)) =
       (if unat t + 189216000 + 2592000 \<le> unat now then Some bal else None)"
proof -
  have thr: "unat DORMANCY_THRESHOLD_SECONDS = 189216000" "unat GRACE_PERIOD_SECONDS = 2592000"
    by (simp_all add: DORMANCY_THRESHOLD_SECONDS_def GRACE_PERIOD_SECONDS_def)
  obtain last where last: "map_of (dm_last_activity m) a = Some last"
      "last < saturating_sub t DORMANCY_THRESHOLD_SECONDS" and fresh: "map_of (dormant_accounts m) a = None"
    using assms(1,2) by (auto simp: dm_check_dormancy_def Let_def)
  have "unat last + 189216000 < unat t"
    using last(2) by (simp add: word_less_nat_alt unat_saturating_sub thr)
  moreover have "unat (t + DORMANCY_THRESHOLD_SECONDS + GRACE_PERIOD_SECONDS) = unat t + 189216000 + 2592000"
    using assms(3) by (simp add: unat_add_no_overflow thr)
  ultimately show ?thesis
    using last(1) fresh by (auto simp: burn_dormant_def mark_dormant_def Let_def word_le_nat_alt)
qed

theorem burn_dormant_delay_witness:
  "fst (burn_dormant 500000000 [1] (mark_dormant 200000000 [1] 50 (dm_add_account 0 [1] dormancy_manager_new))) =
     Some 50"
proof -
  let ?m = "dm_add_account 0 [1] dormancy_manager_new"
  have "[1] \<in> set (dm_check_dormancy 200000000 ?m)" "wf_map (dm_last_activity ?m)"
    by (simp_all add: dm_check_dormancy_def dm_add_account_def dormancy_manager_new_def Let_def
        saturating_sub_def DORMANCY_THRESHOLD_SECONDS_def)
  from burn_dormant_delay [OF this, of 500000000 50] show ?thesis by auto
qed

end
