(* ===== verification/Merkle.thy ===== *)
theory Merkle
  imports Core_Types
begin

text \<open>
  \<open>src/crypto/merkle.rs\<close>: the Merkle tree over a list of leaf hashes with its inclusion proofs,
  and the sparse Merkle tree that yields the state root. Vector lengths and indices are
  natural numbers. Shown here: every proof the tree generates verifies and one exists for
  exactly the leaf positions; a proof that verifies against a tree's root along the path of
  position \<open>i\<close> is about leaf \<open>i\<close>, or SHA3 collides; the root of a block body is the root of
  the tree over its transaction hashes; padding an odd level with its last element keeps the
  root; the state root does not depend on the order of the updates.
\<close>

definition hash_merkle_pair :: "externals \<Rightarrow> hash \<Rightarrow> hash \<Rightarrow> hash" where
  "hash_merkle_pair X left right = sha3_256 X (left @ right)"

record merkle_tree =
  levels :: "hash list list"
  leaf_count :: nat
  mt_root :: hash

fun next_level :: "externals \<Rightarrow> hash list \<Rightarrow> hash list" where
  "next_level X [] = []"
| "next_level X [x] = [hash_merkle_pair X x x]"
| "next_level X (x # y # hs) = hash_merkle_pair X x y # next_level X hs"

lemma length_next_level [simp]: "length (next_level X hs) = (length hs + 1) div 2"
  by (induction X hs rule: next_level.induct) auto

function build_levels :: "externals \<Rightarrow> hash list \<Rightarrow> hash list list" where
  "build_levels X cur =
     (if length cur > 1 then cur # build_levels X (next_level X cur) else [cur])"
  by pat_completeness auto
termination
  by (relation "measure (\<lambda>(X, hs). length hs)") auto

declare build_levels.simps [simp del]

definition merkle_new :: "externals \<Rightarrow> hash list \<Rightarrow> merkle_tree" where
  "merkle_new X leaves =
     (if leaves = [] then \<lparr>levels = [[]], leaf_count = 0, mt_root = zero32\<rparr>
      else let ls = build_levels X leaves;
               rt = (case last ls of [] \<Rightarrow> zero32 | r # _ \<Rightarrow> r)
           in \<lparr>levels = ls, leaf_count = length leaves, mt_root = rt\<rparr>)"

definition merkle_from_transactions :: "externals \<Rightarrow> bytes list \<Rightarrow> merkle_tree" where
  "merkle_from_transactions X txs = merkle_new X (map (sha3_256 X) txs)"

record proof_node =
  pn_hash :: hash
  is_left_sibling :: bool

record merkle_proof =
  leaf_index :: nat
  leaf_hash :: hash
  proof_nodes :: "proof_node list"
  mp_root :: hash

text \<open>The loop of \<open>generate_proof\<close> over every level but the last.\<close>

fun sibling_path :: "hash list list \<Rightarrow> nat \<Rightarrow> proof_node list" where
  "sibling_path (l # l' # ls) i =
     (let is_left = (i mod 2 = 0);
          sib = (if is_left then i + 1 else i - 1)
      in if sib < length l then \<lparr>pn_hash = l ! sib, is_left_sibling = \<not> is_left\<rparr>
         else \<lparr>pn_hash = l ! i, is_left_sibling = False\<rparr>)
     # sibling_path (l' # ls) (i div 2)"
| "sibling_path ls i = []"

definition generate_proof :: "merkle_tree \<Rightarrow> nat \<Rightarrow> merkle_proof option" where
  "generate_proof t i =
     (if i \<ge> leaf_count t then None
      else Some \<lparr>leaf_index = i, leaf_hash = (levels t ! 0) ! i,
                 proof_nodes = sibling_path (levels t) i, mp_root = mt_root t\<rparr>)"

definition merkle_verify :: "externals \<Rightarrow> merkle_tree \<Rightarrow> bool" where
  "merkle_verify X t =
     (if leaf_count t = 0 then mt_root t = zero32
      else mt_root (merkle_new X (levels t ! 0)) = mt_root t)"

definition merkle_contains :: "merkle_tree \<Rightarrow> hash \<Rightarrow> bool" where
  "merkle_contains t h \<longleftrightarrow> h \<in> set (levels t ! 0)"

fun climb :: "externals \<Rightarrow> hash \<Rightarrow> proof_node list \<Rightarrow> hash" where
  "climb X cur [] = cur"
| "climb X cur (n # ns) =
     climb X (if is_left_sibling n then hash_merkle_pair X (pn_hash n) cur
              else hash_merkle_pair X cur (pn_hash n)) ns"

definition proof_verify :: "externals \<Rightarrow> merkle_proof \<Rightarrow> bool" where
  "proof_verify X p \<longleftrightarrow> climb X (leaf_hash p) (proof_nodes p) = mp_root p"

text \<open>Two different messages with one SHA3 digest.\<close>

definition sha3_collision :: "externals \<Rightarrow> bool" where
  "sha3_collision X \<longleftrightarrow> (\<exists>a b. a \<noteq> b \<and> sha3_256 X a = sha3_256 X b)"

section \<open>The sparse Merkle tree\<close>

record sparse_merkle_tree =
  smt_root :: hash
  default_hashes :: "hash list"

fun default_chain :: "externals \<Rightarrow> nat \<Rightarrow> hash \<Rightarrow> hash list" where
  "default_chain X 0 cur = [cur]"
| "default_chain X (Suc n) cur = cur # default_chain X n (hash_merkle_pair X cur cur)"

definition smt_new :: "externals \<Rightarrow> sparse_merkle_tree" where
  "smt_new X = (let dh = default_chain X 256 zero32
                in \<lparr>smt_root = dh ! 256, default_hashes = dh\<rparr>)"

definition path_bit :: "hash \<Rightarrow> nat \<Rightarrow> u8" where
  "path_bit path depth = drop_bit (7 - depth mod 8) (path ! (31 - depth div 8)) AND 1"

definition smt_node :: "externals \<Rightarrow> sparse_merkle_tree \<Rightarrow> hash \<times> hash \<Rightarrow> hash" where
  "smt_node X t u =
     fold (\<lambda>depth node.
             if path_bit (fst u) depth = 0
             then hash_merkle_pair X node (default_hashes t ! depth)
             else hash_merkle_pair X (default_hashes t ! depth) node)
          [0..<256] (snd u)"

definition xor_bytes :: "bytes \<Rightarrow> bytes \<Rightarrow> bytes" where
  "xor_bytes xs ys = map2 (XOR) xs ys"

definition root_from_updates :: "externals \<Rightarrow> sparse_merkle_tree \<Rightarrow> (hash \<times> hash) list \<Rightarrow> hash" where
  "root_from_updates X t updates =
     (if updates = [] then smt_root t
      else foldl (\<lambda>rt u. xor_bytes rt (smt_node X t u)) (smt_root t) updates)"

section \<open>Inclusion proofs are complete\<close>

lemma build_levels_hd: "build_levels X hs \<noteq> [] \<and> hd (build_levels X hs) = hs"
  by (simp add: build_levels.simps [of X hs])

lemma build_levels_0 [simp]: "build_levels X hs ! 0 = hs"
  by (simp add: build_levels.simps [of X hs])

lemma build_levels_Cons: "\<exists>ls. build_levels X hs = hs # ls"
  using build_levels_hd [of X hs] by (cases "build_levels X hs") auto

lemma last_build_levels: "hs \<noteq> [] \<Longrightarrow> \<exists>r. last (build_levels X hs) = [r]"
proof (induction X hs rule: build_levels.induct)
  case (1 X cur)
  show ?case
  proof (cases "length cur > 1")
    case True
    then have "length (next_level X cur) > 0"
      by simp
    then have "next_level X cur \<noteq> []"
      by (metis length_greater_0_conv)
    with True "1" show ?thesis
      using build_levels_hd [of X "next_level X cur"]
      by (simp add: build_levels.simps [of X cur])
  next
    case False
    with "1.prems" obtain a where "cur = [a]"
      by (cases cur) auto
    then show ?thesis
      by (simp add: build_levels.simps [of X "[a]"])
  qed
qed

lemma next_level_nth:
  "i < length hs \<Longrightarrow>
   next_level X hs ! (i div 2) =
     (if i mod 2 = 0
      then hash_merkle_pair X (hs ! i) (if i + 1 < length hs then hs ! (i + 1) else hs ! i)
      else hash_merkle_pair X (hs ! (i - 1)) (hs ! i))"
proof (induction X hs arbitrary: i rule: next_level.induct)
  case (3 X x y hs)
  show ?case
  proof (cases "i < 2")
    case True
    then show ?thesis by (cases i) auto
  next
    case False
    then obtain j where i: "i = j + 2" by (metis le_add_diff_inverse2 not_less)
    with "3.prems" have "j < length hs" by simp
    from "3.IH" [OF this] i show ?thesis
      by (cases j) (auto simp: nth_Cons split: nat.splits)
  qed
qed auto

lemma climb_sibling_path:
  "i < length hs \<Longrightarrow> [climb X (hs ! i) (sibling_path (build_levels X hs) i)] = last (build_levels X hs)"
proof (induction X hs arbitrary: i rule: build_levels.induct)
  case (1 X cur)
  show ?case
  proof (cases "length cur > 1")
    case True
    obtain ls where ls: "build_levels X (next_level X cur) = next_level X cur # ls"
      using build_levels_Cons by blast
    have "i div 2 < length (next_level X cur)"
      using "1.prems" by simp
    with True "1.IH" have "[climb X (next_level X cur ! (i div 2))
        (sibling_path (build_levels X (next_level X cur)) (i div 2))]
        = last (build_levels X (next_level X cur))"
      by simp
    with True "1.prems" show ?thesis
      by (auto simp: build_levels.simps [of X cur] ls next_level_nth Let_def)
  next
    case False
    with "1.prems" obtain a where "cur = [a]" "i = 0"
      by (cases cur) auto
    then show ?thesis
      by (simp add: build_levels.simps [of X "[a]"])
  qed
qed

lemma merkle_new_nonempty:
  assumes "hs \<noteq> []"
  shows "levels (merkle_new X hs) = build_levels X hs" "leaf_count (merkle_new X hs) = length hs"
    "[mt_root (merkle_new X hs)] = last (build_levels X hs)"
  using last_build_levels [OF assms, of X] assms by (auto simp: merkle_new_def Let_def)

lemma merkle_new_leaves: "levels (merkle_new X hs) ! 0 = hs"
  using build_levels_hd [of X hs]
  by (auto simp: merkle_new_def Let_def hd_conv_nth)

lemma leaf_count_new: "leaf_count (merkle_new X hs) = length hs"
  by (simp add: merkle_new_def Let_def)

lemma generate_proof_complete:
  assumes "i < length hs"
  shows "\<exists>p. generate_proof (merkle_new X hs) i = Some p \<and> leaf_hash p = hs ! i \<and>
             leaf_index p = i \<and> mp_root p = mt_root (merkle_new X hs) \<and> proof_verify X p"
proof -
  from assms have ne: "hs \<noteq> []" by auto
  have "[climb X (hs ! i) (sibling_path (build_levels X hs) i)] = [mt_root (merkle_new X hs)]"
    using climb_sibling_path [OF assms] merkle_new_nonempty(3) [OF ne] by simp
  then show ?thesis
    using assms ne by (simp add: generate_proof_def leaf_count_new merkle_new_leaves
        proof_verify_def merkle_new_nonempty(1))
qed

section \<open>Inclusion proofs are sound\<close>

lemma climb_collision:
  assumes "map is_left_sibling ns = map is_left_sibling ms"
    and "\<forall>n \<in> set ns \<union> set ms. length (pn_hash n) = 32" "\<forall>a. length (sha3_256 X a) = 32"
    and "length x = 32" "length y = 32" "x \<noteq> y" "climb X x ns = climb X y ms"
  shows "sha3_collision X"
  using assms
proof (induction ns arbitrary: ms x y)
  case Nil
  then show ?case by simp
next
  case (Cons n ns)
  then obtain m ms' where ms: "ms = m # ms'" and dir: "is_left_sibling n = is_left_sibling m"
    by (cases ms) auto
  let ?a = "if is_left_sibling n then pn_hash n @ x else x @ pn_hash n"
  let ?b = "if is_left_sibling n then pn_hash m @ y else y @ pn_hash m"
  have ab: "?a \<noteq> ?b"
    using Cons.prems ms by auto
  have "climb X (sha3_256 X ?a) ns = climb X (sha3_256 X ?b) ms'"
    using Cons.prems(7) ms dir by (simp add: hash_merkle_pair_def split: if_splits)
  then show ?case
    using ab Cons.IH [of ms' "sha3_256 X ?a" "sha3_256 X ?b"] Cons.prems ms
    by (cases "sha3_256 X ?a = sha3_256 X ?b") (auto simp: sha3_collision_def)
qed

lemma length_hash_next_level:
  assumes "\<forall>a. length (sha3_256 X a) = 32"
  shows "\<forall>h \<in> set (next_level X hs). length h = 32"
  using assms by (induction X hs rule: next_level.induct) (auto simp: hash_merkle_pair_def)

lemma length_hash_sibling_path:
  assumes "\<forall>a. length (sha3_256 X a) = 32" "\<forall>h \<in> set hs. length h = 32" "i < length hs"
  shows "\<forall>n \<in> set (sibling_path (build_levels X hs) i). length (pn_hash n) = 32"
  using assms
proof (induction X hs arbitrary: i rule: build_levels.induct)
  case (1 X cur)
  obtain ls where ls: "build_levels X (next_level X cur) = next_level X cur # ls"
    using build_levels_Cons by blast
  show ?case
  proof (cases "length cur > 1")
    case True
    have "i div 2 < length (next_level X cur)" using "1.prems" by simp
    with True "1.IH" [OF True "1.prems"(1) length_hash_next_level [OF "1.prems"(1)]] "1.prems"
    show ?thesis
      by (simp add: build_levels.simps [of X cur] ls Let_def)
  next
    case False
    then show ?thesis by (simp add: build_levels.simps [of X cur])
  qed
qed

lemma proof_sound:
  assumes sha: "\<forall>a. length (sha3_256 X a) = 32"
    and leaves: "\<forall>h \<in> set hs. length h = 32" "i < length hs"
    and p: "length (leaf_hash p) = 32" "\<forall>n \<in> set (proof_nodes p). length (pn_hash n) = 32"
    and path: "map is_left_sibling (proof_nodes p) =
               map is_left_sibling (sibling_path (levels (merkle_new X hs)) i)"
    and ok: "proof_verify X p" "mp_root p = mt_root (merkle_new X hs)"
  shows "leaf_hash p = hs ! i \<or> sha3_collision X"
proof (rule disjCI)
  assume no: "\<not> sha3_collision X"
  from leaves have ne: "hs \<noteq> []" by auto
  have "climb X (leaf_hash p) (proof_nodes p) = climb X (hs ! i) (sibling_path (build_levels X hs) i)"
    using ok climb_sibling_path [OF leaves(2), of X] merkle_new_nonempty(3) [OF ne, of X]
    by (metis list.inject proof_verify_def)
  then show "leaf_hash p = hs ! i"
    using no climb_collision [of "proof_nodes p" "sibling_path (build_levels X hs) i" X "leaf_hash p" "hs ! i"]
      path sha p leaves length_hash_sibling_path [OF sha leaves] ne
    by (auto simp: merkle_new_nonempty(1))
qed

section \<open>Roots\<close>

lemma root_level_eq_next_level: "root_level X hs = next_level X hs"
  by (induction X hs rule: next_level.induct) (simp_all add: hash_merkle_pair_def)

lemma root_loop_eq: "root_loop X hs = last (build_levels X hs)"
proof (induction X hs rule: build_levels.induct)
  case (1 X cur)
  then show ?case
    using build_levels_hd [of X "next_level X cur"]
    by (simp add: root_loop.simps [of X cur] build_levels.simps [of X cur] root_level_eq_next_level)
qed

lemma transactions_root_merkle:
  "transactions_root X txs = mt_root (merkle_new X (map (tx_hash X) txs))"
proof (cases "txs = []")
  case True
  then show ?thesis by (simp add: transactions_root_def merkle_new_def)
next
  case False
  then show ?thesis
    using merkle_new_nonempty(3) [of "map (tx_hash X) txs" X]
    by (simp add: transactions_root_def root_loop_eq) (metis list.sel(1))
qed

lemma next_level_pad: "odd (length hs) \<Longrightarrow> next_level X (hs @ [last hs]) = next_level X hs"
  by (induction X hs rule: next_level.induct) auto

lemma merkle_root_pad:
  assumes "odd (length hs)" "length hs > 1"
  shows "mt_root (merkle_new X (hs @ [last hs])) = mt_root (merkle_new X hs)"
proof -
  from assms have ne: "hs \<noteq> []" by auto
  have "last (build_levels X (hs @ [last hs])) = last (build_levels X hs)"
    using assms ne build_levels_hd [of X "next_level X hs"]
    by (simp add: build_levels.simps [of X hs] build_levels.simps [of X "hs @ [last hs]"] next_level_pad)
  then show ?thesis
    using merkle_new_nonempty(3) [OF ne, of X] merkle_new_nonempty(3) [of "hs @ [last hs]" X]
    by (metis list.inject snoc_eq_iff_butlast)
qed

lemma merkle_verify_new: "merkle_verify X (merkle_new X hs)"
  by (simp add: merkle_verify_def merkle_new_leaves leaf_count_new) (simp add: merkle_new_def)

section \<open>The state root is a function of the set of updates\<close>

lemma xor_bytes_left_commute:
  "xor_bytes (xor_bytes r x) y = xor_bytes (xor_bytes r y) x"
proof (induction r arbitrary: x y)
  case Nil
  then show ?case by (simp add: xor_bytes_def)
next
  case (Cons a r)
  then show ?case
    by (cases x; cases y) (auto simp: xor_bytes_def xor.assoc xor.commute xor.left_commute)
qed

lemma xor_bytes_cancel: "length x = length r \<Longrightarrow> xor_bytes (xor_bytes r x) x = r"
proof (induction r arbitrary: x)
  case Nil
  then show ?case by (simp add: xor_bytes_def)
next
  case (Cons a r)
  then show ?case by (cases x) (auto simp: xor_bytes_def xor.assoc)
qed

lemma root_from_updates_fold:
  "root_from_updates X t us = fold (\<lambda>u rt. xor_bytes rt (smt_node X t u)) us (smt_root t)"
  by (simp add: root_from_updates_def foldl_conv_fold)

lemma root_from_updates_perm:
  assumes "mset us = mset vs"
  shows "root_from_updates X t us = root_from_updates X t vs"
proof -
  have "fold (\<lambda>u rt. xor_bytes rt (smt_node X t u)) us =
        fold (\<lambda>u rt. xor_bytes rt (smt_node X t u)) vs"
    using assms by (intro fold_multiset_equiv) (auto simp: fun_eq_iff xor_bytes_left_commute)
  then show ?thesis by (simp add: root_from_updates_fold)
qed

section \<open>Properties of the Merkle tree\<close>

text \<open>
  C3. Completeness of inclusion proofs: \<open>generate_proof\<close> answers for exactly the positions of the
  tree, and the proof it builds carries the leaf at that position and passes \<open>verify\<close>.
\<close>

theorem merkle_proof_complete:
  "case generate_proof (merkle_new X hs) i of
     None \<Rightarrow> i \<ge> length hs
   | Some p \<Rightarrow> i < length hs \<and> leaf_index p = i \<and> leaf_hash p = hs ! i \<and>
               mp_root p = mt_root (merkle_new X hs) \<and> proof_verify X p"
proof (cases "i < length hs")
  case True
  then show ?thesis using generate_proof_complete [OF True, of X] by auto
next
  case False
  then show ?thesis by (simp add: generate_proof_def leaf_count_new)
qed





text \<open>
  The state root computed by the sparse Merkle tree does not depend on the order in which a
  hash map hands out the updates, so two nodes that iterate in different orders agree; it is
  a XOR of independent paths, so an update listed twice cancels itself.
\<close>

theorem state_root_order_independent:
  assumes "mset us = mset vs" "\<forall>m. length (sha3_256 X m) = length (smt_root t)"
  shows "root_from_updates X t us = root_from_updates X t vs \<and>
         root_from_updates X t (u # u # us) = root_from_updates X t us"
proof -
  have "length (fold (\<lambda>d node. if path_bit (fst u) d = 0
            then hash_merkle_pair X node (default_hashes t ! d)
            else hash_merkle_pair X (default_hashes t ! d) node) (xs @ [x]) v) = length (smt_root t)"
    for xs x v
    using assms(2) by (simp add: hash_merkle_pair_def)
  from this [of "[0..<255]" 255] have "length (smt_node X t u) = length (smt_root t)"
    by (simp add: smt_node_def flip: upt_Suc_append)
  then show ?thesis
    using root_from_updates_perm [OF assms(1)] by (simp add: root_from_updates_fold xor_bytes_cancel)
qed

theorem state_root_order_independent_witness:
  "root_from_updates sample_externals \<lparr>smt_root = zero32, default_hashes = []\<rparr> [([1], [2]), ([3], [4])] =
   root_from_updates sample_externals \<lparr>smt_root = zero32, default_hashes = []\<rparr> [([3], [4]), ([1], [2])]"
proof -
  let ?t = "\<lparr>smt_root = zero32, default_hashes = []\<rparr>"
  have "length (smt_root ?t) = 32" by simp
  then show ?thesis
    using state_root_order_independent [of "[([1], [2]), ([3], [4])]" "[([3], [4]), ([1], [2])]"
      sample_externals ?t "([1], [2])"]
    by (simp add: add_mset_commute)
qed

end
