(* ===== verification/Storage_Ops.thy ===== *)
theory Storage_Ops
  imports Merkle
begin

text \<open>
  \<open>src/storage/mod.rs\<close>: write batches, the \<open>Storage\<close> trait and its in-memory implementation.
  A trait object \<open>Arc<dyn Storage>\<close> is the record \<open>storage_ops\<close> of the methods its clients in
  the model call, over a state type; \<open>memory_ops\<close> is the record of \<open>MemoryStorage\<close>. The locale
  \<open>account_storage\<close> states what a client may rely on, and \<open>memory_ops\<close> interprets it.

  \<open>MemoryStorage::save_block\<close> allocates one slot per height; the model assumes, as the code
  does, that the allocation succeeds.
\<close>

section \<open>Write batches\<close>

record write_batch =
  wb_blocks :: "(block_height \<times> block) list"
  wb_transactions :: "(hash \<times> transaction) list"
  wb_accounts :: "(address \<times> account option) list"
  wb_state_roots :: "(block_height \<times> hash) list"

definition batch_new :: write_batch where
  "batch_new = \<lparr>wb_blocks = [], wb_transactions = [], wb_accounts = [], wb_state_roots = []\<rparr>"

definition batch_is_empty :: "write_batch \<Rightarrow> bool" where
  "batch_is_empty b \<longleftrightarrow>
     wb_blocks b = [] \<and> wb_transactions b = [] \<and> wb_accounts b = [] \<and> wb_state_roots b = []"

definition batch_len :: "write_batch \<Rightarrow> nat" where
  "batch_len b = length (wb_blocks b) + length (wb_transactions b) + length (wb_accounts b) +
                 length (wb_state_roots b)"

definition add_block :: "block \<Rightarrow> write_batch \<Rightarrow> write_batch" where
  "add_block blk b = b\<lparr>wb_blocks := wb_blocks b @ [(hdr_height (header blk), blk)]\<rparr>"

definition add_transaction :: "externals \<Rightarrow> transaction \<Rightarrow> write_batch \<Rightarrow> write_batch" where
  "add_transaction X tx b = b\<lparr>wb_transactions := wb_transactions b @ [(tx_hash X tx, tx)]\<rparr>"

definition add_account :: "address \<Rightarrow> account \<Rightarrow> write_batch \<Rightarrow> write_batch" where
  "add_account addr acc b = b\<lparr>wb_accounts := wb_accounts b @ [(addr, Some acc)]\<rparr>"

definition batch_delete_account :: "address \<Rightarrow> write_batch \<Rightarrow> write_batch" where
  "batch_delete_account addr b = b\<lparr>wb_accounts := wb_accounts b @ [(addr, None)]\<rparr>"

definition add_state_root :: "block_height \<Rightarrow> hash \<Rightarrow> write_batch \<Rightarrow> write_batch" where
  "add_state_root h rt b = b\<lparr>wb_state_roots := wb_state_roots b @ [(h, rt)]\<rparr>"

definition batch_merge :: "write_batch \<Rightarrow> write_batch \<Rightarrow> write_batch" where
  "batch_merge b other =
     b\<lparr>wb_blocks := wb_blocks b @ wb_blocks other,
       wb_transactions := wb_transactions b @ wb_transactions other,
       wb_accounts := wb_accounts b @ wb_accounts other,
       wb_state_roots := wb_state_roots b @ wb_state_roots other\<rparr>"

definition batch_clear :: "write_batch \<Rightarrow> write_batch" where
  "batch_clear b = b\<lparr>wb_blocks := [], wb_transactions := [], wb_accounts := [], wb_state_roots := []\<rparr>"

section \<open>The storage trait\<close>

record 's storage_ops =
  so_save_block :: "block \<Rightarrow> 's \<Rightarrow> 's pacyte_result"
  so_get_block :: "block_height \<Rightarrow> 's \<Rightarrow> block option pacyte_result"
  so_get_block_by_hash :: "hash \<Rightarrow> 's \<Rightarrow> block option pacyte_result"
  so_get_transaction :: "hash \<Rightarrow> 's \<Rightarrow> transaction option pacyte_result"
  so_get_latest_block :: "'s \<Rightarrow> block option pacyte_result"
  so_get_block_height :: "'s \<Rightarrow> block_height pacyte_result"
  so_get_account :: "address \<Rightarrow> 's \<Rightarrow> account option pacyte_result"
  so_save_account :: "address \<Rightarrow> account \<Rightarrow> 's \<Rightarrow> 's pacyte_result"
  so_account_exists :: "address \<Rightarrow> 's \<Rightarrow> bool pacyte_result"
  so_save_state_root :: "block_height \<Rightarrow> hash \<Rightarrow> 's \<Rightarrow> 's pacyte_result"
  so_get_state_root :: "block_height \<Rightarrow> 's \<Rightarrow> hash option pacyte_result"
  so_write_batch :: "write_batch \<Rightarrow> 's \<Rightarrow> 's pacyte_result"

section \<open>The in-memory implementation\<close>

record memory_storage =
  ms_blocks :: "block list"
  ms_transactions :: "(hash \<times> transaction) list"
  ms_accounts :: "(address \<times> account) list"
  ms_state_roots :: "(block_height \<times> hash) list"

definition memory_storage_new :: memory_storage where
  "memory_storage_new =
     \<lparr>ms_blocks = [], ms_transactions = [], ms_accounts = [], ms_state_roots = []\<rparr>"

definition resize_to :: "nat \<Rightarrow> 'a \<Rightarrow> 'a list \<Rightarrow> 'a list" where
  "resize_to n x xs = take n xs @ replicate (n - length xs) x"

definition save_block :: "externals \<Rightarrow> timestamp \<Rightarrow> block \<Rightarrow> memory_storage \<Rightarrow> memory_storage" where
  "save_block X now b s =
     (let h = unat (hdr_height (header b));
          bs = (if h \<ge> length (ms_blocks s)
                then resize_to (h + 1) (block_genesis X now) (ms_blocks s) else ms_blocks s)
      in s\<lparr>ms_blocks := bs[h := b]\<rparr>)"

definition get_block :: "block_height \<Rightarrow> memory_storage \<Rightarrow> block option" where
  "get_block h s =
     (if unat h < length (ms_blocks s) then Some (ms_blocks s ! unat h) else None)"

definition get_block_by_hash :: "externals \<Rightarrow> hash \<Rightarrow> memory_storage \<Rightarrow> block option" where
  "get_block_by_hash X h s = find (\<lambda>b. block_hash X b = h) (ms_blocks s)"

definition get_latest_block :: "memory_storage \<Rightarrow> block option" where
  "get_latest_block s = (if ms_blocks s = [] then None else Some (last (ms_blocks s)))"

definition get_block_height :: "memory_storage \<Rightarrow> block_height" where
  "get_block_height s = of_nat (length (ms_blocks s) - 1)"

definition save_transaction :: "externals \<Rightarrow> transaction \<Rightarrow> memory_storage \<Rightarrow> memory_storage" where
  "save_transaction X tx s =
     s\<lparr>ms_transactions := AList.update (tx_hash X tx) tx (ms_transactions s)\<rparr>"

definition get_transaction :: "hash \<Rightarrow> memory_storage \<Rightarrow> transaction option" where
  "get_transaction h s = map_of (ms_transactions s) h"

definition get_transactions_by_block :: "block_height \<Rightarrow> memory_storage \<Rightarrow> transaction list" where
  "get_transactions_by_block h s =
     (case get_block h s of Some b \<Rightarrow> transactions b | None \<Rightarrow> [])"

definition save_account :: "address \<Rightarrow> account \<Rightarrow> memory_storage \<Rightarrow> memory_storage" where
  "save_account addr acc s = s\<lparr>ms_accounts := AList.update addr acc (ms_accounts s)\<rparr>"

definition get_account :: "address \<Rightarrow> memory_storage \<Rightarrow> account option" where
  "get_account addr s = map_of (ms_accounts s) addr"

definition delete_account :: "address \<Rightarrow> memory_storage \<Rightarrow> memory_storage" where
  "delete_account addr s = s\<lparr>ms_accounts := AList.delete addr (ms_accounts s)\<rparr>"

definition account_exists :: "address \<Rightarrow> memory_storage \<Rightarrow> bool" where
  "account_exists addr s \<longleftrightarrow> map_of (ms_accounts s) addr \<noteq> None"

definition save_state_root :: "block_height \<Rightarrow> hash \<Rightarrow> memory_storage \<Rightarrow> memory_storage" where
  "save_state_root h rt s = s\<lparr>ms_state_roots := AList.update h rt (ms_state_roots s)\<rparr>"

definition get_state_root :: "block_height \<Rightarrow> memory_storage \<Rightarrow> hash option" where
  "get_state_root h s = map_of (ms_state_roots s) h"

definition write_account_entry :: "address \<times> account option \<Rightarrow> memory_storage \<Rightarrow> memory_storage" where
  "write_account_entry e s =
     (case snd e of Some acc \<Rightarrow> save_account (fst e) acc s | None \<Rightarrow> delete_account (fst e) s)"

definition write_batch_mem :: "externals \<Rightarrow> timestamp \<Rightarrow> write_batch \<Rightarrow> memory_storage \<Rightarrow> memory_storage" where
  "write_batch_mem X now b s =
     fold (\<lambda>(h, rt). save_state_root h rt) (wb_state_roots b)
       (fold write_account_entry (wb_accounts b)
         (fold (\<lambda>(_, tx). save_transaction X tx) (wb_transactions b)
           (fold (\<lambda>(_, blk). save_block X now blk) (wb_blocks b) s)))"

definition memory_ops :: "externals \<Rightarrow> timestamp \<Rightarrow> memory_storage storage_ops" where
  "memory_ops X now =
     \<lparr>so_save_block = (\<lambda>b s. Inr (save_block X now b s)),
      so_get_block = (\<lambda>h s. Inr (get_block h s)),
      so_get_block_by_hash = (\<lambda>h s. Inr (get_block_by_hash X h s)),
      so_get_transaction = (\<lambda>h s. Inr (get_transaction h s)),
      so_get_latest_block = (\<lambda>s. Inr (get_latest_block s)),
      so_get_block_height = (\<lambda>s. Inr (get_block_height s)),
      so_get_account = (\<lambda>a s. Inr (get_account a s)),
      so_save_account = (\<lambda>a acc s. Inr (save_account a acc s)),
      so_account_exists = (\<lambda>a s. Inr (account_exists a s)),
      so_save_state_root = (\<lambda>h r s. Inr (save_state_root h r s)),
      so_get_state_root = (\<lambda>h s. Inr (get_state_root h s)),
      so_write_batch = (\<lambda>b s. Inr (write_batch_mem X now b s))\<rparr>"

section \<open>What a client of the trait relies on\<close>

text \<open>The accounts map after the account entries of a batch, in order (\<open>None\<close> deletes).\<close>

fun apply_entries :: "(address \<times> account option) list \<Rightarrow> (address \<rightharpoonup> account) \<Rightarrow> (address \<rightharpoonup> account)" where
  "apply_entries [] m = m"
| "apply_entries ((a, acc) # es) m = apply_entries es (m(a := acc))"

fun apply_roots :: "(block_height \<times> hash) list \<Rightarrow> (block_height \<rightharpoonup> hash) \<Rightarrow> (block_height \<rightharpoonup> hash)" where
  "apply_roots [] m = m"
| "apply_roots ((h, r) # es) m = apply_roots es (m(h \<mapsto> r))"

locale account_storage =
  fixes S :: "'s storage_ops"
    and accounts :: "'s \<Rightarrow> address \<Rightarrow> account option"
    and roots :: "'s \<Rightarrow> block_height \<Rightarrow> hash option"
  assumes read_account: "so_get_account S a s = Inr r \<Longrightarrow> r = accounts s a"
    and read_root: "so_get_state_root S h s = Inr rr \<Longrightarrow> rr = roots s h"
    and write_root: "so_save_state_root S h rt s = Inr s' \<Longrightarrow>
      accounts s' = accounts s \<and> roots s' = (roots s)(h \<mapsto> rt)"
    and write_entries: "so_write_batch S b s = Inr s' \<Longrightarrow>
      accounts s' = apply_entries (wb_accounts b) (accounts s) \<and>
      roots s' = apply_roots (wb_state_roots b) (roots s)"
    and write_block: "so_save_block S blk s = Inr s' \<Longrightarrow>
      accounts s' = accounts s \<and> roots s' = roots s"

text \<open>A storage none of whose operations reports an error.\<close>

locale reliable_storage = account_storage +
  assumes read_account_ok: "\<exists>r. so_get_account S a s = Inr r"
    and write_root_ok: "\<exists>s'. so_save_state_root S h rt s = Inr s'"
    and write_entries_ok: "\<exists>s'. so_write_batch S b s = Inr s'"
    and write_block_ok: "\<exists>s'. so_save_block S blk s = Inr s'"

text \<open>
  The contract for clients that also move blocks. A store may hold more blocks than it was given:
  the one in memory fills the heights it skips.
\<close>

definition put_blocks :: "(block_height \<times> block) list \<Rightarrow> (block_height \<rightharpoonup> block) \<Rightarrow> (block_height \<rightharpoonup> block)" where
  "put_blocks es m = fold (\<lambda>(h, b) m. m(h \<mapsto> b)) es m"

definition numbered :: "(block_height \<times> block) list \<Rightarrow> bool" where
  "numbered es \<longleftrightarrow> list_all (\<lambda>(h, b). h = hdr_height (header b)) es"

locale chain_storage = account_storage +
  fixes blocks :: "'s \<Rightarrow> block_height \<Rightarrow> block option"
  assumes read_block: "so_get_block S h s = Inr ob \<Longrightarrow> ob = blocks s h"
    and write_blocks: "so_write_batch S b s = Inr s' \<Longrightarrow> numbered (wb_blocks b) \<Longrightarrow>
      put_blocks (wb_blocks b) (blocks s) \<subseteq>\<^sub>m blocks s'"
    and read_exists: "so_account_exists S a s = Inr x \<Longrightarrow> accounts s a \<noteq> None \<Longrightarrow> x"
    and write_account: "so_save_account S a acc s = Inr s' \<Longrightarrow> accounts s' = (accounts s)(a \<mapsto> acc)"

locale reliable_chain = chain_storage + reliable_storage +
  assumes read_block_ok: "\<exists>ob. so_get_block S h s = Inr ob"
    and read_root_ok: "\<exists>rr. so_get_state_root S h s = Inr rr"

section \<open>The in-memory store keeps what it is given\<close>

lemma save_block_frame [simp]:
  "ms_accounts (save_block X now b s) = ms_accounts s"
  "ms_transactions (save_block X now b s) = ms_transactions s"
  "ms_state_roots (save_block X now b s) = ms_state_roots s"
  by (simp_all add: save_block_def Let_def)

lemma save_transaction_frame [simp]:
  "ms_accounts (save_transaction X tx s) = ms_accounts s"
  "ms_blocks (save_transaction X tx s) = ms_blocks s"
  "ms_state_roots (save_transaction X tx s) = ms_state_roots s"
  by (simp_all add: save_transaction_def)

lemma save_state_root_frame [simp]:
  "ms_accounts (save_state_root h r s) = ms_accounts s"
  "ms_blocks (save_state_root h r s) = ms_blocks s"
  "ms_transactions (save_state_root h r s) = ms_transactions s"
  by (simp_all add: save_state_root_def)

lemma write_account_entry_frame [simp]:
  "ms_blocks (write_account_entry e s) = ms_blocks s"
  "ms_transactions (write_account_entry e s) = ms_transactions s"
  "ms_state_roots (write_account_entry e s) = ms_state_roots s"
  by (simp_all add: write_account_entry_def save_account_def delete_account_def split: option.splits)

lemma length_resize_to [simp]: "length (resize_to n x xs) = n"
  by (simp add: resize_to_def)

lemma length_save_block:
  "length (ms_blocks (save_block X now b s)) =
     max (length (ms_blocks s)) (unat (hdr_height (header b)) + 1)"
  by (simp add: save_block_def Let_def max_def)

lemma get_block_save_block:
  "get_block h (save_block X now b s) =
     (if h = hdr_height (header b) then Some b
      else if unat h < length (ms_blocks s) then get_block h s
      else if h < hdr_height (header b) then Some (block_genesis X now) else None)"
proof (cases "h = hdr_height (header b)")
  case True
  then show ?thesis by (simp add: get_block_def save_block_def Let_def)
next
  case False
  then have ne: "unat h \<noteq> unat (hdr_height (header b))" by (simp add: word_unat_eq_iff)
  then show ?thesis
    using False
    by (auto simp: get_block_def save_block_def Let_def nth_list_update resize_to_def
        nth_append word_less_nat_alt)
qed

lemma map_of_fold_entries:
  "map_of (ms_accounts (fold write_account_entry es s)) =
     apply_entries es (map_of (ms_accounts s))"
proof (induction es arbitrary: s)
  case Nil
  then show ?case by simp
next
  case (Cons e es)
  obtain a acc where e: "e = (a, acc)" by (cases e)
  have "map_of (ms_accounts (write_account_entry e s)) = (map_of (ms_accounts s))(a := acc)"
    by (cases acc) (auto simp: e write_account_entry_def save_account_def delete_account_def)
  with Cons e show ?case by (simp add: fun_upd_def)
qed

lemma map_of_fold_roots:
  "map_of (ms_state_roots (fold (\<lambda>(h, rt). save_state_root h rt) rs s)) =
     apply_roots rs (map_of (ms_state_roots s))"
proof (induction rs arbitrary: s)
  case Nil
  then show ?case by simp
next
  case (Cons e es)
  then show ?case
    by (cases e) (simp add: save_state_root_def fun_upd_def)
qed

lemma fold_frame:
  assumes "\<And>x s. f (g x s) = f s"
  shows "f (fold g xs s) = f s"
  using assms by (induction xs arbitrary: s) auto

lemma write_batch_mem_accounts:
  "map_of (ms_accounts (write_batch_mem X now b s)) = apply_entries (wb_accounts b) (map_of (ms_accounts s))"
  "map_of (ms_state_roots (write_batch_mem X now b s)) = apply_roots (wb_state_roots b) (map_of (ms_state_roots s))"
  by (simp_all add: write_batch_mem_def map_of_fold_entries map_of_fold_roots split_beta
      fold_frame [where f = ms_accounts] fold_frame [where f = ms_state_roots])

lemma put_blocks_simps [simp]:
  "put_blocks [] m = m"
  "put_blocks (e # es) m = put_blocks es (m(fst e \<mapsto> snd e))"
  "put_blocks (es @ fs) m = put_blocks fs (put_blocks es m)"
  by (simp_all add: put_blocks_def split_beta)

lemma put_blocks_mono: "m \<subseteq>\<^sub>m m' \<Longrightarrow> put_blocks es m \<subseteq>\<^sub>m put_blocks es m'"
  by (induction es arbitrary: m m') (simp_all add: map_le_upd)

lemma numbered_simps [simp]:
  "numbered []" "numbered (e # es) \<longleftrightarrow> fst e = hdr_height (header (snd e)) \<and> numbered es"
  "numbered (es @ fs) \<longleftrightarrow> numbered es \<and> numbered fs"
  by (simp_all add: numbered_def split_beta)

lemma save_block_extends:
  "(\<lambda>h. get_block h s)(hdr_height (header b) \<mapsto> b) \<subseteq>\<^sub>m (\<lambda>h. get_block h (save_block X now b s))"
proof -
  have "unat h < length (ms_blocks s)" if "get_block h s = Some y" for h y
    using that by (simp add: get_block_def split: if_splits)
  then show ?thesis by (auto simp: map_le_def get_block_save_block)
qed

lemma get_block_frame: "ms_blocks s = ms_blocks s' \<Longrightarrow> get_block h s = get_block h s'"
  by (simp add: get_block_def)

lemma write_batch_mem_blocks:
  assumes "numbered (wb_blocks b)"
  shows "put_blocks (wb_blocks b) (\<lambda>h. get_block h s) \<subseteq>\<^sub>m (\<lambda>h. get_block h (write_batch_mem X now b s))"
proof -
  have "put_blocks es (\<lambda>h. get_block h s) \<subseteq>\<^sub>m (\<lambda>h. get_block h (fold (\<lambda>(_, blk). save_block X now blk) es s))"
    if "numbered es" for es
    using that
  proof (induction es arbitrary: s)
    case (Cons e es)
    have "put_blocks es ((\<lambda>h. get_block h s)(fst e \<mapsto> snd e)) \<subseteq>\<^sub>m put_blocks es (\<lambda>h. get_block h (save_block X now (snd e) s))"
      using Cons.prems save_block_extends [of s "snd e"] by (intro put_blocks_mono) simp
    also have "\<dots> \<subseteq>\<^sub>m (\<lambda>h. get_block h (fold (\<lambda>(_, blk). save_block X now blk) es (save_block X now (snd e) s)))"
      using Cons by simp
    finally show ?case by (cases e) simp
  qed simp
  note put = this
  have "ms_blocks (write_batch_mem X now b s) = ms_blocks (fold (\<lambda>(_, blk). save_block X now blk) (wb_blocks b) s)"
    by (simp add: write_batch_mem_def split_beta fold_frame [where f = ms_blocks])
  then have "(\<lambda>h. get_block h (write_batch_mem X now b s)) =
      (\<lambda>h. get_block h (fold (\<lambda>(_, blk). save_block X now blk) (wb_blocks b) s))"
    by (intro ext) (rule get_block_frame)
  then show ?thesis using put [OF assms] by (simp only:)
qed

interpretation mem: reliable_chain "memory_ops Y t" "\<lambda>s a. get_account a s" "\<lambda>s h. get_state_root h s" "\<lambda>s h. get_block h s"
  by unfold_locales
    (auto simp: memory_ops_def get_account_def get_state_root_def write_batch_mem_accounts write_batch_mem_blocks
      save_state_root_def save_account_def account_exists_def fun_eq_iff)

lemma memory_save_get_block:
  "get_block (hdr_height (header b)) (save_block X now b s) = Some b"
  by (simp add: get_block_save_block)

lemma get_latest_block_save_next:
  assumes "unat (hdr_height (header b)) \<ge> length (ms_blocks s) - 1"
  shows "get_latest_block (save_block X now b s) = Some b \<and>
         get_block_height (save_block X now b s) = hdr_height (header b)"
proof -
  let ?h = "unat (hdr_height (header b))"
  have len: "length (ms_blocks (save_block X now b s)) = ?h + 1"
    using assms by (simp add: length_save_block)
  then have "ms_blocks (save_block X now b s) \<noteq> []" by auto
  moreover from this have "last (ms_blocks (save_block X now b s)) = ms_blocks (save_block X now b s) ! ?h"
    by (simp add: last_conv_nth len)
  moreover have "ms_blocks (save_block X now b s) ! ?h = b"
    using memory_save_get_block [of b X now s] by (simp add: get_block_def split: if_splits)
  ultimately show ?thesis
    by (simp add: get_latest_block_def get_block_height_def len)
qed

end
