(* ===== verification/Vault_Fees.thy ===== *)
theory Vault_Fees
  imports Vault_Supply Storage_Ops
begin

text \<open>
  \<open>src/vault/fee.rs\<close>: the fee manager with its price, its history and totals; \<open>src/vault/sovereign.rs\<close>:
  the sovereign hook that freezes accounts and names audit records.

  The network load and the configured multipliers are finite; the congestion multiplier is a \<open>factor\<close>,
  because the update divides by the size of the mempool. \<open>serde_json\<close> is the record \<open>json_externals\<close>.
  The clock is read twice per action, so \<open>execute\<close> takes two times.
\<close>

section \<open>The fee manager\<close>

record fee_config =
  fg_base_fee :: u128
  fg_min_fee :: u128
  fg_fee_per_byte :: u128
  fg_congestion :: factor
  max_fee_multiplier :: f64

definition fee_config_default :: fee_config where
  "fee_config_default =
     \<lparr>fg_base_fee = 1000, fg_min_fee = 100, fg_fee_per_byte = 1, fg_congestion = Finite 1, max_fee_multiplier = 10\<rparr>"

record fee_record =
  fr_block_height :: block_height
  total_fee :: u128
  fr_burned :: u128
  to_validators :: u128
  to_genesis :: u128
  avg_fee_per_tx :: u128
  fr_tx_count :: usize
  fr_timestamp :: timestamp
  fr_phase :: supply_phase

record fee_manager =
  fm_config :: fee_config
  fee_history :: "fee_record list"
  total_fees_collected :: u128
  total_fees_burned :: u128
  total_fees_distributed :: u128

definition fee_manager_new :: "fee_config \<Rightarrow> fee_manager" where
  "fee_manager_new cfg =
     \<lparr>fm_config = cfg, fee_history = [], total_fees_collected = 0, total_fees_burned = 0, total_fees_distributed = 0\<rparr>"

text \<open>\<open>(load * congestion).min(limit)\<close>: the minimum with NaN is the other argument.\<close>

definition capped_multiplier :: "f64 \<Rightarrow> factor \<Rightarrow> f64 \<Rightarrow> f64 option" where
  "capped_multiplier load c limit =
     (case c of
        Finite x \<Rightarrow> Some (min (fl_mul load x) limit)
      | Infinite \<Rightarrow> if load < 0 then None else Some limit
      | NotANumber \<Rightarrow> Some limit)"

text \<open>None is minus infinity, whose product with a positive fee is cast to zero, as is NaN.\<close>

definition calculate_fee :: "usize \<Rightarrow> f64 \<Rightarrow> fee_manager \<Rightarrow> u128" where
  "calculate_fee sz network_load fm =
     (let config = fm_config fm;
          byte_fee = ucast sz * fg_fee_per_byte config;
          base_fee = max (max (fg_base_fee config) byte_fee) (fg_min_fee config);
          load_multiplier = fl_add 1 (fl_mul network_load 2)
      in case capped_multiplier load_multiplier (fg_congestion config) (max_fee_multiplier config) of
           Some multiplier \<Rightarrow> word_of_f64 (fl_mul (f64_of_word base_fee) multiplier)
         | None \<Rightarrow> 0)"

datatype vault_fee_priority = PriorityLow | PriorityNormal | PriorityHigh | PriorityUrgent

definition recommended_fee :: "usize \<Rightarrow> vault_fee_priority \<Rightarrow> fee_manager \<Rightarrow> u128" where
  "recommended_fee sz p fm =
     (let base = calculate_fee sz (1 / 2) fm
      in case p of PriorityLow \<Rightarrow> base div 2 | PriorityNormal \<Rightarrow> base | PriorityHigh \<Rightarrow> base * 2 | PriorityUrgent \<Rightarrow> base * 5)"

definition record_block_fees ::
    "timestamp \<Rightarrow> block_height \<Rightarrow> u128 \<Rightarrow> u128 \<Rightarrow> u128 \<Rightarrow> u128 \<Rightarrow> usize \<Rightarrow> fee_manager \<Rightarrow> fee_manager" where
  "record_block_fees now height fee burned validators genesis n fm =
     (let avg_fee = (if n > 0 then fee div ucast n else 0);
          r = \<lparr>fr_block_height = height, total_fee = fee, fr_burned = burned, to_validators = validators, to_genesis = genesis,
               avg_fee_per_tx = avg_fee, fr_tx_count = n, fr_timestamp = now, fr_phase = from_supply TOTAL_SUPPLY\<rparr>
      in fm\<lparr>fee_history := fee_history fm @ [r],
            total_fees_collected := total_fees_collected fm + fee,
            total_fees_burned := total_fees_burned fm + burned,
            total_fees_distributed := total_fees_distributed fm + (validators + genesis)\<rparr>)"

definition fm_update_congestion :: "nat \<Rightarrow> nat \<Rightarrow> fee_manager \<Rightarrow> fee_manager" where
  "fm_update_congestion mempool_size max_mempool fm =
     fm\<lparr>fm_config := (fm_config fm)\<lparr>fg_congestion := congestion_factor mempool_size max_mempool 3\<rparr>\<rparr>"

definition update_config :: "fee_config \<Rightarrow> fee_manager \<Rightarrow> fee_manager" where
  "update_config cfg fm = fm\<lparr>fm_config := cfg\<rparr>"

record fee_stats =
  fs_total_collected :: u128
  fs_total_burned :: u128
  fs_total_distributed :: u128
  current_base_fee :: u128
  current_congestion :: factor
  average_fee :: u128
  history_length :: nat

definition fm_stats :: "fee_manager \<Rightarrow> fee_stats" where
  "fm_stats fm =
     \<lparr>fs_total_collected = total_fees_collected fm, fs_total_burned = total_fees_burned fm,
      fs_total_distributed = total_fees_distributed fm, current_base_fee = fg_base_fee (fm_config fm),
      current_congestion = fg_congestion (fm_config fm),
      average_fee = (if fee_history fm = [] then 0
        else sum_list (map avg_fee_per_tx (fee_history fm)) div of_nat (length (fee_history fm))),
      history_length = length (fee_history fm)\<rparr>"

definition get_fees_in_range :: "block_height \<Rightarrow> block_height \<Rightarrow> fee_manager \<Rightarrow> fee_record list" where
  "get_fees_in_range start stop fm = filter (\<lambda>r. fr_block_height r \<ge> start \<and> fr_block_height r \<le> stop) (fee_history fm)"

section \<open>The sovereign hook\<close>

definition SOVEREIGN_ADDRESS :: address where "SOVEREIGN_ADDRESS = zero32"

datatype sovereign_action =
    Rollback u64
  | Freeze address
  | Unfreeze address
  | UpdateParameter string bytes
  | ManualBurn u128 string

record sovereign_record =
  sv_id :: hash
  sv_initiator :: address
  sv_action :: sovereign_action
  sv_block_height :: u64
  sv_timestamp :: timestamp
  sv_reason :: string
  multi_sig_proof :: "bytes option"

record json_externals =
  json_action :: "sovereign_action \<Rightarrow> string + bytes"
  json_record :: "sovereign_record \<Rightarrow> string + bytes"

record 's sovereign_hook =
  sh_storage :: 's
  frozen_accounts :: "(address \<times> bool) list"

definition sovereign_hook_new :: "'s \<Rightarrow> 's sovereign_hook" where
  "sovereign_hook_new st = \<lparr>sh_storage = st, frozen_accounts = []\<rparr>"

definition generate_record_id :: "externals \<Rightarrow> json_externals \<Rightarrow> timestamp \<Rightarrow> sovereign_action \<Rightarrow> u64 \<Rightarrow> hash" where
  "generate_record_id X J now act height =
     sha3_256 X (le_bytes height @ le_bytes now @ (case json_action J act of Inl msg \<Rightarrow> [] | Inr bs \<Rightarrow> bs))"

text \<open>The record is encoded and dropped; nothing is written to the storage.\<close>

definition save_record :: "json_externals \<Rightarrow> sovereign_record \<Rightarrow> unit pacyte_result" where
  "save_record J r = (case json_record J r of Inl msg \<Rightarrow> Inl (Internal msg) | Inr bs \<Rightarrow> Inr ())"

definition apply_action :: "sovereign_action \<Rightarrow> 's sovereign_hook \<Rightarrow> 's sovereign_hook" where
  "apply_action act sh =
     (case act of
        Freeze a \<Rightarrow> sh\<lparr>frozen_accounts := AList.update a True (frozen_accounts sh)\<rparr>
      | Unfreeze a \<Rightarrow> sh\<lparr>frozen_accounts := AList.delete a (frozen_accounts sh)\<rparr>
      | _ \<Rightarrow> sh)"

definition sovereign_execute ::
    "externals \<Rightarrow> json_externals \<Rightarrow> timestamp \<Rightarrow> timestamp \<Rightarrow> sovereign_action \<Rightarrow> u64 \<Rightarrow> string \<Rightarrow> 's sovereign_hook \<Rightarrow>
     hash pacyte_result \<times> 's sovereign_hook" where
  "sovereign_execute X J now1 now2 act height reason sh =
     (let sh1 = apply_action act sh;
          r = \<lparr>sv_id = generate_record_id X J now1 act height, sv_initiator = SOVEREIGN_ADDRESS, sv_action = act,
               sv_block_height = height, sv_timestamp = now2, sv_reason = reason, multi_sig_proof = None\<rparr>
      in case save_record J r of
           Inl e \<Rightarrow> (Inl e, sh1)
         | Inr _ \<Rightarrow> (Inr (sv_id r), sh1))"

definition is_frozen :: "address \<Rightarrow> 's sovereign_hook \<Rightarrow> bool" where
  "is_frozen a sh \<longleftrightarrow> map_of (frozen_accounts sh) a \<noteq> None"

section \<open>The totals\<close>

text \<open>A call of the fee manager.\<close>

datatype fee_call =
    RecordFees timestamp block_height u128 u128 u128 u128 usize
  | UpdateCongestion nat nat
  | UpdateConfig fee_config

fun fee_call_step :: "fee_call \<Rightarrow> fee_manager \<Rightarrow> fee_manager" where
  "fee_call_step (RecordFees now h t b v g n) fm = record_block_fees now h t b v g n fm"
| "fee_call_step (UpdateCongestion n m) fm = fm_update_congestion n m fm"
| "fee_call_step (UpdateConfig cfg) fm = update_config cfg fm"

fun split_exact :: "fee_call \<Rightarrow> bool" where
  "split_exact (RecordFees now h t b v g n) \<longleftrightarrow> t = b + v + g"
| "split_exact c \<longleftrightarrow> True"

definition totals_inv :: "fee_manager \<Rightarrow> bool" where
  "totals_inv fm \<longleftrightarrow>
     total_fees_collected fm = sum_list (map total_fee (fee_history fm)) \<and>
     total_fees_burned fm = sum_list (map fr_burned (fee_history fm)) \<and>
     total_fees_distributed fm = sum_list (map (\<lambda>r. to_validators r + to_genesis r) (fee_history fm))"

lemmas fee_call_defs = record_block_fees_def fm_update_congestion_def update_config_def Let_def

lemma fee_call_totals: "totals_inv fm \<Longrightarrow> totals_inv (fee_call_step c fm)"
  by (cases c) (simp_all add: totals_inv_def fee_call_defs)

lemma fee_call_split:
  "split_exact c \<Longrightarrow> total_fees_collected fm = total_fees_burned fm + total_fees_distributed fm \<Longrightarrow>
   total_fees_collected (fee_call_step c fm) = total_fees_burned (fee_call_step c fm) + total_fees_distributed (fee_call_step c fm)"
  by (cases c) (simp_all add: fee_call_defs)

text \<open>
  After any calls the totals of the fee manager are the sums over its history, modulo \<open>2 ^ 128\<close>; and when every recorded
  block splits its fee exactly, what was collected is what was burned plus what was distributed.
\<close>

theorem fee_totals_exact:
  "totals_inv (fold fee_call_step cs (fee_manager_new cfg)) \<and>
   (list_all split_exact cs \<longrightarrow>
      total_fees_collected (fold fee_call_step cs (fee_manager_new cfg)) =
        total_fees_burned (fold fee_call_step cs (fee_manager_new cfg)) +
        total_fees_distributed (fold fee_call_step cs (fee_manager_new cfg)))"
proof (induction cs rule: rev_induct)
  case (snoc c cs)
  then show ?case using fee_call_totals fee_call_split by (auto simp: list_all_append)
qed (simp add: totals_inv_def fee_manager_new_def)

theorem fee_totals_exact_witness:
  "total_fees_collected (fold fee_call_step [RecordFees 1 1 100 60 30 10 2, UpdateCongestion 5 0] (fee_manager_new fee_config_default)) =
     total_fees_burned (fold fee_call_step [RecordFees 1 1 100 60 30 10 2, UpdateCongestion 5 0] (fee_manager_new fee_config_default)) +
     total_fees_distributed (fold fee_call_step [RecordFees 1 1 100 60 30 10 2, UpdateCongestion 5 0] (fee_manager_new fee_config_default))"
  using fee_totals_exact [of "[RecordFees 1 1 100 60 30 10 2, UpdateCongestion 5 0]" fee_config_default]
  by simp

text \<open>With an empty mempool of size zero the multiplier is NaN and the price jumps to the maximum.\<close>

lemma congestion_nan_charges_maximum:
  "calculate_fee sz load (fm_update_congestion 0 0 fm) =
     word_of_f64 (fl_mul (f64_of_word (max (max (fg_base_fee (fm_config fm)) (ucast sz * fg_fee_per_byte (fm_config fm)))
       (fg_min_fee (fm_config fm)))) (max_fee_multiplier (fm_config fm)))"
  by (simp add: calculate_fee_def capped_multiplier_def fm_update_congestion_def congestion_factor_def Let_def)

section \<open>Which accounts are frozen\<close>

text \<open>The specification: the set of frozen accounts.\<close>

fun frozen_after :: "sovereign_action \<Rightarrow> address set \<Rightarrow> address set" where
  "frozen_after (Freeze a) A = insert a A"
| "frozen_after (Unfreeze a) A = A - {a}"
| "frozen_after act A = A"

definition frozen_set :: "'s sovereign_hook \<Rightarrow> address set" where
  "frozen_set sh = {a. is_frozen a sh}"

lemma frozen_set_apply: "frozen_set (apply_action act sh) = frozen_after act (frozen_set sh)"
  by (cases act) (auto simp: frozen_set_def is_frozen_def apply_action_def update_conv delete_conv)

lemma snd_sovereign_execute: "snd (sovereign_execute X J now1 now2 act height reason sh) = apply_action act sh"
  by (simp add: sovereign_execute_def Let_def split: sum.split)

text \<open>
  The sovereign hook refines a set of frozen accounts: every action, whether or not its record
  could be encoded, changes the set as it says, and the storage is never written.
\<close>

theorem sovereign_refines_set:
  "frozen_set (fold (\<lambda>(now1, now2, act, height, reason) sh. snd (sovereign_execute X J now1 now2 act height reason sh)) calls
       (sovereign_hook_new st)) =
     fold (\<lambda>(now1, now2, act, height, reason). frozen_after act) calls {} \<and>
   sh_storage (fold (\<lambda>(now1, now2, act, height, reason) sh. snd (sovereign_execute X J now1 now2 act height reason sh)) calls
       (sovereign_hook_new st)) = st"
proof (induction calls rule: rev_induct)
  case (snoc c calls)
  obtain now1 now2 act height reason where c: "c = (now1, now2, act, height, reason)" by (cases c)
  have "sh_storage (apply_action act sh) = sh_storage sh" for sh :: "'a sovereign_hook"
    by (cases act) (simp_all add: apply_action_def)
  with snoc show ?case by (simp add: c snd_sovereign_execute frozen_set_apply)
qed (simp add: frozen_set_def is_frozen_def sovereign_hook_new_def)

end
