(* ===== verification/Consensus_Validators.thy ===== *)
theory Consensus_Validators
  imports Core_Types
begin

text \<open>
  \<open>src/consensus/mod.rs\<close> (configuration, proposals, votes, the validator set with its proposer
  rotation) and \<open>src/consensus/validator.rs\<close> (validator records and \<open>ValidatorManager\<close>).

  The CPUID probe of \<open>check_hardware_features\<close> is the parameter \<open>hw\<close> of the operations that call
  it: whether the features were read and whether the required AVX-512 subset is present.
  Several operations of the manager call another one while they hold a lock; they carry the
  guards of the thread, and \<open>Blocked\<close> is the call that waits for a lock its own thread holds.
  The probe itself and the merit scores of \<open>TitanNode\<close> are in \<open>Consensus_Titan\<close>.
\<close>

section \<open>Configuration, proposals and votes\<close>

record consensus_config =
  max_block_size :: usize
  validator_count :: usize
  cfg_quorum_size :: usize
  block_time_target_ms :: u64
  proposal_timeout_ms :: u64
  vote_timeout_ms :: u64
  cfg_round_timeout_ms :: u64
  max_rounds :: u64
  sync_timeout_ms :: u64

definition consensus_config_default :: consensus_config where
  "consensus_config_default =
     \<lparr>max_block_size = 1000000, validator_count = 21, cfg_quorum_size = 15, block_time_target_ms = 1000,
      proposal_timeout_ms = 3000, vote_timeout_ms = 2000, cfg_round_timeout_ms = 4000, max_rounds = 10,
      sync_timeout_ms = 10000\<rparr>"

definition quorum_size :: "consensus_config \<Rightarrow> usize" where
  "quorum_size cfg = (validator_count cfg * 2 div 3) + 1"

definition is_quorum :: "consensus_config \<Rightarrow> usize \<Rightarrow> bool" where
  "is_quorum cfg votes \<longleftrightarrow> votes \<ge> quorum_size cfg"

datatype consensus_state = Idle | Proposing | Prevoting | Precommitting | Committed | WaitingForBlock | Syncing

datatype vote_type = Prevote | Precommit

fun vote_type_byte :: "vote_type \<Rightarrow> u8" where
  "vote_type_byte Prevote = 1"
| "vote_type_byte Precommit = 2"

record proposal =
  prop_height :: block_height
  prop_round :: u64
  prop_block :: block
  prop_proposer :: u64
  prop_signature :: signature
  prop_timestamp :: timestamp

definition proposal_new :: "timestamp \<Rightarrow> block_height \<Rightarrow> u64 \<Rightarrow> block \<Rightarrow> u64 \<Rightarrow> proposal" where
  "proposal_new now h r b p =
     \<lparr>prop_height = h, prop_round = r, prop_block = b, prop_proposer = p, prop_signature = [],
      prop_timestamp = now\<rparr>"

definition proposal_hash :: "externals \<Rightarrow> proposal \<Rightarrow> hash" where
  "proposal_hash X p = block_hash X (prop_block p)"

definition proposal_sign :: "signature \<Rightarrow> proposal \<Rightarrow> proposal" where
  "proposal_sign sig p = p\<lparr>prop_signature := sig\<rparr>"

definition proposal_signing_hash :: "externals \<Rightarrow> proposal \<Rightarrow> hash" where
  "proposal_signing_hash X p =
     sha3_256 X (le_bytes (prop_height p) @ le_bytes (prop_round p) @ block_hash X (prop_block p) @
                 le_bytes (prop_proposer p) @ le_bytes (prop_timestamp p))"

record vote =
  vote_height :: block_height
  vote_round :: u64
  vote_block_hash :: hash
  voter :: u64
  vote_kind :: vote_type
  vote_signature :: signature
  vote_timestamp :: timestamp

definition vote_new :: "timestamp \<Rightarrow> block_height \<Rightarrow> u64 \<Rightarrow> hash \<Rightarrow> u64 \<Rightarrow> vote_type \<Rightarrow> vote" where
  "vote_new now h r bh v ty =
     \<lparr>vote_height = h, vote_round = r, vote_block_hash = bh, voter = v, vote_kind = ty,
      vote_signature = [], vote_timestamp = now\<rparr>"

definition vote_sign :: "signature \<Rightarrow> vote \<Rightarrow> vote" where
  "vote_sign sig v = v\<lparr>vote_signature := sig\<rparr>"

definition vote_signing_preimage :: "vote \<Rightarrow> bytes" where
  "vote_signing_preimage v =
     le_bytes (vote_height v) @ le_bytes (vote_round v) @ vote_block_hash v @ le_bytes (voter v) @
     [vote_type_byte (vote_kind v)] @ le_bytes (vote_timestamp v)"

definition vote_signing_hash :: "externals \<Rightarrow> vote \<Rightarrow> hash" where
  "vote_signing_hash X v = sha3_256 X (vote_signing_preimage v)"

section \<open>The validator set\<close>

record validator_info =
  vi_id :: u64
  vi_address :: address
  vi_public_key :: bytes
  vi_stake :: u128
  vi_voting_power :: u64
  vi_is_active :: bool

record validator_set =
  set_validators :: "validator_info list"
  total_stake :: u128
  set_epoch :: u64

definition validator_set_new :: validator_set where
  "validator_set_new = \<lparr>set_validators = [], total_stake = 0, set_epoch = 0\<rparr>"

definition add_validator :: "validator_info \<Rightarrow> validator_set \<Rightarrow> validator_set" where
  "add_validator info s =
     s\<lparr>total_stake := total_stake s + vi_stake info, set_validators := set_validators s @ [info]\<rparr>"

definition set_get_validator :: "u64 \<Rightarrow> validator_set \<Rightarrow> validator_info option" where
  "set_get_validator i s = find (\<lambda>v. vi_id v = i) (set_validators s)"

definition set_get_proposer :: "block_height \<Rightarrow> u64 \<Rightarrow> validator_set \<Rightarrow> validator_info option" where
  "set_get_proposer h r s =
     (if set_validators s = [] then None
      else let index = unat (h + r) mod length (set_validators s)
           in if index < length (set_validators s) then Some (set_validators s ! index) else None)"

definition set_is_proposer :: "u64 \<Rightarrow> block_height \<Rightarrow> u64 \<Rightarrow> validator_set \<Rightarrow> bool" where
  "set_is_proposer i h r s = (case set_get_proposer h r s of Some v \<Rightarrow> vi_id v = i | None \<Rightarrow> False)"

definition total_voting_power :: "validator_set \<Rightarrow> u64" where
  "total_voting_power s = sum_list (map vi_voting_power (set_validators s))"

definition quorum_voting_power :: "validator_set \<Rightarrow> u64" where
  "quorum_voting_power s = (total_voting_power s * 2 div 3) + 1"

definition active_validators :: "validator_set \<Rightarrow> validator_info list" where
  "active_validators s = filter vi_is_active (set_validators s)"

definition set_active_count :: "validator_set \<Rightarrow> nat" where
  "set_active_count s = length (filter vi_is_active (set_validators s))"

section \<open>Validator records\<close>

datatype validator_status = Active | Inactive | Jailed | Slashed | Unbonding

record validator_record =
  vr_id :: u64
  vr_address :: address
  vr_public_key :: bytes
  vr_stake :: u128
  vr_voting_power :: u64
  vr_status :: validator_status
  joined_at :: timestamp
  last_active :: timestamp
  total_blocks_proposed :: u64
  total_votes_cast :: u64
  missed_blocks :: u64
  slashed_amount :: u128
  commission_rate :: u8
  delegators :: "(address \<times> u128) list"
  hardware_verified :: bool
  avx512_supported :: bool

definition MIN_VALIDATOR_STAKE :: u128 where "MIN_VALIDATOR_STAKE = 1000000000000"
definition MAX_VALIDATORS :: nat where "MAX_VALIDATORS = 21"

definition calculate_voting_power :: "u128 \<Rightarrow> u64" where
  "calculate_voting_power stk = ucast (stk div 1000000)"

definition validator_record_new ::
    "bool \<times> bool \<Rightarrow> timestamp \<Rightarrow> u64 \<Rightarrow> address \<Rightarrow> bytes \<Rightarrow> u128 \<Rightarrow> validator_record" where
  "validator_record_new hw now i addr key stk =
     \<lparr>vr_id = i, vr_address = addr, vr_public_key = key, vr_stake = stk,
      vr_voting_power = calculate_voting_power stk, vr_status = Active, joined_at = now, last_active = now,
      total_blocks_proposed = 0, total_votes_cast = 0, missed_blocks = 0, slashed_amount = 0,
      commission_rate = 10, delegators = [], hardware_verified = fst hw, avx512_supported = snd hw\<rparr>"

definition update_voting_power :: "validator_record \<Rightarrow> validator_record" where
  "update_voting_power v = v\<lparr>vr_voting_power := calculate_voting_power (vr_stake v)\<rparr>"

definition add_delegation :: "address \<Rightarrow> u128 \<Rightarrow> validator_record \<Rightarrow> validator_record" where
  "add_delegation d amount v =
     (let entry = (case map_of (delegators v) d of Some e \<Rightarrow> e | None \<Rightarrow> 0)
      in update_voting_power
           (v\<lparr>delegators := AList.update d (saturating_add entry amount) (delegators v),
              vr_stake := saturating_add (vr_stake v) amount\<rparr>))"

definition remove_delegation ::
    "address \<Rightarrow> u128 \<Rightarrow> validator_record \<Rightarrow> u128 pacyte_result \<times> validator_record" where
  "remove_delegation d amount v =
     (case map_of (delegators v) d of
        None \<Rightarrow> (Inl (AccountNotFound (debug_bytes d)), v)
      | Some entry \<Rightarrow>
          if entry < amount then (Inl (InsufficientBalance amount entry), v)
          else (Inr amount, update_voting_power
                 (v\<lparr>delegators := AList.update d (entry - amount) (delegators v),
                    vr_stake := saturating_sub (vr_stake v) amount\<rparr>)))"

definition record_block_proposed :: "timestamp \<Rightarrow> validator_record \<Rightarrow> validator_record" where
  "record_block_proposed now v = v\<lparr>total_blocks_proposed := total_blocks_proposed v + 1, last_active := now\<rparr>"

definition record_vote_cast :: "timestamp \<Rightarrow> validator_record \<Rightarrow> validator_record" where
  "record_vote_cast now v = v\<lparr>total_votes_cast := total_votes_cast v + 1, last_active := now\<rparr>"

definition record_missed_block :: "validator_record \<Rightarrow> validator_record" where
  "record_missed_block v =
     (let v1 = v\<lparr>missed_blocks := missed_blocks v + 1\<rparr>
      in if missed_blocks v1 \<ge> 50 then v1\<lparr>vr_status := Jailed\<rparr> else v1)"

definition record_slash :: "u128 \<Rightarrow> validator_record \<Rightarrow> unit pacyte_result \<times> validator_record" where
  "record_slash amount v =
     (if amount > vr_stake v then (Inl (InsufficientBalance amount (vr_stake v)), v)
      else let v1 = update_voting_power
                      (v\<lparr>vr_stake := vr_stake v - amount, slashed_amount := slashed_amount v + amount\<rparr>)
           in (Inr (), if vr_stake v1 < MIN_VALIDATOR_STAKE then v1\<lparr>vr_status := Inactive\<rparr> else v1))"

definition vr_is_active :: "validator_record \<Rightarrow> bool" where
  "vr_is_active v \<longleftrightarrow> vr_status v = Active"

section \<open>The validator manager\<close>

datatype validator_lock = ValidatorsLock | AddressLock | NextIdLock | CurrentSetLock | EpochLock

record validator_manager =
  validators :: "(u64 \<times> validator_record) list"
  address_to_id :: "(address \<times> u64) list"
  next_validator_id :: u64
  current_set :: validator_set
  epoch :: u64
  epoch_start_height :: block_height

definition validator_manager_new :: validator_manager where
  "validator_manager_new =
     \<lparr>validators = [], address_to_id = [], next_validator_id = 1, current_set = validator_set_new,
      epoch = 0, epoch_start_height = 0\<rparr>"

definition info_of :: "validator_record \<Rightarrow> validator_info" where
  "info_of v = \<lparr>vi_id = vr_id v, vi_address = vr_address v, vi_public_key = vr_public_key v,
                vi_stake = vr_stake v, vi_voting_power = vr_voting_power v, vi_is_active = True\<rparr>"

text \<open>The set built from the records: the active, equipped ones by falling stake, at most 21.\<close>

definition ranked :: "validator_record list \<Rightarrow> validator_record list" where
  "ranked vs = sort_key (\<lambda>v. - int (unat (vr_stake v)))
                 (filter (\<lambda>v. vr_status v = Active \<and> avx512_supported v) vs)"

definition built_set :: "validator_manager \<Rightarrow> validator_set" where
  "built_set m =
     fold (\<lambda>v. add_validator (info_of v)) (take MAX_VALIDATORS (ranked (map snd (validators m))))
       (validator_set_new\<lparr>set_epoch := epoch m\<rparr>)"

definition update_validator_set ::
    "validator_lock guards \<Rightarrow> validator_manager \<Rightarrow> validator_manager outcome" where
  "update_validator_set gs m =
     (if \<not> may_read gs ValidatorsLock then Blocked
      else if \<not> may_read ((ValidatorsLock, ReadGuard) # gs) EpochLock then Blocked
      else if \<not> may_write ((ValidatorsLock, ReadGuard) # gs) CurrentSetLock then Blocked
      else Returned (m\<lparr>current_set := built_set m\<rparr>))"

definition min_active :: "validator_record list \<Rightarrow> validator_record option" where
  "min_active vs =
     (case filter (\<lambda>v. vr_status v = Active) vs of
        [] \<Rightarrow> None
      | v # rest \<Rightarrow> Some (fold (\<lambda>w best. if vr_stake w < vr_stake best then w else best) rest v))"

text \<open>From the new id on, with the locks the caller holds.\<close>

definition insert_validator ::
    "bool \<times> bool \<Rightarrow> timestamp \<Rightarrow> address \<Rightarrow> bytes \<Rightarrow> u128 \<Rightarrow> validator_manager \<Rightarrow> u64 \<times> validator_manager" where
  "insert_validator hw now addr key stk m =
     (let i = next_validator_id m
      in (i, m\<lparr>next_validator_id := i + 1,
              validators := AList.update i (validator_record_new hw now i addr key stk) (validators m),
              address_to_id := AList.update addr i (address_to_id m)\<rparr>))"

definition replace_validator ::
    "validator_lock guards \<Rightarrow> bool \<times> bool \<Rightarrow> timestamp \<Rightarrow> address \<Rightarrow> bytes \<Rightarrow> u128 \<Rightarrow> validator_manager \<Rightarrow>
     (u64 pacyte_result \<times> validator_manager) outcome" where
  "replace_validator gs hw now addr key stk m =
     (if \<not> may_write gs ValidatorsLock then Blocked
      else case min_active (map snd (validators m)) of
             None \<Rightarrow> Returned (Inl ValidatorSetFull, m)
           | Some min_v \<Rightarrow>
               if stk > vr_stake min_v then
                 let old_id = vr_id min_v;
                     m1 = (case map_of (validators m) old_id of
                             Some old \<Rightarrow> m\<lparr>validators := AList.update old_id (old\<lparr>vr_status := Inactive\<rparr>) (validators m)\<rparr>
                           | None \<Rightarrow> m);
                     (i, m2) = insert_validator hw now addr key stk m1
                 in case update_validator_set ((ValidatorsLock, WriteGuard) # gs) m2 of
                      Blocked \<Rightarrow> Blocked
                    | Returned m3 \<Rightarrow> Returned (Inr i, m3)
               else Returned (Inl ValidatorSetFull, m))"

definition vm_register_validator ::
    "bool \<times> bool \<Rightarrow> timestamp \<Rightarrow> address \<Rightarrow> bytes \<Rightarrow> u128 \<Rightarrow> validator_manager \<Rightarrow>
     (u64 pacyte_result \<times> validator_manager) outcome" where
  "vm_register_validator hw now addr key stk m =
     (if \<not> snd hw then Returned (Inl HardwareInsufficient, m)
      else if stk < MIN_VALIDATOR_STAKE then Returned (Inl (InsufficientStake stk MIN_VALIDATOR_STAKE), m)
      else if map_of (address_to_id m) addr \<noteq> None then Returned (Inl ValidatorAlreadyExists, m)
      else if length (filter (\<lambda>v. vr_status v = Active) (map snd (validators m))) \<ge> MAX_VALIDATORS
      then replace_validator [(ValidatorsLock, ReadGuard)] hw now addr key stk m
      else let (i, m1) = insert_validator hw now addr key stk m
           in case update_validator_set [] m1 of
                Blocked \<Rightarrow> Blocked
              | Returned m2 \<Rightarrow> Returned (Inr i, m2))"

definition vm_get_validator :: "u64 \<Rightarrow> validator_manager \<Rightarrow> validator_record option" where
  "vm_get_validator i m = map_of (validators m) i"

definition get_validator_by_address :: "address \<Rightarrow> validator_manager \<Rightarrow> validator_record option" where
  "get_validator_by_address a m =
     (case map_of (address_to_id m) a of None \<Rightarrow> None | Some i \<Rightarrow> vm_get_validator i m)"

definition vm_get_proposer :: "block_height \<Rightarrow> u64 \<Rightarrow> validator_manager \<Rightarrow> u64 option" where
  "vm_get_proposer h r m = map_option vi_id (set_get_proposer h r (current_set m))"

definition vm_active_count :: "validator_manager \<Rightarrow> nat" where
  "vm_active_count m = set_active_count (current_set m)"

definition vm_slash ::
    "u64 \<Rightarrow> u128 \<Rightarrow> validator_manager \<Rightarrow> (unit pacyte_result \<times> validator_manager) outcome" where
  "vm_slash i amount m =
     (case map_of (validators m) i of
        None \<Rightarrow> Returned (Inl (ValidatorNotFound i), m)
      | Some v \<Rightarrow>
          (case record_slash amount v of
             (Inl e, _) \<Rightarrow> Returned (Inl e, m)
           | (Inr _, v1) \<Rightarrow>
               let m1 = m\<lparr>validators := AList.update i v1 (validators m)\<rparr>
               in if vr_status v1 = Inactive
                  then case update_validator_set [(ValidatorsLock, WriteGuard)] m1 of
                         Blocked \<Rightarrow> Blocked | Returned m2 \<Rightarrow> Returned (Inr (), m2)
                  else Returned (Inr (), m1)))"

definition slash_double_sign ::
    "u64 \<Rightarrow> validator_manager \<Rightarrow> (unit pacyte_result \<times> validator_manager) outcome" where
  "slash_double_sign i m =
     (case map_of (validators m) i of
        None \<Rightarrow> Returned (Inl (ValidatorNotFound i), m)
      | Some v \<Rightarrow>
          (case record_slash (vr_stake v div 20) v of
             (Inl e, _) \<Rightarrow> Returned (Inl e, m)
           | (Inr _, v1) \<Rightarrow>
               let m1 = m\<lparr>validators := AList.update i (v1\<lparr>vr_status := Slashed\<rparr>) (validators m)\<rparr>
               in case update_validator_set [(ValidatorsLock, WriteGuard)] m1 of
                    Blocked \<Rightarrow> Blocked | Returned m2 \<Rightarrow> Returned (Inr (), m2)))"

section \<open>Quorums and proposers\<close>

lemma unat_quorum_size:
  assumes "2 * unat (validator_count cfg) < 2 ^ 64"
  shows "unat (quorum_size cfg) = 2 * unat (validator_count cfg) div 3 + 1"
proof -
  have "unat (validator_count cfg * 2) = unat (validator_count cfg) * 2"
    using assms by (simp add: unat_word_ariths)
  then have d: "unat (validator_count cfg * 2 div 3) = unat (validator_count cfg) * 2 div 3"
    by (simp add: unat_div)
  have "unat (validator_count cfg) * 2 div 3 + 1 < 2 ^ 64"
    using assms by simp
  then show ?thesis
    unfolding quorum_size_def by (subst unat_add_no_overflow) (simp_all add: d mult.commute)
qed

text \<open>
  C16. Quorum intersection: two sets of validators that each reach the quorum of the
  configuration share more than a third of the validators, so with fewer than a third faulty
  they share a correct one. A quorum never needs more votes than there are validators.
\<close>

theorem quorum_intersection:
  assumes "2 * unat (validator_count cfg) < 2 ^ 64" "finite V" "card V = unat (validator_count cfg)"
    and "A \<subseteq> V" "B \<subseteq> V" "is_quorum cfg (of_nat (card A))" "is_quorum cfg (of_nat (card B))"
  shows "3 * card (A \<inter> B) > unat (validator_count cfg) \<and>
         (0 < unat (validator_count cfg) \<longrightarrow> unat (quorum_size cfg) \<le> unat (validator_count cfg))"
proof -
  let ?n = "unat (validator_count cfg)"
  note q = unat_quorum_size [OF assms(1)]
  have fin: "finite A" "finite B" and le: "card A \<le> ?n" "card B \<le> ?n"
    using assms(2-5) by (metis card_mono finite_subset)+
  have "?n < 2 ^ 64" using unat_bound [of "validator_count cfg"] by simp
  then have "2 * ?n div 3 + 1 \<le> card A" "2 * ?n div 3 + 1 \<le> card B"
    using assms(6,7) le by (simp_all add: is_quorum_def word_le_nat_alt q unat_of_nat)
  moreover have "card (A \<union> B) \<le> ?n"
    using assms(2-5) by (metis Un_least card_mono)
  moreover have "card A + card B = card (A \<union> B) + card (A \<inter> B)"
    using fin by (rule card_Un_Int)
  ultimately show ?thesis unfolding q by auto
qed

theorem quorum_intersection_witness:
  "is_quorum consensus_config_default 15 \<and> 3 * card ({0..<15::nat} \<inter> {6..<21}) > 21"
proof -
  have q: "is_quorum consensus_config_default 15"
    by (simp add: is_quorum_def quorum_size_def consensus_config_default_def)
  show ?thesis
    using quorum_intersection [of consensus_config_default "{0..<21::nat}" "{0..<15}" "{6..<21}"] q
    by (simp add: consensus_config_default_def)
qed

lemma mset_rotate: "mset (rotate n xs) = mset xs"
  by (metis append_take_drop_id mset_append rotate_drop_take union_commute)

text \<open>
  C17. The proposer rotates fairly: over as many consecutive rounds of a height as there are
  validators, every validator of the set is the proposer exactly once (as long as the sum of
  height and round does not wrap).
\<close>

theorem proposer_rotation:
  assumes "unat h + unat r + length (set_validators s) < 2 ^ 64" "set_validators s \<noteq> []"
  shows "mset (map (\<lambda>k. set_get_proposer h (r + of_nat k) s) [0..<length (set_validators s)]) =
         image_mset Some (mset (set_validators s))"
proof -
  let ?vs = "set_validators s" and ?n = "length (set_validators s)" and ?a = "unat h + unat r"
  have at: "set_get_proposer h (r + of_nat k) s = Some (rotate ?a ?vs ! k)" if "k < ?n" for k
  proof -
    have k: "unat (of_nat k :: u64) = k"
      using assms(1) that by (simp add: unat_of_nat)
    then have "unat (r + of_nat k) = unat r + k"
      using assms(1) that by (subst unat_add_no_overflow) simp_all
    then have "unat (h + (r + of_nat k)) = ?a + k"
      using assms(1) that by (subst unat_add_no_overflow) simp_all
    then show ?thesis
      using assms(2) that by (simp add: set_get_proposer_def Let_def nth_rotate)
  qed
  have "map (\<lambda>k. set_get_proposer h (r + of_nat k) s) [0..<?n] = map Some (rotate ?a ?vs)"
    by (rule nth_equalityI) (auto simp: at)
  then show ?thesis by (simp add: mset_rotate)
qed

theorem proposer_rotation_witness:
  "let i = (\<lambda>n. \<lparr>vi_id = n, vi_address = [], vi_public_key = [], vi_stake = 0, vi_voting_power = 0, vi_is_active = True\<rparr>);
       s = \<lparr>set_validators = [i 1, i 2, i 3], total_stake = 0, set_epoch = 0\<rparr>
   in mset (map (\<lambda>k. set_get_proposer 7 (0 + of_nat k) s) [0..<3]) = {#Some (i 1), Some (i 2), Some (i 3)#}"
proof -
  let ?i = "\<lambda>n. \<lparr>vi_id = n, vi_address = [], vi_public_key = [], vi_stake = 0, vi_voting_power = 0, vi_is_active = True\<rparr>"
  let ?s = "\<lparr>set_validators = [?i 1, ?i 2, ?i 3], total_stake = 0, set_epoch = 0\<rparr>"
  show ?thesis
    using proposer_rotation [of 7 0 ?s] by (simp add: Let_def numeral_3_eq_3)
qed

section \<open>The selected set\<close>

lemma fold_add_validator:
  "set_validators (fold (\<lambda>v. add_validator (info_of v)) vs s) = set_validators s @ map info_of vs"
  "total_stake (fold (\<lambda>v. add_validator (info_of v)) vs s) = total_stake s + sum_list (map vr_stake vs)"
  "set_epoch (fold (\<lambda>v. add_validator (info_of v)) vs s) = set_epoch s"
  by (induction vs arbitrary: s) (simp_all add: add_validator_def info_of_def)

lemma built_set_parts:
  "set_validators (built_set m) = map info_of (take MAX_VALIDATORS (ranked (map snd (validators m))))"
  "total_stake (built_set m) = sum_list (map vr_stake (take MAX_VALIDATORS (ranked (map snd (validators m)))))"
  by (simp_all add: built_set_def fold_add_validator validator_set_new_def)

lemma ranked_falling:
  assumes "i < j" "j < length (ranked vs)"
  shows "vr_stake (ranked vs ! j) \<le> vr_stake (ranked vs ! i)"
proof -
  let ?k = "\<lambda>v. - int (unat (vr_stake v))"
  have "sorted (map ?k (ranked vs))" by (simp add: ranked_def)
  then have "?k (ranked vs ! i) \<le> ?k (ranked vs ! j)"
    using assms by (metis (no_types, lifting) length_map less_imp_le nth_map order_less_trans sorted_nth_mono)
  then show ?thesis by (simp add: word_le_def)
qed


text \<open>
  Slashing that changes the set never returns: \<open>update_validator_set\<close> reads the validators
  that the slashing call holds locked for writing. \<open>slash_double_sign\<close> therefore blocks for every known
  validator, \<open>slash\<close> exactly when the validator ends up inactive, and registering a validator
  when 21 are active blocks as well, since \<open>replace_validator\<close> asks for the write lock under the caller's
  read guard.
\<close>

theorem slashing_deadlocks:
  "slash_double_sign i m =
     (case vm_get_validator i m of None \<Rightarrow> Returned (Inl (ValidatorNotFound i), m) | Some v \<Rightarrow> Blocked) \<and>
   vm_slash i amount m =
     (case vm_get_validator i m of
        None \<Rightarrow> Returned (Inl (ValidatorNotFound i), m)
      | Some v \<Rightarrow>
          if vr_stake v < amount then Returned (Inl (InsufficientBalance amount (vr_stake v)), m)
          else if vr_stake v - amount < MIN_VALIDATOR_STAKE \<or> vr_status v = Inactive then Blocked
          else Returned (Inr (), m\<lparr>validators := AList.update i (snd (record_slash amount v)) (validators m)\<rparr>)) \<and>
   (vm_register_validator hw now addr key stk m = Blocked \<longleftrightarrow>
      snd hw \<and> MIN_VALIDATOR_STAKE \<le> stk \<and> map_of (address_to_id m) addr = None \<and>
      21 \<le> length (filter (\<lambda>v. vr_status v = Active) (map snd (validators m))))"
proof -
  have "\<not> vr_stake v < vr_stake v div 20" for v :: validator_record
    by (simp add: word_less_nat_alt unat_div div_le_dividend not_less)
  then have "slash_double_sign i m =
     (case vm_get_validator i m of None \<Rightarrow> Returned (Inl (ValidatorNotFound i), m) | Some v \<Rightarrow> Blocked)"
    by (auto simp: slash_double_sign_def vm_get_validator_def record_slash_def update_validator_set_def Let_def
        split: option.splits)
  moreover have "vm_slash i amount m =
     (case vm_get_validator i m of
        None \<Rightarrow> Returned (Inl (ValidatorNotFound i), m)
      | Some v \<Rightarrow>
          if vr_stake v < amount then Returned (Inl (InsufficientBalance amount (vr_stake v)), m)
          else if vr_stake v - amount < MIN_VALIDATOR_STAKE \<or> vr_status v = Inactive then Blocked
          else Returned (Inr (), m\<lparr>validators := AList.update i (snd (record_slash amount v)) (validators m)\<rparr>))"
    by (auto simp: vm_slash_def vm_get_validator_def record_slash_def update_voting_power_def
        update_validator_set_def Let_def split: option.splits)
  moreover have "vm_register_validator hw now addr key stk m = Blocked \<longleftrightarrow>
      snd hw \<and> MIN_VALIDATOR_STAKE \<le> stk \<and> map_of (address_to_id m) addr = None \<and>
      21 \<le> length (filter (\<lambda>v. vr_status v = Active) (map snd (validators m)))"
    by (auto simp: vm_register_validator_def replace_validator_def update_validator_set_def insert_validator_def
        MAX_VALIDATORS_def Let_def not_less)
  ultimately show ?thesis by blast
qed

end
