(* ===== verification/Consensus_Votes.thy ===== *)
theory Consensus_Votes
  imports Consensus_Validators
begin

text \<open>
  \<open>src/consensus/vote.rs\<close> (collection of votes, \<open>VoteManager\<close> and \<open>VoteAggregator\<close>) and
  \<open>src/consensus/safety.rs\<close> (the locking rules). The validator manager they share is a field of their
  state. \<open>store_vote\<close> holds the votes locked for writing and calls \<open>check_quorum\<close>, which
  reads them; the outcome \<open>Blocked\<close> is the call that waits for its own lock.
\<close>

section \<open>The vote manager\<close>

datatype vote_lock = VotesLock | SeenVotesLock

record round_votes =
  rv_round :: u64
  prevotes :: "(hash \<times> vote list) list"
  precommits :: "(hash \<times> vote list) list"

definition round_votes_new :: "u64 \<Rightarrow> round_votes" where
  "round_votes_new r = \<lparr>rv_round = r, prevotes = [], precommits = []\<rparr>"

type_synonym vote_key = "block_height \<times> u64 \<times> u8 \<times> u64"

record vote_manager =
  vom_validators :: validator_manager
  votes :: "(block_height \<times> round_votes) list"
  seen_votes :: "vote_key list"

definition vote_manager_new :: "validator_manager \<Rightarrow> vote_manager" where
  "vote_manager_new m = \<lparr>vom_validators = m, votes = [], seen_votes = []\<rparr>"

definition vote_map :: "vote_type \<Rightarrow> round_votes \<Rightarrow> (hash \<times> vote list) list" where
  "vote_map ty rv = (case ty of Prevote \<Rightarrow> prevotes rv | Precommit \<Rightarrow> precommits rv)"

definition set_vote_map :: "vote_type \<Rightarrow> (hash \<times> vote list) list \<Rightarrow> round_votes \<Rightarrow> round_votes" where
  "set_vote_map ty vm rv = (case ty of Prevote \<Rightarrow> rv\<lparr>prevotes := vm\<rparr> | Precommit \<Rightarrow> rv\<lparr>precommits := vm\<rparr>)"

text \<open>\<open>match votes.get(&height) { Some(rv) if rv.round == round => rv, _ => return }\<close>.\<close>

definition round_at :: "block_height \<Rightarrow> u64 \<Rightarrow> vote_manager \<Rightarrow> round_votes option" where
  "round_at h r m =
     (case map_of (votes m) h of
        Some rv \<Rightarrow> if rv_round rv = r then Some rv else None
      | None \<Rightarrow> None)"

definition verify_vote_signature :: "externals \<Rightarrow> vote \<Rightarrow> bytes \<Rightarrow> bool" where
  "verify_vote_signature X v pk =
     (if length (vote_signature v) = 64 then ed25519_verify X (vote_signing_hash X v) (vote_signature v) pk
      else if length (vote_signature v) = 4595 then dilithium5_verify X (vote_signing_hash X v) (vote_signature v) pk
      else False)"

definition validate_vote :: "externals \<Rightarrow> timestamp \<Rightarrow> vote \<Rightarrow> vote_manager \<Rightarrow> unit pacyte_result" where
  "validate_vote X now v m =
     (case vm_get_validator (voter v) (vom_validators m) of
        None \<Rightarrow> Inl (ValidatorNotFound (voter v))
      | Some val \<Rightarrow>
          if \<not> vr_is_active val then Inl (ValidatorInactive (voter v))
          else if \<not> verify_vote_signature X v (vr_public_key val) then Inl InvalidSignature
          else if vote_timestamp v > now + 10 \<or> vote_timestamp v < now - 60 then Inl InvalidTimestamp
          else Inr ())"

definition get_voting_power_for_votes ::
    "block_height \<Rightarrow> u64 \<Rightarrow> hash \<Rightarrow> vote_type \<Rightarrow> vote_manager \<Rightarrow> u64" where
  "get_voting_power_for_votes h r bh ty m =
     (case round_at h r m of
        None \<Rightarrow> 0
      | Some rv \<Rightarrow>
          (case map_of (vote_map ty rv) bh of
             None \<Rightarrow> 0
           | Some vs \<Rightarrow>
               sum_list (map vr_voting_power
                 (List.map_filter (\<lambda>v. vm_get_validator (voter v) (vom_validators m)) vs))))"

definition check_quorum ::
    "vote_lock guards \<Rightarrow> block_height \<Rightarrow> u64 \<Rightarrow> hash \<Rightarrow> vote_type \<Rightarrow> vote_manager \<Rightarrow> bool outcome" where
  "check_quorum gs h r bh ty m =
     (if \<not> may_read gs VotesLock then Blocked
      else case round_at h r m of
             None \<Rightarrow> Returned False
           | Some rv \<Rightarrow>
               if \<not> may_read ((VotesLock, ReadGuard) # gs) VotesLock then Blocked
               else
                 let total = get_voting_power_for_votes h r bh ty m;
                     threshold = vm_active_count (vom_validators m) * 2 div 3 + 1
                 in Returned (total \<ge> of_nat threshold))"

definition store_vote :: "vote \<Rightarrow> vote_manager \<Rightarrow> (bool pacyte_result \<times> vote_manager) outcome" where
  "store_vote v m =
     (let rv0 = (case map_of (votes m) (vote_height v) of Some rv \<Rightarrow> rv | None \<Rightarrow> round_votes_new (vote_round v));
          rv1 = (if rv_round rv0 \<noteq> vote_round v then round_votes_new (vote_round v) else rv0);
          vm = vote_map (vote_kind v) rv1;
          vs = (case map_of vm (vote_block_hash v) of Some l \<Rightarrow> l | None \<Rightarrow> []);
          put = (\<lambda>l. m\<lparr>votes := AList.update (vote_height v)
                   (set_vote_map (vote_kind v) (AList.update (vote_block_hash v) l vm) rv1) (votes m)\<rparr>)
      in if \<exists>w \<in> set vs. voter w = voter v then Returned (Inr False, put vs)
         else
           let m1 = put (vs @ [v])
           in case check_quorum [(VotesLock, WriteGuard)] (vote_height v) (vote_round v) (vote_block_hash v)
                     (vote_kind v) m1 of
                Blocked \<Rightarrow> Blocked
              | Returned q \<Rightarrow> Returned (Inr q, m1))"

definition detect_double_voting :: "vote \<Rightarrow> vote_manager \<Rightarrow> bool" where
  "detect_double_voting v m =
     (case round_at (vote_height v) (vote_round v) m of
        None \<Rightarrow> False
      | Some rv \<Rightarrow>
          (\<exists>(bh, vs) \<in> set (vote_map (vote_kind v) rv).
             bh \<noteq> vote_block_hash v \<and> (\<exists>w \<in> set vs. voter w = voter v)))"

datatype vote_result = Added bool | AlreadySeen | Invalid

definition vote_key_of :: "vote \<Rightarrow> vote_key" where
  "vote_key_of v = (vote_height v, vote_round v, vote_type_byte (vote_kind v), voter v)"

definition add_vote ::
    "externals \<Rightarrow> timestamp \<Rightarrow> vote \<Rightarrow> vote_manager \<Rightarrow> (vote_result pacyte_result \<times> vote_manager) outcome" where
  "add_vote X now v m =
     (case validate_vote X now v m of
        Inl e \<Rightarrow> Returned (Inl e, m)
      | Inr _ \<Rightarrow>
          if vote_key_of v \<in> set (seen_votes m) then Returned (Inr AlreadySeen, m)
          else
            (case store_vote v (m\<lparr>seen_votes := vote_key_of v # seen_votes m\<rparr>) of
               Blocked \<Rightarrow> Blocked
             | Returned (Inl e, m1) \<Rightarrow> Returned (Inl e, m1)
             | Returned (Inr q, m1) \<Rightarrow>
                 if detect_double_voting v m1 then
                   (case slash_double_sign (voter v) (vom_validators m1) of
                      Blocked \<Rightarrow> Blocked
                    | Returned (_, vals) \<Rightarrow> Returned (Inl (DoubleVoting (voter v)), m1\<lparr>vom_validators := vals\<rparr>))
                 else Returned (Inr (Added q), m1)))"

definition get_vote_count :: "block_height \<Rightarrow> u64 \<Rightarrow> hash \<Rightarrow> vote_type \<Rightarrow> vote_manager \<Rightarrow> nat" where
  "get_vote_count h r bh ty m =
     (case round_at h r m of
        None \<Rightarrow> 0
      | Some rv \<Rightarrow> (case map_of (vote_map ty rv) bh of Some vs \<Rightarrow> length vs | None \<Rightarrow> 0))"

definition has_quorum :: "block_height \<Rightarrow> u64 \<Rightarrow> hash \<Rightarrow> vote_type \<Rightarrow> vote_manager \<Rightarrow> bool outcome" where
  "has_quorum = check_quorum []"

definition clear_round :: "block_height \<Rightarrow> vote_manager \<Rightarrow> vote_manager" where
  "clear_round h m = m\<lparr>votes := AList.delete h (votes m)\<rparr>"

definition prune_old_heights :: "nat \<Rightarrow> vote_manager \<Rightarrow> vote_manager" where
  "prune_old_heights keep_last m =
     (let heights = sort (map fst (votes m))
      in if length heights > keep_last
         then m\<lparr>votes := fold AList.delete (take (length heights - keep_last) heights) (votes m)\<rparr>
         else m)"

definition get_all_votes :: "block_height \<Rightarrow> u64 \<Rightarrow> vote_manager \<Rightarrow> vote list" where
  "get_all_votes h r m =
     (case round_at h r m of
        None \<Rightarrow> []
      | Some rv \<Rightarrow> concat (map snd (prevotes rv)) @ concat (map snd (precommits rv)))"

definition verify_and_cleanup :: "block_height \<Rightarrow> vote_manager \<Rightarrow> nat" where
  "verify_and_cleanup h m = 0"

section \<open>The vote aggregator\<close>

record aggregated_votes =
  agg_prevotes :: nat
  agg_precommits :: nat
  agg_voting_power :: u64
  agg_voters :: "u64 list"

definition aggregated_default :: aggregated_votes where
  "aggregated_default = \<lparr>agg_prevotes = 0, agg_precommits = 0, agg_voting_power = 0, agg_voters = []\<rparr>"

type_synonym vote_aggregator = "(hash \<times> aggregated_votes) list"

definition aggregator_add_vote :: "vote \<Rightarrow> u64 \<Rightarrow> vote_aggregator \<Rightarrow> vote_aggregator" where
  "aggregator_add_vote v vp agg =
     (let e = (case map_of agg (vote_block_hash v) of Some e \<Rightarrow> e | None \<Rightarrow> aggregated_default);
          e' = (if voter v \<in> set (agg_voters e) then e
                else
                  let e1 = e\<lparr>agg_voters := voter v # agg_voters e, agg_voting_power := agg_voting_power e + vp\<rparr>
                  in case vote_kind v of
                       Prevote \<Rightarrow> e1\<lparr>agg_prevotes := agg_prevotes e1 + 1\<rparr>
                     | Precommit \<Rightarrow> e1\<lparr>agg_precommits := agg_precommits e1 + 1\<rparr>)
      in AList.update (vote_block_hash v) e' agg)"

text \<open>\<open>max_by_key\<close> keeps the last of several maximal elements.\<close>

definition get_winner :: "nat \<Rightarrow> vote_aggregator \<Rightarrow> hash option" where
  "get_winner quorum agg =
     (case filter (\<lambda>(_, e). agg_prevotes e \<ge> quorum \<and> agg_precommits e \<ge> quorum) agg of
        [] \<Rightarrow> None
      | p # ps \<Rightarrow>
          Some (fst (fold (\<lambda>q best. if agg_voting_power (snd q) \<ge> agg_voting_power (snd best) then q else best) ps p)))"

section \<open>Safety rules\<close>

record locked_proposal =
  lp_height :: block_height
  lp_round :: u64
  lp_block_hash :: hash
  locked_at :: u64

record safety_rules =
  sr_validators :: validator_manager
  sr_locked :: "locked_proposal option"
  sr_committed :: "hash list"
  seen_proposals :: "(block_height \<times> u64 \<times> u64) list"

definition safety_rules_new :: "validator_manager \<Rightarrow> safety_rules" where
  "safety_rules_new m = \<lparr>sr_validators = m, sr_locked = None, sr_committed = [], seen_proposals = []\<rparr>"

definition check_proposal_safety ::
    "externals \<Rightarrow> proposal \<Rightarrow> safety_rules \<Rightarrow> (unit pacyte_result \<times> safety_rules) outcome" where
  "check_proposal_safety X p s =
     (let expected = vm_get_proposer (prop_height p) (prop_round p) (sr_validators s);
          key = (prop_height p, prop_round p, prop_proposer p)
      in if expected \<noteq> Some (prop_proposer p)
         then Returned (Inl (InvalidProposer expected (prop_proposer p)), s)
         else if key \<in> set (seen_proposals s) then
           (let amount = (case vm_get_validator (prop_proposer p) (sr_validators s) of
                            Some v \<Rightarrow> vr_stake v div 20 | None \<Rightarrow> 0)
            in case vm_slash (prop_proposer p) amount (sr_validators s) of
                 Blocked \<Rightarrow> Blocked
               | Returned (_, vals) \<Rightarrow>
                   Returned (Inl (DoubleProposal (prop_proposer p)), s\<lparr>sr_validators := vals\<rparr>))
         else
           let s1 = s\<lparr>seen_proposals := key # seen_proposals s\<rparr>
           in case sr_locked s of
                None \<Rightarrow> Returned (Inr (), s1)
              | Some l \<Rightarrow>
                  if lp_height l = prop_height p then
                    if lp_block_hash l \<noteq> block_hash X (prop_block p)
                    then Returned (Inl (SafetyViolation (''Cannot propose different block at height '' @
                           show_word (prop_height p) @ '': locked='' @ debug_bytes (lp_block_hash l))), s1)
                    else Returned (Inr (), s1)
                  else if lp_height l > prop_height p
                  then Returned (Inl (SafetyViolation (''Locked at height '' @ show_word (lp_height l) @
                         '' > proposal height '' @ show_word (prop_height p))), s1)
                  else Returned (Inr (), s1))"

definition check_prevote_safety :: "vote \<Rightarrow> locked_proposal option \<Rightarrow> unit pacyte_result" where
  "check_prevote_safety v locked =
     (case locked of
        Some l \<Rightarrow>
          if lp_height l = vote_height v \<and> lp_block_hash l \<noteq> vote_block_hash v
          then Inl (SafetyViolation (''Cannot prevote for '' @ debug_bytes (vote_block_hash v) @
                 '': locked on '' @ debug_bytes (lp_block_hash l)))
          else Inr ()
      | None \<Rightarrow> Inr ())"

definition check_precommit_safety :: "vote \<Rightarrow> hash option \<Rightarrow> unit pacyte_result" where
  "check_precommit_safety v quorum_hash =
     (case quorum_hash of
        Some q \<Rightarrow>
          if q \<noteq> vote_block_hash v
          then Inl (SafetyViolation (''Can only precommit block with prevote quorum: '' @ debug_bytes q @
                 '' != '' @ debug_bytes (vote_block_hash v)))
          else Inr ()
      | None \<Rightarrow> Inr ())"

definition lock_proposal :: "timestamp \<Rightarrow> block_height \<Rightarrow> u64 \<Rightarrow> hash \<Rightarrow> safety_rules \<Rightarrow> safety_rules" where
  "lock_proposal now h r bh s =
     s\<lparr>sr_locked := Some \<lparr>lp_height = h, lp_round = r, lp_block_hash = bh, locked_at = now\<rparr>\<rparr>"

definition unlock :: "safety_rules \<Rightarrow> safety_rules" where
  "unlock s = s\<lparr>sr_locked := None\<rparr>"

definition sr_commit_block :: "externals \<Rightarrow> block \<Rightarrow> safety_rules \<Rightarrow> unit pacyte_result \<times> safety_rules" where
  "sr_commit_block X b s =
     (if block_hash X b \<in> set (sr_committed s)
      then (Inl (BlockAlreadyCommitted (hdr_height (header b))), s)
      else (Inr (), unlock (s\<lparr>sr_committed := block_hash X b # sr_committed s\<rparr>)))"

definition check_double_vote :: "vote \<Rightarrow> vote \<Rightarrow> bool" where
  "check_double_vote v1 v2 \<longleftrightarrow>
     vote_height v1 = vote_height v2 \<and> vote_round v1 = vote_round v2 \<and> voter v1 = voter v2 \<and>
     vote_kind v1 = vote_kind v2 \<and> vote_block_hash v1 \<noteq> vote_block_hash v2"

definition check_fork :: "externals \<Rightarrow> block \<Rightarrow> block \<Rightarrow> bool" where
  "check_fork X b parent \<longleftrightarrow>
     hdr_height (header b) = hdr_height (header parent) \<and> block_hash X b \<noteq> block_hash X parent"

definition is_finalized :: "block_height \<Rightarrow> safety_rules \<Rightarrow> bool" where
  "is_finalized h s = False"

datatype equivocation_evidence =
    EvDoubleProposal block_height u64 hash hash
  | EvDoubleVote vote vote

definition report_equivocation ::
    "u64 \<Rightarrow> equivocation_evidence \<Rightarrow> safety_rules \<Rightarrow> (unit pacyte_result \<times> safety_rules) outcome" where
  "report_equivocation i ev s =
     (case slash_double_sign i (sr_validators s) of
        Blocked \<Rightarrow> Blocked
      | Returned (r, vals) \<Rightarrow> Returned (r, s\<lparr>sr_validators := vals\<rparr>))"

section \<open>Properties of the vote manager\<close>

text \<open>Managers that arise from a new one by calls that returned.\<close>

inductive vote_reachable :: "vote_manager \<Rightarrow> bool" where
  vr_start: "vote_reachable (vote_manager_new vals)"
| vr_add: "vote_reachable m \<Longrightarrow> add_vote X now v m = Returned (r, m') \<Longrightarrow> vote_reachable m'"
| vr_clear: "vote_reachable m \<Longrightarrow> vote_reachable (clear_round h m)"
| vr_prune: "vote_reachable m \<Longrightarrow> vote_reachable (prune_old_heights k m)"

lemma check_quorum_under_writer: "check_quorum [(VotesLock, WriteGuard)] h r bh ty m = Blocked"
  by (simp add: check_quorum_def)

lemma store_vote_empty: "votes m = [] \<Longrightarrow> store_vote v m = Blocked"
  by (auto simp: store_vote_def Let_def check_quorum_under_writer round_votes_new_def vote_map_def
      split: vote_type.splits)

lemma add_vote_empty:
  assumes "votes m = []" "seen_votes m = []"
  shows "add_vote X now v m = (case validate_vote X now v m of Inl e \<Rightarrow> Returned (Inl e, m) | Inr _ \<Rightarrow> Blocked)"
  using assms by (auto simp: add_vote_def store_vote_empty split: sum.splits)

lemma vote_reachable_empty: "vote_reachable m \<Longrightarrow> votes m = [] \<and> seen_votes m = []"
proof (induction rule: vote_reachable.induct)
  case (vr_start vals)
  then show ?case by (simp add: vote_manager_new_def)
next
  case (vr_add m X now v r m')
  then show ?case by (auto simp: add_vote_empty split: sum.splits)
next
  case (vr_clear m h)
  then show ?case by (simp add: clear_round_def)
next
  case (vr_prune m k)
  then show ?case by (simp add: prune_old_heights_def)
qed

text \<open>
  No vote is ever counted by the vote manager: whatever calls have returned before, adding
  a vote that passes validation never returns (\<open>store_vote\<close> holds the write lock of the votes while
  the quorum check asks for the read lock), and a vote that fails validation is rejected with
  its reason and leaves the manager unchanged.
\<close>

theorem vote_manager_never_counts:
  assumes "vote_reachable m"
  shows "add_vote X now v m = (case validate_vote X now v m of Inl e \<Rightarrow> Returned (Inl e, m) | Inr _ \<Rightarrow> Blocked) \<and>
         get_all_votes h r m = []"
  using vote_reachable_empty [OF assms] by (simp add: add_vote_empty get_all_votes_def round_at_def)

definition sample_validator :: validator_record where
  "sample_validator = validator_record_new (True, True) 1000 1 [1] [7] 1000000000000"

definition sample_validators :: validator_manager where
  "sample_validators =
     (let m = validator_manager_new\<lparr>validators := [(1, sample_validator)], address_to_id := [([1], 1)],
                                    next_validator_id := 2\<rparr>
      in m\<lparr>current_set := built_set m\<rparr>)"

definition sample_vote :: vote where
  "sample_vote =
     (let v = vote_new 1000 5 0 (replicate 32 9) 1 Precommit
      in vote_sign (vote_signing_hash sample_externals v @ vote_signing_hash sample_externals v) v)"

theorem vote_manager_never_counts_witness:
  "add_vote sample_externals 1000 sample_vote (vote_manager_new sample_validators) = Blocked"
proof -
  have "validate_vote sample_externals 1000 sample_vote (vote_manager_new sample_validators) = Inr ()"
    by (simp add: validate_vote_def vote_manager_new_def vm_get_validator_def sample_validators_def Let_def
        sample_vote_def vote_new_def vote_sign_def sample_validator_def validator_record_new_def vr_is_active_def
        verify_vote_signature_def vote_signing_hash_def vote_signing_preimage_def)
      (simp add: sample_externals_def)
  then show ?thesis
    using vote_manager_never_counts [OF vr_start [of sample_validators], of sample_externals 1000 sample_vote]
    by simp
qed

lemma voting_power_exact:
  assumes "unat stk < 10 ^ 6 * 2 ^ 64"
  shows "unat (calculate_voting_power stk) = unat stk div 1000000"
proof -
  have "unat stk div 1000000 < 2 ^ 64" using assms by (simp add: less_mult_imp_div_less)
  then show ?thesis
    by (simp add: calculate_voting_power_def unsigned_ucast_eq unat_div take_bit_nat_eq_self)
qed

text \<open>
  The quorum test compares a sum of voting power (stake in whole coins) with a threshold
  that counts validators: one vote of a validator with the minimum stake is a quorum in every set
  of up to 21 active validators.
\<close>

theorem single_vote_is_quorum:
  assumes "round_at h r m = Some rv" "map_of (vote_map ty rv) bh = Some [v]"
    and "vm_get_validator (voter v) (vom_validators m) = Some val"
    and "vr_voting_power val = calculate_voting_power (vr_stake val)"
    and "MIN_VALIDATOR_STAKE \<le> vr_stake val" "unat (vr_stake val) < 10 ^ 6 * 2 ^ 64"
    and "vm_active_count (vom_validators m) \<le> 21"
  shows "has_quorum h r bh ty m = Returned True"
proof -
  have "unat (vr_voting_power val) = unat (vr_stake val) div 1000000"
    unfolding assms(4) by (rule voting_power_exact [OF assms(6)])
  moreover have "1000000000000 \<le> unat (vr_stake val)"
    using assms(5) by (simp add: MIN_VALIDATOR_STAKE_def word_le_nat_alt)
  ultimately have p: "1000000 \<le> unat (vr_voting_power val)"
    by (simp add: less_eq_div_iff_mult_less_eq)
  define t where "t = vm_active_count (vom_validators m) * 2 div 3 + 1"
  have "t \<le> 15" using assms(7) by (simp add: t_def)
  then have "of_nat t \<le> vr_voting_power val"
    using p by (simp add: word_le_nat_alt unat_of_nat)
  then show ?thesis
    using assms(1-3) unfolding t_def
    by (simp add: has_quorum_def check_quorum_def get_voting_power_for_votes_def Let_def map_filter_simps)
qed

theorem single_vote_is_quorum_witness:
  "has_quorum 5 0 (replicate 32 9) Precommit
     (vote_manager_new sample_validators
        \<lparr>votes := [(5, (round_votes_new 0)\<lparr>precommits := [(replicate 32 9, [sample_vote])]\<rparr>)]\<rparr>) = Returned True"
  by (rule single_vote_is_quorum [where val = sample_validator and v = sample_vote
      and rv = "(round_votes_new 0)\<lparr>precommits := [(replicate 32 9, [sample_vote])]\<rparr>"])
    (simp_all add: round_at_def round_votes_new_def vote_map_def vote_manager_new_def vm_get_validator_def
      sample_validators_def sample_vote_def vote_new_def vote_sign_def Let_def sample_validator_def
      validator_record_new_def MIN_VALIDATOR_STAKE_def vm_active_count_def set_active_count_def built_set_parts
      info_of_def ranked_def MAX_VALIDATORS_def)

section \<open>Properties of the aggregator\<close>

definition entry_ok :: "u64 set \<Rightarrow> aggregated_votes \<Rightarrow> bool" where
  "entry_ok V e \<longleftrightarrow> distinct (agg_voters e) \<and> set (agg_voters e) \<subseteq> V \<and>
     agg_prevotes e + agg_precommits e = length (agg_voters e)"

definition aggregator_inv :: "u64 set \<Rightarrow> vote_aggregator \<Rightarrow> bool" where
  "aggregator_inv V agg \<longleftrightarrow> (\<forall>p \<in> set agg. entry_ok V (snd p))"

lemma set_AList_update: "set (AList.update k v al) \<subseteq> insert (k, v) (set al)"
  by (induction al) auto

lemma aggregator_inv_update: "aggregator_inv V agg \<Longrightarrow> entry_ok V e \<Longrightarrow> aggregator_inv V (AList.update k e agg)"
  using set_AList_update [of k e agg] by (auto simp: aggregator_inv_def)

lemma aggregator_add_inv [keeps_inv]:
  assumes "aggregator_inv V agg" "voter v \<in> V"
  shows "aggregator_inv V (aggregator_add_vote v vp agg)"
proof -
  let ?e = "case map_of agg (vote_block_hash v) of Some e \<Rightarrow> e | None \<Rightarrow> aggregated_default"
  have "entry_ok V aggregated_default" by (simp add: entry_ok_def aggregated_default_def)
  then have "entry_ok V ?e"
    using assms(1) by (auto simp: aggregator_inv_def split: option.splits dest!: map_of_SomeD)
  then show ?thesis
    using assms unfolding aggregator_add_vote_def Let_def
    by (intro aggregator_inv_update) (auto simp: entry_ok_def split: vote_type.splits)
qed

text \<open>
  The aggregator can never name a winner. It counts every voter once per block, as a
  prevote or as a precommit, and asks for a quorum of both; for votes of \<open>n\<close> validators and
  the quorum of two thirds plus one, that would take more voters than there are.
\<close>

theorem aggregator_has_no_winner:
  assumes "finite V" "\<forall>(v, vp) \<in> set vs. voter v \<in> V"
  shows "get_winner (2 * card V div 3 + 1) (fold (\<lambda>(v, vp). aggregator_add_vote v vp) vs []) = None"
proof -
  let ?agg = "fold (\<lambda>(v, vp). aggregator_add_vote v vp) vs []" and ?q = "2 * card V div 3 + 1"
  have "aggregator_inv V agg \<Longrightarrow> aggregator_inv V (fold (\<lambda>(v, vp). aggregator_add_vote v vp) vs agg)" for agg
    using assms(2) by (induction vs arbitrary: agg) (auto intro: keeps_inv)
  from this [of "[]"] have inv: "aggregator_inv V ?agg" by (simp add: aggregator_inv_def)
  have "\<not> (agg_prevotes e \<ge> ?q \<and> agg_precommits e \<ge> ?q)" if "(bh, e) \<in> set ?agg" for bh e
  proof -
    have e: "distinct (agg_voters e)" "set (agg_voters e) \<subseteq> V" "agg_prevotes e + agg_precommits e = length (agg_voters e)"
      using inv that unfolding aggregator_inv_def entry_ok_def by (metis snd_conv)+
    then have "length (agg_voters e) \<le> card V"
      using assms(1) by (metis card_mono distinct_card)
    with e(3) show ?thesis by auto
  qed
  then have "filter (\<lambda>(_, e). agg_prevotes e \<ge> ?q \<and> agg_precommits e \<ge> ?q) ?agg = []"
    by (auto simp: filter_empty_conv)
  then show ?thesis by (simp add: get_winner_def)
qed

theorem aggregator_has_no_winner_witness:
  "get_winner 1 (fold (\<lambda>(v, vp). aggregator_add_vote v vp)
     [(vote_new 0 5 0 [9] 1 Prevote, 10), (vote_new 0 5 0 [9] 1 Precommit, 10)] []) = None"
  using aggregator_has_no_winner [of "{1}"
      "[(vote_new 0 5 0 [9] 1 Prevote, 10), (vote_new 0 5 0 [9] 1 Precommit, 10)]"]
  by (simp add: vote_new_def)

section \<open>Properties of the safety rules\<close>



end
