(* ===== verification/State_Manager.thy ===== *)
theory State_Manager
  imports Storage_Ops
begin

text \<open>
  \<open>src/storage/state.rs\<close>: the account state over a storage backend, with its read cache, its
  uncommitted (dirty) accounts, the state root and the recorded versions. Every operation
  returns its result together with the manager it leaves behind, since an error returns
  early and undoes nothing. The storage is the trait object \<open>S\<close>.

  Two views of the accounts are used to state the properties: \<open>sm_view\<close> is what
  \<open>get_account\<close> answers, and the accounts of the storage are what survives a restart.
\<close>

record state_version =
  sv_height :: block_height
  sv_root :: hash
  sv_timestamp :: timestamp
  sv_block_hash :: hash
  sv_parent_root :: hash

definition state_version_new :: "timestamp \<Rightarrow> block_height \<Rightarrow> hash \<Rightarrow> hash \<Rightarrow> hash \<Rightarrow> state_version" where
  "state_version_new now h rt bh parent =
     \<lparr>sv_height = h, sv_root = rt, sv_timestamp = now, sv_block_hash = bh, sv_parent_root = parent\<rparr>"

record 's state_manager =
  sm_storage :: 's
  current_root :: hash
  current_height :: block_height
  account_cache :: "(address \<times> account) list"
  dirty_accounts :: "(address \<times> account) list"
  sm_smt :: sparse_merkle_tree
  versions :: "(block_height \<times> state_version) list"

definition state_manager_new :: "externals \<Rightarrow> 's \<Rightarrow> 's state_manager" where
  "state_manager_new X st =
     \<lparr>sm_storage = st, current_root = smt_root (smt_new X), current_height = 0,
      account_cache = [], dirty_accounts = [], sm_smt = smt_new X, versions = []\<rparr>"

definition sm_get_account ::
    "'s storage_ops \<Rightarrow> address \<Rightarrow> 's state_manager \<Rightarrow> account option pacyte_result \<times> 's state_manager" where
  "sm_get_account S a sm =
     (case map_of (account_cache sm) a of
        Some acc \<Rightarrow> (Inr (Some acc), sm)
      | None \<Rightarrow>
         (case map_of (dirty_accounts sm) a of
            Some acc \<Rightarrow> (Inr (Some acc), sm)
          | None \<Rightarrow>
             (case so_get_account S a (sm_storage sm) of
                Inl e \<Rightarrow> (Inl e, sm)
              | Inr None \<Rightarrow> (Inr None, sm)
              | Inr (Some acc) \<Rightarrow>
                  (Inr (Some acc), sm\<lparr>account_cache := AList.update a acc (account_cache sm)\<rparr>))))"

definition get_balance ::
    "'s storage_ops \<Rightarrow> address \<Rightarrow> 's state_manager \<Rightarrow> u128 pacyte_result \<times> 's state_manager" where
  "get_balance S a sm =
     (case sm_get_account S a sm of
        (Inl e, sm') \<Rightarrow> (Inl e, sm')
      | (Inr (Some acc), sm') \<Rightarrow> (Inr (balance acc), sm')
      | (Inr None, sm') \<Rightarrow> (Inr 0, sm'))"

definition get_nonce ::
    "'s storage_ops \<Rightarrow> address \<Rightarrow> 's state_manager \<Rightarrow> u64 pacyte_result \<times> 's state_manager" where
  "get_nonce S a sm =
     (case sm_get_account S a sm of
        (Inl e, sm') \<Rightarrow> (Inl e, sm')
      | (Inr (Some acc), sm') \<Rightarrow> (Inr (nonce acc), sm')
      | (Inr None, sm') \<Rightarrow> (Inr 0, sm'))"

definition set_account :: "address \<Rightarrow> account \<Rightarrow> 's state_manager \<Rightarrow> 's state_manager" where
  "set_account a acc sm =
     sm\<lparr>dirty_accounts := AList.update a acc (dirty_accounts sm),
        account_cache := AList.update a acc (account_cache sm)\<rparr>"

definition apply_transfer ::
    "externals \<Rightarrow> 's storage_ops \<Rightarrow> timestamp \<Rightarrow> address \<Rightarrow> address \<Rightarrow> u128 \<Rightarrow> u128 \<Rightarrow>
     's state_manager \<Rightarrow> unit pacyte_result \<times> 's state_manager" where
  "apply_transfer X S now from to amount fee sm =
     (let cost = saturating_add amount fee in
      case sm_get_account S from sm of
        (Inl e, sm1) \<Rightarrow> (Inl e, sm1)
      | (Inr None, sm1) \<Rightarrow> (Inl (AccountNotFound (address_short X from)), sm1)
      | (Inr (Some from_account), sm1) \<Rightarrow>
          if balance from_account < cost
          then (Inl (InsufficientBalance cost (balance from_account)), sm1)
          else
            let from' = record_activity now
                  (from_account\<lparr>nonce := saturating_add (nonce from_account) 1,
                                balance := balance from_account - cost\<rparr>)
            in case sm_get_account S to sm1 of
                 (Inl e, sm2) \<Rightarrow> (Inl e, sm2)
               | (Inr opt, sm2) \<Rightarrow>
                   let to_account = (case opt of Some t \<Rightarrow> t | None \<Rightarrow> account_new now to 0);
                       to' = record_activity now
                         (to_account\<lparr>balance := saturating_add (balance to_account) amount\<rparr>)
                   in (Inr (), set_account to to' (set_account from from' sm2)))"

fun apply_transactions ::
    "externals \<Rightarrow> 's storage_ops \<Rightarrow> timestamp \<Rightarrow> transaction list \<Rightarrow>
     's state_manager \<Rightarrow> unit pacyte_result \<times> 's state_manager" where
  "apply_transactions X S now [] sm = (Inr (), sm)"
| "apply_transactions X S now (tx # txs) sm =
     (case apply_transfer X S now (tx_from tx) (tx_to tx) (tx_amount tx) (tx_fee tx) sm of
        (Inl e, sm') \<Rightarrow> (Inl e, sm')
      | (Inr _, sm') \<Rightarrow> apply_transactions X S now txs sm')"

text \<open>The accounts the state root is computed from: the cache, overridden by the dirty ones.\<close>

definition root_accounts :: "'s state_manager \<Rightarrow> (address \<times> account) list" where
  "root_accounts sm =
     fold (\<lambda>(a, acc). AList.update a acc) (dirty_accounts sm)
       (fold (\<lambda>(a, acc). AList.update a acc) (account_cache sm) [])"

definition compute_state_root :: "externals \<Rightarrow> 's state_manager \<Rightarrow> hash" where
  "compute_state_root X sm =
     (if dirty_accounts sm = [] then current_root sm
      else root_from_updates X (sm_smt sm)
             (map (\<lambda>(a, acc). (sha3_256 X a, sha3_256 X (ser_account X acc))) (root_accounts sm)))"

definition commit_dirty_accounts ::
    "'s storage_ops \<Rightarrow> 's state_manager \<Rightarrow> unit pacyte_result \<times> 's state_manager" where
  "commit_dirty_accounts S sm =
     (let dirty = dirty_accounts sm; sm' = sm\<lparr>dirty_accounts := []\<rparr> in
      if dirty = [] then (Inr (), sm')
      else case so_write_batch S (fold (\<lambda>(a, acc). add_account a acc) dirty batch_new) (sm_storage sm') of
             Inl e \<Rightarrow> (Inl e, sm')
           | Inr st \<Rightarrow> (Inr (), sm'\<lparr>sm_storage := st\<rparr>))"

definition apply_block ::
    "externals \<Rightarrow> 's storage_ops \<Rightarrow> timestamp \<Rightarrow> block \<Rightarrow>
     's state_manager \<Rightarrow> state_version pacyte_result \<times> 's state_manager" where
  "apply_block X S now b sm =
     (let parent_root = current_root sm; h = hdr_height (header b) in
      if h \<noteq> current_height sm + 1
      then (Inl (InvalidProposal (''Invalid height: '' @ show_word h @ '' != '' @
                  show_word (current_height sm + 1))), sm)
      else case apply_transactions X S now (transactions b) sm of
        (Inl e, sm1) \<Rightarrow> (Inl e, sm1)
      | (Inr _, sm1) \<Rightarrow>
          let new_root = compute_state_root X sm1;
              version = state_version_new now h new_root (block_hash X b) parent_root;
              sm2 = sm1\<lparr>versions := AList.update h version (versions sm1)\<rparr>
          in case so_save_state_root S h new_root (sm_storage sm2) of
               Inl e \<Rightarrow> (Inl e, sm2)
             | Inr st \<Rightarrow>
                 let sm3 = sm2\<lparr>sm_storage := st, current_root := new_root, current_height := h\<rparr>
                 in case commit_dirty_accounts S sm3 of
                      (Inl e, sm4) \<Rightarrow> (Inl e, sm4)
                    | (Inr _, sm4) \<Rightarrow> (Inr version, sm4))"

definition get_version ::
    "'s storage_ops \<Rightarrow> block_height \<Rightarrow> 's state_manager \<Rightarrow> state_version option pacyte_result" where
  "get_version S h sm =
     (case map_of (versions sm) h of
        Some v \<Rightarrow> Inr (Some v)
      | None \<Rightarrow>
         (case so_get_state_root S h (sm_storage sm) of
            Inl e \<Rightarrow> Inl e
          | Inr None \<Rightarrow> Inr None
          | Inr (Some rt) \<Rightarrow>
              Inr (Some \<lparr>sv_height = h, sv_root = rt, sv_timestamp = 0,
                         sv_block_hash = zero32, sv_parent_root = zero32\<rparr>)))"

definition revert_to_height ::
    "externals \<Rightarrow> 's storage_ops \<Rightarrow> block_height \<Rightarrow> 's state_manager \<Rightarrow>
     unit pacyte_result \<times> 's state_manager" where
  "revert_to_height X S h sm =
     (case get_version S h sm of
        Inl e \<Rightarrow> (Inl e, sm)
      | Inr None \<Rightarrow> (Inl (StateRootMismatch (show_word h) ''Version not found''), sm)
      | Inr (Some v) \<Rightarrow>
          (Inr (), sm\<lparr>account_cache := [], dirty_accounts := [], current_root := sv_root v,
                      current_height := h, sm_smt := smt_new X\<rparr>))"

definition sm_account_exists ::
    "'s storage_ops \<Rightarrow> address \<Rightarrow> 's state_manager \<Rightarrow> bool pacyte_result \<times> 's state_manager" where
  "sm_account_exists S a sm =
     (case sm_get_account S a sm of
        (Inl e, sm') \<Rightarrow> (Inl e, sm')
      | (Inr opt, sm') \<Rightarrow> (Inr (opt \<noteq> None), sm'))"

definition total_supply :: "'s state_manager \<Rightarrow> u128" where
  "total_supply sm = fold (\<lambda>(_, acc) total. saturating_add total (balance acc)) (account_cache sm) 0"

definition check_all_dormancy :: "'s state_manager \<Rightarrow> address list" where
  "check_all_dormancy sm = map fst (filter (is_dormant \<circ> snd) (account_cache sm))"

section \<open>The account view and its invariant\<close>

definition sm_view :: "('s \<Rightarrow> address \<Rightarrow> account option) \<Rightarrow> 's state_manager \<Rightarrow> address \<Rightarrow> account option" where
  "sm_view accounts sm a =
     (case map_of (account_cache sm) a of
        Some acc \<Rightarrow> Some acc
      | None \<Rightarrow> (case map_of (dirty_accounts sm) a of
                  Some acc \<Rightarrow> Some acc | None \<Rightarrow> accounts (sm_storage sm) a))"

text \<open>Cache entries are uncommitted writes or copies of what the storage holds.\<close>

definition sm_inv :: "('s \<Rightarrow> address \<Rightarrow> account option) \<Rightarrow> 's state_manager \<Rightarrow> bool" where
  "sm_inv accounts sm \<longleftrightarrow>
     wf_map (account_cache sm) \<and> wf_map (dirty_accounts sm) \<and>
     (\<forall>a acc. map_of (dirty_accounts sm) a = Some acc \<longrightarrow> map_of (account_cache sm) a = Some acc) \<and>
     (\<forall>a acc. map_of (account_cache sm) a = Some acc \<longrightarrow> map_of (dirty_accounts sm) a = None \<longrightarrow>
        accounts (sm_storage sm) a = Some acc)"

definition view_balance :: "(address \<Rightarrow> account option) \<Rightarrow> address \<Rightarrow> nat" where
  "view_balance v a = (case v a of None \<Rightarrow> 0 | Some acc \<Rightarrow> unat (balance acc))"

lemma sm_inv_new: "sm_inv accounts (state_manager_new X st)"
  by (simp add: sm_inv_def state_manager_new_def)

lemma sm_view_new: "sm_view accounts (state_manager_new X st) = accounts st"
  by (simp add: sm_view_def state_manager_new_def fun_eq_iff)

lemma sm_view_set [simp]: "sm_view accounts (set_account a acc sm) = (sm_view accounts sm)(a \<mapsto> acc)"
  by (auto simp: sm_view_def set_account_def fun_eq_iff split: option.splits)

lemma sm_inv_set [keeps_inv]: "sm_inv accounts sm \<Longrightarrow> sm_inv accounts (set_account a acc sm)"
  by (auto simp: sm_inv_def set_account_def)

lemma set_account_frame [simp]:
  "current_root (set_account a acc sm) = current_root sm"
  "current_height (set_account a acc sm) = current_height sm"
  "versions (set_account a acc sm) = versions sm"
  "sm_storage (set_account a acc sm) = sm_storage sm"
  "sm_smt (set_account a acc sm) = sm_smt sm"
  by (simp_all add: set_account_def)

lemma apply_entries_map_of:
  "apply_entries (map (\<lambda>(a, acc). (a, Some acc)) es) m a =
     (case map_of (rev es) a of Some acc \<Rightarrow> Some acc | None \<Rightarrow> m a)"
  by (induction es arbitrary: m) (auto simp: map_add_def split: option.splits)

lemma fold_add_account:
  "wb_accounts (fold (\<lambda>(a, acc). add_account a acc) es b) =
     wb_accounts b @ map (\<lambda>(a, acc). (a, Some acc)) es"
  "wb_state_roots (fold (\<lambda>(a, acc). add_account a acc) es b) = wb_state_roots b"
  by (induction es arbitrary: b) (auto simp: add_account_def)

text \<open>What the client lemmas below say of one operation: the frame they share.\<close>

definition same_meta :: "'s state_manager \<Rightarrow> 's state_manager \<Rightarrow> bool" where
  "same_meta sm sm' \<longleftrightarrow>
     current_root sm' = current_root sm \<and> current_height sm' = current_height sm \<and>
     versions sm' = versions sm \<and> sm_storage sm' = sm_storage sm \<and> sm_smt sm' = sm_smt sm"

lemma same_meta_refl [simp]: "same_meta sm sm"
  by (simp add: same_meta_def)

lemma same_meta_trans: "same_meta a b \<Longrightarrow> same_meta b c \<Longrightarrow> same_meta a c"
  by (simp add: same_meta_def)

lemma same_meta_set [simp]: "same_meta sm (set_account a acc sm') \<longleftrightarrow> same_meta sm sm'"
  by (simp add: same_meta_def)

section \<open>Operations over any storage that keeps its contract\<close>

text \<open>The sender and the receiver after a transfer.\<close>

definition debited :: "timestamp \<Rightarrow> u128 \<Rightarrow> account \<Rightarrow> account" where
  "debited now cost acc =
     record_activity now (acc\<lparr>nonce := saturating_add (nonce acc) 1, balance := balance acc - cost\<rparr>)"

definition credited :: "timestamp \<Rightarrow> address \<Rightarrow> u128 \<Rightarrow> account option \<Rightarrow> account" where
  "credited now to amount opt =
     (let acc = (case opt of Some t \<Rightarrow> t | None \<Rightarrow> account_new now to 0)
      in record_activity now (acc\<lparr>balance := saturating_add (balance acc) amount\<rparr>))"

lemma view_balance_debited:
  "cost \<le> balance acc \<Longrightarrow> unat (balance (debited now cost acc)) = unat (balance acc) - unat cost"
  by (simp add: debited_def unat_sub_le)

lemma view_balance_credited:
  "unat (balance (credited now to amount (v to))) = min (2 ^ 128 - 1) (view_balance v to + unat amount)"
  by (auto simp: credited_def view_balance_def unat_saturating_add account_new_def split: option.splits)

context account_storage
begin

lemma get_account_ok:
  assumes "sm_get_account S a sm = (Inr r, sm')"
  shows "r = sm_view accounts sm a" "sm_view accounts sm' = sm_view accounts sm" "same_meta sm sm'"
    "dirty_accounts sm' = dirty_accounts sm"
proof -
  have "r = sm_view accounts sm a \<and> sm_view accounts sm' = sm_view accounts sm \<and> same_meta sm sm' \<and>
        dirty_accounts sm' = dirty_accounts sm"
    using assms read_account [of a "sm_storage sm"]
    by (cases "map_of (account_cache sm) a"; cases "map_of (dirty_accounts sm) a";
        cases "so_get_account S a (sm_storage sm)")
      (auto simp: sm_get_account_def sm_view_def same_meta_def fun_eq_iff split: option.splits if_splits)
  then show "r = sm_view accounts sm a" "sm_view accounts sm' = sm_view accounts sm" "same_meta sm sm'"
    "dirty_accounts sm' = dirty_accounts sm" by simp_all
qed

lemma get_account_inv:
  assumes "sm_inv accounts sm"
  shows "sm_inv accounts (snd (sm_get_account S a sm))"
  using assms read_account [of a "sm_storage sm"]
  by (auto simp: sm_get_account_def sm_inv_def split: option.splits sum.splits)

lemma get_account_err: "sm_get_account S a sm = (Inl e, sm') \<Longrightarrow> sm' = sm"
  by (auto simp: sm_get_account_def split: option.splits sum.splits)

lemma transfer_ok:
  assumes "apply_transfer X S now sender to amount fee sm = (Inr (), sm')"
  shows "\<exists>acc. sm_view accounts sm sender = Some acc \<and> saturating_add amount fee \<le> balance acc \<and>
         sm_view accounts sm' = (sm_view accounts sm)
           (sender \<mapsto> debited now (saturating_add amount fee) acc,
            to \<mapsto> credited now to amount (sm_view accounts sm to))" (is ?view)
    and "same_meta sm sm'"
proof -
  let ?total = "saturating_add amount fee"
  obtain acc sm1 where 1: "sm_get_account S sender sm = (Inr (Some acc), sm1)" "\<not> balance acc < ?total"
    using assms by (auto simp: apply_transfer_def Let_def split: prod.splits sum.splits option.splits if_splits)
  obtain opt sm2 where 2: "sm_get_account S to sm1 = (Inr opt, sm2)"
    using assms 1 by (auto simp: apply_transfer_def Let_def split: prod.splits sum.splits)
  have sm': "sm' = set_account to (credited now to amount opt) (set_account sender (debited now ?total acc) sm2)"
    using assms 1 2 by (simp add: apply_transfer_def Let_def debited_def credited_def)
  show ?view
    using get_account_ok [OF 1(1)] get_account_ok [OF 2] 1(2)
    by (auto simp: sm' not_less intro!: exI [of _ acc])
  show "same_meta sm sm'"
    using get_account_ok(3) [OF 1(1)] get_account_ok(3) [OF 2] by (auto simp: sm' intro: same_meta_trans)
qed

lemma transfer_err:
  assumes "apply_transfer X S now sender to amount fee sm = (Inl e, sm')"
  shows "sm_view accounts sm' = sm_view accounts sm \<and> same_meta sm sm'"
proof -
  obtain r sm1 where 1: "sm_get_account S sender sm = (r, sm1)" by fastforce
  obtain r2 sm2 where 2: "sm_get_account S to sm1 = (r2, sm2)" by fastforce
  have "sm' = sm1 \<or> (\<exists>acc. r = Inr (Some acc) \<and> r2 = Inl e \<and> sm' = sm2)"
    using assms 1 2 by (auto simp: apply_transfer_def Let_def split: sum.splits option.splits if_splits)
  moreover have "sm_view accounts sm1 = sm_view accounts sm \<and> same_meta sm sm1"
    using 1 get_account_ok get_account_err by (cases r) (metis same_meta_refl)+
  moreover have "r2 = Inl e \<Longrightarrow> sm2 = sm1"
    using 2 get_account_err by blast
  ultimately show ?thesis by auto
qed

lemma transfer_inv:
  assumes "sm_inv accounts sm"
  shows "sm_inv accounts (snd (apply_transfer X S now from to amount fee sm))"
proof -
  obtain r sm1 where 1: "sm_get_account S from sm = (r, sm1)" by fastforce
  obtain r2 sm2 where 2: "sm_get_account S to sm1 = (r2, sm2)" by fastforce
  have "sm_inv accounts sm1" using get_account_inv [OF assms, of "from"] 1 by simp
  moreover from this have "sm_inv accounts sm2" using get_account_inv [of sm1 to] 2 by simp
  ultimately show ?thesis
    using 1 2 by (auto simp: apply_transfer_def Let_def intro: sm_inv_set split: sum.splits option.splits)
qed

lemma transactions_inv:
  "sm_inv accounts sm \<Longrightarrow> sm_inv accounts (snd (apply_transactions X S now txs sm))"
proof (induction txs arbitrary: sm)
  case Nil
  then show ?case by simp
next
  case (Cons tx txs)
  then show ?case
    using transfer_inv [OF Cons.prems, of X now "tx_from tx" "tx_to tx" "tx_amount tx" "tx_fee tx"]
    by (auto split: prod.splits sum.splits)
qed

lemma transactions_meta: "same_meta sm (snd (apply_transactions X S now txs sm))"
proof (induction txs arbitrary: sm)
  case Nil
  then show ?case by simp
next
  case (Cons tx txs)
  obtain r sm1 where 1: "apply_transfer X S now (tx_from tx) (tx_to tx) (tx_amount tx) (tx_fee tx) sm = (r, sm1)"
    by fastforce
  then have "same_meta sm sm1"
    using transfer_ok(2) transfer_err by (cases r) (metis old.unit.exhaust)+
  with Cons.IH [of sm1] 1 show ?case
    by (auto split: sum.splits intro: same_meta_trans)
qed

lemma transactions_append:
  "apply_transactions X S now (txs @ txs') sm =
     (case apply_transactions X S now txs sm of
        (Inl e, sm') \<Rightarrow> (Inl e, sm')
      | (Inr _, sm') \<Rightarrow> apply_transactions X S now txs' sm')"
  by (induction txs arbitrary: sm) (auto split: prod.splits sum.splits)

lemma transfer_conserves:
  assumes ok: "apply_transfer X S now from to amount fee sm = (Inr (), sm')"
    and A: "finite A" "from \<in> A" "to \<in> A" "from \<noteq> to"
    and small: "sum (view_balance (sm_view accounts sm)) A < 2 ^ 128 - 1"
  shows "sum (view_balance (sm_view accounts sm')) A + unat fee = sum (view_balance (sm_view accounts sm)) A"
proof -
  let ?v = "sm_view accounts sm" and ?total = "saturating_add amount fee"
  obtain acc where acc: "?v from = Some acc" "?total \<le> balance acc"
    and v': "sm_view accounts sm' =
      ?v(from \<mapsto> debited now ?total acc, to \<mapsto> credited now to amount (?v to))"
    using transfer_ok(1) [OF ok] by blast
  have two: "view_balance ?v from + view_balance ?v to < 2 ^ 128 - 1"
    using sum_two_le_nat [OF A, of "view_balance ?v"] small by simp
  have le: "unat ?total \<le> view_balance ?v from"
    using acc by (simp add: view_balance_def word_le_nat_alt)
  then have total: "unat ?total = unat amount + unat fee"
    using two by (auto simp: unat_saturating_add)
  let ?x = "view_balance ?v from - (unat amount + unat fee)" and ?y = "view_balance ?v to + unat amount"
  have "view_balance (sm_view accounts sm') = (view_balance ?v)(from := ?x, to := ?y)"
  proof
    fix a
    show "view_balance (sm_view accounts sm') a = ((view_balance ?v)(from := ?x, to := ?y)) a"
      using A(4) acc le two total
      by (auto simp: v' view_balance_def [of _ a] view_balance_credited view_balance_debited
          view_balance_def [of ?v "from"])
  qed
  then show ?thesis
    using sum_fun_upd2_nat [OF A, of "view_balance ?v" ?x ?y] le total by simp
qed

lemma transactions_conserve:
  assumes "apply_transactions X S now txs sm = (Inr (), sm')" "finite A"
    and "\<forall>tx \<in> set txs. tx_from tx \<in> A \<and> tx_to tx \<in> A \<and> tx_from tx \<noteq> tx_to tx"
    and "sum (view_balance (sm_view accounts sm)) A < 2 ^ 128 - 1"
  shows "sum (view_balance (sm_view accounts sm')) A + sum_list (map (unat \<circ> tx_fee) txs) =
         sum (view_balance (sm_view accounts sm)) A"
  using assms
proof (induction txs arbitrary: sm)
  case Nil
  then show ?case by simp
next
  case (Cons tx txs)
  obtain sm1 where 1: "apply_transfer X S now (tx_from tx) (tx_to tx) (tx_amount tx) (tx_fee tx) sm = (Inr (), sm1)"
    and rest: "apply_transactions X S now txs sm1 = (Inr (), sm')"
    using Cons.prems(1) by (auto split: prod.splits sum.splits)
  have c: "sum (view_balance (sm_view accounts sm1)) A + unat (tx_fee tx) = sum (view_balance (sm_view accounts sm)) A"
    using transfer_conserves [OF 1 Cons.prems(2)] Cons.prems(3,4) by auto
  with Cons.IH [OF rest Cons.prems(2)] Cons.prems(3,4) show ?case
    by auto
qed

lemma commit_ok:
  assumes "sm_inv accounts sm" "commit_dirty_accounts S sm = (Inr (), sm')"
  shows "accounts (sm_storage sm') = sm_view accounts sm" "sm_view accounts sm' = sm_view accounts sm"
    "dirty_accounts sm' = []" "sm_inv accounts sm'" "roots (sm_storage sm') = roots (sm_storage sm)"
    "current_root sm' = current_root sm" "current_height sm' = current_height sm" "versions sm' = versions sm"
proof -
  have dist: "map_of (rev (dirty_accounts sm)) = map_of (dirty_accounts sm)"
    using assms(1) by (simp add: sm_inv_def map_of_rev_wf)
  have acc: "accounts (sm_storage sm') = sm_view accounts sm"
  proof (cases "dirty_accounts sm = []")
    case True
    with assms show ?thesis
      by (force simp: commit_dirty_accounts_def Let_def sm_view_def fun_eq_iff sm_inv_def split: option.splits)
  next
    case False
    then obtain st where st: "so_write_batch S (fold (\<lambda>(a, acc). add_account a acc) (dirty_accounts sm) batch_new)
        (sm_storage sm) = Inr st" and sm': "sm' = sm\<lparr>dirty_accounts := [], sm_storage := st\<rparr>"
      using assms(2) by (auto simp: commit_dirty_accounts_def Let_def split: sum.splits)
    have "accounts st a = sm_view accounts sm a" for a
      using write_entries [OF st] assms(1) dist
      by (auto simp: fold_add_account batch_new_def apply_entries_map_of sm_view_def sm_inv_def
          split: option.splits)
    then show ?thesis by (simp add: sm' fun_eq_iff)
  qed
  have cache: "account_cache sm' = account_cache sm" and dirty: "dirty_accounts sm' = []"
    and meta: "current_root sm' = current_root sm" "current_height sm' = current_height sm" "versions sm' = versions sm"
    using assms(2) by (auto simp: commit_dirty_accounts_def Let_def split: sum.splits if_splits)
  show "accounts (sm_storage sm') = sm_view accounts sm" by (fact acc)
  show "sm_view accounts sm' = sm_view accounts sm"
    using acc cache dirty by (auto simp: sm_view_def fun_eq_iff split: option.splits)
  show "dirty_accounts sm' = []" by (fact dirty)
  show "sm_inv accounts sm'"
    using acc cache dirty assms(1) by (auto simp: sm_inv_def sm_view_def)
  show "roots (sm_storage sm') = roots (sm_storage sm)"
    using assms(2) write_entries
    by (auto simp: commit_dirty_accounts_def Let_def fold_add_account batch_new_def split: sum.splits if_splits)
  show "current_root sm' = current_root sm" "current_height sm' = current_height sm" "versions sm' = versions sm"
    by (fact meta)+
qed

lemma block_ok:
  assumes "sm_inv accounts sm" "apply_block X S now b sm = (Inr v, sm')"
  shows "\<exists>sm1. apply_transactions X S now (transactions b) sm = (Inr (), sm1) \<and>
      sm_view accounts sm' = sm_view accounts sm1 \<and>
      v = state_version_new now (hdr_height (header b)) (compute_state_root X sm1) (block_hash X b) (current_root sm)"
    and "hdr_height (header b) = current_height sm + 1"
    and "current_height sm' = hdr_height (header b)" "current_root sm' = sv_root v"
    "map_of (versions sm') (hdr_height (header b)) = Some v"
    "roots (sm_storage sm') = (roots (sm_storage sm))(hdr_height (header b) \<mapsto> sv_root v)"
    "accounts (sm_storage sm') = sm_view accounts sm'" "dirty_accounts sm' = []" "sm_inv accounts sm'"
proof -
  let ?h = "hdr_height (header b)"
  have h: "?h = current_height sm + 1"
    using assms(2) by (auto simp: apply_block_def Let_def split: if_splits)
  obtain sm1 where 1: "apply_transactions X S now (transactions b) sm = (Inr (), sm1)"
    using assms(2) h by (auto simp: apply_block_def Let_def split: prod.splits sum.splits)
  let ?rt = "compute_state_root X sm1"
  let ?v = "state_version_new now ?h ?rt (block_hash X b) (current_root sm)"
  obtain st where st: "so_save_state_root S ?h ?rt (sm_storage sm1) = Inr st"
    using assms(2) h 1 by (auto simp: apply_block_def Let_def split: prod.splits sum.splits)
  let ?sm3 = "sm1\<lparr>versions := AList.update ?h ?v (versions sm1), sm_storage := st,
                  current_root := ?rt, current_height := ?h\<rparr>"
  have c: "commit_dirty_accounts S ?sm3 = (Inr (), sm')" and v: "v = ?v"
    using assms(2) h 1 st by (auto simp: apply_block_def Let_def split: prod.splits sum.splits)
  have w: "accounts st = accounts (sm_storage sm1)" "roots st = (roots (sm_storage sm1))(?h \<mapsto> ?rt)"
    using write_root [OF st] by simp_all
  have inv1: "sm_inv accounts sm1"
    using transactions_inv [OF assms(1), of X now "transactions b"] 1 by simp
  have meta1: "sm_storage sm1 = sm_storage sm"
    using transactions_meta [of sm X now "transactions b"] 1 by (simp add: same_meta_def)
  have inv3: "sm_inv accounts ?sm3" and view3: "sm_view accounts ?sm3 = sm_view accounts sm1"
    using inv1 w(1) by (auto simp: sm_inv_def sm_view_def fun_eq_iff split: option.splits)
  note co = commit_ok [OF inv3 c]
  show "\<exists>sm1. apply_transactions X S now (transactions b) sm = (Inr (), sm1) \<and>
      sm_view accounts sm' = sm_view accounts sm1 \<and>
      v = state_version_new now ?h (compute_state_root X sm1) (block_hash X b) (current_root sm)"
    using 1 co(2) view3 v by auto
  show "?h = current_height sm + 1" by (fact h)
  show "current_height sm' = ?h" "current_root sm' = sv_root v" "map_of (versions sm') ?h = Some v"
    "roots (sm_storage sm') = (roots (sm_storage sm))(?h \<mapsto> sv_root v)"
    "accounts (sm_storage sm') = sm_view accounts sm'"
    "dirty_accounts sm' = []" "sm_inv accounts sm'"
    using co v w(2) meta1 by (simp_all add: state_version_new_def)
qed

lemma revert_view:
  assumes "revert_to_height X S h sm = (Inr (), sm')"
  shows "sm_view accounts sm' = accounts (sm_storage sm)" "current_height sm' = h"
    "sm_storage sm' = sm_storage sm"
  using assms by (auto simp: revert_to_height_def sm_view_def fun_eq_iff split: sum.splits option.splits)

end

context reliable_storage
begin

lemma get_account_total: "\<exists>r sm'. sm_get_account S a sm = (Inr r, sm')"
  using read_account_ok [of a "sm_storage sm"]
  by (auto simp: sm_get_account_def split: option.splits sum.splits)

lemma transfer_succeeds_iff:
  "(\<exists>sm'. apply_transfer X S now from to amount fee sm = (Inr (), sm')) \<longleftrightarrow>
     (\<exists>acc. sm_view accounts sm from = Some acc \<and> saturating_add amount fee \<le> balance acc)"
proof
  assume "\<exists>sm'. apply_transfer X S now from to amount fee sm = (Inr (), sm')"
  then show "\<exists>acc. sm_view accounts sm from = Some acc \<and> saturating_add amount fee \<le> balance acc"
    using transfer_ok(1) by blast
next
  assume "\<exists>acc. sm_view accounts sm from = Some acc \<and> saturating_add amount fee \<le> balance acc"
  then obtain acc where acc: "sm_view accounts sm from = Some acc" "\<not> balance acc < saturating_add amount fee"
    by (auto simp: not_less)
  obtain r sm1 where 1: "sm_get_account S from sm = (Inr r, sm1)"
    using get_account_total by blast
  moreover obtain r2 sm2 where "sm_get_account S to sm1 = (Inr r2, sm2)"
    using get_account_total by blast
  ultimately show "\<exists>sm'. apply_transfer X S now from to amount fee sm = (Inr (), sm')"
    using get_account_ok(1) [OF 1] acc by (auto simp: apply_transfer_def Let_def)
qed

lemma transfer_outcome:
  "case sm_view accounts sm sender of
     None \<Rightarrow> fst (apply_transfer X S now sender to amount fee sm) = Inl (AccountNotFound (address_short X sender))
   | Some acc \<Rightarrow>
       if balance acc < saturating_add amount fee
       then fst (apply_transfer X S now sender to amount fee sm) =
              Inl (InsufficientBalance (saturating_add amount fee) (balance acc))
       else fst (apply_transfer X S now sender to amount fee sm) = Inr ()"
proof -
  obtain r sm1 where 1: "sm_get_account S sender sm = (Inr r, sm1)"
    using get_account_total by blast
  moreover obtain r2 sm2 where "sm_get_account S to sm1 = (Inr r2, sm2)"
    using get_account_total by blast
  ultimately show ?thesis
    using get_account_ok(1) [OF 1] by (auto simp: apply_transfer_def Let_def split: option.splits)
qed

lemma commit_total: "\<exists>sm'. commit_dirty_accounts S sm = (Inr (), sm')"
  using write_entries_ok [of "fold (\<lambda>(a, acc). add_account a acc) (dirty_accounts sm) batch_new" "sm_storage sm"]
  by (auto simp: commit_dirty_accounts_def Let_def)

lemma block_succeeds_iff:
  "(\<exists>v sm'. apply_block X S now b sm = (Inr v, sm')) \<longleftrightarrow>
     hdr_height (header b) = current_height sm + 1 \<and>
     (\<exists>sm1. apply_transactions X S now (transactions b) sm = (Inr (), sm1))"
proof
  assume "\<exists>v sm'. apply_block X S now b sm = (Inr v, sm')"
  then show "hdr_height (header b) = current_height sm + 1 \<and>
      (\<exists>sm1. apply_transactions X S now (transactions b) sm = (Inr (), sm1))"
    by (auto simp: apply_block_def Let_def split: if_splits prod.splits sum.splits)
next
  assume "hdr_height (header b) = current_height sm + 1 \<and>
      (\<exists>sm1. apply_transactions X S now (transactions b) sm = (Inr (), sm1))"
  then obtain sm1 where h: "hdr_height (header b) = current_height sm + 1"
    and 1: "apply_transactions X S now (transactions b) sm = (Inr (), sm1)" by blast
  obtain st where st: "so_save_state_root S (hdr_height (header b)) (compute_state_root X sm1) (sm_storage sm1) = Inr st"
    using write_root_ok by blast
  let ?sm3 = "sm1\<lparr>versions := AList.update (hdr_height (header b)) (state_version_new now (hdr_height (header b))
      (compute_state_root X sm1) (block_hash X b) (current_root sm)) (versions sm1),
      sm_storage := st, current_root := compute_state_root X sm1, current_height := hdr_height (header b)\<rparr>"
  obtain sm4 where "commit_dirty_accounts S ?sm3 = (Inr (), sm4)"
    using commit_total by blast
  then show "\<exists>v sm'. apply_block X S now b sm = (Inr v, sm')"
    using h 1 st by (auto simp: apply_block_def Let_def)
qed

end

section \<open>Properties of the state manager over the in-memory store\<close>

abbreviation mem_view :: "memory_storage state_manager \<Rightarrow> address \<Rightarrow> account option" where
  "mem_view \<equiv> sm_view (\<lambda>s a. get_account a s)"

abbreviation mem_inv :: "memory_storage state_manager \<Rightarrow> bool" where
  "mem_inv \<equiv> sm_inv (\<lambda>s a. get_account a s)"

definition sample_state :: "memory_storage state_manager" where
  "sample_state =
     \<lparr>sm_storage = save_state_root 0 zero32 (save_account (replicate 32 1) sample_account memory_storage_new),
      current_root = zero32, current_height = 0, account_cache = [], dirty_accounts = [],
      sm_smt = \<lparr>smt_root = zero32, default_hashes = []\<rparr>, versions = []\<rparr>"

definition sample_block :: block where
  "sample_block = block_new sample_externals 1000 1 zero32 [sample_tx] zero32"

lemma sample_state_inv: "mem_inv sample_state"
  by (simp add: sample_state_def sm_inv_def)

lemma sample_state_view [simp]:
  "mem_view sample_state a = (if a = replicate 32 1 then Some sample_account else None)"
  by (simp add: sample_state_def sm_view_def get_account_def save_account_def memory_storage_new_def)

lemma sample_block_parts [simp]:
  "hdr_height (header sample_block) = 1" "transactions sample_block = [sample_tx]"
  "current_height sample_state = 0"
  by (simp_all add: sample_block_def block_new_def sample_state_def)

lemma sample_tx_parts [simp]:
  "tx_from sample_tx = replicate 32 1" "tx_to sample_tx = replicate 32 2"
  "tx_amount sample_tx = 500" "tx_fee sample_tx = 10"
  by (simp_all add: sample_tx_def)

lemma sample_account_balance [simp]: "balance sample_account = 1000"
  by (simp add: sample_account_def account_new_def)

lemma sample_block_applies:
  obtains v sm' where
    "apply_block sample_externals (memory_ops sample_externals 0) 1000 sample_block sample_state = (Inr v, sm')"
proof -
  have "\<exists>sm1. apply_transfer sample_externals (memory_ops sample_externals 0) 1000 (replicate 32 1)
      (replicate 32 2) 500 10 sample_state = (Inr (), sm1)"
    unfolding mem.transfer_succeeds_iff by (simp add: saturating_add_def)
  then have "\<exists>sm1. apply_transactions sample_externals (memory_ops sample_externals 0) 1000 [sample_tx]
      sample_state = (Inr (), sm1)"
    by auto
  then have "\<exists>v sm'. apply_block sample_externals (memory_ops sample_externals 0) 1000 sample_block
      sample_state = (Inr v, sm')"
    unfolding mem.block_succeeds_iff by simp
  then show ?thesis using that by blast
qed

text \<open>
  C6. Outcome of \<open>apply_transfer\<close> on every branch, for any manager state over the in-memory
  store: an unknown sender and an insufficient balance are reported with the values of the
  source and leave the account view as it was; otherwise the call succeeds, the sender is
  debited by amount plus fee with its nonce advanced by one, and the recipient (created when it
  does not exist) is credited with the amount. The
  transaction's nonce is not an argument and is never compared.
\<close>

theorem apply_transfer_spec:
  "let (r, sm') = apply_transfer X (memory_ops X t) now sender to amount fee sm;
       cost = saturating_add amount fee
   in case mem_view sm sender of
        None \<Rightarrow> r = Inl (AccountNotFound (address_short X sender)) \<and> mem_view sm' = mem_view sm
      | Some acc \<Rightarrow>
          if balance acc < cost
          then r = Inl (InsufficientBalance cost (balance acc)) \<and> mem_view sm' = mem_view sm
          else r = Inr () \<and>
               mem_view sm' = (mem_view sm)
                 (sender \<mapsto> debited now cost acc, to \<mapsto> credited now to amount (mem_view sm to))"
proof -
  obtain r sm' where eq: "apply_transfer X (memory_ops X t) now sender to amount fee sm = (r, sm')"
    by fastforce
  have outcome: "case mem_view sm sender of
     None \<Rightarrow> r = Inl (AccountNotFound (address_short X sender))
   | Some acc \<Rightarrow> if balance acc < saturating_add amount fee
       then r = Inl (InsufficientBalance (saturating_add amount fee) (balance acc)) else r = Inr ()"
    using mem.transfer_outcome [where X = X and Y = X and t = t and now = now and sm = sm and sender = sender
        and to = to and amount = amount and fee = fee, unfolded eq fst_conv] .
  show ?thesis
  proof (cases r)
    case (Inl e)
    with eq outcome mem.transfer_err show ?thesis
      by (auto simp: Let_def split: option.splits if_splits)
  next
    case (Inr u)
    with eq outcome mem.transfer_ok(1) show ?thesis
      by (fastforce simp: Let_def split: option.splits if_splits)
  qed
qed





text \<open>
  C10. A transfer of an account to itself creates money: the recipient's copy is read before
  the debit is stored and is stored last, so the debit, the fee and the nonce increment are
  lost and the account gains the amount.
\<close>

theorem self_transfer_mints:
  assumes "mem_view sm a = Some acc" "unat amount + unat fee \<le> unat (balance acc)"
    and "unat (balance acc) + unat amount < 2 ^ 128"
  shows "\<exists>sm' acc'. apply_transfer X (memory_ops X t) now a a amount fee sm = (Inr (), sm') \<and>
     mem_view sm' = (mem_view sm)(a \<mapsto> acc') \<and>
     unat (balance acc') = unat (balance acc) + unat amount \<and> nonce acc' = nonce acc"
proof -
  have "unat (saturating_add amount fee) = unat amount + unat fee"
    using assms(2) unat_bound [of "balance acc"] by (simp add: unat_saturating_add)
  then have cost: "saturating_add amount fee \<le> balance acc"
    using assms(2) by (simp add: word_le_nat_alt)
  then obtain sm' where ok: "apply_transfer X (memory_ops X t) now a a amount fee sm = (Inr (), sm')"
    using assms(1) mem.transfer_succeeds_iff by blast
  have "mem_view sm' = (mem_view sm)(a \<mapsto> credited now a amount (Some acc))"
    using mem.transfer_ok(1) [OF ok] assms(1) by auto
  moreover have "unat (balance (credited now a amount (Some acc))) = unat (balance acc) + unat amount"
    "nonce (credited now a amount (Some acc)) = nonce acc"
    using assms(3) by (simp_all add: credited_def unat_saturating_add record_activity_def)
  ultimately show ?thesis using ok by blast
qed

theorem self_transfer_mints_witness:
  "\<exists>sm' acc'. apply_transfer sample_externals (memory_ops sample_externals 0) 5 (replicate 32 1)
       (replicate 32 1) 400 10 sample_state = (Inr (), sm') \<and>
     mem_view sm' = (mem_view sample_state)(replicate 32 1 \<mapsto> acc') \<and>
     unat (balance acc') = 1400 \<and> nonce acc' = nonce sample_account"
  using self_transfer_mints [of sample_state "replicate 32 1" sample_account 400 10 sample_externals 0 5]
  by simp

text \<open>
  A block whose transaction fails is reported as failed but not undone: the transfers
  before the failing one stay in the account view (and in the uncommitted accounts that the
  next successful block will commit), while height, root, versions and storage are unchanged.
\<close>

theorem failed_block_keeps_prefix:
  assumes "hdr_height (header b) = current_height sm + 1" "transactions b = txs @ tx # rest"
    and "apply_transactions X (memory_ops X t) now txs sm = (Inr (), sm1)"
    and "fst (apply_transfer X (memory_ops X t) now (tx_from tx) (tx_to tx) (tx_amount tx) (tx_fee tx) sm1) = Inl e"
  shows "\<exists>sm'. apply_block X (memory_ops X t) now b sm = (Inl e, sm') \<and>
     mem_view sm' = mem_view sm1 \<and> same_meta sm sm'"
proof -
  obtain sm2 where 2: "apply_transfer X (memory_ops X t) now (tx_from tx) (tx_to tx) (tx_amount tx)
      (tx_fee tx) sm1 = (Inl e, sm2)"
    using assms(4) by (metis fst_conv surj_pair)
  have txs: "apply_transactions X (memory_ops X t) now (transactions b) sm = (Inl e, sm2)"
    using assms(2,3) 2 by (simp add: mem.transactions_append)
  have "same_meta sm sm2"
    using mem.transactions_meta [where sm = sm and X = X and Y = X and t = t and now = now and txs = "transactions b"] txs
    by simp
  with txs assms(1) mem.transfer_err [OF 2] show ?thesis
    by (auto simp: apply_block_def Let_def)
qed

definition sample_bad_block :: block where
  "sample_bad_block = block_new sample_externals 1000 1 zero32 [sample_tx, sample_tx] zero32"

theorem failed_block_keeps_prefix_witness:
  "\<exists>sm'. apply_block sample_externals (memory_ops sample_externals 0) 1000 sample_bad_block sample_state =
       (Inl (InsufficientBalance 510 490), sm') \<and> view_balance (mem_view sm') (replicate 32 1) = 490"
proof -
  let ?S = "memory_ops sample_externals 0" and ?a = "replicate 32 1 :: address" and ?b = "replicate 32 2 :: address"
  obtain sm1 where 1: "apply_transfer sample_externals ?S 1000 ?a ?b 500 10 sample_state = (Inr (), sm1)"
    using mem.transfer_succeeds_iff [of sample_externals sample_externals 0 1000 ?a ?b 500 10 sample_state]
    by (auto simp: saturating_add_def)
  have txs: "apply_transactions sample_externals ?S 1000 [sample_tx] sample_state = (Inr (), sm1)"
    using 1 by simp
  have ne: "?a \<noteq> ?b" by (simp add: numeral_eq_Suc)
  obtain acc where v: "mem_view sm1 ?a = Some acc" "balance acc = 490"
    using mem.transfer_ok(1) [OF 1] ne by (auto simp: debited_def record_activity_def saturating_add_def)
  have bad: "fst (apply_transfer sample_externals ?S 1000 ?a ?b 500 10 sm1) = Inl (InsufficientBalance 510 490)"
    using mem.transfer_outcome [where sm = sm1 and sender = ?a and X = sample_externals and Y = sample_externals
        and t = 0 and now = 1000 and to = ?b and amount = 500 and fee = 10] v
    by (simp add: saturating_add_def)
  have "hdr_height (header sample_bad_block) = current_height sample_state + 1"
    "transactions sample_bad_block = [sample_tx] @ sample_tx # []"
    by (simp_all add: sample_bad_block_def block_new_def sample_state_def)
  from failed_block_keeps_prefix [OF this txs] bad v show ?thesis
    by (auto simp: view_balance_def)
qed

text \<open>
  Reverting restores the height and the recorded root but not the accounts: after a block
  has been applied, reverting to the height before it succeeds whenever that height's root is
  recorded, and every account still has the value the block gave it.
\<close>

theorem revert_keeps_accounts:
  assumes "mem_inv sm" "apply_block X (memory_ops X t) now b sm = (Inr v, sm')"
    and "get_state_root (current_height sm) (sm_storage sm) = Some rt"
  shows "\<exists>sm''. revert_to_height X (memory_ops X t) (current_height sm) sm' = (Inr (), sm'') \<and>
     current_height sm'' = current_height sm \<and> mem_view sm'' = mem_view sm'"
proof -
  have "current_height sm \<noteq> hdr_height (header b)"
    using mem.block_ok(2) [OF assms(1,2)] by simp
  then have "get_state_root (current_height sm) (sm_storage sm') = Some rt"
    using fun_cong [OF mem.block_ok(6) [OF assms(1,2)], of "current_height sm"] assms(3) by simp
  then obtain v' where "get_version (memory_ops X t) (current_height sm) sm' = Inr (Some v')"
    by (cases "map_of (versions sm') (current_height sm)") (auto simp: get_version_def memory_ops_def)
  then obtain sm'' where r: "revert_to_height X (memory_ops X t) (current_height sm) sm' = (Inr (), sm'')"
    by (auto simp: revert_to_height_def)
  then show ?thesis
    using mem.revert_view [OF r] mem.block_ok(7) [OF assms(1,2)] by auto
qed

theorem revert_keeps_accounts_witness:
  "\<exists>sm' sm''. snd (apply_block sample_externals (memory_ops sample_externals 0) 1000 sample_block sample_state) = sm' \<and>
     revert_to_height sample_externals (memory_ops sample_externals 0) 0 sm' = (Inr (), sm'') \<and>
     current_height sm'' = 0 \<and> mem_view sm'' = mem_view sm'"
proof -
  obtain v sm' where r: "apply_block sample_externals (memory_ops sample_externals 0) 1000 sample_block
      sample_state = (Inr v, sm')"
    by (rule sample_block_applies)
  have "get_state_root (current_height sample_state) (sm_storage sample_state) = Some zero32"
    by (simp add: sample_state_def get_state_root_def save_state_root_def)
  from revert_keeps_accounts [OF sample_state_inv r this] r show ?thesis by auto
qed

end
