(* ===== verification/Mempool_Pool.thy ===== *)
theory Mempool_Pool
  imports State_Manager Pacyte_Float
begin

text \<open>
  \<open>src/mempool/mod.rs\<close>, \<open>validator.rs\<close> and \<open>pool.rs\<close>: admission of transactions and the pool with
  its nonce, per-address and priority indexes. An operation of \<open>MempoolImpl\<close> is one step of the
  pool (two calls that overlap at an \<open>await\<close> are not interleaved in the model). The state manager
  the pool shares with the engine is an argument and a result, since reading an account fills its
  cache. The priority index, a \<open>BTreeMap\<close>, is a list in ascending order of its keys.

  A serialised transaction is never empty (\<open>bincode\<close> writes its fixed fields), so the divisions by
  \<open>tx.size()\<close> are divisions by a positive number.
\<close>

section \<open>Configuration and results\<close>

record mempool_config =
  mc_max_size :: usize
  max_tx_age_secs :: u64
  min_fee_per_byte :: u64
  max_tx_per_address :: usize
  enable_fee_priority :: bool
  enable_nonce_gap_filling :: bool
  max_nonce_gap :: u64

definition mempool_config_default :: mempool_config where
  "mempool_config_default =
     \<lparr>mc_max_size = 10000, max_tx_age_secs = 3600, min_fee_per_byte = 1, max_tx_per_address = 100,
      enable_fee_priority = True, enable_nonce_gap_filling = True, max_nonce_gap = 10\<rparr>"

datatype add_tx_result = Added | AlreadyExists | Replaced hash | Rejected string

definition is_added :: "add_tx_result \<Rightarrow> bool" where
  "is_added r = (case r of Added \<Rightarrow> True | Replaced _ \<Rightarrow> True | _ \<Rightarrow> False)"

record mempool_stats =
  total_transactions :: nat
  total_size_bytes :: usize
  avg_fee_per_byte :: f64
  oldest_tx_age_secs :: u64
  st_rejected_count :: u64
  st_replaced_count :: u64
  pending_by_address :: "(address \<times> nat) list"

definition mempool_stats_default :: mempool_stats where
  "mempool_stats_default =
     \<lparr>total_transactions = 0, total_size_bytes = 0, avg_fee_per_byte = 0, oldest_tx_age_secs = 0,
      st_rejected_count = 0, st_replaced_count = 0, pending_by_address = []\<rparr>"

section \<open>Validation\<close>

definition verify_signature :: "externals \<Rightarrow> transaction \<Rightarrow> bool" where
  "verify_signature X tx =
     (if tx_signature tx = [] then False
      else if length (tx_signature tx) = 64 then ed25519_verify X (sighash X tx) (tx_signature tx) (tx_from tx)
      else if length (tx_signature tx) = 4595 then dilithium5_verify X (sighash X tx) (tx_signature tx) (tx_from tx)
      else False)"

definition check_balance :: "'s storage_ops \<Rightarrow> transaction \<Rightarrow> 's state_manager \<Rightarrow> bool \<times> 's state_manager" where
  "check_balance S tx sm =
     (let (r, sm') = get_balance S (tx_from tx) sm in (total_cost tx \<le> unwrap_or 0 r, sm'))"

definition check_nonce ::
    "mempool_config \<Rightarrow> 's storage_ops \<Rightarrow> transaction \<Rightarrow> 's state_manager \<Rightarrow>
     tx_validation_result \<times> 's state_manager" where
  "check_nonce cfg S tx sm =
     (let (r, sm') = get_nonce S (tx_from tx) sm; current_nonce = unwrap_or 0 r
      in (if tx_nonce tx < current_nonce then TxInvalidNonce current_nonce (tx_nonce tx)
          else if tx_nonce tx > current_nonce + max_nonce_gap cfg then TxInvalidNonce current_nonce (tx_nonce tx)
          else TxValid, sm'))"

definition check_fee :: "externals \<Rightarrow> mempool_config \<Rightarrow> transaction \<Rightarrow> bool" where
  "check_fee X cfg tx \<longleftrightarrow> tx_fee tx div ucast (tx_size X tx) \<ge> ucast (min_fee_per_byte cfg)"

text \<open>\<open>MempoolValidator::validate\<close>; \<open>None\<close> is the panic of \<open>unwrap\<close> on a storage error.\<close>

definition validator_validate ::
    "externals \<Rightarrow> mempool_config \<Rightarrow> 's storage_ops \<Rightarrow> timestamp \<Rightarrow> transaction \<Rightarrow> 's state_manager \<Rightarrow>
     (tx_validation_result \<times> 's state_manager) option" where
  "validator_validate X cfg S now tx sm =
     (if \<not> validate_basic now (max_tx_age_secs cfg) tx then Some (TxOther ''Basic validation failed'', sm)
      else if \<not> verify_signature X tx then Some (TxInvalidSignature, sm)
      else case check_balance S tx sm of
        (False, sm1) \<Rightarrow>
          (let (r, sm2) = get_balance S (tx_from tx) sm1
           in Some (TxInsufficientBalance (total_cost tx) (unwrap_or 0 r), sm2))
      | (True, sm1) \<Rightarrow>
          (case check_nonce cfg S tx sm1 of (nonce_result, sm2) \<Rightarrow>
             if \<not> is_valid nonce_result then Some (nonce_result, sm2)
             else if \<not> check_fee X cfg tx
             then Some (TxFeeTooLow (tx_fee tx) (ucast (min_fee_per_byte cfg) * ucast (tx_size X tx)), sm2)
             else (case sm_get_account S (tx_from tx) sm2 of
                     (Inl e, sm3) \<Rightarrow> None
                   | (Inr None, sm3) \<Rightarrow> Some (TxValid, sm3)
                   | (Inr (Some acc), sm3) \<Rightarrow>
                       Some (if is_dormant acc then TxAccountDormant 6 else TxValid, sm3))))"

section \<open>The pool\<close>

record pooled_tx =
  pt_tx :: transaction
  added_at :: timestamp
  pt_hash :: hash
  pt_size :: usize
  fee_per_byte :: f64
  priority :: f64

definition fee_rate :: "externals \<Rightarrow> transaction \<Rightarrow> f64" where
  "fee_rate X tx = fl_div (f64_of_word (tx_fee tx)) (f64_of_word (tx_size X tx))"

definition pooled_new :: "externals \<Rightarrow> timestamp \<Rightarrow> transaction \<Rightarrow> pooled_tx" where
  "pooled_new X now tx =
     \<lparr>pt_tx = tx, added_at = now, pt_hash = tx_hash X tx, pt_size = tx_size X tx,
      fee_per_byte = fee_rate X tx, priority = fee_rate X tx\<rparr>"

definition age_secs :: "timestamp \<Rightarrow> pooled_tx \<Rightarrow> u64" where
  "age_secs now p = saturating_sub now (added_at p)"

record mempool_impl =
  mp_config :: mempool_config
  mp_transactions :: "(hash \<times> pooled_tx) list"
  pending_nonces :: "(address \<times> u64 set) list"
  tx_count_by_address :: "(address \<times> usize) list"
  priority_index :: "(u64 \<times> hash list) list"
  mp_stats :: mempool_stats
  rejected_count :: u64
  replaced_count :: u64

definition mempool_new :: "mempool_config \<Rightarrow> mempool_impl" where
  "mempool_new cfg =
     \<lparr>mp_config = cfg, mp_transactions = [], pending_nonces = [], tx_count_by_address = [],
      priority_index = [], mp_stats = mempool_stats_default, rejected_count = 0, replaced_count = 0\<rparr>"

definition validate_transaction ::
    "externals \<Rightarrow> 's storage_ops \<Rightarrow> timestamp \<Rightarrow> transaction \<Rightarrow> mempool_impl \<Rightarrow> 's state_manager \<Rightarrow>
     (string + unit) \<times> 's state_manager" where
  "validate_transaction X S now tx p sm =
     (if \<not> validate_basic now (max_tx_age_secs (mp_config p)) tx then (Inl ''Basic validation failed'', sm)
      else if \<not> verify_signature X tx then (Inl ''Invalid signature'', sm)
      else case check_balance S tx sm of
        (False, sm1) \<Rightarrow> (Inl ''Insufficient balance'', sm1)
      | (True, sm1) \<Rightarrow>
          (case check_nonce (mp_config p) S tx sm1 of (r, sm2) \<Rightarrow>
             if r \<noteq> TxValid then (Inl (error_message r), sm2)
             else if \<not> check_fee X (mp_config p) tx then (Inl ''Fee too low'', sm2)
             else (Inr (), sm2)))"

definition should_replace :: "externals \<Rightarrow> pooled_tx \<Rightarrow> transaction \<Rightarrow> bool" where
  "should_replace X existing new =
     (if tx_nonce (pt_tx existing) = tx_nonce new
      then fee_rate X new > fl_mul (fee_per_byte existing) (rnd (11 / 10)) else False)"

definition priority_key :: "f64 \<Rightarrow> u64" where
  "priority_key pr = word_of_f64 (fl_mul pr 1000000)"

fun index_push :: "u64 \<Rightarrow> hash \<Rightarrow> (u64 \<times> hash list) list \<Rightarrow> (u64 \<times> hash list) list" where
  "index_push k h [] = [(k, [h])]"
| "index_push k h ((k', hs) # idx) =
     (if k < k' then (k, [h]) # (k', hs) # idx
      else if k = k' then (k, hs @ [h]) # idx
      else (k', hs) # index_push k h idx)"

definition add_to_priority_index :: "hash \<Rightarrow> f64 \<Rightarrow> mempool_impl \<Rightarrow> mempool_impl" where
  "add_to_priority_index h pr p = p\<lparr>priority_index := index_push (priority_key pr) h (priority_index p)\<rparr>"

definition swap_remove :: "nat \<Rightarrow> 'a list \<Rightarrow> 'a list" where
  "swap_remove i xs = butlast (xs[i := last xs])"

fun index_remove :: "hash \<Rightarrow> (u64 \<times> hash list) list \<Rightarrow> (u64 \<times> hash list) list" where
  "index_remove h [] = []"
| "index_remove h ((k, hs) # idx) =
     (if h \<in> set hs then (k, swap_remove (length (takeWhile (\<lambda>x. x \<noteq> h) hs)) hs) # idx
      else (k, hs) # index_remove h idx)"

definition remove_from_priority_index :: "hash \<Rightarrow> mempool_impl \<Rightarrow> mempool_impl" where
  "remove_from_priority_index h p = p\<lparr>priority_index := index_remove h (priority_index p)\<rparr>"

definition update_stats :: "timestamp \<Rightarrow> mempool_impl \<Rightarrow> mempool_impl" where
  "update_stats now p =
     (let pts = map snd (mp_transactions p); n = length pts
      in p\<lparr>mp_stats := (mp_stats p)
            \<lparr>total_transactions := n,
             total_size_bytes := foldl (\<lambda>s t. s + pt_size t) 0 pts,
             avg_fee_per_byte :=
               (if n > 0 then fl_div (foldl (\<lambda>s t. fl_add s (fee_per_byte t)) 0 pts) (rnd (of_nat n)) else 0),
             oldest_tx_age_secs := foldl (\<lambda>a t. max a (age_secs now t)) 0 pts,
             st_rejected_count := rejected_count p,
             st_replaced_count := replaced_count p\<rparr>\<rparr>)"

definition remove_transaction :: "timestamp \<Rightarrow> hash \<Rightarrow> mempool_impl \<Rightarrow> transaction option \<times> mempool_impl" where
  "remove_transaction now h p =
     (case map_of (mp_transactions p) h of
        None \<Rightarrow> (None, p)
      | Some t \<Rightarrow>
          let a = tx_from (pt_tx t);
              p1 = p\<lparr>mp_transactions := AList.delete h (mp_transactions p)\<rparr>;
              p2 = (case map_of (pending_nonces p1) a of
                      Some ns \<Rightarrow> p1\<lparr>pending_nonces := AList.update a (ns - {tx_nonce (pt_tx t)}) (pending_nonces p1)\<rparr>
                    | None \<Rightarrow> p1);
              p3 = (case map_of (tx_count_by_address p2) a of
                      Some c \<Rightarrow> p2\<lparr>tx_count_by_address := AList.update a (saturating_sub c 1) (tx_count_by_address p2)\<rparr>
                    | None \<Rightarrow> p2)
          in (Some (pt_tx t), update_stats now (remove_from_priority_index h p3)))"

text \<open>The second half of \<open>add_transaction\<close>: the new entry and its indexes.\<close>

definition insert_pooled :: "externals \<Rightarrow> timestamp \<Rightarrow> transaction \<Rightarrow> mempool_impl \<Rightarrow> mempool_impl" where
  "insert_pooled X now tx p =
     (let pooled = pooled_new X now tx; h = tx_hash X tx; a = tx_from tx;
          ns = (case map_of (pending_nonces p) a of Some ns \<Rightarrow> ns | None \<Rightarrow> {});
          c = (case map_of (tx_count_by_address p) a of Some c \<Rightarrow> c | None \<Rightarrow> 0);
          p1 = p\<lparr>pending_nonces := AList.update a (insert (tx_nonce tx) ns) (pending_nonces p),
                 tx_count_by_address := AList.update a (c + 1) (tx_count_by_address p)\<rparr>;
          p2 = add_to_priority_index h (priority pooled) p1
      in update_stats now (p2\<lparr>mp_transactions := AList.update h pooled (mp_transactions p2)\<rparr>))"

text \<open>The pooled transaction of the same sender and nonce, if the nonce is pending.\<close>

definition conflicting :: "transaction \<Rightarrow> mempool_impl \<Rightarrow> pooled_tx option" where
  "conflicting tx p =
     (case map_of (pending_nonces p) (tx_from tx) of
        None \<Rightarrow> None
      | Some ns \<Rightarrow>
          if tx_nonce tx \<in> ns
          then find (\<lambda>t. tx_from (pt_tx t) = tx_from tx \<and> tx_nonce (pt_tx t) = tx_nonce tx) (map snd (mp_transactions p))
          else None)"

definition pool_add_transaction ::
    "externals \<Rightarrow> 's storage_ops \<Rightarrow> timestamp \<Rightarrow> transaction \<Rightarrow> mempool_impl \<Rightarrow> 's state_manager \<Rightarrow>
     add_tx_result pacyte_result \<times> mempool_impl \<times> 's state_manager" where
  "pool_add_transaction X S now tx p sm =
     (if map_of (mp_transactions p) (tx_hash X tx) \<noteq> None then (Inr AlreadyExists, p, sm)
      else if length (mp_transactions p) \<ge> unat (mc_max_size (mp_config p))
      then (Inr (Rejected ''Mempool full''), p, sm)
      else if (case map_of (tx_count_by_address p) (tx_from tx) of Some c \<Rightarrow> c | None \<Rightarrow> 0)
              \<ge> max_tx_per_address (mp_config p)
      then (Inr (Rejected (''Too many pending txs from address (max: '' @
              show_word (max_tx_per_address (mp_config p)) @ '')'')), p, sm)
      else case validate_transaction X S now tx p sm of
        (Inl reason, sm1) \<Rightarrow> (Inr (Rejected reason), p\<lparr>rejected_count := rejected_count p + 1\<rparr>, sm1)
      | (Inr _, sm1) \<Rightarrow>
          (case conflicting tx p of
             None \<Rightarrow> (Inr Added, insert_pooled X now tx p, sm1)
           | Some old \<Rightarrow>
               if \<not> should_replace X old tx then (Inr (Rejected ''Replacement fee too low''), p, sm1)
               else let p1 = snd (remove_transaction now (pt_hash old) p)
                    in (Inr (Replaced (pt_hash old)),
                        insert_pooled X now tx (p1\<lparr>replaced_count := replaced_count p1 + 1\<rparr>), sm1)))"

definition pool_get_transaction :: "hash \<Rightarrow> mempool_impl \<Rightarrow> transaction option" where
  "pool_get_transaction h p = map_option pt_tx (map_of (mp_transactions p) h)"

definition get_all_transactions :: "mempool_impl \<Rightarrow> transaction list" where
  "get_all_transactions p = map (pt_tx \<circ> snd) (mp_transactions p)"

definition get_transactions_by_address :: "address \<Rightarrow> mempool_impl \<Rightarrow> transaction list" where
  "get_transactions_by_address a p = filter (\<lambda>tx. tx_from tx = a) (get_all_transactions p)"

definition pool_size :: "mempool_impl \<Rightarrow> nat" where
  "pool_size p = length (mp_transactions p)"

text \<open>
  \<open>select_for_block\<close>: the inner loop over the hashes of one priority, which \<open>break\<close> leaves, and
  the outer loop over the priorities from the highest.
\<close>

record selection =
  selected :: "transaction list"
  selected_hashes :: "hash set"
  current_size :: usize
  nonce_tracker :: "(address \<times> u64) list"

fun select_hashes ::
    "mempool_impl \<Rightarrow> nat \<Rightarrow> usize \<Rightarrow> hash list \<Rightarrow> selection \<Rightarrow> selection" where
  "select_hashes p max_count max_size [] s = s"
| "select_hashes p max_count max_size (h # hs) s =
     (if length (selected s) \<ge> max_count \<or> current_size s \<ge> max_size then s
      else if h \<in> selected_hashes s then select_hashes p max_count max_size hs s
      else case map_of (mp_transactions p) h of
        None \<Rightarrow> select_hashes p max_count max_size hs s
      | Some pooled \<Rightarrow>
          let tx = pt_tx pooled;
              expected_nonce = (case map_of (nonce_tracker s) (tx_from tx) of Some n \<Rightarrow> n + 1 | None \<Rightarrow> 0)
          in if tx_nonce tx < expected_nonce then select_hashes p max_count max_size hs s
             else if tx_nonce tx > expected_nonce + max_nonce_gap (mp_config p)
             then select_hashes p max_count max_size hs s
             else if current_size s + pt_size pooled > max_size then select_hashes p max_count max_size hs s
             else select_hashes p max_count max_size hs
                    \<lparr>selected = selected s @ [tx], selected_hashes = insert h (selected_hashes s),
                     current_size = current_size s + pt_size pooled,
                     nonce_tracker = AList.update (tx_from tx) (tx_nonce tx) (nonce_tracker s)\<rparr>)"

definition selection_start :: selection where
  "selection_start = \<lparr>selected = [], selected_hashes = {}, current_size = 0, nonce_tracker = []\<rparr>"

definition select_for_block :: "nat \<Rightarrow> usize \<Rightarrow> mempool_impl \<Rightarrow> transaction list" where
  "select_for_block max_count max_size p =
     selected (fold (\<lambda>(k, hs). select_hashes p max_count max_size hs) (rev (priority_index p)) selection_start)"

definition remove_all :: "timestamp \<Rightarrow> hash list \<Rightarrow> mempool_impl \<Rightarrow> mempool_impl" where
  "remove_all now hs p = fold (\<lambda>h p. snd (remove_transaction now h p)) hs p"

text \<open>The hashes of the transactions whose nonce the state has reached.\<close>

fun stale_hashes ::
    "'s storage_ops \<Rightarrow> (hash \<times> pooled_tx) list \<Rightarrow> 's state_manager \<Rightarrow> hash list \<times> 's state_manager" where
  "stale_hashes S [] sm = ([], sm)"
| "stale_hashes S ((h, t) # es) sm =
     (let (r, sm1) = get_nonce S (tx_from (pt_tx t)) sm;
          (hs, sm2) = stale_hashes S es sm1
      in (if tx_nonce (pt_tx t) \<le> unwrap_or 0 r then h # hs else hs, sm2))"

definition cleanup ::
    "'s storage_ops \<Rightarrow> timestamp \<Rightarrow> hash list \<Rightarrow> 's state_manager \<Rightarrow> mempool_impl \<Rightarrow>
     mempool_impl \<times> 's state_manager" where
  "cleanup S now processed_txs sm p =
     (let p1 = remove_all now processed_txs p;
          (to_remove, sm') = stale_hashes S (mp_transactions p1) sm
      in (remove_all now to_remove p1, sm'))"

definition prune_expired :: "timestamp \<Rightarrow> timestamp \<Rightarrow> mempool_impl \<Rightarrow> nat \<times> mempool_impl" where
  "prune_expired now current_time p =
     (let expired = map fst (filter (\<lambda>(h, t). saturating_sub current_time (added_at t) > max_tx_age_secs (mp_config p))
                               (mp_transactions p))
      in (length expired, remove_all now expired p))"

section \<open>The indexes\<close>

lemma mset_swap_remove: "i < length xs \<Longrightarrow> mset (swap_remove i xs) = mset xs - {#xs ! i#}"
proof (induction xs rule: rev_induct)
  case (snoc x xs)
  then show ?case
    by (cases "i = length xs")
      (auto simp: swap_remove_def list_update_append nth_append mset_update butlast_append)
qed simp

lemma first_position: "h \<in> set hs \<Longrightarrow> length (takeWhile (\<lambda>x. x \<noteq> h) hs) < length hs"
  by (induction hs) auto

lemma mset_remove_first:
  "h \<in> set hs \<Longrightarrow> mset (swap_remove (length (takeWhile (\<lambda>x. x \<noteq> h) hs)) hs) = mset hs - {#h#}"
  using nth_length_takeWhile [of "\<lambda>x. x \<noteq> h" hs] first_position [of h hs]
  by (subst mset_swap_remove) auto

definition index_mset :: "(u64 \<times> hash list) list \<Rightarrow> hash multiset" where
  "index_mset idx = mset (concat (map snd idx))"

lemma index_mset_push: "index_mset (index_push k h idx) = add_mset h (index_mset idx)"
  by (induction k h idx rule: index_push.induct) (auto simp: index_mset_def)

lemma index_mset_remove: "index_mset (index_remove h idx) = index_mset idx - {#h#}"
proof (induction h idx rule: index_remove.induct)
  case (2 h k hs idx)
  have "h \<notin># mset hs \<Longrightarrow> mset hs + (A - {#h#}) = mset hs + A - {#h#}" for A
    by (cases "h \<in># A") (auto simp: diff_union_swap2 diff_single_trivial)
  with 2 show ?case
    by (cases "h \<in> set hs") (auto simp: index_mset_def mset_remove_first)
qed (simp add: index_mset_def)

text \<open>A hash of the index stands under a key that satisfies \<open>P\<close>.\<close>

definition keyed :: "(u64 \<Rightarrow> hash \<Rightarrow> bool) \<Rightarrow> (u64 \<times> hash list) list \<Rightarrow> bool" where
  "keyed P idx \<longleftrightarrow> (\<forall>(k, hs) \<in> set idx. \<forall>h \<in> set hs. P k h)"

lemma keyed_push: "keyed P (index_push k h idx) \<longleftrightarrow> P k h \<and> keyed P idx"
  by (induction k h idx rule: index_push.induct) (auto simp: keyed_def)

lemma set_swap_remove: "i < length xs \<Longrightarrow> set (swap_remove i xs) \<subseteq> set xs"
  by (metis mset_swap_remove diff_subset_eq_self set_mset_mono set_mset_mset)

lemma keyed_remove: "keyed P idx \<Longrightarrow> keyed P (index_remove h idx)"
proof (induction h idx rule: index_remove.induct)
  case (2 h k hs idx)
  have "h \<in> set hs \<Longrightarrow> set (swap_remove (length (takeWhile (\<lambda>x. x \<noteq> h) hs)) hs) \<subseteq> set hs"
    by (rule set_swap_remove) (rule first_position)
  with 2 show ?case by (auto simp: keyed_def)
qed simp

lemma keyed_in_index: "keyed P idx \<Longrightarrow> h \<in># index_mset idx \<Longrightarrow> \<exists>k. P k h"
  by (fastforce simp: keyed_def index_mset_def)

lemma keys_index_push: "fst ` set (index_push k h idx) = insert k (fst ` set idx)"
  by (induction k h idx rule: index_push.induct) auto

lemma sorted_index_push:
  "sorted_wrt (<) (map fst idx) \<Longrightarrow> sorted_wrt (<) (map fst (index_push k h idx))"
proof (induction k h idx rule: index_push.induct)
  case (2 k h k' hs idx)
  then show ?case
    using keys_index_push [of k h idx] by (auto simp: image_iff)
qed simp

lemma keys_index_remove [simp]: "map fst (index_remove h idx) = map fst idx"
  by (induction h idx rule: index_remove.induct) auto

section \<open>The invariant of the pool\<close>

definition from_addr :: "address \<Rightarrow> pooled_tx \<Rightarrow> nat" where
  "from_addr a t = of_bool (tx_from (pt_tx t) = a)"

definition pending_of :: "address \<Rightarrow> mempool_impl \<Rightarrow> u64 set" where
  "pending_of a p = (case map_of (pending_nonces p) a of Some ns \<Rightarrow> ns | None \<Rightarrow> {})"

definition count_of :: "address \<Rightarrow> mempool_impl \<Rightarrow> usize" where
  "count_of a p = (case map_of (tx_count_by_address p) a of Some c \<Rightarrow> c | None \<Rightarrow> 0)"

definition pool_inv :: "externals \<Rightarrow> mempool_impl \<Rightarrow> bool" where
  "pool_inv X p \<longleftrightarrow>
     wf_map (mp_transactions p) \<and> wf_map (pending_nonces p) \<and> wf_map (tx_count_by_address p) \<and>
     sorted_wrt (<) (map fst (priority_index p)) \<and>
     (\<forall>h t. map_of (mp_transactions p) h = Some t \<longrightarrow> t = pooled_new X (added_at t) (pt_tx t) \<and> h = pt_hash t) \<and>
     (\<forall>h t h' t'. map_of (mp_transactions p) h = Some t \<and> map_of (mp_transactions p) h' = Some t' \<and>
        tx_from (pt_tx t) = tx_from (pt_tx t') \<and> tx_nonce (pt_tx t) = tx_nonce (pt_tx t') \<longrightarrow> h = h') \<and>
     (\<forall>a n. n \<in> pending_of a p \<longleftrightarrow>
        (\<exists>h t. map_of (mp_transactions p) h = Some t \<and> tx_from (pt_tx t) = a \<and> tx_nonce (pt_tx t) = n)) \<and>
     (\<forall>a. unat (count_of a p) = alist_sum (from_addr a) (mp_transactions p)) \<and>
     index_mset (priority_index p) = mset (map fst (mp_transactions p)) \<and>
     keyed (\<lambda>k h. \<exists>t. map_of (mp_transactions p) h = Some t \<and> k = priority_key (priority t)) (priority_index p) \<and>
     length (mp_transactions p) \<le> unat (mc_max_size (mp_config p)) \<and>
     (\<forall>a. count_of a p \<le> max_tx_per_address (mp_config p))"

lemma pool_invD:
  assumes "pool_inv X p"
  shows "wf_map (mp_transactions p)"
    and "map_of (mp_transactions p) h = Some t \<Longrightarrow> t = pooled_new X (added_at t) (pt_tx t) \<and> h = pt_hash t"
    and "map_of (mp_transactions p) h = Some t \<Longrightarrow> map_of (mp_transactions p) h' = Some t' \<Longrightarrow>
      tx_from (pt_tx t) = tx_from (pt_tx t') \<Longrightarrow> tx_nonce (pt_tx t) = tx_nonce (pt_tx t') \<Longrightarrow> h = h'"
    and "n \<in> pending_of a p \<longleftrightarrow>
      (\<exists>h t. map_of (mp_transactions p) h = Some t \<and> tx_from (pt_tx t) = a \<and> tx_nonce (pt_tx t) = n)"
    and "unat (count_of a p) = alist_sum (from_addr a) (mp_transactions p)"
    and "index_mset (priority_index p) = mset (map fst (mp_transactions p))"
    and "length (mp_transactions p) \<le> unat (mc_max_size (mp_config p))"
    and "count_of a p \<le> max_tx_per_address (mp_config p)"
  using assms unfolding pool_inv_def by blast+

lemma pool_invI:
  assumes "wf_map (mp_transactions p)" "wf_map (pending_nonces p)" "wf_map (tx_count_by_address p)"
    and "sorted_wrt (<) (map fst (priority_index p))"
    and "\<And>h t. map_of (mp_transactions p) h = Some t \<Longrightarrow> t = pooled_new X (added_at t) (pt_tx t) \<and> h = pt_hash t"
    and "\<And>h t h' t'. map_of (mp_transactions p) h = Some t \<Longrightarrow> map_of (mp_transactions p) h' = Some t' \<Longrightarrow>
        tx_from (pt_tx t) = tx_from (pt_tx t') \<Longrightarrow> tx_nonce (pt_tx t) = tx_nonce (pt_tx t') \<Longrightarrow> h = h'"
    and "\<And>a n. n \<in> pending_of a p \<longleftrightarrow>
        (\<exists>h t. map_of (mp_transactions p) h = Some t \<and> tx_from (pt_tx t) = a \<and> tx_nonce (pt_tx t) = n)"
    and "\<And>a. unat (count_of a p) = alist_sum (from_addr a) (mp_transactions p)"
    and "index_mset (priority_index p) = mset (map fst (mp_transactions p))"
    and "keyed (\<lambda>k h. \<exists>t. map_of (mp_transactions p) h = Some t \<and> k = priority_key (priority t)) (priority_index p)"
    and "length (mp_transactions p) \<le> unat (mc_max_size (mp_config p))"
    and "\<And>a. count_of a p \<le> max_tx_per_address (mp_config p)"
  shows "pool_inv X p"
  using assms unfolding pool_inv_def by blast

lemma keyed_mono:
  "keyed P idx \<Longrightarrow> (\<And>k h. h \<in># index_mset idx \<Longrightarrow> P k h \<Longrightarrow> Q k h) \<Longrightarrow> keyed Q idx"
  by (fastforce simp: keyed_def index_mset_def)

lemma update_stats_frame [simp]:
  "mp_config (update_stats now p) = mp_config p" "mp_transactions (update_stats now p) = mp_transactions p"
  "pending_nonces (update_stats now p) = pending_nonces p" "priority_index (update_stats now p) = priority_index p"
  "tx_count_by_address (update_stats now p) = tx_count_by_address p"
  "pending_of a (update_stats now p) = pending_of a p" "count_of a (update_stats now p) = count_of a p"
  by (simp_all add: update_stats_def Let_def pending_of_def count_of_def)

lemma pool_inv_frame [simp]:
  "pool_inv X (p\<lparr>rejected_count := n\<rparr>) = pool_inv X p" "pool_inv X (p\<lparr>replaced_count := n\<rparr>) = pool_inv X p"
  by (simp_all add: pool_inv_def pending_of_def count_of_def)

lemma remove_parts:
  assumes "map_of (mp_transactions p) h = Some t"
  shows "mp_transactions (snd (remove_transaction now h p)) = AList.delete h (mp_transactions p)"
    and "pending_of a (snd (remove_transaction now h p)) =
           (if a = tx_from (pt_tx t) then pending_of a p - {tx_nonce (pt_tx t)} else pending_of a p)"
    and "count_of a (snd (remove_transaction now h p)) =
           (if a = tx_from (pt_tx t) then saturating_sub (count_of a p) 1 else count_of a p)"
    and "priority_index (snd (remove_transaction now h p)) = index_remove h (priority_index p)"
    and "wf_map (pending_nonces p) \<Longrightarrow> wf_map (pending_nonces (snd (remove_transaction now h p)))"
    and "wf_map (tx_count_by_address p) \<Longrightarrow> wf_map (tx_count_by_address (snd (remove_transaction now h p)))"
  using assms
  by (auto simp: remove_transaction_def Let_def pending_of_def count_of_def remove_from_priority_index_def
      saturating_sub_def split: option.splits)

lemma remove_config [simp]: "mp_config (snd (remove_transaction now h p)) = mp_config p"
  by (auto simp: remove_transaction_def Let_def remove_from_priority_index_def split: option.splits)

lemma mset_delete_key:
  assumes "wf_map al" "map_of al k = Some v"
  shows "mset (map fst (AList.delete k al)) = mset (map fst al) - {#k#}"
  using assms
proof (induction al)
  case (Cons e al)
  show ?case
  proof (cases "fst e = k")
    case True
    with Cons.prems(1) show ?thesis by (simp add: delete_notin_dom)
  next
    case False
    with Cons.prems(2) have "map_of al k = Some v" by (cases e) simp
    have "mset (map fst (AList.delete k al)) = mset (map fst al) - {#k#}"
      using Cons.IH Cons.prems(1) \<open>map_of al k = Some v\<close> by simp
    then have "mset (map fst (AList.delete k (e # al))) = add_mset (fst e) (mset (map fst al) - {#k#})"
      using False by (cases e) simp
    also have "\<dots> = mset (map fst (e # al)) - {#k#}"
      using diff_union_swap [of k "fst e" "mset (map fst al)"] False by simp
    finally show ?thesis .
  qed
qed simp

lemma remove_inv [keeps_inv]:
  assumes inv: "pool_inv X p"
  shows "pool_inv X (snd (remove_transaction now h p))"
proof (cases "map_of (mp_transactions p) h")
  case None
  with inv show ?thesis by (simp add: remove_transaction_def)
next
  case (Some t)
  let ?a = "tx_from (pt_tx t)" and ?n = "tx_nonce (pt_tx t)" and ?p = "snd (remove_transaction now h p)"
  note parts = remove_parts [OF Some, where now = now]
  have wf: "wf_map (mp_transactions p)" and idx: "index_mset (priority_index p) = mset (map fst (mp_transactions p))"
    and cnt: "unat (count_of a p) = alist_sum (from_addr a) (mp_transactions p)" for a
    using inv by (auto simp: pool_inv_def)
  have sum: "alist_sum (from_addr a) (AList.delete h (mp_transactions p)) + from_addr a t =
      alist_sum (from_addr a) (mp_transactions p)" for a
    by (rule alist_sum_delete [OF wf Some])
  have cnt': "unat (count_of a ?p) = alist_sum (from_addr a) (mp_transactions ?p)" for a
    using sum [of a] cnt [of a] by (auto simp: parts from_addr_def unat_saturating_sub)
  have idx': "index_mset (priority_index ?p) = mset (map fst (mp_transactions ?p))"
    unfolding parts(1,4) index_mset_remove idx by (rule mset_delete_key [OF wf Some, symmetric])
  have "h \<notin># index_mset (priority_index ?p)"
    unfolding idx' by (simp add: parts(1) delete_keys del: mset_map)
  moreover have "keyed (\<lambda>k h. \<exists>t. map_of (mp_transactions p) h = Some t \<and> k = priority_key (priority t)) (priority_index ?p)"
    using inv by (auto simp: parts pool_inv_def intro: keyed_remove)
  ultimately have key: "keyed (\<lambda>k h. \<exists>t. map_of (mp_transactions ?p) h = Some t \<and> k = priority_key (priority t)) (priority_index ?p)"
    by (auto simp: parts elim!: keyed_mono)
  have len: "length (mp_transactions ?p) \<le> length (mp_transactions p)"
    by (simp add: parts length_delete_le)
  have pend: "n \<in> pending_of a ?p \<longleftrightarrow>
      (\<exists>h' t'. map_of (mp_transactions ?p) h' = Some t' \<and> tx_from (pt_tx t') = a \<and> tx_nonce (pt_tx t') = n)" for a n
  proof (cases "a = ?a \<and> n = ?n")
    case True
    then show ?thesis using pool_invD(3) [OF inv Some] by (auto simp: parts)
  next
    case False
    then have "n \<in> pending_of a ?p \<longleftrightarrow> n \<in> pending_of a p" by (auto simp: parts(2))
    with False Some show ?thesis
      unfolding parts(1) ex_entry_delete pool_invD(4) [OF inv] by (metis option.inject)
  qed
  have lim: "count_of a ?p \<le> max_tx_per_address (mp_config ?p)" for a
  proof -
    have "unat (count_of a ?p) \<le> unat (count_of a p)"
      using sum [of a] unfolding cnt' cnt parts(1) by simp
    moreover have "count_of a p \<le> max_tx_per_address (mp_config p)" using inv by (simp add: pool_inv_def)
    ultimately show ?thesis by (simp add: word_le_nat_alt)
  qed
  have old: "map_of (mp_transactions p) h' = Some t'" if "map_of (mp_transactions ?p) h' = Some t'" for h' t'
    using that by (simp add: parts split: if_splits)
  have wfs: "sorted_wrt (<) (map fst (priority_index ?p))" "wf_map (pending_nonces ?p)"
    "wf_map (tx_count_by_address ?p)" "wf_map (mp_transactions ?p)"
    using inv parts(5,6) wf unfolding parts(1,4) by (auto simp: pool_inv_def)
  show ?thesis
  proof (rule pool_invI)
    show "t' = pooled_new X (added_at t') (pt_tx t') \<and> h' = pt_hash t'"
      if "map_of (mp_transactions ?p) h' = Some t'" for h' t'
      by (rule pool_invD(2) [OF inv old [OF that]])
    show "h1 = h2" if "map_of (mp_transactions ?p) h1 = Some t1" "map_of (mp_transactions ?p) h2 = Some t2"
      "tx_from (pt_tx t1) = tx_from (pt_tx t2)" "tx_nonce (pt_tx t1) = tx_nonce (pt_tx t2)" for h1 t1 h2 t2
      using pool_invD(3) [OF inv old [OF that(1)] old [OF that(2)] that(3,4)] .
    show "length (mp_transactions ?p) \<le> unat (mc_max_size (mp_config ?p))"
      using len pool_invD(7) [OF inv] by simp
  qed (fact wfs cnt' idx' key pend lim)+
qed

lemma insert_parts:
  "mp_transactions (insert_pooled X now tx p) =
     AList.update (tx_hash X tx) (pooled_new X now tx) (mp_transactions p)"
  "pending_of a (insert_pooled X now tx p) =
     (if a = tx_from tx then insert (tx_nonce tx) (pending_of a p) else pending_of a p)"
  "count_of a (insert_pooled X now tx p) = (if a = tx_from tx then count_of a p + 1 else count_of a p)"
  "priority_index (insert_pooled X now tx p) =
     index_push (priority_key (fee_rate X tx)) (tx_hash X tx) (priority_index p)"
  "wf_map (pending_nonces p) \<Longrightarrow> wf_map (pending_nonces (insert_pooled X now tx p))"
  "wf_map (tx_count_by_address p) \<Longrightarrow> wf_map (tx_count_by_address (insert_pooled X now tx p))"
  "mp_config (insert_pooled X now tx p) = mp_config p"
  by (auto simp: insert_pooled_def Let_def pending_of_def count_of_def add_to_priority_index_def
      pooled_new_def split: option.splits)

lemma insert_inv:
  assumes inv: "pool_inv X p" and new: "map_of (mp_transactions p) (tx_hash X tx) = None"
    and room: "length (mp_transactions p) < unat (mc_max_size (mp_config p))"
      "count_of (tx_from tx) p < max_tx_per_address (mp_config p)"
    and nonce: "tx_nonce tx \<notin> pending_of (tx_from tx) p"
  shows "pool_inv X (insert_pooled X now tx p)"
proof -
  let ?p = "insert_pooled X now tx p" and ?h = "tx_hash X tx"
  have wf: "wf_map (mp_transactions p)" and idx: "index_mset (priority_index p) = mset (map fst (mp_transactions p))"
    and cnt: "\<And>a. unat (count_of a p) = alist_sum (from_addr a) (mp_transactions p)"
    using inv by (auto simp: pool_inv_def)
  have upd: "mp_transactions ?p = mp_transactions p @ [(?h, pooled_new X now tx)]"
    by (simp add: insert_parts update_fresh [OF new])
  have inc: "unat (count_of (tx_from tx) p + 1) = unat (count_of (tx_from tx) p) + 1"
    using room(2) unat_bound [of "max_tx_per_address (mp_config p)"]
    by (subst unat_add_no_overflow) (auto simp: word_less_nat_alt)
  have cnt': "unat (count_of a ?p) = alist_sum (from_addr a) (mp_transactions ?p)" for a
    using inc cnt [of a] by (auto simp: upd insert_parts(3) from_addr_def pooled_new_def)
  have "count_of a ?p \<le> max_tx_per_address (mp_config p)" for a
    using inv room(2) inc by (auto simp: insert_parts pool_inv_def word_le_nat_alt word_less_nat_alt)
  moreover have "index_mset (priority_index ?p) = mset (map fst (mp_transactions ?p))"
    by (simp add: insert_parts(4) index_mset_push idx upd)
  moreover have "keyed (\<lambda>k h. \<exists>t. map_of (mp_transactions ?p) h = Some t \<and> k = priority_key (priority t)) (priority_index ?p)"
    using inv new unfolding insert_parts keyed_push
    by (auto simp: pool_inv_def pooled_new_def elim!: keyed_mono)
  moreover have "n \<in> pending_of a ?p \<longleftrightarrow>
      (\<exists>h' t'. map_of (mp_transactions ?p) h' = Some t' \<and> tx_from (pt_tx t') = a \<and> tx_nonce (pt_tx t') = n)" for a n
    unfolding insert_parts ex_entry_update [OF new] by (auto simp: pool_invD(4) [OF inv] pooled_new_def)
  moreover have "h = h'" if "map_of (mp_transactions ?p) h = Some t" "map_of (mp_transactions ?p) h' = Some t'"
    "tx_from (pt_tx t) = tx_from (pt_tx t')" "tx_nonce (pt_tx t) = tx_nonce (pt_tx t')" for h t h' t'
    using that nonce pool_invD(3) [OF inv]
    by (auto simp: insert_parts pool_invD(4) [OF inv] pooled_new_def split: if_splits; blast)
  moreover have "t = pooled_new X (added_at t) (pt_tx t) \<and> h = pt_hash t" if "map_of (mp_transactions ?p) h = Some t" for h t
    using that pool_invD(2) [OF inv] by (auto simp: insert_parts pooled_new_def split: if_splits)
  moreover have "length (mp_transactions ?p) \<le> unat (mc_max_size (mp_config ?p))"
    using room(1) unfolding upd by (simp add: insert_parts)
  moreover have "wf_map (mp_transactions ?p)" using wf by (simp add: insert_parts)
  moreover have "sorted_wrt (<) (map fst (priority_index ?p))"
    using inv by (simp add: insert_parts pool_inv_def sorted_index_push)
  moreover have "wf_map (pending_nonces ?p)" "wf_map (tx_count_by_address ?p)"
    using inv insert_parts(5,6) by (auto simp: pool_inv_def)
  ultimately show ?thesis
    using cnt' by (intro pool_invI) (simp_all only: insert_parts(7))
qed

lemma find_SomeD: "find P xs = Some x \<Longrightarrow> x \<in> set xs \<and> P x"
  by (induction xs) (auto split: if_splits)

lemma conflicting_Some:
  assumes inv: "pool_inv X p" and "conflicting tx p = Some old"
  shows "map_of (mp_transactions p) (pt_hash old) = Some old" "tx_from (pt_tx old) = tx_from tx"
    "tx_nonce (pt_tx old) = tx_nonce tx"
proof -
  have "old \<in> set (map snd (mp_transactions p))" and eqs: "tx_from (pt_tx old) = tx_from tx \<and> tx_nonce (pt_tx old) = tx_nonce tx"
    using assms(2) by (auto simp: conflicting_def simp del: set_map dest!: find_SomeD split: option.splits if_splits)
  then obtain h where "(h, old) \<in> set (mp_transactions p)" by auto
  then have "map_of (mp_transactions p) h = Some old"
    using map_of_in_set [OF pool_invD(1) [OF inv]] by blast
  moreover from this have "h = pt_hash old" using pool_invD(2) [OF inv] by blast
  ultimately show "map_of (mp_transactions p) (pt_hash old) = Some old" "tx_from (pt_tx old) = tx_from tx"
    "tx_nonce (pt_tx old) = tx_nonce tx" using eqs by simp_all
qed

lemma conflicting_None:
  assumes inv: "pool_inv X p" and "conflicting tx p = None"
  shows "tx_nonce tx \<notin> pending_of (tx_from tx) p"
proof
  assume in_p: "tx_nonce tx \<in> pending_of (tx_from tx) p"
  then obtain h t where "map_of (mp_transactions p) h = Some t" "tx_from (pt_tx t) = tx_from tx" "tx_nonce (pt_tx t) = tx_nonce tx"
    using pool_invD(4) [OF inv] by blast
  then have "\<exists>t \<in> set (map snd (mp_transactions p)). tx_from (pt_tx t) = tx_from tx \<and> tx_nonce (pt_tx t) = tx_nonce tx"
    by (force dest: map_of_SomeD)
  with assms(2) in_p show False
    by (auto simp: conflicting_def pending_of_def find_None_iff split: option.splits if_splits)
qed

lemma pool_inv_new: "pool_inv X (mempool_new cfg)"
  by (auto simp: pool_inv_def mempool_new_def pending_of_def count_of_def index_mset_def keyed_def)

lemma add_inv [keeps_inv]:
  assumes inv: "pool_inv X p"
  shows "pool_inv X (fst (snd (pool_add_transaction X S now tx p sm)))"
proof (cases "map_of (mp_transactions p) (tx_hash X tx) = None \<and>
    length (mp_transactions p) < unat (mc_max_size (mp_config p)) \<and>
    count_of (tx_from tx) p < max_tx_per_address (mp_config p)")
  case False
  then show ?thesis
    using inv by (auto simp: pool_add_transaction_def count_of_def not_less not_le)
next
  case True
  then have new: "map_of (mp_transactions p) (tx_hash X tx) = None" by simp
  obtain r sm1 where v: "validate_transaction X S now tx p sm = (r, sm1)" by fastforce
  have plain: "pool_inv X (insert_pooled X now tx p)" if "conflicting tx p = None"
    using insert_inv [OF inv new] True conflicting_None [OF inv that] by simp
  have repl: "pool_inv X (insert_pooled X now tx (snd (remove_transaction now (pt_hash old) p)\<lparr>replaced_count := n\<rparr>))"
    if "conflicting tx p = Some old" for old n
  proof -
    note old = conflicting_Some [OF inv that]
    let ?p = "snd (remove_transaction now (pt_hash old) p)\<lparr>replaced_count := n\<rparr>"
    have same: "pending_of a ?p = pending_of a (snd (remove_transaction now (pt_hash old) p))"
      "count_of a ?p = count_of a (snd (remove_transaction now (pt_hash old) p))" for a
      by (simp_all add: pending_of_def count_of_def)
    note parts = remove_parts [OF old(1), where now = now]
    have "length (mp_transactions ?p) < unat (mc_max_size (mp_config p))"
      using True length_delete_le [of "pt_hash old" "mp_transactions p"] by (simp add: parts)
    moreover have "count_of (tx_from tx) ?p < max_tx_per_address (mp_config p)"
      using True by (auto simp: same parts old word_less_nat_alt unat_saturating_sub)
    moreover have "tx_nonce tx \<notin> pending_of (tx_from tx) ?p" by (simp add: same parts old)
    ultimately show ?thesis
      using insert_inv [of X ?p tx now] inv new by (simp add: parts remove_inv)
  qed
  show ?thesis
    using True inv v plain repl
    by (auto simp: pool_add_transaction_def count_of_def [symmetric] Let_def split: sum.splits option.splits)
qed

lemma remove_all_inv [keeps_inv]: "pool_inv X p \<Longrightarrow> pool_inv X (remove_all now hs p)"
  unfolding remove_all_def by (induction hs arbitrary: p) (auto simp: remove_inv)

lemma cleanup_inv [keeps_inv]: "pool_inv X p \<Longrightarrow> pool_inv X (fst (cleanup S now hs sm p))"
  by (simp add: cleanup_def Let_def split_beta remove_all_inv)

lemma prune_inv [keeps_inv]: "pool_inv X p \<Longrightarrow> pool_inv X (snd (prune_expired now tm p))"
  by (simp add: prune_expired_def Let_def remove_all_inv)

inductive pool_reachable :: "externals \<Rightarrow> 's storage_ops \<Rightarrow> mempool_config \<Rightarrow> mempool_impl \<Rightarrow> bool"
  for X S cfg where
  reach_new: "pool_reachable X S cfg (mempool_new cfg)"
| reach_add: "pool_reachable X S cfg p \<Longrightarrow> pool_reachable X S cfg (fst (snd (pool_add_transaction X S now tx p sm)))"
| reach_remove: "pool_reachable X S cfg p \<Longrightarrow> pool_reachable X S cfg (snd (remove_transaction now h p))"
| reach_cleanup: "pool_reachable X S cfg p \<Longrightarrow> pool_reachable X S cfg (fst (cleanup S now hs sm p))"
| reach_prune: "pool_reachable X S cfg p \<Longrightarrow> pool_reachable X S cfg (snd (prune_expired now tm p))"

lemma reachable_pool_inv: "pool_reachable X S cfg p \<Longrightarrow> pool_inv X p"
  by (induction rule: pool_reachable.induct) (auto simp: pool_inv_new keeps_inv)

section \<open>Selection for a block\<close>

definition by_sender :: "address \<Rightarrow> transaction list \<Rightarrow> transaction list" where
  "by_sender a = filter (\<lambda>tx. tx_from tx = a)"

definition nonces_rise :: "u64 \<Rightarrow> transaction list \<Rightarrow> bool" where
  "nonces_rise gap txs \<longleftrightarrow>
     sorted_wrt (<) (map tx_nonce txs) \<and> (txs \<noteq> [] \<longrightarrow> tx_nonce (hd txs) \<le> gap)"

lemma sorted_last_snoc:
  fixes xs :: "'a::linorder list"
  assumes "sorted_wrt (<) xs" "xs \<noteq> [] \<Longrightarrow> last xs < x"
  shows "sorted_wrt (<) (xs @ [x])"
  using assms by (cases xs rule: rev_cases) (auto simp: sorted_wrt_append intro: less_trans)

definition selection_inv :: "externals \<Rightarrow> mempool_impl \<Rightarrow> nat \<Rightarrow> usize \<Rightarrow> selection \<Rightarrow> bool" where
  "selection_inv X p max_count max_size s \<longleftrightarrow>
     length (selected s) \<le> max_count \<and>
     unat (current_size s) = sum_list (map (unat \<circ> tx_size X) (selected s)) \<and> current_size s \<le> max_size \<and>
     distinct (map (tx_hash X) (selected s)) \<and> selected_hashes s = tx_hash X ` set (selected s) \<and>
     (\<forall>tx \<in> set (selected s). pool_get_transaction (tx_hash X tx) p = Some tx) \<and>
     (\<forall>a. map_of (nonce_tracker s) a =
        (if by_sender a (selected s) = [] then None else Some (tx_nonce (last (by_sender a (selected s)))))) \<and>
     (\<forall>a. nonces_rise (max_nonce_gap (mp_config p)) (by_sender a (selected s)))"

text \<open>No sum of the selection leaves the range of its type.\<close>

definition selection_in_range :: "usize \<Rightarrow> mempool_impl \<Rightarrow> bool" where
  "selection_in_range max_size p \<longleftrightarrow>
     (\<forall>t \<in> set (map snd (mp_transactions p)). unat max_size + unat (pt_size t) < 2 ^ 64 \<and> tx_nonce (pt_tx t) \<noteq> - 1)"

lemma select_hashes_inv:
  assumes inv: "pool_inv X p" and range: "selection_in_range max_size p"
  shows "selection_inv X p max_count max_size s \<Longrightarrow>
         selection_inv X p max_count max_size (select_hashes p max_count max_size hs s)"
proof (induction hs arbitrary: s)
  case (Cons h hs)
  show ?case
  proof (cases "map_of (mp_transactions p) h")
    case None
    with Cons show ?thesis by simp
  next
    case (Some t)
    define expected where "expected = (case map_of (nonce_tracker s) (tx_from (pt_tx t)) of Some n \<Rightarrow> n + 1 | None \<Rightarrow> 0)"
    let ?s = "\<lparr>selected = selected s @ [pt_tx t], selected_hashes = insert h (selected_hashes s),
               current_size = current_size s + pt_size t,
               nonce_tracker = AList.update (tx_from (pt_tx t)) (tx_nonce (pt_tx t)) (nonce_tracker s)\<rparr>"
    have "selection_inv X p max_count max_size ?s"
      if take: "length (selected s) < max_count" "h \<notin> selected_hashes s" "\<not> tx_nonce (pt_tx t) < expected"
        "\<not> tx_nonce (pt_tx t) > expected + max_nonce_gap (mp_config p)" "\<not> current_size s + pt_size t > max_size"
    proof -
      have t: "pt_size t = tx_size X (pt_tx t)" "h = tx_hash X (pt_tx t)"
        using pool_invD(2) [OF inv Some] by (metis pooled_new_def pooled_tx.select_convs)+
      have mem: "t \<in> set (map snd (mp_transactions p))" using Some by (force dest: map_of_SomeD)
      have "unat (current_size s) \<le> unat max_size"
        using Cons.prems by (simp add: selection_inv_def word_le_nat_alt)
      then have "unat (current_size s + pt_size t) = unat (current_size s) + unat (pt_size t)"
        using range mem by (intro unat_add_no_overflow) (force simp: selection_in_range_def)
      moreover have "nonces_rise (max_nonce_gap (mp_config p)) (by_sender a (selected s @ [pt_tx t]))" for a
      proof (cases "a = tx_from (pt_tx t) \<and> by_sender a (selected s) \<noteq> []")
        case True
        let ?l = "by_sender a (selected s)"
        have last: "map_of (nonce_tracker s) a = Some (tx_nonce (last ?l))" and rise: "nonces_rise (max_nonce_gap (mp_config p)) ?l"
          using Cons.prems True by (auto simp: selection_inv_def)
        have "last ?l \<in> set (selected s)" using True last_in_set [of ?l] by (auto simp: by_sender_def)
        then have "pool_get_transaction (tx_hash X (last ?l)) p = Some (last ?l)"
          using Cons.prems by (auto simp: selection_inv_def)
        then have "tx_nonce (last ?l) \<noteq> - 1"
          using range by (force simp: pool_get_transaction_def selection_in_range_def dest: map_of_SomeD)
        then have "tx_nonce (last ?l) < tx_nonce (last ?l) + 1" by (rule less_succ_word)
        then have "tx_nonce (last ?l) < tx_nonce (pt_tx t)"
          using take(3) True last by (simp add: expected_def)
        with rise True show ?thesis
          by (auto simp: nonces_rise_def by_sender_def last_map intro!: sorted_last_snoc)
      next
        case False
        then show ?thesis
          using Cons.prems take(4) by (auto simp: selection_inv_def nonces_rise_def by_sender_def expected_def)
      qed
      ultimately show ?thesis
        using Cons.prems take Some t unfolding selection_inv_def
        by (auto simp: pool_get_transaction_def by_sender_def not_less)
    qed
    with Cons Some show ?thesis by (auto simp: Let_def expected_def)
  qed
qed simp

lemma select_for_block_inv:
  assumes "pool_inv X p" "selection_in_range max_size p"
  shows "\<exists>s. selection_inv X p max_count max_size s \<and> selected s = select_for_block max_count max_size p"
proof -
  have "selection_inv X p max_count max_size s \<Longrightarrow>
      selection_inv X p max_count max_size (fold (\<lambda>(k, hs). select_hashes p max_count max_size hs) idx s)" for idx s
    by (induction idx arbitrary: s) (auto simp: select_hashes_inv [OF assms])
  moreover have "selection_inv X p max_count max_size selection_start"
    by (simp add: selection_inv_def selection_start_def by_sender_def nonces_rise_def)
  ultimately show ?thesis unfolding select_for_block_def by blast
qed

section \<open>Removal\<close>

lemma remove_map:
  "map_of (mp_transactions (snd (remove_transaction now h p))) = (map_of (mp_transactions p))(h := None)"
  by (cases "map_of (mp_transactions p) h")
    (auto simp: remove_parts(1), auto simp: remove_transaction_def fun_eq_iff)

lemma remove_all_map:
  "map_of (mp_transactions (remove_all now hs p)) h =
     (if h \<in> set hs then None else map_of (mp_transactions p) h)"
  unfolding remove_all_def by (induction hs arbitrary: p) (auto simp: remove_map)

lemma remove_all_config [simp]: "mp_config (remove_all now hs p) = mp_config p"
  unfolding remove_all_def by (induction hs arbitrary: p) auto

lemma reachable_config: "pool_reachable X S cfg p \<Longrightarrow> mp_config p = cfg"
  by (induction rule: pool_reachable.induct)
    (auto simp: mempool_new_def pool_add_transaction_def cleanup_def prune_expired_def Let_def split_beta insert_parts(7)
      split: sum.splits option.splits)

definition view_nonce :: "(address \<Rightarrow> account option) \<Rightarrow> address \<Rightarrow> u64" where
  "view_nonce v a = (case v a of None \<Rightarrow> 0 | Some acc \<Rightarrow> nonce acc)"

context reliable_storage
begin

lemma get_nonce_ok:
  "fst (get_nonce S a sm) = Inr (view_nonce (sm_view accounts sm) a)"
  "sm_view accounts (snd (get_nonce S a sm)) = sm_view accounts sm" "same_meta sm (snd (get_nonce S a sm))"
  "dirty_accounts (snd (get_nonce S a sm)) = dirty_accounts sm"
proof -
  obtain r sm' where g: "sm_get_account S a sm = (r, sm')" by fastforce
  obtain rr where "so_get_account S a (sm_storage sm) = Inr rr" using read_account_ok by blast
  then obtain opt where r: "r = Inr opt"
    using g by (auto simp: sm_get_account_def split: option.splits) metis+
  note ok = get_account_ok [OF g [unfolded r]]
  show "fst (get_nonce S a sm) = Inr (view_nonce (sm_view accounts sm) a)"
    "sm_view accounts (snd (get_nonce S a sm)) = sm_view accounts sm" "same_meta sm (snd (get_nonce S a sm))"
    "dirty_accounts (snd (get_nonce S a sm)) = dirty_accounts sm"
    using ok by (auto simp: get_nonce_def g r view_nonce_def split: option.splits)
qed

lemma stale_ok:
  "fst (stale_hashes S es sm) =
     map fst (filter (\<lambda>(h, t). tx_nonce (pt_tx t) \<le> view_nonce (sm_view accounts sm) (tx_from (pt_tx t))) es) \<and>
   sm_view accounts (snd (stale_hashes S es sm)) = sm_view accounts sm \<and> same_meta sm (snd (stale_hashes S es sm)) \<and>
   dirty_accounts (snd (stale_hashes S es sm)) = dirty_accounts sm"
proof (induction es arbitrary: sm)
  case (Cons e es)
  obtain h t where e: "e = (h, t)" by (cases e)
  obtain r sm1 where g: "get_nonce S (tx_from (pt_tx t)) sm = (r, sm1)" by fastforce
  have sm1: "sm_view accounts sm1 = sm_view accounts sm" "same_meta sm sm1" "dirty_accounts sm1 = dirty_accounts sm"
    "r = Inr (view_nonce (sm_view accounts sm) (tx_from (pt_tx t)))"
    using get_nonce_ok [where a = "tx_from (pt_tx t)" and sm = sm] by (simp_all add: g)
  show ?case
    using Cons [of sm1] sm1 by (auto simp: e g split_beta intro: same_meta_trans)
qed simp

text \<open>What \<open>cleanup\<close> keeps: exactly the transactions that were not processed and whose nonce the state has not reached.\<close>

lemma cleanup_ok:
  assumes inv: "pool_inv X p"
  shows "map_of (mp_transactions (fst (cleanup S now hs sm p))) h =
      (case map_of (mp_transactions p) h of
         None \<Rightarrow> None
       | Some t \<Rightarrow> if h \<in> set hs \<or> tx_nonce (pt_tx t) \<le> view_nonce (sm_view accounts sm) (tx_from (pt_tx t))
                   then None else Some t)"
    and "sm_view accounts (snd (cleanup S now hs sm p)) = sm_view accounts sm"
    and "same_meta sm (snd (cleanup S now hs sm p))"
    and "dirty_accounts (snd (cleanup S now hs sm p)) = dirty_accounts sm"
proof -
  let ?p = "remove_all now hs p"
  note stale = stale_ok [of "mp_transactions ?p" sm]
  have wf: "wf_map (mp_transactions ?p)" by (rule pool_invD(1) [OF remove_all_inv [OF inv]])
  have "h \<in> set (fst (stale_hashes S (mp_transactions ?p) sm)) \<longleftrightarrow>
      (\<exists>t. map_of (mp_transactions ?p) h = Some t \<and> tx_nonce (pt_tx t) \<le> view_nonce (sm_view accounts sm) (tx_from (pt_tx t)))"
    unfolding stale [THEN conjunct1] using map_of_in_set [OF wf] by force
  then show "map_of (mp_transactions (fst (cleanup S now hs sm p))) h =
      (case map_of (mp_transactions p) h of
         None \<Rightarrow> None
       | Some t \<Rightarrow> if h \<in> set hs \<or> tx_nonce (pt_tx t) \<le> view_nonce (sm_view accounts sm) (tx_from (pt_tx t))
                   then None else Some t)"
    by (auto simp: cleanup_def Let_def split_beta remove_all_map split: option.splits if_splits)
  show "sm_view accounts (snd (cleanup S now hs sm p)) = sm_view accounts sm"
    "same_meta sm (snd (cleanup S now hs sm p))" "dirty_accounts (snd (cleanup S now hs sm p)) = dirty_accounts sm"
    using stale by (simp_all add: cleanup_def Let_def split_beta)
qed

end

section \<open>What the engine relies on\<close>

text \<open>
  The two methods of the \<open>Mempool\<close> trait that the consensus engine calls, as a record over the
  type of the pool, and their contract. The pool satisfies \<open>ok\<close> between calls and holds the
  transactions \<open>pooled\<close>, by their hashes.
\<close>

record ('s, 'm) mempool_ops =
  mo_select_for_block :: "nat \<Rightarrow> usize \<Rightarrow> 'm \<Rightarrow> transaction list"
  mo_cleanup :: "timestamp \<Rightarrow> hash list \<Rightarrow> 's state_manager \<Rightarrow> 'm \<Rightarrow> 'm \<times> 's state_manager"

locale block_mempool =
  fixes M :: "('s, 'm) mempool_ops"
    and accounts :: "'s \<Rightarrow> address \<Rightarrow> account option"
    and ok :: "'m \<Rightarrow> bool"
    and pooled :: "'m \<Rightarrow> hash \<Rightarrow> transaction option"
  assumes cleanup_keeps_ok: "ok m \<Longrightarrow> ok (fst (mo_cleanup M now hs sm m))"
    and cleanup_pooled: "ok m \<Longrightarrow> pooled (fst (mo_cleanup M now hs sm m)) h =
      (case pooled m h of
         None \<Rightarrow> None
       | Some tx \<Rightarrow> if h \<in> set hs \<or> tx_nonce tx \<le> view_nonce (sm_view accounts sm) (tx_from tx) then None else Some tx)"
    and cleanup_state: "ok m \<Longrightarrow> sm_view accounts (snd (mo_cleanup M now hs sm m)) = sm_view accounts sm"
      "ok m \<Longrightarrow> same_meta sm (snd (mo_cleanup M now hs sm m))"

definition pool_ops :: "'s storage_ops \<Rightarrow> ('s, mempool_impl) mempool_ops" where
  "pool_ops S = \<lparr>mo_select_for_block = select_for_block, mo_cleanup = cleanup S\<rparr>"

interpretation pool: block_mempool "pool_ops (memory_ops Y t)" "\<lambda>s a. get_account a s" "pool_inv X"
    "\<lambda>p h. pool_get_transaction h p"
  by unfold_locales
    (auto simp: pool_ops_def cleanup_inv pool_get_transaction_def mem.cleanup_ok split: option.splits)

section \<open>Properties of the mempool\<close>

definition sample_pool_tx :: "u64 \<Rightarrow> transaction" where
  "sample_pool_tx n = sample_tx\<lparr>tx_fee := 500, tx_nonce := n, tx_signature := replicate 64 1\<rparr>"

definition sample_nonce_state :: "u64 \<Rightarrow> memory_storage state_manager" where
  "sample_nonce_state n = sample_state\<lparr>account_cache := [(replicate 32 1, sample_account\<lparr>nonce := n\<rparr>)]\<rparr>"

lemma sample_pool_add:
  "pool_add_transaction sample_externals (memory_ops sample_externals 0) 1000 (sample_pool_tx 11)
     (mempool_new mempool_config_default) (sample_nonce_state 11) =
   (Inr Added, insert_pooled sample_externals 1000 (sample_pool_tx 11) (mempool_new mempool_config_default),
    sample_nonce_state 11)"
proof -
  let ?X = sample_externals and ?S = "memory_ops sample_externals 0" and ?p = "mempool_new mempool_config_default"
    and ?tx = "sample_pool_tx 11" and ?sm = "sample_nonce_state 11"
  have basic: "validate_basic 1000 3600 ?tx"
    by (simp add: validate_basic_def sample_pool_tx_def sample_tx_def checked_add_def)
  have sig: "verify_signature ?X ?tx"
    by (simp add: verify_signature_def sample_pool_tx_def sample_tx_def sighash_def sighash_preimage_def sample_externals_def
        replicate_add [symmetric])
  have size: "tx_size ?X ?tx = 112"
    by (simp add: tx_size_def sample_externals_def sample_pool_tx_def sample_tx_def sighash_preimage_def)
  have fee: "check_fee ?X mempool_config_default ?tx"
    unfolding check_fee_def size
    by (simp add: sample_pool_tx_def mempool_config_default_def word_le_nat_alt unat_div)
  have acc: "sm_get_account ?S (replicate 32 1) ?sm = (Inr (Some (sample_account\<lparr>nonce := 11\<rparr>)), ?sm)"
    by (simp add: sm_get_account_def sample_nonce_state_def)
  have "check_balance ?S ?tx ?sm = (True, ?sm)"
    using acc by (simp add: check_balance_def get_balance_def sample_pool_tx_def total_cost_def saturating_add_def)
  moreover have "check_nonce mempool_config_default ?S ?tx ?sm = (TxValid, ?sm)"
    using acc by (simp add: check_nonce_def get_nonce_def sample_pool_tx_def mempool_config_default_def)
  ultimately have "validate_transaction ?X ?S 1000 ?tx ?p ?sm = (Inr (), ?sm)"
    using basic sig fee by (simp add: validate_transaction_def mempool_new_def) (simp add: mempool_config_default_def)
  then show ?thesis
    by (simp add: pool_add_transaction_def conflicting_def) (simp add: mempool_new_def mempool_config_default_def)
qed

lemma by_address_sum: "alist_sum (from_addr a) al = length (filter (\<lambda>tx. tx_from tx = a) (map (pt_tx \<circ> snd) al))"
  by (induction al) (auto simp: from_addr_def)

lemma nonces_by_address:
  assumes inv: "pool_inv X p"
  shows "distinct (map tx_nonce (get_transactions_by_address a p))"
    and "set (map tx_nonce (get_transactions_by_address a p)) = pending_of a p"
proof -
  note in_set = map_of_in_set [OF pool_invD(1) [OF inv]]
  have eq: "map tx_nonce (get_transactions_by_address a p) =
      map (\<lambda>e. tx_nonce (pt_tx (snd e))) (filter (\<lambda>e. tx_from (pt_tx (snd e)) = a) (mp_transactions p))"
    by (simp add: get_transactions_by_address_def get_all_transactions_def filter_map comp_def)
  have "inj_on (\<lambda>e. tx_nonce (pt_tx (snd e))) (set (filter (\<lambda>e. tx_from (pt_tx (snd e)) = a) (mp_transactions p)))"
  proof (rule inj_onI, goal_cases)
    case (1 e e')
    obtain h t h' t' where e: "e = (h, t)" "e' = (h', t')" by (cases e, cases e') blast
    have "(h, t) \<in> set (mp_transactions p)" "(h', t') \<in> set (mp_transactions p)"
      using 1 by (auto simp: e)
    then have m: "map_of (mp_transactions p) h = Some t" "map_of (mp_transactions p) h' = Some t'"
      using in_set by blast+
    have "tx_from (pt_tx t) = tx_from (pt_tx t')" "tx_nonce (pt_tx t) = tx_nonce (pt_tx t')"
      using 1 by (auto simp: e)
    then have "h = h'" by (rule pool_invD(3) [OF inv m])
    with m show ?case by (simp add: e)
  qed
  then show "distinct (map tx_nonce (get_transactions_by_address a p))"
    unfolding eq using pool_invD(1) [OF inv] by (simp add: distinct_map)
  show "set (map tx_nonce (get_transactions_by_address a p)) = pending_of a p"
    unfolding eq set_eq_iff pool_invD(4) [OF inv] using in_set by force
qed

text \<open>
  C22. The indexes of the mempool are exact after any sequence of additions, removals, cleanups and
  prunings: every entry is stored under the hash of its transaction; a sender has at most one pooled
  transaction per nonce, and its pending nonces and its counter are exactly those of its pooled
  transactions; every pooled hash stands once in the priority index, whose keys ascend; and the
  pool and the part of one sender stay within the configured limits.
\<close>

theorem mempool_indexes_exact:
  assumes "pool_reachable X S cfg p"
  shows "(\<forall>h t. map_of (mp_transactions p) h = Some t \<longrightarrow> h = tx_hash X (pt_tx t)) \<and>
         (\<forall>a. distinct (map tx_nonce (get_transactions_by_address a p)) \<and>
              (case map_of (pending_nonces p) a of Some ns \<Rightarrow> ns | None \<Rightarrow> {}) =
                set (map tx_nonce (get_transactions_by_address a p)) \<and>
              unat (case map_of (tx_count_by_address p) a of Some c \<Rightarrow> c | None \<Rightarrow> 0) =
                length (get_transactions_by_address a p) \<and>
              length (get_transactions_by_address a p) \<le> unat (max_tx_per_address cfg)) \<and>
         mset (concat (map snd (priority_index p))) = mset (map fst (mp_transactions p)) \<and>
         sorted_wrt (<) (map fst (priority_index p)) \<and>
         pool_size p \<le> unat (mc_max_size cfg)"
proof -
  have inv: "pool_inv X p" and cfg: "mp_config p = cfg"
    using assms by (simp_all add: reachable_pool_inv reachable_config)
  have entry: "h = tx_hash X (pt_tx t)" if "map_of (mp_transactions p) h = Some t" for h t
    using pool_invD(2) [OF inv that] by (metis pooled_new_def pooled_tx.select_convs(3))
  have count: "unat (count_of a p) = length (get_transactions_by_address a p)" for a
    by (simp add: pool_invD(5) [OF inv] by_address_sum get_transactions_by_address_def get_all_transactions_def)
  have "length (get_transactions_by_address a p) \<le> unat (max_tx_per_address cfg)" for a
    using pool_invD(8) [OF inv, of a] by (simp add: count [symmetric] cfg word_le_nat_alt)
  moreover have "sorted_wrt (<) (map fst (priority_index p))" using inv by (simp add: pool_inv_def)
  ultimately show ?thesis
    using entry count nonces_by_address [OF inv] pool_invD(6,7) [OF inv] cfg
    unfolding pending_of_def count_of_def index_mset_def pool_size_def by blast
qed

definition sample_pool :: mempool_impl where
  "sample_pool = insert_pooled sample_externals 1000 (sample_pool_tx 11) (mempool_new mempool_config_default)"

lemma sample_pool_reachable:
  "pool_reachable sample_externals (memory_ops sample_externals 0) mempool_config_default sample_pool"
  using reach_add [OF reach_new, of sample_externals "memory_ops sample_externals 0" mempool_config_default 1000
      "sample_pool_tx 11" "sample_nonce_state 11"] sample_pool_add
  by (auto simp: sample_pool_def)

lemma sample_pool_parts:
  "mp_transactions sample_pool = [(tx_hash sample_externals (sample_pool_tx 11), pooled_new sample_externals 1000 (sample_pool_tx 11))]"
  "mp_config sample_pool = mempool_config_default"
  by (simp_all add: sample_pool_def insert_parts(1,7) mempool_new_def)

theorem mempool_indexes_exact_witness:
  "pool_size sample_pool = 1 \<and> length (concat (map snd (priority_index sample_pool))) = 1 \<and>
   (case map_of (pending_nonces sample_pool) (replicate 32 1) of Some ns \<Rightarrow> ns | None \<Rightarrow> {}) = {11}"
proof -
  note all = mempool_indexes_exact [OF sample_pool_reachable]
  have "mset (concat (map snd (priority_index sample_pool))) = mset (map fst (mp_transactions sample_pool))"
    using all by blast
  then have "length (concat (map snd (priority_index sample_pool))) = 1"
    by (metis length_map mset_eq_length sample_pool_parts(1) length_Cons list.size(3) One_nat_def)
  moreover have "(case map_of (pending_nonces sample_pool) (replicate 32 1) of Some ns \<Rightarrow> ns | None \<Rightarrow> {}) =
      set (map tx_nonce (get_transactions_by_address (replicate 32 1) sample_pool))"
    using all by blast
  ultimately show ?thesis
    by (simp add: pool_size_def sample_pool_parts get_transactions_by_address_def get_all_transactions_def pooled_new_def
        sample_pool_tx_def sample_tx_def)
qed


lemma sample_selection_in_range: "selection_in_range 100000 sample_pool"
  by (simp add: selection_in_range_def sample_pool_parts pooled_new_def tx_size_def sample_externals_def
      sighash_preimage_def sample_pool_tx_def sample_tx_def)


text \<open>
  The nonce order of a selection starts at 0 and not at the nonce of the account: a sender
  all of whose pooled transactions have nonces beyond the gap gets none of them selected, whatever
  the state says. An account that has sent more transactions than the gap (10 by default) can
  only have such transactions pooled.
\<close>

theorem select_starves_old_accounts:
  assumes "pool_reachable X S cfg p" "selection_in_range max_size p"
    and "\<forall>tx \<in> set (get_transactions_by_address a p). tx_nonce tx > max_nonce_gap cfg"
  shows "\<forall>tx \<in> set (select_for_block max_count max_size p). tx_from tx \<noteq> a"
proof (rule ccontr)
  let ?l = "by_sender a (select_for_block max_count max_size p)"
  assume "\<not> (\<forall>tx \<in> set (select_for_block max_count max_size p). tx_from tx \<noteq> a)"
  then have ne: "?l \<noteq> []" by (auto simp: by_sender_def filter_empty_conv)
  obtain s where s: "selection_inv X p max_count max_size s" "selected s = select_for_block max_count max_size p"
    using select_for_block_inv [OF reachable_pool_inv [OF assms(1)] assms(2)] by blast
  then have low: "tx_nonce (hd ?l) \<le> max_nonce_gap cfg"
    using ne reachable_config [OF assms(1)] by (auto simp: selection_inv_def nonces_rise_def)
  have "hd ?l \<in> set (select_for_block max_count max_size p)" "tx_from (hd ?l) = a"
    using hd_in_set [OF ne] by (auto simp: by_sender_def)
  moreover from this s have "pool_get_transaction (tx_hash X (hd ?l)) p = Some (hd ?l)"
    by (auto simp: selection_inv_def)
  ultimately have "hd ?l \<in> set (get_transactions_by_address a p)"
    by (auto simp: pool_get_transaction_def get_transactions_by_address_def get_all_transactions_def
        dest!: map_of_SomeD intro!: rev_image_eqI)
  with assms(3) low show False by (auto simp: not_le)
qed

theorem select_starves_old_accounts_witness:
  "get_all_transactions sample_pool = [sample_pool_tx 11] \<and> select_for_block 100 100000 sample_pool = []"
proof -
  have all: "get_all_transactions sample_pool = [sample_pool_tx 11]"
    by (simp add: get_all_transactions_def sample_pool_parts pooled_new_def)
  then have "\<forall>tx \<in> set (get_transactions_by_address (replicate 32 1) sample_pool). tx_nonce tx > max_nonce_gap mempool_config_default"
    by (simp add: get_transactions_by_address_def sample_pool_tx_def mempool_config_default_def)
  note none = select_starves_old_accounts [OF sample_pool_reachable sample_selection_in_range this, of 100]
  have "tx \<in> set (select_for_block 100 100000 sample_pool) \<Longrightarrow> tx = sample_pool_tx 11" for tx
    using select_for_block_inv [OF reachable_pool_inv [OF sample_pool_reachable] sample_selection_in_range, of 100]
    by (auto simp: selection_inv_def pool_get_transaction_def sample_pool_parts pooled_new_def split: if_splits)
  moreover have "tx_from (sample_pool_tx 11) = replicate 32 1" by (simp add: sample_pool_tx_def)
  ultimately have "set (select_for_block 100 100000 sample_pool) = {}"
    using none by (metis equals0I)
  with all show ?thesis by simp
qed

text \<open>
  \<open>cleanup\<close> after a block keeps exactly the pooled transactions that are not among the
  processed ones and whose nonce is greater than the nonce of the sender's account. A
  transaction whose nonce is the account's own, the next one that \<open>check_nonce\<close> admits, is
  dropped too.
\<close>

theorem cleanup_spec:
  assumes "pool_reachable X (memory_ops Y t) cfg p"
  shows "pool_get_transaction h (fst (cleanup (memory_ops Y t) now processed sm p)) =
           (case pool_get_transaction h p of
              None \<Rightarrow> None
            | Some tx \<Rightarrow>
                if h \<in> set processed \<or>
                   tx_nonce tx \<le> (case mem_view sm (tx_from tx) of Some acc \<Rightarrow> nonce acc | None \<Rightarrow> 0)
                then None else Some tx)"
  by (auto simp: pool_get_transaction_def mem.cleanup_ok(1) [OF reachable_pool_inv [OF assms]] view_nonce_def
      split: option.splits)

theorem cleanup_spec_witness:
  "pool_get_transaction (tx_hash sample_externals (sample_pool_tx 11)) sample_pool = Some (sample_pool_tx 11) \<and>
   pool_get_transaction (tx_hash sample_externals (sample_pool_tx 11))
     (fst (cleanup (memory_ops sample_externals 0) 1000 [] (sample_nonce_state 11) sample_pool)) = None"
proof -
  have "pool_get_transaction (tx_hash sample_externals (sample_pool_tx 11)) sample_pool = Some (sample_pool_tx 11)"
    by (simp add: pool_get_transaction_def sample_pool_parts pooled_new_def)
  then show ?thesis
    using cleanup_spec [OF sample_pool_reachable, of "tx_hash sample_externals (sample_pool_tx 11)" 1000 "[]" "sample_nonce_state 11"]
    by (simp add: sm_view_def sample_nonce_state_def sample_pool_tx_def)
qed

end
