(* ===== verification/Consensus_Engine.thy ===== *)
theory Consensus_Engine
  imports Consensus_Votes Mempool_Pool
begin

text \<open>
  \<open>src/consensus/engine.rs\<close>: the consensus engine as the state machine its command loop runs. Every
  handler is a function from the engine to its result and the engine it leaves; an
  error returns early and undoes nothing. The engine's storage and the state manager share one
  storage, as \<open>main.rs\<close> wires them. The mempool is a record of the two trait methods the engine
  calls (\<open>Mempool_Pool.mempool_ops\<close>); the result of a network broadcast is the parameter \<open>net\<close>, and the messages, events and
  self-sent commands are recorded in order. The signer is the function that signs with the node's key.

  Messages from the network are received and dropped by the loop (their handling is a comment in the
  source), so the commands are the only inputs.
\<close>

datatype net_message = MsgProposal proposal | MsgVote vote

datatype consensus_command =
    CmdPropose block_height u64
  | CmdProposalReceived proposal
  | CmdVoteReceived vote
  | CmdTimeout block_height u64
  | CmdNewBlock block
  | CmdSynced block_height
  | CmdStop

datatype consensus_event =
    EvBlockCommitted block block_height
  | EvNewRound block_height u64
  | EvProposalSent block_height u64
  | EvVoteSent block_height u64 vote_type
  | EvQuorumReached block_height u64 vote_type

type_synonym votes_by_height = "(u64 \<times> (hash \<times> vote list) list) list"

record ('s, 'm) engine =
  eng_config :: consensus_config
  eng_state :: consensus_state
  eng_height :: block_height
  eng_round :: u64
  eng_set :: validator_set
  my_validator_id :: "u64 option"
  eng_signer :: "(bytes \<Rightarrow> signature) option"
  eng_prevotes :: votes_by_height
  eng_precommits :: votes_by_height
  current_proposal :: "proposal option"
  committed_blocks :: "hash list"
  eng_sm :: "'s state_manager"
  eng_mempool :: 'm
  eng_commands :: "consensus_command list"
  eng_events :: "consensus_event list"
  eng_sent :: "net_message list"
  round_start_time :: "timestamp option"

definition engine_new :: "consensus_config \<Rightarrow> 's state_manager \<Rightarrow> 'm \<Rightarrow> ('s, 'm) engine" where
  "engine_new cfg sm mp =
     \<lparr>eng_config = cfg, eng_state = Idle, eng_height = 0, eng_round = 0, eng_set = validator_set_new,
      my_validator_id = None, eng_signer = None, eng_prevotes = [], eng_precommits = [],
      current_proposal = None, committed_blocks = [], eng_sm = sm, eng_mempool = mp, eng_commands = [],
      eng_events = [], eng_sent = [], round_start_time = None\<rparr>"

definition set_validator :: "u64 \<Rightarrow> (bytes \<Rightarrow> signature) \<Rightarrow> ('s, 'm) engine \<Rightarrow> ('s, 'm) engine" where
  "set_validator i sign e = e\<lparr>my_validator_id := Some i, eng_signer := Some sign\<rparr>"

definition eng_update_validator_set :: "validator_set \<Rightarrow> ('s, 'm) engine \<Rightarrow> ('s, 'm) engine" where
  "eng_update_validator_set s e = e\<lparr>eng_set := s\<rparr>"

definition eng_get_proposer :: "block_height \<Rightarrow> u64 \<Rightarrow> ('s, 'm) engine \<Rightarrow> u64 option" where
  "eng_get_proposer h r e = map_option vi_id (set_get_proposer h r (eng_set e))"

definition am_i_proposer :: "block_height \<Rightarrow> u64 \<Rightarrow> ('s, 'm) engine \<Rightarrow> bool" where
  "am_i_proposer h r e =
     (case my_validator_id e of Some i \<Rightarrow> eng_get_proposer h r e = Some i | None \<Rightarrow> False)"

definition emit :: "consensus_event \<Rightarrow> ('s, 'm) engine \<Rightarrow> ('s, 'm) engine" where
  "emit ev e = e\<lparr>eng_events := eng_events e @ [ev]\<rparr>"

definition broadcast ::
    "(net_message \<Rightarrow> unit pacyte_result) \<Rightarrow> net_message \<Rightarrow> ('s, 'm) engine \<Rightarrow> unit pacyte_result \<times> ('s, 'm) engine" where
  "broadcast net msg e =
     (case net msg of Inl err \<Rightarrow> (Inl err, e) | Inr _ \<Rightarrow> (Inr (), e\<lparr>eng_sent := eng_sent e @ [msg]\<rparr>))"

definition create_block ::
    "externals \<Rightarrow> 's storage_ops \<Rightarrow> ('s, 'm) mempool_ops \<Rightarrow> timestamp \<Rightarrow> block_height \<Rightarrow> ('s, 'm) engine \<Rightarrow>
     block pacyte_result" where
  "create_block X S M now h e =
     (case so_get_latest_block S (sm_storage (eng_sm e)) of
        Inl err \<Rightarrow> Inl err
      | Inr None \<Rightarrow> Inl (BlockNotFound (h - 1))
      | Inr (Some prev) \<Rightarrow>
          let txs = mo_select_for_block M 10000 (max_block_size (eng_config e)) (eng_mempool e)
          in case my_validator_id e of
               None \<Rightarrow> Inl NotValidator
             | Some i \<Rightarrow>
                 let addr = (case set_get_validator i (eng_set e) of Some v \<Rightarrow> vi_address v | None \<Rightarrow> zero32)
                 in Inr (block_new X now h (block_hash X prev) txs addr))"

definition create_proposal ::
    "externals \<Rightarrow> timestamp \<Rightarrow> block_height \<Rightarrow> u64 \<Rightarrow> block \<Rightarrow> ('s, 'm) engine \<Rightarrow> proposal pacyte_result" where
  "create_proposal X now h r b e =
     (case my_validator_id e of
        None \<Rightarrow> Inl NotValidator
      | Some i \<Rightarrow>
          let p = proposal_new now h r b i
          in Inr (case eng_signer e of
                    Some sign \<Rightarrow> proposal_sign (sign (proposal_signing_hash X p)) p
                  | None \<Rightarrow> p))"

definition broadcast_proposal ::
    "(net_message \<Rightarrow> unit pacyte_result) \<Rightarrow> proposal \<Rightarrow> ('s, 'm) engine \<Rightarrow> unit pacyte_result \<times> ('s, 'm) engine" where
  "broadcast_proposal net p e =
     bind_res (broadcast net (MsgProposal p) e)
       (\<lambda>_ e. (Inr (), e\<lparr>eng_commands := eng_commands e @ [CmdProposalReceived p]\<rparr>))"

definition start_new_round ::
    "externals \<Rightarrow> 's storage_ops \<Rightarrow> ('s, 'm) mempool_ops \<Rightarrow> (net_message \<Rightarrow> unit pacyte_result) \<Rightarrow> timestamp \<Rightarrow>
     block_height \<Rightarrow> u64 \<Rightarrow> ('s, 'm) engine \<Rightarrow> unit pacyte_result \<times> ('s, 'm) engine" where
  "start_new_round X S M net now h r e0 =
     (let e = emit (EvNewRound h r) (e0\<lparr>eng_round := r, round_start_time := Some now, eng_state := Proposing\<rparr>)
      in if am_i_proposer h r e then
           (case create_block X S M now h e of
              Inl err \<Rightarrow> (Inl err, e)
            | Inr b \<Rightarrow>
                (case create_proposal X now h r b e of
                   Inl err \<Rightarrow> (Inl err, e)
                 | Inr p \<Rightarrow>
                     bind_res (broadcast_proposal net p e)
                       (\<lambda>_ e. (Inr (), emit (EvProposalSent h r)
                                 (e\<lparr>current_proposal := Some p, eng_state := Prevoting\<rparr>)))))
         else (Inr (), e\<lparr>eng_state := WaitingForBlock\<rparr>))"

text \<open>One entry of the nested vote maps; a voter is recorded once per height and block hash.\<close>

definition record_vote :: "vote \<Rightarrow> votes_by_height \<Rightarrow> votes_by_height" where
  "record_vote v al =
     (let rvs = (case map_of al (vote_height v) of Some m \<Rightarrow> m | None \<Rightarrow> []);
          vs = (case map_of rvs (vote_block_hash v) of Some l \<Rightarrow> l | None \<Rightarrow> []);
          vs' = (if \<exists>w \<in> set vs. voter w = voter v then vs else vs @ [v])
      in AList.update (vote_height v) (AList.update (vote_block_hash v) vs' rvs) al)"

definition eng_add_vote :: "vote \<Rightarrow> ('s, 'm) engine \<Rightarrow> ('s, 'm) engine" where
  "eng_add_vote v e =
     (case vote_kind v of
        Prevote \<Rightarrow> e\<lparr>eng_prevotes := record_vote v (eng_prevotes e)\<rparr>
      | Precommit \<Rightarrow> e\<lparr>eng_precommits := record_vote v (eng_precommits e)\<rparr>)"

definition votes_for :: "block_height \<Rightarrow> hash \<Rightarrow> votes_by_height \<Rightarrow> vote list" where
  "votes_for h bh al =
     (case map_of al h of
        None \<Rightarrow> []
      | Some rvs \<Rightarrow> (case map_of rvs bh of Some vs \<Rightarrow> vs | None \<Rightarrow> []))"

definition eng_quorum :: "('s, 'm) engine \<Rightarrow> nat" where
  "eng_quorum e = set_active_count (eng_set e) * 2 div 3 + 1"

definition commit_block ::
    "externals \<Rightarrow> 's storage_ops \<Rightarrow> ('s, 'm) mempool_ops \<Rightarrow> (net_message \<Rightarrow> unit pacyte_result) \<Rightarrow> timestamp \<Rightarrow>
     block_height \<Rightarrow> ('s, 'm) engine \<Rightarrow> unit pacyte_result \<times> ('s, 'm) engine" where
  "commit_block X S M net now h e =
     (case current_proposal e of
        None \<Rightarrow> (Inl (Internal ''No proposal to commit''), e)
      | Some p \<Rightarrow>
          (case apply_block X S now (prop_block p) (eng_sm e) of
             (Inl err, sm) \<Rightarrow> (Inl err, e\<lparr>eng_sm := sm\<rparr>)
           | (Inr _, sm) \<Rightarrow>
               (case so_save_block S (prop_block p) (sm_storage sm) of
                  Inl err \<Rightarrow> (Inl err, e\<lparr>eng_sm := sm\<rparr>)
                | Inr st \<Rightarrow>
                    let (mp, sm') = mo_cleanup M now (map (tx_hash X) (transactions (prop_block p)))
                                      (sm\<lparr>sm_storage := st\<rparr>) (eng_mempool e)
                    in start_new_round X S M net now (h + 1) 0
                      ((emit (EvBlockCommitted (prop_block p) h)
                         (e\<lparr>eng_sm := sm', eng_mempool := mp,
                            committed_blocks := committed_blocks e @ [block_hash X (prop_block p)],
                            eng_state := Committed\<rparr>))
                       \<lparr>eng_height := h + 1, eng_round := 0\<rparr>))))"

definition check_precommit_quorum ::
    "externals \<Rightarrow> 's storage_ops \<Rightarrow> ('s, 'm) mempool_ops \<Rightarrow> (net_message \<Rightarrow> unit pacyte_result) \<Rightarrow> timestamp \<Rightarrow>
     block_height \<Rightarrow> u64 \<Rightarrow> hash \<Rightarrow> ('s, 'm) engine \<Rightarrow> unit pacyte_result \<times> ('s, 'm) engine" where
  "check_precommit_quorum X S M net now h r bh e =
     (if length (votes_for h bh (eng_precommits e)) \<ge> eng_quorum e
      then commit_block X S M net now h (emit (EvQuorumReached h r Precommit) e)
      else (Inr (), e))"

text \<open>The vote of this node, signed when it has a signer.\<close>

definition own_vote :: "externals \<Rightarrow> timestamp \<Rightarrow> hash \<Rightarrow> vote_type \<Rightarrow> u64 \<Rightarrow> ('s, 'm) engine \<Rightarrow> vote" where
  "own_vote X now bh ty i e =
     (let v = vote_new now (eng_height e) (eng_round e) bh i ty
      in case eng_signer e of Some sign \<Rightarrow> vote_sign (sign (vote_signing_hash X v)) v | None \<Rightarrow> v)"

definition send_precommit ::
    "externals \<Rightarrow> 's storage_ops \<Rightarrow> ('s, 'm) mempool_ops \<Rightarrow> (net_message \<Rightarrow> unit pacyte_result) \<Rightarrow> timestamp \<Rightarrow>
     hash \<Rightarrow> ('s, 'm) engine \<Rightarrow> unit pacyte_result \<times> ('s, 'm) engine" where
  "send_precommit X S M net now bh e =
     (let h = eng_height e; r = eng_round e in
      case my_validator_id e of
        None \<Rightarrow> (Inl NotValidator, e)
      | Some i \<Rightarrow>
          let v = own_vote X now bh Precommit i e
          in bind_res (broadcast net (MsgVote v) (eng_add_vote v e))
               (\<lambda>_ e. check_precommit_quorum X S M net now h r bh (emit (EvVoteSent h r Precommit) e)))"

definition check_prevote_quorum ::
    "externals \<Rightarrow> 's storage_ops \<Rightarrow> ('s, 'm) mempool_ops \<Rightarrow> (net_message \<Rightarrow> unit pacyte_result) \<Rightarrow> timestamp \<Rightarrow>
     block_height \<Rightarrow> u64 \<Rightarrow> hash \<Rightarrow> ('s, 'm) engine \<Rightarrow> unit pacyte_result \<times> ('s, 'm) engine" where
  "check_prevote_quorum X S M net now h r bh e =
     (if length (votes_for h bh (eng_prevotes e)) \<ge> eng_quorum e
      then send_precommit X S M net now bh (emit (EvQuorumReached h r Prevote) e)
      else (Inr (), e))"

definition send_prevote ::
    "externals \<Rightarrow> 's storage_ops \<Rightarrow> ('s, 'm) mempool_ops \<Rightarrow> (net_message \<Rightarrow> unit pacyte_result) \<Rightarrow> timestamp \<Rightarrow>
     hash \<Rightarrow> ('s, 'm) engine \<Rightarrow> unit pacyte_result \<times> ('s, 'm) engine" where
  "send_prevote X S M net now bh e =
     (let h = eng_height e; r = eng_round e in
      case my_validator_id e of
        None \<Rightarrow> (Inl NotValidator, e)
      | Some i \<Rightarrow>
          let v = own_vote X now bh Prevote i e
          in bind_res (broadcast net (MsgVote v) (eng_add_vote v e))
               (\<lambda>_ e. check_prevote_quorum X S M net now h r bh (emit (EvVoteSent h r Prevote) e)))"

definition verify_proposal_signature :: "proposal \<Rightarrow> ('s, 'm) engine \<Rightarrow> bool" where
  "verify_proposal_signature p e \<longleftrightarrow> set_get_validator (prop_proposer p) (eng_set e) \<noteq> None"

definition validate_block ::
    "externals \<Rightarrow> 's storage_ops \<Rightarrow> timestamp \<Rightarrow> block \<Rightarrow> ('s, 'm) engine \<Rightarrow> bool pacyte_result" where
  "validate_block X S now b e =
     (if hdr_height (header b) \<noteq> eng_height e then Inr False
      else case so_get_latest_block S (sm_storage (eng_sm e)) of
             Inl err \<Rightarrow> Inl err
           | Inr prev \<Rightarrow>
               if (case prev of Some pb \<Rightarrow> previous_hash (header b) \<noteq> block_hash X pb | None \<Rightarrow> False)
               then Inr False
               else Inr (\<forall>tx \<in> set (transactions b). validate_basic now 3600 tx))"

definition handle_proposal ::
    "externals \<Rightarrow> 's storage_ops \<Rightarrow> ('s, 'm) mempool_ops \<Rightarrow> (net_message \<Rightarrow> unit pacyte_result) \<Rightarrow> timestamp \<Rightarrow>
     proposal \<Rightarrow> ('s, 'm) engine \<Rightarrow> unit pacyte_result \<times> ('s, 'm) engine" where
  "handle_proposal X S M net now p e =
     (if prop_height p \<noteq> eng_height e \<or> prop_round p \<noteq> eng_round e then (Inr (), e)
      else if eng_get_proposer (eng_height e) (eng_round e) e \<noteq> Some (prop_proposer p) then (Inr (), e)
      else if \<not> verify_proposal_signature p e then (Inr (), e)
      else case validate_block X S now (prop_block p) e of
             Inl err \<Rightarrow> (Inl err, e)
           | Inr False \<Rightarrow> (Inr (), e)
           | Inr True \<Rightarrow> send_prevote X S M net now (proposal_hash X p) (e\<lparr>current_proposal := Some p\<rparr>))"

definition handle_vote ::
    "externals \<Rightarrow> 's storage_ops \<Rightarrow> ('s, 'm) mempool_ops \<Rightarrow> (net_message \<Rightarrow> unit pacyte_result) \<Rightarrow> timestamp \<Rightarrow>
     vote \<Rightarrow> ('s, 'm) engine \<Rightarrow> unit pacyte_result \<times> ('s, 'm) engine" where
  "handle_vote X S M net now v e =
     (let h = eng_height e; r = eng_round e in
      if vote_height v \<noteq> h \<or> vote_round v \<noteq> r then (Inr (), e)
      else let e1 = eng_add_vote v e
           in case vote_kind v of
                Prevote \<Rightarrow> check_prevote_quorum X S M net now h r (vote_block_hash v) e1
              | Precommit \<Rightarrow> check_precommit_quorum X S M net now h r (vote_block_hash v) e1)"

text \<open>The part of \<open>run\<close> before the loop, and the commands of the loop (\<open>CmdStop\<close> leaves it).\<close>

definition adopt_saved_height :: "'s storage_ops \<Rightarrow> ('s, 'm) engine \<Rightarrow> ('s, 'm) engine" where
  "adopt_saved_height S e =
     (let saved = (case so_get_block_height S (sm_storage (eng_sm e)) of Inr h \<Rightarrow> h | Inl _ \<Rightarrow> 0)
      in if saved > eng_height e then e\<lparr>eng_height := saved\<rparr> else e)"

definition run_start ::
    "externals \<Rightarrow> 's storage_ops \<Rightarrow> ('s, 'm) mempool_ops \<Rightarrow> (net_message \<Rightarrow> unit pacyte_result) \<Rightarrow> timestamp \<Rightarrow>
     ('s, 'm) engine \<Rightarrow> unit pacyte_result \<times> ('s, 'm) engine" where
  "run_start X S M net now e =
     (let e1 = adopt_saved_height S e
      in bind_res (start_new_round X S M net now (eng_height e1) 0 e1)
           (\<lambda>_ e. (Inr (), adopt_saved_height S e)))"

definition handle_command ::
    "externals \<Rightarrow> 's storage_ops \<Rightarrow> ('s, 'm) mempool_ops \<Rightarrow> (net_message \<Rightarrow> unit pacyte_result) \<Rightarrow> timestamp \<Rightarrow>
     consensus_command \<Rightarrow> ('s, 'm) engine \<Rightarrow> ('s, 'm) engine" where
  "handle_command X S M net now cmd e =
     (case cmd of
        CmdPropose h r \<Rightarrow> snd (start_new_round X S M net now h r e)
      | CmdProposalReceived p \<Rightarrow> snd (handle_proposal X S M net now p e)
      | CmdVoteReceived v \<Rightarrow> snd (handle_vote X S M net now v e)
      | CmdTimeout h r \<Rightarrow>
          if h = eng_height e \<and> r = eng_round e then
            if r < max_rounds (eng_config e) then snd (start_new_round X S M net now h (r + 1) e) else e
          else e
      | CmdNewBlock _ \<Rightarrow> e
      | CmdSynced _ \<Rightarrow> e
      | CmdStop \<Rightarrow> e)"

text \<open>The loop over the commands it receives, each with the time of its handling.\<close>

fun run_loop ::
    "externals \<Rightarrow> 's storage_ops \<Rightarrow> ('s, 'm) mempool_ops \<Rightarrow> (net_message \<Rightarrow> unit pacyte_result) \<Rightarrow>
     (timestamp \<times> consensus_command) list \<Rightarrow> ('s, 'm) engine \<Rightarrow> ('s, 'm) engine" where
  "run_loop X S M net [] e = e"
| "run_loop X S M net ((now, CmdStop) # cs) e = e"
| "run_loop X S M net ((now, cmd) # cs) e = run_loop X S M net cs (handle_command X S M net now cmd e)"

section \<open>What the calls leave alone\<close>

lemma emit_frame [simp]:
  "eng_height (emit ev e) = eng_height e" "eng_round (emit ev e) = eng_round e" "eng_set (emit ev e) = eng_set e"
  "my_validator_id (emit ev e) = my_validator_id e" "eng_signer (emit ev e) = eng_signer e"
  "eng_prevotes (emit ev e) = eng_prevotes e" "eng_precommits (emit ev e) = eng_precommits e"
  "current_proposal (emit ev e) = current_proposal e" "committed_blocks (emit ev e) = committed_blocks e"
  "eng_sm (emit ev e) = eng_sm e" "eng_mempool (emit ev e) = eng_mempool e" "eng_config (emit ev e) = eng_config e"
  by (simp_all add: emit_def)

lemma eng_add_vote_frame [simp]:
  "eng_height (eng_add_vote v e) = eng_height e" "eng_round (eng_add_vote v e) = eng_round e"
  "eng_set (eng_add_vote v e) = eng_set e" "my_validator_id (eng_add_vote v e) = my_validator_id e"
  "current_proposal (eng_add_vote v e) = current_proposal e" "committed_blocks (eng_add_vote v e) = committed_blocks e"
  "eng_sm (eng_add_vote v e) = eng_sm e" "eng_mempool (eng_add_vote v e) = eng_mempool e" "eng_config (eng_add_vote v e) = eng_config e"
  by (simp_all add: eng_add_vote_def split: vote_type.splits)

lemma broadcast_frame [simp]:
  "eng_height (snd (broadcast net msg e)) = eng_height e" "eng_set (snd (broadcast net msg e)) = eng_set e"
  "eng_prevotes (snd (broadcast net msg e)) = eng_prevotes e" "eng_precommits (snd (broadcast net msg e)) = eng_precommits e"
  "current_proposal (snd (broadcast net msg e)) = current_proposal e"
  "committed_blocks (snd (broadcast net msg e)) = committed_blocks e" "eng_sm (snd (broadcast net msg e)) = eng_sm e"
  "eng_config (snd (broadcast net msg e)) = eng_config e"
  by (simp_all add: broadcast_def split: sum.splits)

lemma eng_quorum_frame [simp]:
  "eng_quorum (emit ev e) = eng_quorum e" "eng_quorum (eng_add_vote v e) = eng_quorum e"
  "eng_quorum (snd (broadcast net msg e)) = eng_quorum e"
  by (simp_all add: eng_quorum_def)

lemma start_new_round_frame [simp]:
  "eng_height (snd (start_new_round X S M net now h r e)) = eng_height e"
  "eng_set (snd (start_new_round X S M net now h r e)) = eng_set e"
  "eng_prevotes (snd (start_new_round X S M net now h r e)) = eng_prevotes e"
  "eng_precommits (snd (start_new_round X S M net now h r e)) = eng_precommits e"
  "committed_blocks (snd (start_new_round X S M net now h r e)) = committed_blocks e"
  "eng_sm (snd (start_new_round X S M net now h r e)) = eng_sm e"
  "eng_mempool (snd (start_new_round X S M net now h r e)) = eng_mempool e"
  by (auto simp: start_new_round_def broadcast_proposal_def broadcast_def Let_def split: sum.splits)

text \<open>The proposal a new round installs carries a block of its height.\<close>

lemma start_new_round_proposal:
  assumes "current_proposal (snd (start_new_round X S M net now h r e)) = Some p"
  shows "current_proposal e = Some p \<or> hdr_height (header (prop_block p)) = h"
  using assms
  by (auto simp: start_new_round_def broadcast_proposal_def broadcast_def Let_def create_proposal_def create_block_def
      proposal_new_def proposal_sign_def block_new_def split: sum.splits option.splits if_splits)

lemma commit_block_frame [simp]:
  "eng_prevotes (snd (commit_block X S M net now h e)) = eng_prevotes e"
  "eng_precommits (snd (commit_block X S M net now h e)) = eng_precommits e"
  "eng_set (snd (commit_block X S M net now h e)) = eng_set e"
  by (auto simp: commit_block_def Let_def split: option.splits prod.splits sum.splits)

lemma check_precommit_quorum_frame [simp]:
  "eng_prevotes (snd (check_precommit_quorum X S M net now h r bh e)) = eng_prevotes e"
  "eng_precommits (snd (check_precommit_quorum X S M net now h r bh e)) = eng_precommits e"
  by (auto simp: check_precommit_quorum_def)

section \<open>A commit over a mempool that keeps its contract\<close>

context block_mempool
begin

lemma commit_block_ok:
  fixes e :: "('s, 'm) engine" and net :: "net_message \<Rightarrow> unit pacyte_result" and h :: block_height
  assumes "current_proposal e = Some p" "apply_block X S now (prop_block p) (eng_sm e) = (Inr ver, sm)"
    and "so_save_block S (prop_block p) (sm_storage sm) = Inr st" "ok (eng_mempool e)"
  defines "e' \<equiv> snd (commit_block X S M net now h e)"
  shows "committed_blocks e' = committed_blocks e @ [block_hash X (prop_block p)]" "eng_height e' = h + 1"
    and "current_height (eng_sm e') = current_height sm" "ok (eng_mempool e')"
    and "tx \<in> set (transactions (prop_block p)) \<Longrightarrow> pooled (eng_mempool e') (tx_hash X tx) = None"
proof -
  let ?hs = "map (tx_hash X) (transactions (prop_block p))" and ?sm = "sm\<lparr>sm_storage := st\<rparr>"
  obtain mp sm' where c: "mo_cleanup M now ?hs ?sm (eng_mempool e) = (mp, sm')" by fastforce
  have "same_meta ?sm sm'" "ok mp"
    using cleanup_state(2) [OF assms(4), of ?sm now ?hs] cleanup_keeps_ok [OF assms(4), of now ?hs ?sm] by (simp_all add: c)
  moreover have "pooled mp (tx_hash X tx) = None" if "tx \<in> set (transactions (prop_block p))"
    using cleanup_pooled [OF assms(4), of now ?hs ?sm "tx_hash X tx"] that by (auto simp: c split: option.splits)
  ultimately show "committed_blocks e' = committed_blocks e @ [block_hash X (prop_block p)]" "eng_height e' = h + 1"
    "current_height (eng_sm e') = current_height sm" "ok (eng_mempool e')"
    "tx \<in> set (transactions (prop_block p)) \<Longrightarrow> pooled (eng_mempool e') (tx_hash X tx) = None"
    using assms(1-3) by (simp_all add: e'_def commit_block_def c same_meta_def)
qed

end

section \<open>One vote per voter\<close>

lemma votes_for_record:
  "votes_for h bh (record_vote v al) =
     (if h = vote_height v \<and> bh = vote_block_hash v \<and> (\<forall>w \<in> set (votes_for h bh al). voter w \<noteq> voter v)
      then votes_for h bh al @ [v] else votes_for h bh al)"
  by (auto simp: votes_for_def record_vote_def Let_def split: option.splits)

definition one_vote_each :: "votes_by_height \<Rightarrow> bool" where
  "one_vote_each al \<longleftrightarrow> (\<forall>h bh. distinct (map voter (votes_for h bh al)))"

lemma one_vote_each_record: "one_vote_each al \<Longrightarrow> one_vote_each (record_vote v al)"
  by (auto simp: one_vote_each_def votes_for_record)

definition votes_inv :: "('s, 'm) engine \<Rightarrow> bool" where
  "votes_inv e \<longleftrightarrow> one_vote_each (eng_prevotes e) \<and> one_vote_each (eng_precommits e)"

lemma votes_inv_add [keeps_inv]: "votes_inv e \<Longrightarrow> votes_inv (eng_add_vote v e)"
  by (auto simp: votes_inv_def eng_add_vote_def one_vote_each_record split: vote_type.splits)

lemma votes_inv_frame [simp]:
  "votes_inv (emit ev e) = votes_inv e" "votes_inv (snd (broadcast net msg e)) = votes_inv e"
  "votes_inv (snd (start_new_round X S M net now h r e)) = votes_inv e"
  "votes_inv (snd (commit_block X S M net now h e)) = votes_inv e"
  "votes_inv (snd (check_precommit_quorum X S M net now h r bh e)) = votes_inv e"
  "votes_inv (e\<lparr>current_proposal := cp\<rparr>) = votes_inv e"
  by (simp_all add: votes_inv_def)

lemma votes_inv_send_precommit [keeps_inv]:
  "votes_inv e \<Longrightarrow> votes_inv (snd (send_precommit X S M net now bh e))"
  by (auto simp: send_precommit_def Let_def keeps_inv split: option.splits intro!: bind_res_keeps [of votes_inv])

lemma votes_inv_check_prevote [keeps_inv]:
  "votes_inv e \<Longrightarrow> votes_inv (snd (check_prevote_quorum X S M net now h r bh e))"
  by (auto simp: check_prevote_quorum_def keeps_inv)

lemma votes_inv_send_prevote [keeps_inv]:
  "votes_inv e \<Longrightarrow> votes_inv (snd (send_prevote X S M net now bh e))"
  by (auto simp: send_prevote_def Let_def keeps_inv split: option.splits intro!: bind_res_keeps [of votes_inv])

lemma votes_inv_command [keeps_inv]:
  "votes_inv e \<Longrightarrow> votes_inv (handle_command X S M net now cmd e)"
  by (auto simp: handle_command_def handle_proposal_def handle_vote_def Let_def keeps_inv
      split: consensus_command.splits sum.splits vote_type.splits bool.splits)

lemma run_loop_Cons:
  "run_loop X S M net ((now, cmd) # cs) e =
     (if cmd = CmdStop then e else run_loop X S M net cs (handle_command X S M net now cmd e))"
  by (cases cmd) simp_all

lemma run_loop_keeps:
  assumes "\<And>now cmd e. (now, cmd) \<in> set cs \<Longrightarrow> P e \<Longrightarrow> P (handle_command X S M net now cmd e)" "P e"
  shows "P (run_loop X S M net cs e)"
  using assms
proof (induction cs arbitrary: e)
  case (Cons c cs)
  obtain now cmd where c: "c = (now, cmd)" by (cases c)
  show ?case
  proof (cases "cmd = CmdStop")
    case False
    have "P (run_loop X S M net cs (handle_command X S M net now cmd e))"
      using Cons.prems by (intro Cons.IH) (auto simp: c)
    with False show ?thesis by (simp add: c run_loop_Cons)
  qed (use Cons.prems in \<open>simp add: c run_loop_Cons\<close>)
qed simp

section \<open>Commits\<close>

text \<open>What can have happened to the chain in one call: nothing, or one block under a quorum of precommits.\<close>

definition one_commit :: "nat \<Rightarrow> block_height \<Rightarrow> hash list \<Rightarrow> ('s, 'm) engine \<Rightarrow> bool" where
  "one_commit q h old e \<longleftrightarrow>
     (committed_blocks e = old \<and> eng_height e = h) \<or>
     (\<exists>x bh. committed_blocks e = old @ [x] \<and> eng_height e = h + 1 \<and>
             q \<le> length (votes_for h bh (eng_precommits e)))"

lemma one_commit_check:
  assumes "eng_height e = h"
  shows "one_commit (eng_quorum e) h (committed_blocks e) (snd (check_precommit_quorum X S M net now h r bh e))"
proof (cases "eng_quorum e \<le> length (votes_for h bh (eng_precommits e))")
  case True
  let ?e = "emit (EvQuorumReached h r Precommit) e"
  have "(committed_blocks (snd (commit_block X S M net now h ?e)) = committed_blocks e \<and>
         eng_height (snd (commit_block X S M net now h ?e)) = h) \<or>
        (\<exists>x. committed_blocks (snd (commit_block X S M net now h ?e)) = committed_blocks e @ [x] \<and>
         eng_height (snd (commit_block X S M net now h ?e)) = h + 1)"
    using assms by (auto simp: commit_block_def Let_def split: option.splits prod.splits sum.splits)
  with True show ?thesis
    by (auto simp: one_commit_def check_precommit_quorum_def)
next
  case False
  with assms show ?thesis by (simp add: one_commit_def check_precommit_quorum_def)
qed

lemma one_commit_send_precommit:
  assumes "eng_height e = h"
  shows "one_commit (eng_quorum e) h (committed_blocks e) (snd (send_precommit X S M net now bh e))"
proof (cases "my_validator_id e")
  case (Some i)
  let ?v = "own_vote X now bh Precommit i e"
  obtain r e1 where b: "broadcast net (MsgVote ?v) (eng_add_vote ?v e) = (r, e1)" by fastforce
  have e1: "eng_height e1 = h" "committed_blocks e1 = committed_blocks e" "eng_quorum e1 = eng_quorum e"
    using broadcast_frame [of net "MsgVote ?v" "eng_add_vote ?v e"] eng_quorum_frame(3) [of net "MsgVote ?v" "eng_add_vote ?v e"]
      assms by (simp_all add: b)
  show ?thesis
    using one_commit_check [of "emit (EvVoteSent h (eng_round e) Precommit) e1" h X S M net now "eng_round e" bh] e1 assms
    by (cases r) (simp_all add: send_precommit_def Some b Let_def, simp add: one_commit_def)
qed (use assms in \<open>simp add: send_precommit_def one_commit_def\<close>)

lemma one_commit_check_prevote:
  assumes "eng_height e = h"
  shows "one_commit (eng_quorum e) h (committed_blocks e) (snd (check_prevote_quorum X S M net now h r bh e))"
  using one_commit_send_precommit [of "emit (EvQuorumReached h r Prevote) e" h X S M net now bh] assms
  by (auto simp: check_prevote_quorum_def one_commit_def)

lemma one_commit_send_prevote:
  assumes "eng_height e = h"
  shows "one_commit (eng_quorum e) h (committed_blocks e) (snd (send_prevote X S M net now bh e))"
proof (cases "my_validator_id e")
  case (Some i)
  let ?v = "own_vote X now bh Prevote i e"
  obtain r e1 where b: "broadcast net (MsgVote ?v) (eng_add_vote ?v e) = (r, e1)" by fastforce
  have e1: "eng_height e1 = h" "committed_blocks e1 = committed_blocks e" "eng_quorum e1 = eng_quorum e"
    using broadcast_frame [of net "MsgVote ?v" "eng_add_vote ?v e"] eng_quorum_frame(3) [of net "MsgVote ?v" "eng_add_vote ?v e"]
      assms by (simp_all add: b)
  show ?thesis
    using one_commit_check_prevote [of "emit (EvVoteSent h (eng_round e) Prevote) e1" h X S M net now "eng_round e" bh] e1 assms
    by (cases r) (simp_all add: send_prevote_def Some b Let_def, simp add: one_commit_def)
qed (use assms in \<open>simp add: send_prevote_def one_commit_def\<close>)

text \<open>
  C20. What one command can do to the chain: it commits no block and keeps the height, or it commits
  exactly one block and moves to the next height, and then some block hash has a quorum of
  recorded precommits at the old height, each from a different voter.
\<close>

theorem commit_needs_quorum:
  assumes "votes_inv e"
  shows "(committed_blocks (handle_command X S M net now cmd e) = committed_blocks e \<and>
          eng_height (handle_command X S M net now cmd e) = eng_height e) \<or>
         (\<exists>x bh. committed_blocks (handle_command X S M net now cmd e) = committed_blocks e @ [x] \<and>
            eng_height (handle_command X S M net now cmd e) = eng_height e + 1 \<and>
            set_active_count (eng_set e) * 2 div 3 + 1
              \<le> card (voter ` set (votes_for (eng_height e) bh (eng_precommits (handle_command X S M net now cmd e)))))"
proof -
  let ?e = "handle_command X S M net now cmd e"
  have vote: "one_commit (eng_quorum e) (eng_height e) (committed_blocks e) (snd (handle_vote X S M net now v e))" for v
    using one_commit_check [of "eng_add_vote v e" "eng_height e"] one_commit_check_prevote [of "eng_add_vote v e" "eng_height e"]
    by (auto simp: handle_vote_def Let_def one_commit_def split: vote_type.splits)
  have propos: "one_commit (eng_quorum e) (eng_height e) (committed_blocks e) (snd (handle_proposal X S M net now p e))" for p
    using one_commit_send_prevote [of "e\<lparr>current_proposal := Some p\<rparr>" "eng_height e" X S M net now "proposal_hash X p"]
    by (auto simp: handle_proposal_def one_commit_def eng_quorum_def split: sum.splits bool.splits)
  have one: "one_commit (eng_quorum e) (eng_height e) (committed_blocks e) ?e"
    using vote propos by (cases cmd) (auto simp: handle_command_def one_commit_def)
  have "votes_inv ?e" by (rule votes_inv_command [OF assms])
  then have "length (votes_for h bh (eng_precommits ?e)) = card (voter ` set (votes_for h bh (eng_precommits ?e)))" for h bh
    using distinct_card [of "map voter (votes_for h bh (eng_precommits ?e))"]
    by (simp add: votes_inv_def one_vote_each_def)
  with one show ?thesis by (auto simp: one_commit_def eng_quorum_def)
qed

text \<open>An engine whose height is not the next height of the state it would apply a block to.\<close>

definition stuck :: "('s, 'm) engine \<Rightarrow> ('s, 'm) engine \<Rightarrow> bool" where
  "stuck e0 e \<longleftrightarrow>
     eng_height e = eng_height e0 \<and> eng_sm e = eng_sm e0 \<and> committed_blocks e = committed_blocks e0 \<and>
     eng_height e \<noteq> current_height (eng_sm e) + 1 \<and>
     (\<forall>p. current_proposal e = Some p \<longrightarrow> hdr_height (header (prop_block p)) = eng_height e)"

lemma stuck_emit [simp]: "stuck e0 (emit ev e) = stuck e0 e"
  by (simp add: stuck_def)

lemma stuck_add_vote [simp]: "stuck e0 (eng_add_vote v e) = stuck e0 e"
  by (simp add: stuck_def)

lemma stuck_broadcast [simp]: "stuck e0 (snd (broadcast net msg e)) = stuck e0 e"
  by (simp add: stuck_def)

lemma stuck_start:
  "stuck e0 e \<Longrightarrow> h = eng_height e \<Longrightarrow> stuck e0 (snd (start_new_round X S M net now h r e))"
  using start_new_round_proposal [of X S M net now h r e] by (fastforce simp: stuck_def)

lemma stuck_commit: "stuck e0 e \<Longrightarrow> stuck e0 (snd (commit_block X S M net now h e))"
  by (auto simp: commit_block_def stuck_def apply_block_def Let_def split: option.splits)

lemma stuck_check_precommit: "stuck e0 e \<Longrightarrow> stuck e0 (snd (check_precommit_quorum X S M net now h r bh e))"
  by (simp add: check_precommit_quorum_def stuck_commit)

lemma stuck_send_precommit: "stuck e0 e \<Longrightarrow> stuck e0 (snd (send_precommit X S M net now bh e))"
  by (auto simp: send_precommit_def Let_def stuck_check_precommit split: option.splits
      intro!: bind_res_keeps [of "stuck e0"])

lemma stuck_check_prevote: "stuck e0 e \<Longrightarrow> stuck e0 (snd (check_prevote_quorum X S M net now h r bh e))"
  by (simp add: check_prevote_quorum_def stuck_send_precommit)

lemma stuck_send_prevote: "stuck e0 e \<Longrightarrow> stuck e0 (snd (send_prevote X S M net now bh e))"
  by (auto simp: send_prevote_def Let_def stuck_check_prevote split: option.splits
      intro!: bind_res_keeps [of "stuck e0"])

lemma stuck_proposal: "stuck e0 e \<Longrightarrow> stuck e0 (snd (handle_proposal X S M net now p e))"
proof -
  assume st: "stuck e0 e"
  have "stuck e0 (e\<lparr>current_proposal := Some p\<rparr>)" if "validate_block X S now (prop_block p) e = Inr True"
    using st that by (auto simp: stuck_def validate_block_def split: if_splits)
  then show ?thesis
    using st by (auto simp: handle_proposal_def stuck_send_prevote split: sum.splits bool.splits)
qed

lemma stuck_command:
  assumes "stuck e0 e" "\<forall>h r. cmd \<noteq> CmdPropose h r"
  shows "stuck e0 (handle_command X S M net now cmd e)"
  using assms
  by (cases cmd) (auto simp: handle_command_def stuck_proposal handle_vote_def Let_def stuck_check_prevote
      stuck_check_precommit stuck_start split: vote_type.splits)



text \<open>
  What a precommit quorum commits: once the precommits recorded for any one block hash reach
  the quorum, the engine commits its current proposal, whatever that hash is, and the
  recorded voters need not be validators: a vote is counted without looking at its
  signature or at the validator set. The commit moves the state and the engine to the next
  height, and no transaction of the block is left in the mempool.
\<close>

theorem quorum_commits_current_proposal:
  fixes e :: "(memory_storage, mempool_impl) engine" and net :: "net_message \<Rightarrow> unit pacyte_result"
  assumes "vote_height v = eng_height e" "vote_round v = eng_round e" "vote_kind v = Precommit"
    and "\<forall>w \<in> set (votes_for (eng_height e) (vote_block_hash v) (eng_precommits e)). voter w \<noteq> voter v"
    and "eng_quorum e \<le> Suc (length (votes_for (eng_height e) (vote_block_hash v) (eng_precommits e)))"
    and "current_proposal e = Some p" "apply_block X (memory_ops X t) now (prop_block p) (eng_sm e) = (Inr ver, sm)"
    and "pool_reachable X (memory_ops X t) mcfg (eng_mempool e)"
  defines "e' \<equiv> snd (handle_vote X (memory_ops X t) (pool_ops (memory_ops X t)) net now v e)"
  shows "committed_blocks e' = committed_blocks e @ [block_hash X (prop_block p)] \<and>
         eng_height e' = eng_height e + 1 \<and>
         current_height (eng_sm e') = hdr_height (header (prop_block p)) \<and>
         (\<forall>tx \<in> set (transactions (prop_block p)). pool_get_transaction (tx_hash X tx) (eng_mempool e') = None)"
proof -
  let ?e1 = "emit (EvQuorumReached (eng_height e) (eng_round e) Precommit) (eng_add_vote v e)"
  have q: "eng_quorum ?e1 \<le> length (votes_for (eng_height e) (vote_block_hash v) (eng_precommits ?e1))"
    using assms(1,3-5) by (simp add: eng_add_vote_def votes_for_record eng_quorum_def)
  have h: "current_height sm = hdr_height (header (prop_block p))"
  proof -
    obtain sm1 where "apply_transactions X (memory_ops X t) now (transactions (prop_block p)) (eng_sm e) = (Inr (), sm1)"
      and "hdr_height (header (prop_block p)) = current_height (eng_sm e) + 1"
      using assms(7) mem.block_succeeds_iff by blast
    then show ?thesis
      using assms(7) by (auto simp: apply_block_def commit_dirty_accounts_def Let_def memory_ops_def split: if_splits)
  qed
  obtain st where st: "so_save_block (memory_ops X t) (prop_block p) (sm_storage sm) = Inr st"
    using mem.write_block_ok by blast
  have e': "e' = snd (commit_block X (memory_ops X t) (pool_ops (memory_ops X t)) net now (eng_height e) ?e1)"
    using q assms(1-3) by (simp add: e'_def handle_vote_def Let_def check_precommit_quorum_def)
  have "pool_inv X (eng_mempool ?e1)" using assms(8) by (simp add: reachable_pool_inv)
  note c = pool.commit_block_ok [where e = ?e1 and S = "memory_ops X t" and p = p, OF _ _ st this]
  show ?thesis
    unfolding e' using c assms(6,7) h by simp
qed

definition sample_engine :: "(memory_storage, mempool_impl) engine" where
  "sample_engine =
     (eng_update_validator_set (current_set sample_validators) (engine_new consensus_config_default sample_state sample_pool))
       \<lparr>current_proposal := Some (proposal_new 1000 0 0 sample_block 1)\<rparr>"

theorem quorum_commits_current_proposal_witness:
  "committed_blocks (snd (handle_vote sample_externals (memory_ops sample_externals 0) (pool_ops (memory_ops sample_externals 0)) (\<lambda>m. Inr ())
     1000 (vote_new 1000 0 0 [9] 99 Precommit) sample_engine)) = [block_hash sample_externals sample_block] \<and>
   set_get_validator 99 (eng_set sample_engine) = None"
proof -
  obtain ver sm where ok: "apply_block sample_externals (memory_ops sample_externals 0) 1000 sample_block
      sample_state = (Inr ver, sm)"
    by (rule sample_block_applies)
  have set: "eng_set sample_engine = current_set sample_validators" "eng_height sample_engine = 0" "eng_round sample_engine = 0"
    "eng_precommits sample_engine = []" "committed_blocks sample_engine = []" "eng_sm sample_engine = sample_state"
    "eng_mempool sample_engine = sample_pool" "current_proposal sample_engine = Some (proposal_new 1000 0 0 sample_block 1)"
    by (simp_all add: sample_engine_def eng_update_validator_set_def engine_new_def)
  have vals: "set_validators (current_set sample_validators) = [info_of sample_validator]"
    by (simp add: sample_validators_def Let_def built_set_parts ranked_def sample_validator_def
        validator_record_new_def MAX_VALIDATORS_def)
  have q: "eng_quorum sample_engine = 1"
    by (simp add: eng_quorum_def set set_active_count_def vals info_of_def)
  have "set_get_validator 99 (eng_set sample_engine) = None"
    by (simp add: set_get_validator_def set vals info_of_def sample_validator_def validator_record_new_def)
  then show ?thesis
    using quorum_commits_current_proposal [where v = "vote_new 1000 0 0 [9] 99 Precommit" and e = sample_engine
        and p = "proposal_new 1000 0 0 sample_block 1" and X = sample_externals and t = 0 and now = 1000
        and ver = ver and sm = sm and mcfg = mempool_config_default and net = "\<lambda>m. Inr ()"] ok sample_pool_reachable
    by (simp add: set q vote_new_def votes_for_def proposal_new_def)
qed

theorem commit_needs_quorum_witness:
  "let e = handle_command sample_externals (memory_ops sample_externals 0) (pool_ops (memory_ops sample_externals 0)) (\<lambda>m. Inr ())
             1000 (CmdVoteReceived (vote_new 1000 0 0 [9] 99 Precommit)) sample_engine
   in votes_inv sample_engine \<and> eng_height e \<in> {0, 1} \<and> length (committed_blocks e) \<le> 1"
proof -
  have inv: "votes_inv sample_engine" "committed_blocks sample_engine = []" "eng_height sample_engine = 0"
    by (simp_all add: sample_engine_def eng_update_validator_set_def engine_new_def votes_inv_def
        one_vote_each_def votes_for_def)
  then show ?thesis
    using commit_needs_quorum [OF inv(1), of sample_externals "memory_ops sample_externals 0" "pool_ops (memory_ops sample_externals 0)"
        "\<lambda>m. Inr ()" 1000 "CmdVoteReceived (vote_new 1000 0 0 [9] 99 Precommit)"]
    by (auto simp: Let_def)
qed

end
