(* ===== verification/Consensus_Rounds.thy ===== *)
theory Consensus_Rounds
  imports Consensus_Engine Pacyte_Float
begin

text \<open>
  \<open>src/consensus/round.rs\<close> and \<open>src/consensus/pacemaker.rs\<close>: the state of a round with its timeouts, the
  timer, the pacemaker with its exponential backoff and the timeout calculator.

  An \<open>Instant\<close> and a \<open>Duration\<close> are numbers of nanoseconds; the monotonic clock is the argument
  \<open>now\<close>, the wall clock \<open>ts\<close>. The loops poll state that other tasks change between two passes: a
  loop is the list of its passes, each with the time and (where the code re-reads it) the manager it sees.
  \<open>powi\<close> is the loop of the compiler's run-time library: repeated squaring with a rounding
  after each multiplication. Where a power exceeds the range of \<open>f64\<close> the code computes with
  infinity and the model with a large number; both saturate in the cast to \<open>u64\<close> that follows.
\<close>

section \<open>Rounds\<close>

datatype round_state = NewRound | ProposalSent | ProposalReceived | Prevoted | Precommitted | Committed | TimedOut

datatype timeout_type = TimeoutProposal | TimeoutPrevote | TimeoutPrecommit | TimeoutRound

record round_manager =
  rm_height :: block_height
  rm_round :: u64
  rm_state :: round_state
  start_time :: "nat option"
  rm_proposal_timeout_ms :: u64
  prevote_timeout_ms :: u64
  precommit_timeout_ms :: u64
  rm_round_timeout_ms :: u64

definition round_manager_new :: "u64 \<Rightarrow> u64 \<Rightarrow> u64 \<Rightarrow> u64 \<Rightarrow> round_manager" where
  "round_manager_new p v c r =
     \<lparr>rm_height = 0, rm_round = 0, rm_state = NewRound, start_time = None, rm_proposal_timeout_ms = p,
      prevote_timeout_ms = v, precommit_timeout_ms = c, rm_round_timeout_ms = r\<rparr>"

definition rm_start_new_round :: "nat \<Rightarrow> block_height \<Rightarrow> u64 \<Rightarrow> round_manager \<Rightarrow> round_manager" where
  "rm_start_new_round now h r m =
     m\<lparr>rm_height := h, rm_round := r, rm_state := NewRound, start_time := Some now\<rparr>"

definition set_state :: "round_state \<Rightarrow> round_manager \<Rightarrow> round_manager" where
  "set_state st m = m\<lparr>rm_state := st\<rparr>"

definition millis :: "nat \<Rightarrow> nat" where "millis ns = ns div 1000000"

definition rm_elapsed_ms :: "nat \<Rightarrow> round_manager \<Rightarrow> u64" where
  "rm_elapsed_ms now m = (case start_time m of Some t \<Rightarrow> of_nat (millis (now - t)) | None \<Rightarrow> 0)"

definition check_timeout :: "nat \<Rightarrow> round_manager \<Rightarrow> timeout_type option" where
  "check_timeout now m =
     (let elapsed = rm_elapsed_ms now m in
      case rm_state m of
        NewRound \<Rightarrow> if elapsed > rm_proposal_timeout_ms m then Some TimeoutProposal else None
      | ProposalReceived \<Rightarrow> if elapsed > prevote_timeout_ms m then Some TimeoutPrevote else None
      | ProposalSent \<Rightarrow> if elapsed > prevote_timeout_ms m then Some TimeoutPrevote else None
      | Prevoted \<Rightarrow> if elapsed > precommit_timeout_ms m then Some TimeoutPrecommit else None
      | Precommitted \<Rightarrow> if elapsed > rm_round_timeout_ms m then Some TimeoutRound else None
      | _ \<Rightarrow> None)"

text \<open>
  \<open>wait_for_state\<close>, started at \<open>start\<close>: each pass is the time and the manager it observes. \<open>None\<close>
  means that the wait has not ended after these passes.
\<close>

fun wait_for_state ::
    "round_state \<Rightarrow> nat \<Rightarrow> nat \<Rightarrow> (nat \<times> round_manager) list \<Rightarrow> (timeout_type + unit) option" where
  "wait_for_state expected duration start [] = None"
| "wait_for_state expected duration start ((now, m) # passes) =
     (if rm_state m = expected then Some (Inr ())
      else if now - start > duration
      then Some (Inl (case check_timeout now m of Some t \<Rightarrow> t | None \<Rightarrow> TimeoutRound))
      else wait_for_state expected duration start passes)"

definition advance_round :: "nat \<Rightarrow> round_manager \<Rightarrow> (block_height \<times> u64) \<times> round_manager" where
  "advance_round now m =
     (let next_round = rm_round m + 1
      in ((rm_height m, next_round), m\<lparr>rm_round := next_round, rm_state := NewRound, start_time := Some now\<rparr>))"

definition reset_for_height :: "nat \<Rightarrow> block_height \<Rightarrow> round_manager \<Rightarrow> round_manager" where
  "reset_for_height now h m =
     m\<lparr>rm_height := h, rm_round := 0, rm_state := NewRound, start_time := Some now\<rparr>"

definition get_timeout_with_backoff :: "u64 \<Rightarrow> u64 \<Rightarrow> u64" where
  "get_timeout_with_backoff base consecutive =
     (let multiplier = 2 ^ unat (min consecutive 5) in min (base * multiplier) (base * 10))"

text \<open>One pass of \<open>run_timeout_loop\<close>: the call of \<open>on_timeout\<close>, the manager, and the counter it keeps.\<close>

definition timeout_pass ::
    "nat \<Rightarrow> round_manager \<times> u64 \<Rightarrow> (timeout_type \<times> block_height \<times> u64) list \<times> round_manager \<times> u64" where
  "timeout_pass now s =
     (case s of (m, consecutive) \<Rightarrow>
        (case check_timeout now m of
           None \<Rightarrow> ([], m, consecutive)
         | Some ty \<Rightarrow>
             ([(ty, rm_height m, rm_round m)],
              if ty = TimeoutRound then (snd (advance_round now m), consecutive + 1) else (m, consecutive))))"

fun run_timeout_loop ::
    "nat list \<Rightarrow> round_manager \<times> u64 \<Rightarrow> (timeout_type \<times> block_height \<times> u64) list \<times> round_manager \<times> u64" where
  "run_timeout_loop [] s = ([], s)"
| "run_timeout_loop (now # nows) s =
     (case timeout_pass now s of (calls, s1) \<Rightarrow>
        (case run_timeout_loop nows s1 of (calls', s2) \<Rightarrow> (calls @ calls', s2)))"

record round_timer =
  rt_start :: nat
  rt_timeout_ms :: u64

definition round_timer_new :: "nat \<Rightarrow> u64 \<Rightarrow> round_timer" where
  "round_timer_new now t = \<lparr>rt_start = now, rt_timeout_ms = t\<rparr>"

definition timer_reset :: "nat \<Rightarrow> round_timer \<Rightarrow> round_timer" where
  "timer_reset now t = t\<lparr>rt_start := now\<rparr>"

definition timer_elapsed_ms :: "nat \<Rightarrow> round_timer \<Rightarrow> u64" where
  "timer_elapsed_ms now t = of_nat (millis (now - rt_start t))"

definition timer_is_expired :: "nat \<Rightarrow> round_timer \<Rightarrow> bool" where
  "timer_is_expired now t \<longleftrightarrow> timer_elapsed_ms now t > rt_timeout_ms t"

definition timer_remaining_ms :: "nat \<Rightarrow> round_timer \<Rightarrow> u64" where
  "timer_remaining_ms now t = saturating_sub (rt_timeout_ms t) (timer_elapsed_ms now t)"

section \<open>The pacemaker\<close>

fun powi_loop :: "f64 \<Rightarrow> nat \<Rightarrow> f64 \<Rightarrow> f64" where
  "powi_loop a b r =
     (let r1 = (if odd b then fl_mul r a else r)
      in if b div 2 = 0 then r1 else powi_loop (fl_mul a a) (b div 2) r1)"

declare powi_loop.simps [simp del]

definition f64_powi :: "f64 \<Rightarrow> int \<Rightarrow> f64" where
  "f64_powi a n = (let p = powi_loop a (nat \<bar>n\<bar>) 1 in if n < 0 then fl_div 1 p else p)"

record pacemaker =
  base_timeout_ms :: u64
  max_timeout_ms :: u64
  consecutive_timeouts :: u64
  backoff_multiplier :: f64
  pm_last_activity :: timestamp
  pm_sent :: "consensus_command list"

definition pacemaker_new :: "timestamp \<Rightarrow> u64 \<Rightarrow> pacemaker" where
  "pacemaker_new ts base =
     \<lparr>base_timeout_ms = base, max_timeout_ms = base * 10, consecutive_timeouts = 0, backoff_multiplier = 3 / 2,
      pm_last_activity = ts, pm_sent = []\<rparr>"

definition get_current_timeout :: "pacemaker \<Rightarrow> u64" where
  "get_current_timeout p =
     (if consecutive_timeouts p = 0 then base_timeout_ms p
      else let multiplier = f64_powi (backoff_multiplier p) (sint (ucast (consecutive_timeouts p) :: u32));
               timeout = word_of_f64 (fl_mul (f64_of_word (base_timeout_ms p)) multiplier)
           in min timeout (max_timeout_ms p))"

definition check_and_handle_timeouts :: "nat \<Rightarrow> timestamp \<Rightarrow> round_manager \<Rightarrow> pacemaker \<Rightarrow> pacemaker" where
  "check_and_handle_timeouts now ts m p =
     (if rm_elapsed_ms now m > get_current_timeout p
      then p\<lparr>consecutive_timeouts := consecutive_timeouts p + 1,
             pm_sent := pm_sent p @ [CmdTimeout (rm_height m) (rm_round m)], pm_last_activity := ts\<rparr>
      else p)"

datatype pacemaker_event = PaceTick nat timestamp round_manager | PaceShutdown

fun pacemaker_start :: "pacemaker_event list \<Rightarrow> pacemaker \<Rightarrow> pacemaker" where
  "pacemaker_start [] p = p"
| "pacemaker_start (PaceShutdown # _) p = p"
| "pacemaker_start (PaceTick now ts m # evs) p = pacemaker_start evs (check_and_handle_timeouts now ts m p)"

definition pm_record_activity :: "timestamp \<Rightarrow> pacemaker \<Rightarrow> pacemaker" where
  "pm_record_activity ts p = p\<lparr>consecutive_timeouts := 0, pm_last_activity := ts\<rparr>"

definition on_quorum_reached :: "timestamp \<Rightarrow> pacemaker \<Rightarrow> pacemaker" where
  "on_quorum_reached ts p = (pm_record_activity ts p)\<lparr>consecutive_timeouts := 0\<rparr>"

definition reset_timeouts :: "pacemaker \<Rightarrow> pacemaker" where
  "reset_timeouts p = p\<lparr>consecutive_timeouts := 0\<rparr>"

record pacemaker_status =
  ps_base_timeout_ms :: u64
  current_timeout_ms :: u64
  ps_consecutive_timeouts :: u64
  ps_last_activity :: timestamp

definition pacemaker_status_of :: "pacemaker \<Rightarrow> pacemaker_status" where
  "pacemaker_status_of p =
     \<lparr>ps_base_timeout_ms = base_timeout_ms p, current_timeout_ms = get_current_timeout p,
      ps_consecutive_timeouts = consecutive_timeouts p, ps_last_activity = pm_last_activity p\<rparr>"

section \<open>The timeout calculator\<close>

record timeout_calculator =
  base_timeout :: nat
  min_timeout :: nat
  max_timeout :: nat
  backoff_factor :: f64

definition with_backoff :: "nat \<Rightarrow> f64 \<Rightarrow> timeout_calculator" where
  "with_backoff base f = \<lparr>base_timeout = base, min_timeout = base, max_timeout = base * 10, backoff_factor = f\<rparr>"

definition timeout_calculator_new :: "nat \<Rightarrow> timeout_calculator" where
  "timeout_calculator_new base = with_backoff base (3 / 2)"

definition clamp :: "nat \<Rightarrow> nat \<Rightarrow> nat \<Rightarrow> nat" where
  "clamp lo hi x = (if x < lo then lo else if x > hi then hi else x)"

text \<open>\<open>Duration::from_millis((d.as_millis() as f64 * factor) as u64)\<close>.\<close>

definition scaled :: "nat \<Rightarrow> f64 \<Rightarrow> nat" where
  "scaled d factor = unat (word_of_f64 (fl_mul (rnd (of_nat (millis d))) factor) :: u64) * 1000000"

definition calculate :: "u32 \<Rightarrow> timeout_calculator \<Rightarrow> nat" where
  "calculate failures tc =
     (if failures = 0 then base_timeout tc
      else clamp (min_timeout tc) (max_timeout tc)
             (scaled (base_timeout tc) (f64_powi (backoff_factor tc) (sint failures))))"

definition calculate_for_round :: "u64 \<Rightarrow> bool \<Rightarrow> timeout_calculator \<Rightarrow> nat" where
  "calculate_for_round r is_leader tc =
     (let base = (if is_leader then base_timeout tc div 2 else base_timeout tc);
          round_factor = fl_add 1 (fl_mul (f64_of_word r) (rnd (1 / 10)))
      in clamp (min_timeout tc) (max_timeout tc) (scaled base round_factor))"

section \<open>Properties\<close>

text \<open>A round that has not reached the precommit phase.\<close>

fun phase_timeout :: "round_manager \<Rightarrow> (timeout_type \<times> u64) option" where
  "phase_timeout m =
     (case rm_state m of
        NewRound \<Rightarrow> Some (TimeoutProposal, rm_proposal_timeout_ms m)
      | ProposalSent \<Rightarrow> Some (TimeoutPrevote, prevote_timeout_ms m)
      | ProposalReceived \<Rightarrow> Some (TimeoutPrevote, prevote_timeout_ms m)
      | Prevoted \<Rightarrow> Some (TimeoutPrecommit, precommit_timeout_ms m)
      | _ \<Rightarrow> None)"

text \<open>
  The timeout loop never advances a round that waits for a proposal, for prevotes or for precommits: every
  pass after the timeout of the phase calls \<open>on_timeout\<close> with the same height and round
  and leaves the round manager as it is, however long the loop runs.
\<close>

theorem timeout_loop_never_advances:
  assumes "phase_timeout m = Some (ty, limit)" "\<forall>now\<in>set nows. rm_elapsed_ms now m > limit"
  shows "run_timeout_loop nows (m, n) = (map (\<lambda>_. (ty, rm_height m, rm_round m)) nows, m, n)"
proof -
  have "timeout_pass now (m, n) = ([(ty, rm_height m, rm_round m)], m, n)" if "now \<in> set nows" for now
    using assms that by (cases "rm_state m") (auto simp: timeout_pass_def check_timeout_def)
  then show ?thesis by (induction nows) auto
qed

theorem timeout_loop_never_advances_witness:
  "fst (run_timeout_loop [4000000000, 4050000000] (rm_start_new_round 0 7 2 (round_manager_new 3000 2000 2000 4000), 0)) =
     [(TimeoutProposal, 7, 2), (TimeoutProposal, 7, 2)]"
  using timeout_loop_never_advances [of "rm_start_new_round 0 7 2 (round_manager_new 3000 2000 2000 4000)"
      TimeoutProposal 3000 "[4000000000, 4050000000]" 0]
  by (simp add: rm_start_new_round_def round_manager_new_def rm_elapsed_ms_def millis_def)

text \<open>Each multiplication of \<open>powi\<close> loses at most the factor \<open>1 - half_ulp\<close>.\<close>

lemma powi_lower:
  assumes "0 \<le> c" "c \<le> a * (1 - half_ulp)" "0 \<le> r"
  shows "r * c ^ b \<le> powi_loop a b r"
  using assms
proof (induction a b r arbitrary: c rule: powi_loop.induct)
  case (1 a b r)
  have h: "0 < 1 - half_ulp" by (simp add: half_ulp_def)
  have a: "0 \<le> a" using 1(2,3) h by (metis mult_nonneg_nonneg mult_le_0_iff nle_le order_trans zero_le_mult_iff less_le_not_le)
  let ?r1 = "if odd b then fl_mul r a else r"
  have r1: "r * c ^ (b mod 2) \<le> ?r1"
  proof (cases "odd b")
    case True
    have "r * c \<le> r * (a * (1 - half_ulp))" using 1(3,4) by (intro mult_left_mono) auto
    also have "\<dots> \<le> fl_mul r a" using rnd_ge [of "r * a"] a 1(4) by (simp add: fl_mul_def mult.assoc)
    finally show ?thesis using True by (simp add: odd_iff_mod_2_eq_one)
  qed simp
  have nn: "0 \<le> ?r1" using r1 1(2,4) by (meson order_trans mult_nonneg_nonneg zero_le_power)
  show ?case
  proof (cases "b div 2 = 0")
    case True
    then have "b mod 2 = b" by auto
    with True r1 show ?thesis by (simp add: powi_loop.simps [of a b r] Let_def)
  next
    case False
    have "c * c \<le> (a * (1 - half_ulp)) * (a * (1 - half_ulp))" using 1(2,3) by (intro mult_mono) auto
    also have "\<dots> = (a * a * (1 - half_ulp)) * (1 - half_ulp)" by simp
    also have "\<dots> \<le> fl_mul a a * (1 - half_ulp)"
      using rnd_ge [of "a * a"] h by (intro mult_right_mono) (auto simp: fl_mul_def)
    finally have "?r1 * (c * c) ^ (b div 2) \<le> powi_loop (fl_mul a a) (b div 2) ?r1"
      using 1(1) [OF refl False, of "c * c"] 1(2) nn by simp
    moreover have "r * c ^ b \<le> ?r1 * (c * c) ^ (b div 2)"
    proof -
      have "c ^ b = c ^ (b mod 2) * (c * c) ^ (b div 2)"
        by (metis add.commute mult_div_mod_eq power2_eq_square power_add power_mult)
      then have "r * c ^ b = r * c ^ (b mod 2) * (c * c) ^ (b div 2)" by simp
      also have "\<dots> \<le> ?r1 * (c * c) ^ (b div 2)" using r1 1(2) by (intro mult_right_mono) auto
      finally show ?thesis .
    qed
    ultimately show ?thesis using False by (simp add: powi_loop.simps [of a b r] Let_def)
  qed
qed

lemma sint_small: "unat (c :: u64) < 2 ^ 31 \<Longrightarrow> sint (ucast c :: u32) = int (unat c)"
proof -
  assume c: "unat c < 2 ^ 31"
  then have "unat (ucast c :: u32) = unat c" by (simp add: unat_ucast)
  then have "uint (ucast c :: u32) = int (unat c)" by (metis uint_nat)
  moreover have "signed_take_bit 31 (int (unat c)) = int (unat c)"
  proof (rule signed_take_bit_int_eq_self)
    have "int (unat c) < int (2 ^ 31)" using c by (simp only: of_nat_less_iff)
    then show "int (unat c) < 2 ^ 31" by simp
    show "- (2 ^ 31) \<le> int (unat c)" by (rule order_trans [of _ 0]) simp_all
  qed
  ultimately show ?thesis by (simp only: sint_uint) simp
qed

text \<open>A backoff factor of at least \<open>k\<close> makes the computed timeout at least \<open>k\<close> times the base.\<close>

lemma backoff_at_least:
  fixes base :: u64 and k :: nat
  assumes "unat base * k < 2 ^ 64" "(of_nat k :: rat) * (1 + 1 / 100) \<le> f"
  shows "unat base * k \<le> unat (word_of_f64 (fl_mul (f64_of_word base) f) :: u64)"
proof -
  let ?b = "of_nat (unat base) :: rat"
  have h: "half_ulp \<le> 1 / 1000" "0 < half_ulp" by (simp_all add: half_ulp_def)
  have b: "?b * (1 - half_ulp) \<le> f64_of_word base" "0 \<le> f64_of_word base"
    unfolding f64_of_word_def by (rule rnd_ge, rule of_nat_0_le_iff, rule rnd_nonneg, rule of_nat_0_le_iff)
  have f0: "0 \<le> f" using assms(2) by (meson order_trans mult_nonneg_nonneg of_nat_0_le_iff add_nonneg_nonneg zero_le_one divide_nonneg_nonneg zero_le_numeral)
  have "?b * (1 - half_ulp) * (of_nat k * (1 + 1 / 100)) \<le> f64_of_word base * f"
    using b assms(2) h by (intro mult_mono) auto
  then have "?b * (1 - half_ulp) * (of_nat k * (1 + 1 / 100)) * (1 - half_ulp) \<le> f64_of_word base * f * (1 - half_ulp)"
    using h by (intro mult_right_mono) auto
  also have "\<dots> \<le> fl_mul (f64_of_word base) f"
    using rnd_ge [of "f64_of_word base * f"] b(2) f0 by (simp add: fl_mul_def)
  finally have lo: "?b * of_nat k * ((1 - half_ulp) * (1 + 1 / 100) * (1 - half_ulp)) \<le> fl_mul (f64_of_word base) f"
    by (simp add: algebra_simps)
  have "1 \<le> (1 - half_ulp) * (1 + 1 / 100) * (1 - half_ulp)" by (simp add: half_ulp_def)
  then have "?b * of_nat k * 1 \<le> ?b * of_nat k * ((1 - half_ulp) * (1 + 1 / 100) * (1 - half_ulp))"
    by (intro mult_left_mono mult_nonneg_nonneg of_nat_0_le_iff)
  with lo have "of_nat (unat base * k) \<le> fl_mul (f64_of_word base) f" by simp
  then have "int (unat base * k) \<le> \<lfloor>fl_mul (f64_of_word base) f\<rfloor>" by (simp add: le_floor_iff)
  then have "unat base * k \<le> nat \<lfloor>fl_mul (f64_of_word base) f\<rfloor>" by linarith
  then show ?thesis using assms(1) by (simp add: unat_word_of_f64)
qed

text \<open>
  C31. Exponential backoff of the pacemaker: with a base timeout whose tenfold fits in 64 bits, the
  current timeout lies between the base and ten times the base for every count of consecutive timeouts
  below 2^31, every rounding of \<open>powi\<close> included, and from the sixth one on it is the maximum.
\<close>

theorem pacemaker_backoff:
  assumes "max_timeout_ms p = base_timeout_ms p * 10" "backoff_multiplier p = 3 / 2"
    and "unat (base_timeout_ms p) * 10 < 2 ^ 64" "unat (consecutive_timeouts p) < 2 ^ 31"
  shows "unat (base_timeout_ms p) \<le> unat (get_current_timeout p) \<and>
     unat (get_current_timeout p) \<le> unat (base_timeout_ms p) * 10 \<and>
     (6 \<le> unat (consecutive_timeouts p) \<longrightarrow> get_current_timeout p = max_timeout_ms p)"
proof (cases "consecutive_timeouts p = 0")
  case True
  then show ?thesis by (simp add: get_current_timeout_def)
next
  case False
  let ?n = "unat (consecutive_timeouts p)" and ?b = "base_timeout_ms p" and ?c = "3 / 2 * (1 - half_ulp) :: rat"
  have n: "1 \<le> ?n" using False by (simp add: Suc_le_eq unat_gt_0)
  have mx: "unat (max_timeout_ms p) = unat ?b * 10"
    using assms(1,3) by (simp add: unat_word_ariths)
  let ?f = "f64_powi (3 / 2) (int ?n)" and ?t = "word_of_f64 (fl_mul (f64_of_word ?b) (f64_powi (3 / 2) (int ?n))) :: u64"
  have cur: "get_current_timeout p = min ?t (max_timeout_ms p)"
    using False unfolding get_current_timeout_def assms(2) sint_small [OF assms(4)] Let_def by (simp only: if_False)
  have c: "149 / 100 \<le> ?c" by (simp add: half_ulp_def)
  have pw: "?c ^ ?n \<le> ?f" using powi_lower [of ?c "3 / 2" 1 ?n] c by (simp add: f64_powi_def Let_def)
  have lo: "?c ^ k \<le> ?f" if "k \<le> ?n" for k
    using power_increasing [OF that, of ?c] c pw by linarith
  have "(149 / 100 :: rat) \<le> ?f" using lo [of 1] n c by simp
  then have t1: "unat ?b \<le> unat ?t" using backoff_at_least [of ?b 1 ?f] assms(3) by simp
  have t6: "unat ?b * 10 \<le> unat ?t" if "6 \<le> ?n"
  proof -
    have "(1013 / 100 :: rat) \<le> (149 / 100) ^ 6" by (simp add: power_divide)
    also have "\<dots> \<le> ?c ^ 6" using c by (intro power_mono) auto
    finally have "of_nat 10 * (1 + 1 / 100) \<le> ?f" using lo [OF that] by simp
    with assms(3) show ?thesis by (intro backoff_at_least)
  qed
  have "unat (get_current_timeout p) = min (unat ?t) (unat ?b * 10)"
    by (simp only: cur unat_min mx)
  moreover from this have "unat (get_current_timeout p) = unat (max_timeout_ms p)" if "6 \<le> ?n"
    using t6 [OF that] mx by linarith
  ultimately show ?thesis using t1 by (simp only: word_unat_eq_iff) linarith
qed

theorem pacemaker_backoff_witness:
  "get_current_timeout ((pacemaker_new 0 1000)\<lparr>consecutive_timeouts := 7\<rparr>) = 10000"
  using pacemaker_backoff [of "(pacemaker_new 0 1000)\<lparr>consecutive_timeouts := 7\<rparr>"] by (simp add: pacemaker_new_def)

text \<open>
  The pacemaker does not restart the round: once the round is older than the maximal timeout, every
  tick sends one more timeout command for the same height and round.
\<close>

lemma pacemaker_repeats:
  assumes "max_timeout_ms p = base_timeout_ms p * 10" "unat (base_timeout_ms p) * 10 < 2 ^ 64"
    and "\<forall>(now, ts)\<in>set ticks. rm_elapsed_ms now m > max_timeout_ms p"
  shows "pm_sent (pacemaker_start (map (\<lambda>(now, ts). PaceTick now ts m) ticks) p) =
         pm_sent p @ map (\<lambda>_. CmdTimeout (rm_height m) (rm_round m)) ticks"
  using assms
proof (induction ticks arbitrary: p)
  case (Cons tick ticks)
  obtain now ts where tick: "tick = (now, ts)" by fastforce
  have "base_timeout_ms p \<le> max_timeout_ms p"
    using Cons.prems(1,2) by (simp add: word_le_nat_alt unat_word_ariths)
  then have "get_current_timeout p \<le> max_timeout_ms p" by (simp add: get_current_timeout_def Let_def)
  then have "rm_elapsed_ms now m > get_current_timeout p" using Cons.prems(3) tick by auto
  with Cons tick show ?case by (simp add: check_and_handle_timeouts_def)
qed simp

end
