(* ===== verification/Consensus_Sentinel.thy ===== *)
theory Consensus_Sentinel
  imports Consensus_Validators
begin

text \<open>
  \<open>src/consensus/sentinel.rs\<close>: the watcher node with its reports and slashing evidence, over the proposal
  and vote messages of \<open>src/types/mod.rs\<close>.

  The bounded caches are the crate \<open>lru\<close>: a cache is the record \<open>lru_ops\<close> of the methods called,
  over a state, with the documented behaviour the code relies on as the locale \<open>bounded_cache\<close>.
  \<open>get_mut\<close> is split into the lookup (which may reorder the cache) and the write through the
  returned reference. Sets of hashes are lists without repetitions. The worker task, its
  handle and the shutdown channel are not modelled: \<open>watch_loop\<close> is the list of the messages it receives.
\<close>

section \<open>Configuration, anomalies and reports\<close>

record sentinel_config =
  report_interval :: block_height
  max_retries :: u32
  network_timeout_ms :: u64
  quorum_threshold :: usize
  max_height_history :: usize
  max_missed_blocks_before_alarm :: u64
  max_timestamp_drift_secs :: u64
  broadcast_alarms :: bool
  sc_cache_size :: usize

definition sentinel_config_default :: sentinel_config where
  "sentinel_config_default =
     \<lparr>report_interval = 10, max_retries = 3, network_timeout_ms = 30000, quorum_threshold = 15,
      max_height_history = 1000, max_missed_blocks_before_alarm = 50, max_timestamp_drift_secs = 30,
      broadcast_alarms = False, sc_cache_size = 10000\<rparr>"

definition sentinel_config_validate :: "sentinel_config \<Rightarrow> unit pacyte_result" where
  "sentinel_config_validate cfg =
     (if report_interval cfg = 0 then Inl (ConfigError ''report_interval cannot be 0'')
      else if quorum_threshold cfg = 0 then Inl (ConfigError ''quorum_threshold cannot be 0'')
      else Inr ())"

datatype sentinel_state = SentinelIdle | SentinelWatching | SentinelReporting | SentinelError string

datatype anomaly_type =
    DoubleProposal u64 hash hash
  | DoubleVote u64 hash hash
  | InvalidTimestamp timestamp timestamp
  | MissedBlock u64 block_height
  | LowQuorum usize usize
  | GenesisViolation u64
  | NonSequentialHeight block_height block_height
  | AnomalyInvalidSignature u64
  | ProposalWithoutVote u64 block_height
  | VoteWithoutProposal u64 block_height u64
  | StakeBelowThreshold u64 u64 u64

record sentinel_report =
  rp_height :: block_height
  rp_round :: u64
  rp_block_hash :: "hash option"
  rp_validator_count :: usize
  quorum_reached :: bool
  anomalies :: "string list"
  anomaly_types :: "anomaly_type list"
  warnings :: "string list"
  rp_timestamp :: timestamp

definition report_new :: "timestamp \<Rightarrow> block_height \<Rightarrow> sentinel_report" where
  "report_new now h =
     \<lparr>rp_height = h, rp_round = 0, rp_block_hash = None, rp_validator_count = 0, quorum_reached = False,
      anomalies = [], anomaly_types = [], warnings = [], rp_timestamp = now\<rparr>"

definition add_anomaly :: "string \<Rightarrow> anomaly_type \<Rightarrow> sentinel_report \<Rightarrow> sentinel_report" where
  "add_anomaly desc a r = r\<lparr>anomalies := anomalies r @ [desc], anomaly_types := anomaly_types r @ [a]\<rparr>"

definition add_warning :: "string \<Rightarrow> sentinel_report \<Rightarrow> sentinel_report" where
  "add_warning desc r = r\<lparr>warnings := warnings r @ [desc]\<rparr>"

definition has_anomalies :: "sentinel_report \<Rightarrow> bool" where
  "has_anomalies r \<longleftrightarrow> anomalies r \<noteq> []"

definition has_issues :: "sentinel_report \<Rightarrow> bool" where
  "has_issues r \<longleftrightarrow> anomalies r \<noteq> [] \<or> warnings r \<noteq> []"

record evidence_data =
  ev_validator_id :: u64
  ev_height :: block_height
  ev_round :: u64
  block_hash_1 :: hash
  block_hash_2 :: hash
  reported_at :: timestamp

datatype slashing_evidence = EvDoubleProposal evidence_data | EvDoubleVote evidence_data

definition evidence_of :: "sentinel_report \<Rightarrow> u64 \<Rightarrow> hash \<Rightarrow> hash \<Rightarrow> evidence_data" where
  "evidence_of r v h1 h2 =
     \<lparr>ev_validator_id = v, ev_height = rp_height r, ev_round = rp_round r, block_hash_1 = h1, block_hash_2 = h2,
      reported_at = rp_timestamp r\<rparr>"

definition to_slashing_evidence :: "sentinel_report \<Rightarrow> slashing_evidence list" where
  "to_slashing_evidence r =
     concat (map (\<lambda>a. case a of
         DoubleProposal v h1 h2 \<Rightarrow> [EvDoubleProposal (evidence_of r v h1 h2)]
       | DoubleVote v h1 h2 \<Rightarrow> [EvDoubleVote (evidence_of r v h1 h2)]
       | _ \<Rightarrow> []) (anomaly_types r))"

section \<open>The node\<close>

record ('c, 'k, 'v) lru_ops =
  lc_new :: "nat \<Rightarrow> 'c"
  lc_get :: "'k \<Rightarrow> 'c \<Rightarrow> 'v option \<times> 'c"
  lc_set :: "'k \<Rightarrow> 'v \<Rightarrow> 'c \<Rightarrow> 'c"
  lc_put :: "'k \<Rightarrow> 'v \<Rightarrow> 'c \<Rightarrow> 'c"
  lc_peek :: "'k \<Rightarrow> 'c \<Rightarrow> 'v option"

type_synonym 'c proposal_cache_ops = "('c, block_height \<times> u64, hash list) lru_ops"
type_synonym 'c vote_cache_ops = "('c, block_height \<times> u64 \<times> u64, hash list) lru_ops"
type_synonym 'c time_cache_ops = "('c, block_height, timestamp) lru_ops"

record net_proposal =
  np_height :: block_height
  np_round :: u64
  np_block :: block
  np_proposer :: u64
  np_signature :: signature

record net_vote =
  nv_height :: block_height
  nv_round :: u64
  nv_block_hash :: hash
  nv_voter :: u64
  nv_vote_type :: vote_type
  nv_signature :: signature

datatype sentinel_message = MsgProposal | MsgVote | MsgOther

record ('p, 'v, 't) sentinel_node =
  sn_config :: sentinel_config
  sn_state :: sentinel_state
  sn_height :: block_height
  latest_report :: "sentinel_report option"
  report_history :: "sentinel_report list"
  sn_slashing_evidence :: "slashing_evidence list"
  seen_proposals :: 'p
  seen_votes :: 'v
  block_timestamps :: 't
  missed_blocks :: "(u64 \<times> u64) list"
  total_blocks :: u64
  sn_total_votes :: u64
  total_anomalies :: u64

text \<open>\<open>None\<close> is the panic of \<open>unwrap\<close> for a cache size of zero.\<close>

definition sentinel_new ::
    "'p proposal_cache_ops \<Rightarrow> 'v vote_cache_ops \<Rightarrow> 't time_cache_ops \<Rightarrow> sentinel_config \<Rightarrow> ('p, 'v, 't) sentinel_node option" where
  "sentinel_new P V T cfg =
     (if sc_cache_size cfg = 0 then None
      else Some \<lparr>sn_config = cfg, sn_state = SentinelIdle, sn_height = 0, latest_report = None, report_history = [],
             sn_slashing_evidence = [], seen_proposals = lc_new P (unat (sc_cache_size cfg)),
             seen_votes = lc_new V (unat (sc_cache_size cfg)), block_timestamps = lc_new T (unat (sc_cache_size cfg)),
             missed_blocks = [], total_blocks = 0, sn_total_votes = 0, total_anomalies = 0\<rparr>)"

definition get_active_validator_count :: "block_height \<Rightarrow> usize" where
  "get_active_validator_count h = 21"

definition get_proposer_for_height :: "block_height \<Rightarrow> u64" where
  "get_proposer_for_height h = h mod 21 + 1"

text \<open>The height is raised; the step returns the height before.\<close>

definition track_height :: "net_proposal \<Rightarrow> 't time_cache_ops \<Rightarrow> ('p, 'v, 't) sentinel_node \<Rightarrow> block_height \<times> ('p, 'v, 't) sentinel_node" where
  "track_height pd T sn =
     (sn_height sn,
      sn\<lparr>sn_height := max (sn_height sn) (np_height pd), total_blocks := total_blocks sn + 1,
         block_timestamps := lc_put T (np_height pd) (hdr_timestamp (header (np_block pd))) (block_timestamps sn)\<rparr>)"

definition check_missed ::
    "net_proposal \<Rightarrow> block_height \<Rightarrow> sentinel_report \<times> ('p, 'v, 't) sentinel_node \<Rightarrow> sentinel_report \<times> ('p, 'v, 't) sentinel_node" where
  "check_missed pd prev s =
     (case s of (r, sn) \<Rightarrow>
        let h = np_height pd; expected = get_proposer_for_height h
        in if h > 0 \<and> h > prev \<and> np_proposer pd \<noteq> expected then
             let count = (case map_of (missed_blocks sn) expected of Some n \<Rightarrow> n | None \<Rightarrow> 0) + 1
             in (if count \<ge> max_missed_blocks_before_alarm (sn_config sn)
                 then add_anomaly (''Validator '' @ show_word expected @ '' missed '' @ show_word count @ '' blocks'')
                        (MissedBlock expected h) r else r,
                 sn\<lparr>missed_blocks := AList.update expected count (missed_blocks sn)\<rparr>)
           else (r, sn))"

definition check_heights :: "net_proposal \<Rightarrow> block_height \<Rightarrow> sentinel_report \<Rightarrow> sentinel_report" where
  "check_heights pd prev r =
     (let h = np_height pd;
          r1 = (if h > 0 \<and> h \<noteq> prev + 1 \<and> prev > 0
                then add_warning (''Non-sequential height: expected '' @ show_word (prev + 1) @ '', got '' @ show_word h) r else r)
      in if h = 0 \<and> np_round pd > 0
         then add_anomaly (''Genesis block at non-zero round: '' @ show_word (np_round pd)) (GenesisViolation (np_round pd)) r1
         else r1)"

definition check_double_proposal ::
    "externals \<Rightarrow> 'p proposal_cache_ops \<Rightarrow> net_proposal \<Rightarrow> sentinel_report \<times> ('p, 'v, 't) sentinel_node \<Rightarrow>
     sentinel_report \<times> ('p, 'v, 't) sentinel_node" where
  "check_double_proposal X P pd s =
     (case s of (r, sn) \<Rightarrow>
        let key = (np_height pd, np_round pd); bh = block_hash X (np_block pd)
        in case lc_get P key (seen_proposals sn) of
             (Some hashes, c) \<Rightarrow>
               if bh \<in> set hashes then (r, sn\<lparr>seen_proposals := c\<rparr>)
               else (if length hashes = 1
                     then add_anomaly (''DOUBLE PROPOSAL: v='' @ show_word (np_proposer pd) @ '' at h='' @ show_word (np_height pd) @
                            '', r='' @ show_word (np_round pd)) (DoubleProposal (np_proposer pd) (hd hashes) bh) r
                     else r, sn\<lparr>seen_proposals := lc_set P key (hashes @ [bh]) c\<rparr>)
           | (None, c) \<Rightarrow> (r, sn\<lparr>seen_proposals := lc_put P key [bh] c\<rparr>))"

definition check_timestamps ::
    "timestamp \<Rightarrow> 't time_cache_ops \<Rightarrow> net_proposal \<Rightarrow> ('p, 'v, 't) sentinel_node \<Rightarrow> sentinel_report \<Rightarrow> sentinel_report" where
  "check_timestamps now T pd sn r =
     (let ts = hdr_timestamp (header (np_block pd));
          r1 = (case lc_peek T (saturating_sub (np_height pd) 1) (block_timestamps sn) of
                  Some prev_ts \<Rightarrow>
                    if ts < prev_ts then add_warning (''Timestamp drift: '' @ show_word ts @ '' < '' @ show_word prev_ts) r else r
                | None \<Rightarrow> r)
      in if ts > now + max_timestamp_drift_secs (sn_config sn)
         then add_warning (''Future timestamp: '' @ show_word ts @ '' (now: '' @ show_word now @ '')'') r1 else r1)"

definition check_report_quorum :: "net_proposal \<Rightarrow> sentinel_config \<Rightarrow> sentinel_report \<Rightarrow> sentinel_report" where
  "check_report_quorum pd cfg r =
     (let n = get_active_validator_count (np_height pd);
          r1 = r\<lparr>rp_validator_count := n, quorum_reached := n \<ge> quorum_threshold cfg\<rparr>
      in if \<not> quorum_reached r1 \<and> n > 0
         then add_warning (''Low quorum: '' @ show_word n @ ''/'' @ show_word (quorum_threshold cfg)) r1 else r1)"

definition file_report :: "sentinel_report \<Rightarrow> ('p, 'v, 't) sentinel_node \<Rightarrow> ('p, 'v, 't) sentinel_node" where
  "file_report r sn =
     (let sn1 = (if has_anomalies r
                 then sn\<lparr>total_anomalies := total_anomalies sn + of_nat (length (anomaly_types r)),
                         sn_slashing_evidence := sn_slashing_evidence sn @ to_slashing_evidence r\<rparr>
                 else sn);
          history = report_history sn1 @ [r]
      in sn1\<lparr>latest_report := Some r,
             report_history := (if length history > unat (max_height_history (sn_config sn1)) then tl history else history)\<rparr>)"

definition sentinel_handle_proposal ::
    "externals \<Rightarrow> 'p proposal_cache_ops \<Rightarrow> 't time_cache_ops \<Rightarrow> timestamp \<Rightarrow> net_proposal \<Rightarrow>
     ('p, 'v, 't) sentinel_node \<Rightarrow> ('p, 'v, 't) sentinel_node" where
  "sentinel_handle_proposal X P T now pd sn =
     (case track_height pd T sn of (prev, sn1) \<Rightarrow>
        let r0 = (report_new now (np_height pd))\<lparr>rp_round := np_round pd, rp_block_hash := Some (block_hash X (np_block pd))\<rparr>
        in case check_missed pd prev (r0, sn1) of (r1, sn2) \<Rightarrow>
             (case check_double_proposal X P pd (check_heights pd prev r1, sn2) of (r2, sn3) \<Rightarrow>
                file_report (check_report_quorum pd (sn_config sn3) (check_timestamps now T pd sn3 r2)) sn3))"

definition sentinel_handle_vote ::
    "'v vote_cache_ops \<Rightarrow> timestamp \<Rightarrow> net_vote \<Rightarrow> ('p, 'v, 't) sentinel_node \<Rightarrow> ('p, 'v, 't) sentinel_node" where
  "sentinel_handle_vote V now vd sn =
     (let key = (nv_height vd, nv_round vd, nv_voter vd); bh = nv_block_hash vd;
          sn1 = sn\<lparr>sn_total_votes := sn_total_votes sn + 1\<rparr>
      in case lc_get V key (seen_votes sn1) of
           (Some hashes, c) \<Rightarrow>
             if bh \<in> set hashes then sn1\<lparr>seen_votes := c\<rparr>
             else let sn2 = (if length hashes = 1
                    then sn1\<lparr>sn_slashing_evidence := sn_slashing_evidence sn1 @
                               [EvDoubleVote \<lparr>ev_validator_id = nv_voter vd, ev_height = nv_height vd, ev_round = nv_round vd,
                                  block_hash_1 = hd hashes, block_hash_2 = bh, reported_at = now\<rparr>],
                             total_anomalies := total_anomalies sn1 + 1\<rparr>
                    else sn1)
                  in sn2\<lparr>seen_votes := lc_set V key (hashes @ [bh]) c\<rparr>
         | (None, c) \<Rightarrow> sn1\<lparr>seen_votes := lc_put V key [bh] c\<rparr>)"

text \<open>\<open>process_message\<close> drops every message, and the counter it should advance stays.\<close>

definition process_message ::
    "sentinel_message \<Rightarrow> u64 \<Rightarrow> ('p, 'v, 't) sentinel_node \<Rightarrow> unit pacyte_result \<times> u64 \<times> ('p, 'v, 't) sentinel_node" where
  "process_message msg blocks_since_report sn =
     (case msg of
        MsgProposal \<Rightarrow> (Inr (), blocks_since_report, sn)
      | MsgVote \<Rightarrow> (Inr (), blocks_since_report, sn)
      | MsgOther \<Rightarrow> (Inr (), blocks_since_report, sn))"

datatype watch_event = PeerMessage sentinel_message | WatchShutdown

text \<open>One turn of \<open>watch_loop\<close> per event; a zero report interval panics in the remainder (\<open>None\<close>).\<close>

fun watch_events :: "watch_event list \<Rightarrow> u64 \<Rightarrow> ('p, 'v, 't) sentinel_node \<Rightarrow> ('p, 'v, 't) sentinel_node option" where
  "watch_events [] blocks sn = Some sn"
| "watch_events (WatchShutdown # _) blocks sn = Some (sn\<lparr>sn_state := SentinelIdle\<rparr>)"
| "watch_events (PeerMessage msg # evs) blocks sn =
     (case process_message msg blocks sn of (_, blocks1, sn1) \<Rightarrow>
        if report_interval (sn_config sn1) = 0 then None
        else watch_events evs blocks1
               (if blocks1 mod report_interval (sn_config sn1) = 0 then sn1\<lparr>sn_state := SentinelWatching\<rparr> else sn1))"

definition watch_loop :: "watch_event list \<Rightarrow> ('p, 'v, 't) sentinel_node \<Rightarrow> ('p, 'v, 't) sentinel_node option" where
  "watch_loop evs sn = watch_events evs 0 (sn\<lparr>sn_state := SentinelWatching\<rparr>)"

definition get_report_history :: "nat \<Rightarrow> ('p, 'v, 't) sentinel_node \<Rightarrow> sentinel_report list" where
  "get_report_history limit sn = take limit (rev (report_history sn))"

definition get_slashing_evidence :: "nat \<Rightarrow> ('p, 'v, 't) sentinel_node \<Rightarrow> slashing_evidence list" where
  "get_slashing_evidence limit sn = take limit (rev (sn_slashing_evidence sn))"

record sentinel_persistent_state =
  last_height :: block_height
  sp_total_anomalies :: u64
  sp_slashing_evidence :: "slashing_evidence list"

text \<open>Saving and loading, over the serialiser of \<open>serde_json\<close> and the result of the file operation.\<close>

definition sentinel_save_state ::
    "(sentinel_persistent_state \<Rightarrow> string + bytes) \<Rightarrow> (bytes \<Rightarrow> string + unit) \<Rightarrow> ('p, 'v, 't) sentinel_node \<Rightarrow> unit pacyte_result" where
  "sentinel_save_state ser write sn =
     (case ser \<lparr>last_height = sn_height sn, sp_total_anomalies = total_anomalies sn, sp_slashing_evidence = sn_slashing_evidence sn\<rparr> of
        Inl msg \<Rightarrow> Inl (SerializationError msg)
      | Inr data \<Rightarrow> (case write data of Inl msg \<Rightarrow> Inl (DiskIoFailure msg) | Inr _ \<Rightarrow> Inr ()))"

definition sentinel_load_state ::
    "(bytes \<Rightarrow> string + sentinel_persistent_state) \<Rightarrow> (string + bytes) option \<Rightarrow> ('p, 'v, 't) sentinel_node \<Rightarrow>
     unit pacyte_result \<times> ('p, 'v, 't) sentinel_node" where
  "sentinel_load_state de file sn =
     (case file of
        None \<Rightarrow> (Inr (), sn)
      | Some (Inl msg) \<Rightarrow> (Inl (DiskIoFailure msg), sn)
      | Some (Inr data) \<Rightarrow>
          (case de data of
             Inl msg \<Rightarrow> (Inl (SerializationError msg), sn)
           | Inr st \<Rightarrow> (Inr (), sn\<lparr>sn_height := last_height st, total_anomalies := sp_total_anomalies st,
                                  sn_slashing_evidence := sp_slashing_evidence st\<rparr>)))"

section \<open>The contract of the caches\<close>

locale bounded_cache =
  fixes L :: "('c, 'k, 'v) lru_ops" and cached :: "'c \<Rightarrow> 'k \<Rightarrow> 'v option"
  assumes new_empty: "cached (lc_new L n) = Map.empty"
    and get_cached: "fst (lc_get L k c) = cached c k" "cached (snd (lc_get L k c)) = cached c"
    and set_cached: "cached c k \<noteq> None \<Longrightarrow> cached (lc_set L k v c) = (cached c)(k \<mapsto> v)"
    and put_cached: "cached (lc_put L k v c) k = Some v"
    and put_keeps: "k' \<noteq> k \<Longrightarrow> cached (lc_put L k v c) k' = Some v' \<Longrightarrow> cached c k' = Some v'"
    and peek_cached: "lc_peek L k c = cached c k"
begin

lemma get_cases:
  obtains c' where "lc_get L k c = (cached c k, c')" "cached c' = cached c"
  using get_cached [of k c] by (metis prod.collapse)

end

text \<open>What the votes seen so far account for: the cached hashes and the evidence.\<close>

definition voted :: "net_vote list \<Rightarrow> block_height \<Rightarrow> u64 \<Rightarrow> u64 \<Rightarrow> hash \<Rightarrow> bool" where
  "voted vs h r v bh \<longleftrightarrow>
     (\<exists>vd\<in>set vs. nv_height vd = h \<and> nv_round vd = r \<and> nv_voter vd = v \<and> nv_block_hash vd = bh)"

definition vote_evidence_ok :: "net_vote list \<Rightarrow> slashing_evidence \<Rightarrow> bool" where
  "vote_evidence_ok vs ev =
     (case ev of
        EvDoubleVote d \<Rightarrow> block_hash_1 d \<noteq> block_hash_2 d \<and>
          voted vs (ev_height d) (ev_round d) (ev_validator_id d) (block_hash_1 d) \<and>
          voted vs (ev_height d) (ev_round d) (ev_validator_id d) (block_hash_2 d)
      | EvDoubleProposal _ \<Rightarrow> False)"

definition votes_accounted ::
    "('v \<Rightarrow> block_height \<times> u64 \<times> u64 \<Rightarrow> hash list option) \<Rightarrow> net_vote list \<Rightarrow> ('p, 'v, 't) sentinel_node \<Rightarrow> bool" where
  "votes_accounted cached vs sn \<longleftrightarrow>
     (\<forall>h r v hs. cached (seen_votes sn) (h, r, v) = Some hs \<longrightarrow> hs \<noteq> [] \<and> (\<forall>bh\<in>set hs. voted vs h r v bh)) \<and>
     (\<forall>ev\<in>set (sn_slashing_evidence sn). vote_evidence_ok vs ev)"

lemma voted_more: "voted vs h r v bh \<Longrightarrow> voted (vs @ ws) h r v bh"
  by (auto simp: voted_def)

lemma evidence_more: "vote_evidence_ok vs ev \<Longrightarrow> vote_evidence_ok (vs @ ws) ev"
  by (auto simp: vote_evidence_ok_def voted_more split: slashing_evidence.splits)

lemma votes_accounted_more:
  assumes "votes_accounted cached vs sn" "\<And>h r v hs. cached c (h, r, v) = Some hs \<Longrightarrow> (h, r, v) = key \<and> hs \<noteq> [] \<and> (\<forall>bh\<in>set hs. voted (vs @ ws) h r v bh) \<or> cached (seen_votes sn) (h, r, v) = Some hs"
    and "\<And>ev. ev \<in> set evs \<Longrightarrow> vote_evidence_ok (vs @ ws) ev"
  shows "votes_accounted cached (vs @ ws) (sn'\<lparr>seen_votes := c, sn_slashing_evidence := sn_slashing_evidence sn @ evs\<rparr>)"
  unfolding votes_accounted_def
proof (intro conjI allI impI ballI)
  fix h r v hs assume c: "cached (seen_votes (sn'\<lparr>seen_votes := c, sn_slashing_evidence := sn_slashing_evidence sn @ evs\<rparr>)) (h, r, v) = Some hs"
  have "hs \<noteq> [] \<and> (\<forall>bh\<in>set hs. voted vs h r v bh)" if "cached (seen_votes sn) (h, r, v) = Some hs"
    using assms(1) that unfolding votes_accounted_def by blast
  then have "hs \<noteq> [] \<and> (\<forall>bh\<in>set hs. voted (vs @ ws) h r v bh)"
    using assms(2) [of h r v hs] c voted_more [of vs h r v _ ws] by auto
  then show "hs \<noteq> []" and "\<And>bh. bh \<in> set hs \<Longrightarrow> voted (vs @ ws) h r v bh" by auto
next
  fix ev assume "ev \<in> set (sn_slashing_evidence (sn'\<lparr>seen_votes := c, sn_slashing_evidence := sn_slashing_evidence sn @ evs\<rparr>))"
  then show "vote_evidence_ok (vs @ ws) ev"
    using assms(1,3) evidence_more [of vs ev ws] by (auto simp: votes_accounted_def)
qed

lemma handle_vote_accounted:
  fixes sn :: "('p, 'v, 't) sentinel_node"
  assumes cache: "bounded_cache V cached" and acc: "votes_accounted cached vs sn"
  shows "votes_accounted cached (vs @ [vd]) (sentinel_handle_vote V now vd sn)"
proof -
  let ?key = "(nv_height vd, nv_round vd, nv_voter vd)" and ?bh = "nv_block_hash vd" and ?sn1 = "sn\<lparr>sn_total_votes := sn_total_votes sn + 1\<rparr>"
  obtain c where get: "lc_get V ?key (seen_votes sn) = (cached (seen_votes sn) ?key, c)" "cached c = cached (seen_votes sn)"
    by (rule bounded_cache.get_cases [OF cache])
  have new: "voted (vs @ [vd]) (nv_height vd) (nv_round vd) (nv_voter vd) ?bh" by (auto simp: voted_def)
  note more = votes_accounted_more [OF acc, where ws = "[vd]" and key = ?key and sn' = ?sn1]
  show ?thesis
  proof (cases "cached (seen_votes sn) ?key")
    case None
    have "votes_accounted cached (vs @ [vd]) (?sn1\<lparr>seen_votes := lc_put V ?key [?bh] c, sn_slashing_evidence := sn_slashing_evidence sn @ []\<rparr>)"
    proof (rule more)
      fix h r v hs assume "cached (lc_put V ?key [?bh] c) (h, r, v) = Some hs"
      with new get(2) bounded_cache.put_cached [OF cache, of ?key "[?bh]" c] bounded_cache.put_keeps [OF cache, of "(h, r, v)" ?key "[?bh]" c hs]
      show "(h, r, v) = ?key \<and> hs \<noteq> [] \<and> (\<forall>bh\<in>set hs. voted (vs @ [vd]) h r v bh) \<or> cached (seen_votes sn) (h, r, v) = Some hs"
        by (cases "(h, r, v) = ?key") auto
    qed simp
    with None get show ?thesis by (simp add: sentinel_handle_vote_def Let_def)
  next
    case (Some hs)
    have hs: "hs \<noteq> []" "\<forall>bh\<in>set hs. voted (vs @ [vd]) (nv_height vd) (nv_round vd) (nv_voter vd) bh"
      using acc Some voted_more by (auto simp: votes_accounted_def)
    show ?thesis
    proof (cases "?bh \<in> set hs")
      case True
      have "votes_accounted cached (vs @ [vd]) (?sn1\<lparr>seen_votes := c, sn_slashing_evidence := sn_slashing_evidence sn @ []\<rparr>)"
        by (rule more) (use get(2) in auto)
      with True Some get show ?thesis by (simp add: sentinel_handle_vote_def Let_def)
    next
      case False
      let ?c = "lc_set V ?key (hs @ [?bh]) c"
      have set: "cached ?c = (cached (seen_votes sn))(?key \<mapsto> hs @ [?bh])"
        using bounded_cache.set_cached [OF cache, of c ?key "hs @ [?bh]"] Some get(2) by simp
      define ev where "ev = EvDoubleVote \<lparr>ev_validator_id = nv_voter vd, ev_height = nv_height vd, ev_round = nv_round vd,
          block_hash_1 = hd hs, block_hash_2 = ?bh, reported_at = now\<rparr>"
      have ev: "vote_evidence_ok (vs @ [vd]) ev" using hs new False by (cases hs) (auto simp: ev_def vote_evidence_ok_def)
      have acc': "votes_accounted cached (vs @ [vd]) (sn'\<lparr>seen_votes := ?c, sn_slashing_evidence := sn_slashing_evidence sn @ evs\<rparr>)"
        if "set evs \<subseteq> {ev}" for evs and sn' :: "('p, 'v, 't) sentinel_node"
      proof (rule votes_accounted_more [OF acc, where key = ?key])
        show "(h, r, v) = ?key \<and> hs' \<noteq> [] \<and> (\<forall>bh\<in>set hs'. voted (vs @ [vd]) h r v bh) \<or> cached (seen_votes sn) (h, r, v) = Some hs'"
          if "cached ?c (h, r, v) = Some hs'" for h r v hs' using that hs new by (auto simp: set split: if_splits)
      qed (use that ev in auto)
      show ?thesis
        using acc' [of "[]" ?sn1] acc' [of "[ev]" "?sn1\<lparr>total_anomalies := total_anomalies sn + 1\<rparr>"] False Some get
        by (simp add: sentinel_handle_vote_def Let_def ev_def votes_accounted_def)
    qed
  qed
qed

section \<open>A concrete cache\<close>

text \<open>The list of the entries, most recently used first, of at most one more than the stored number.\<close>

definition recent_ops :: "(nat \<times> ('k \<times> 'v) list, 'k, 'v) lru_ops" where
  "recent_ops =
     \<lparr>lc_new = \<lambda>n. (n - 1, []),
      lc_get = \<lambda>k (n, al). (map_of al k, n, case map_of al k of Some v \<Rightarrow> (k, v) # AList.delete k al | None \<Rightarrow> al),
      lc_set = \<lambda>k v (n, al). (n, AList.update k v al),
      lc_put = \<lambda>k v (n, al). (n, take (Suc n) ((k, v) # AList.delete k al)),
      lc_peek = \<lambda>k (n, al). map_of al k\<rparr>"

lemma map_of_take: "map_of (take n al) k = Some v \<Longrightarrow> map_of al k = Some v"
  by (induction al arbitrary: n) (auto simp: take_Cons split: nat.splits)

interpretation recent: bounded_cache recent_ops "\<lambda>c. map_of (snd c)"
proof
  fix k k' :: 'a and v v' :: 'b and c :: "nat \<times> ('a \<times> 'b) list"
  assume ne: "k' \<noteq> k" and p: "map_of (snd (lc_put recent_ops k v c)) k' = Some v'"
  obtain n al where c: "c = (n, al)" by fastforce
  have "map_of (take n (AList.delete k al)) k' = Some v'" using ne p by (simp add: c recent_ops_def)
  then show "map_of (snd c) k' = Some v'" using map_of_take ne by (fastforce simp: c)
qed (auto simp: recent_ops_def fun_eq_iff split: option.splits prod.splits)

section \<open>Properties\<close>

text \<open>
  C32. The sentinel accuses nobody falsely of a double vote: for every sequence of votes handled by a fresh
  node, each recorded evidence names a validator, a height and a round for which votes for the two recorded,
  different hashes were received, whatever the cache evicts. Conversely a second, different
  vote of a validator in a round that directly follows the first is recorded.
\<close>

theorem double_vote_evidence:
  assumes "bounded_cache V cached" "sentinel_new P V T cfg = Some sn"
  shows "(\<forall>ev\<in>set (sn_slashing_evidence (fold (sentinel_handle_vote V now) vs sn)). vote_evidence_ok vs ev) \<and>
     (\<forall>v1 v2 sn'. cached (seen_votes sn') (nv_height v1, nv_round v1, nv_voter v1) = None \<and>
        nv_height v2 = nv_height v1 \<and> nv_round v2 = nv_round v1 \<and> nv_voter v2 = nv_voter v1 \<and>
        nv_block_hash v2 \<noteq> nv_block_hash v1 \<longrightarrow>
        (\<exists>d. sn_slashing_evidence (sentinel_handle_vote V now v2 (sentinel_handle_vote V now v1 (sn' :: ('p, 'v, 't) sentinel_node))) =
           sn_slashing_evidence sn' @ [EvDoubleVote d] \<and>
           ev_validator_id d = nv_voter v1 \<and> block_hash_1 d = nv_block_hash v1 \<and> block_hash_2 d = nv_block_hash v2))"
proof (intro conjI allI impI)
  have new: "votes_accounted cached [] sn"
    using assms(2) bounded_cache.new_empty [OF assms(1)]
    by (auto simp: sentinel_new_def votes_accounted_def split: if_splits)
  have "votes_accounted cached vs (fold (sentinel_handle_vote V now) vs sn)"
  proof (induction vs rule: rev_induct)
    case (snoc v vs)
    then show ?case using handle_vote_accounted [OF assms(1)] by simp
  qed (simp add: new)
  then show "\<forall>ev\<in>set (sn_slashing_evidence (fold (sentinel_handle_vote V now) vs sn)). vote_evidence_ok vs ev"
    by (simp add: votes_accounted_def)
next
  fix v1 v2 :: net_vote and sn' :: "('p, 'v, 't) sentinel_node"
  let ?k = "(nv_height v1, nv_round v1, nv_voter v1)"
  assume a: "cached (seen_votes sn') ?k = None \<and> nv_height v2 = nv_height v1 \<and> nv_round v2 = nv_round v1 \<and>
    nv_voter v2 = nv_voter v1 \<and> nv_block_hash v2 \<noteq> nv_block_hash v1"
  obtain c1 where 1: "lc_get V ?k (seen_votes sn') = (None, c1)"
    using a by (metis bounded_cache.get_cases [OF assms(1)])
  let ?c2 = "lc_put V ?k [nv_block_hash v1] c1"
  obtain c2 where 2: "lc_get V ?k ?c2 = (Some [nv_block_hash v1], c2)"
    by (metis bounded_cache.get_cases [OF assms(1)] bounded_cache.put_cached [OF assms(1)])
  show "\<exists>d. sn_slashing_evidence (sentinel_handle_vote V now v2 (sentinel_handle_vote V now v1 sn')) =
           sn_slashing_evidence sn' @ [EvDoubleVote d] \<and>
           ev_validator_id d = nv_voter v1 \<and> block_hash_1 d = nv_block_hash v1 \<and> block_hash_2 d = nv_block_hash v2"
    using a by (simp add: sentinel_handle_vote_def Let_def 1 2)
qed

definition sample_net_vote :: "hash \<Rightarrow> net_vote" where
  "sample_net_vote h =
     \<lparr>nv_height = 5, nv_round = 0, nv_block_hash = h, nv_voter = 3, nv_vote_type = Prevote, nv_signature = []\<rparr>"

text \<open>The cache of the witness, at the types the node uses.\<close>

type_synonym 'k sample_cache = "nat \<times> ('k \<times> hash list) list"

definition sample_sentinel :: "((block_height \<times> u64) sample_cache, (block_height \<times> u64 \<times> u64) sample_cache,
    nat \<times> (block_height \<times> timestamp) list) sentinel_node" where
  "sample_sentinel = the (sentinel_new recent_ops recent_ops recent_ops sentinel_config_default)"

lemma sample_sentinel_new: "sentinel_new recent_ops recent_ops recent_ops sentinel_config_default = Some sample_sentinel"
  by (simp add: sample_sentinel_def sentinel_new_def sentinel_config_default_def)

theorem double_vote_evidence_witness:
  "\<exists>d. sn_slashing_evidence (fold (sentinel_handle_vote recent_ops 9) [sample_net_vote zero32, sample_net_vote (replicate 32 1)] sample_sentinel) =
     [EvDoubleVote d] \<and> vote_evidence_ok [sample_net_vote zero32, sample_net_vote (replicate 32 1)] (EvDoubleVote d)"
proof -
  let ?v1 = "sample_net_vote zero32" and ?v2 = "sample_net_vote (replicate 32 1)"
  note th = double_vote_evidence [OF recent.bounded_cache_axioms sample_sentinel_new, of 9 "[?v1, ?v2]"]
  have ne: "zero32 \<noteq> replicate 32 1" by (simp add: numeral_eq_Suc)
  have s: "sn_slashing_evidence sample_sentinel = []" "map_of (snd (seen_votes sample_sentinel)) = Map.empty"
    by (simp_all add: sample_sentinel_def sentinel_new_def sentinel_config_default_def recent_ops_def)
  obtain d where "sn_slashing_evidence (sentinel_handle_vote recent_ops 9 ?v2 (sentinel_handle_vote recent_ops 9 ?v1 sample_sentinel)) = [] @ [EvDoubleVote d]"
    using conjunct2 [OF th, rule_format, of sample_sentinel ?v1 ?v2] ne s by (auto simp: sample_net_vote_def)
  with conjunct1 [OF th] show ?thesis by auto
qed

text \<open>
  The watcher watches nothing: the messages the loop receives are dropped, so whatever arrives, a running
  sentinel keeps its height, its counters, its reports and its evidence, and only its state
  flag changes.
\<close>

theorem watch_loop_records_nothing:
  assumes "sentinel_config_validate (sn_config sn) = Inr ()"
  shows "\<exists>st. watch_loop evs sn = Some (sn\<lparr>sn_state := st\<rparr>)"
proof -
  have "report_interval (sn_config sn) \<noteq> 0" using assms by (auto simp: sentinel_config_validate_def split: if_splits)
  then have "\<exists>st'. watch_events evs b (sn\<lparr>sn_state := st\<rparr>) = Some (sn\<lparr>sn_state := st'\<rparr>)" for b st
  proof (induction evs arbitrary: b st)
    case (Cons ev evs)
    show ?case
    proof (cases ev)
      case (PeerMessage msg)
      with Cons show ?thesis
        by (cases msg) (auto simp: process_message_def split: if_splits)
    qed auto
  qed auto
  then show ?thesis by (simp add: watch_loop_def)
qed

theorem watch_loop_records_nothing_witness:
  "\<exists>sn. watch_loop [PeerMessage MsgProposal, PeerMessage MsgVote] sample_sentinel = Some sn \<and> total_blocks sn = 0 \<and>
     latest_report sn = None"
  using watch_loop_records_nothing [of sample_sentinel "[PeerMessage MsgProposal, PeerMessage MsgVote]"]
  by (auto simp: sample_sentinel_def sentinel_new_def sentinel_config_default_def sentinel_config_validate_def)

end
