(* ===== verification/Execution_Word.thy ===== *)
theory Execution_Word
  imports Pacyte_Error
begin

text \<open>
  The 256-bit words of the virtual machine (\<open>src/execution/vm.rs\<close>, from \<open>word_zero\<close> on): a word is
  32 bytes, most significant first, and the arithmetic works on four 64-bit limbs, most
  significant first. Shown here: the conversions are inverse to each other, addition and subtraction
  are those of the integers modulo \<open>2 ^ 256\<close>, the comparisons are those of the represented numbers,
  and multiplication and division, which take the two low limbs in the wrong order, are not.
\<close>

type_synonym vm_word = bytes

definition word_zero :: vm_word where
  "word_zero = replicate 32 0"

definition word_one :: vm_word where
  "word_one = (replicate 32 0)[31 := 1]"

definition u64_from_be :: "bytes \<Rightarrow> u64" where
  "u64_from_be bs = of_nat (be_nat bs)"

definition word_to_u256 :: "vm_word \<Rightarrow> u64 list" where
  "word_to_u256 w =
     [u64_from_be (take 8 w), u64_from_be (take 8 (drop 8 w)),
      u64_from_be (take 8 (drop 16 w)), u64_from_be (take 8 (drop 24 w))]"

definition u256_to_word :: "u64 list \<Rightarrow> vm_word" where
  "u256_to_word v = be_bytes (v ! 0) @ be_bytes (v ! 1) @ be_bytes (v ! 2) @ be_bytes (v ! 3)"

definition word_to_usize :: "vm_word \<Rightarrow> usize" where
  "word_to_usize w = u64_from_be (take 8 (drop 24 w))"

definition is_zero :: "vm_word \<Rightarrow> bool" where
  "is_zero w \<longleftrightarrow> (\<forall>b \<in> set w. b = 0)"

text \<open>One turn of the loop of \<open>add\<close> and of \<open>sub\<close>, for limb \<open>i\<close>; the loops run over \<open>(0..4).rev()\<close>.\<close>

definition add_limb :: "u64 list \<Rightarrow> u64 list \<Rightarrow> nat \<Rightarrow> u64 list \<times> u64 \<Rightarrow> u64 list \<times> u64" where
  "add_limb a_val b_val i st =
     (case st of (result, carry) \<Rightarrow>
        let sm = (ucast (a_val ! i) + ucast (b_val ! i) + ucast carry :: u128)
        in (result[i := ucast sm], ucast (drop_bit 64 sm)))"

definition vm_add :: "vm_word \<Rightarrow> vm_word \<Rightarrow> vm_word" where
  "vm_add a b =
     u256_to_word (fst (fold (add_limb (word_to_u256 a) (word_to_u256 b)) [3, 2, 1, 0] (replicate 4 0, 0)))"

text \<open>The limbs and the borrow are widened to \<open>i128\<close>, where nothing here overflows.\<close>

definition sub_limb :: "u64 list \<Rightarrow> u64 list \<Rightarrow> nat \<Rightarrow> u64 list \<times> u64 \<Rightarrow> u64 list \<times> u64" where
  "sub_limb a_val b_val i st =
     (case st of (result, borrow) \<Rightarrow>
        let a_with_borrow = uint (a_val ! i) - uint borrow; b_val_i = uint (b_val ! i)
        in if a_with_borrow \<ge> b_val_i then (result[i := word_of_int (a_with_borrow - b_val_i)], 0)
           else (result[i := word_of_int (2 ^ 64 + a_with_borrow - b_val_i)], 1))"

definition vm_sub :: "vm_word \<Rightarrow> vm_word \<Rightarrow> vm_word" where
  "vm_sub a b =
     u256_to_word (fst (fold (sub_limb (word_to_u256 a) (word_to_u256 b)) [3, 2, 1, 0] (replicate 4 0, 0)))"

definition low_half :: "u64 list \<Rightarrow> u128" where
  "low_half v = ucast (v ! 2) OR push_bit 64 (ucast (v ! 3))"

definition vm_mul :: "vm_word \<Rightarrow> vm_word \<Rightarrow> vm_word" where
  "vm_mul a b =
     (let product = low_half (word_to_u256 a) * low_half (word_to_u256 b)
      in u256_to_word [0, 0, ucast product, ucast (drop_bit 64 product)])"

definition vm_div :: "vm_word \<Rightarrow> vm_word \<Rightarrow> vm_word" where
  "vm_div a b =
     (if is_zero b then word_zero
      else let a_u256 = low_half (word_to_u256 a); b_u256 = low_half (word_to_u256 b)
           in if b_u256 = 0 then word_zero
              else let quotient = a_u256 div b_u256
                   in u256_to_word [0, 0, ucast quotient, ucast (drop_bit 64 quotient)])"

fun vm_lt :: "vm_word \<Rightarrow> vm_word \<Rightarrow> bool" where
  "vm_lt (a # as) (b # bs) = (if a < b then True else if a > b then False else vm_lt as bs)"
| "vm_lt _ _ = False"

fun vm_gt :: "vm_word \<Rightarrow> vm_word \<Rightarrow> bool" where
  "vm_gt (a # as) (b # bs) = (if a > b then True else if a < b then False else vm_gt as bs)"
| "vm_gt _ _ = False"

section \<open>The number a word stands for\<close>

definition limbs_val :: "u64 list \<Rightarrow> nat" where
  "limbs_val v = unat (v ! 0) * 2 ^ 192 + unat (v ! 1) * 2 ^ 128 + unat (v ! 2) * 2 ^ 64 + unat (v ! 3)"

lemma be_nat_be_bytes64 [simp]: "be_nat (be_bytes (w :: u64)) = unat w"
  by (simp add: be_nat_def be_bytes_def le_nat_le_bytes)

lemma length_u256_to_word [simp]: "length (u256_to_word v) = 32"
  by (simp add: u256_to_word_def)

lemma be_nat_u256_to_word [simp]: "be_nat (u256_to_word v) = limbs_val v"
  by (simp add: u256_to_word_def be_nat_append limbs_val_def)

lemma be_nat_split8:
  assumes "length w = 32"
  shows "be_nat w = be_nat (take 8 w) * 2 ^ 192 + be_nat (take 8 (drop 8 w)) * 2 ^ 128 +
    be_nat (take 8 (drop 16 w)) * 2 ^ 64 + be_nat (take 8 (drop 24 w))"
proof -
  have step: "be_nat xs = be_nat (take 8 xs) * 256 ^ (length xs - 8) + be_nat (drop 8 xs)" for xs
    using be_nat_append [of "take 8 xs" "drop 8 xs"] by simp
  show ?thesis
    using step [of w] step [of "drop 8 w"] step [of "drop 16 w"] assms by simp
qed

lemma unat_u64_from_be: "length bs \<le> 8 \<Longrightarrow> unat (u64_from_be bs) = be_nat bs"
proof -
  assume "length bs \<le> 8"
  then have "(256::nat) ^ length bs \<le> 256 ^ 8" by (intro power_increasing) auto
  with be_nat_less [of bs] have "be_nat bs < 2 ^ 64" by simp
  then show ?thesis by (simp add: u64_from_be_def unat_of_nat)
qed

lemma limbs_val_word_to_u256 [simp]: "length w = 32 \<Longrightarrow> limbs_val (word_to_u256 w) = be_nat w"
  by (simp add: be_nat_split8 limbs_val_def word_to_u256_def unat_u64_from_be)

lemma u256_to_word_to_u256: "length w = 32 \<Longrightarrow> u256_to_word (word_to_u256 w) = w"
  by (rule be_nat_inject) simp_all

lemma word_to_u256_to_word:
  assumes "length v = 4"
  shows "word_to_u256 (u256_to_word v) = v"
proof -
  obtain a b c d where v: "v = [a, b, c, d]"
    using assms by (auto simp: numeral_eq_Suc length_Suc_conv)
  have "u64_from_be (be_bytes (x :: u64)) = x" for x
    by (simp add: u64_from_be_def)
  then show ?thesis
    by (simp add: v word_to_u256_def u256_to_word_def)
qed

lemma be_nat_word_less: "length w = 32 \<Longrightarrow> be_nat w < 2 ^ 256"
  using be_nat_less [of w] by simp

section \<open>Addition and subtraction\<close>

lemma unat_limb_sum:
  fixes x y c :: u64
  assumes "unat c \<le> 1"
  defines "s \<equiv> (ucast x + ucast y + ucast c :: u128)"
  shows "unat (ucast s :: u64) + 2 ^ 64 * unat (ucast (drop_bit 64 s) :: u64) = unat x + unat y + unat c"
    and "unat (ucast (drop_bit 64 s) :: u64) \<le> 1"
proof -
  have lim: "unat x < 2 ^ 64" "unat y < 2 ^ 64" using unat_bound [of x] unat_bound [of y] by simp_all
  then have s: "unat s = unat x + unat y + unat c"
    using assms by (simp add: s_def unat_word_ariths unat_ucast)
  have hi: "unat (drop_bit 64 s) = unat s div 2 ^ 64" unfolding unat_drop_bit_eq by (simp add: drop_bit_eq_div)
  then have le: "unat (drop_bit 64 s) \<le> 1" using lim assms(1) by (simp add: s)
  then have hi': "unat (ucast (drop_bit 64 s) :: u64) = unat s div 2 ^ 64"
    unfolding unat_ucast hi [symmetric] by (intro mod_less) (rule le_less_trans, assumption, simp)
  have lo: "unat (ucast s :: u64) = unat s mod 2 ^ 64" by (simp add: unat_ucast)
  show "unat (ucast s :: u64) + 2 ^ 64 * unat (ucast (drop_bit 64 s) :: u64) = unat x + unat y + unat c"
    unfolding lo hi' s [symmetric] by presburger
  show "unat (ucast (drop_bit 64 s) :: u64) \<le> 1" using hi' le hi by simp
qed

lemma add_limbs:
  fixes a b :: "u64 list"
  assumes "length a = 4" "length b = 4"
  defines "r \<equiv> fst (fold (add_limb a b) [3, 2, 1, 0] (replicate 4 0, 0))"
  shows "limbs_val r = (limbs_val a + limbs_val b) mod 2 ^ 256"
proof -
  obtain a0 a1 a2 a3 b0 b1 b2 b3 where v: "a = [a0, a1, a2, a3]" "b = [b0, b1, b2, b3]"
    using assms by (auto simp: numeral_eq_Suc length_Suc_conv)
  define s where "s x y c = (ucast (x::u64) + ucast (y::u64) + ucast (c::u64) :: u128)" for x y c
  define c where "c x y cc = (ucast (drop_bit 64 (s x y cc)) :: u64)" for x y cc
  define d where "d x y cc = (ucast (s x y cc) :: u64)" for x y cc
  note limb = unat_limb_sum [folded s_def, folded c_def d_def]
  let ?c3 = "c a3 b3 0" let ?c2 = "c a2 b2 ?c3" let ?c1 = "c a1 b1 ?c2" let ?c0 = "c a0 b0 ?c1"
  have r: "r = [d a0 b0 ?c1, d a1 b1 ?c2, d a2 b2 ?c3, d a3 b3 0]"
    unfolding r_def by (simp add: v add_limb_def s_def [symmetric] Let_def numeral_eq_Suc)
      (simp add: numeral_eq_Suc c_def d_def)
  have le: "unat ?c3 \<le> 1" "unat ?c2 \<le> 1" "unat ?c1 \<le> 1" "unat ?c0 \<le> 1"
    using limb(2) by simp_all
  have "limbs_val r + 2 ^ 256 * unat ?c0 = limbs_val a + limbs_val b"
    using limb(1) [of 0 a3 b3] limb(1) [OF le(1), of a2 b2] limb(1) [OF le(2), of a1 b1] limb(1) [OF le(3), of a0 b0]
    by (simp add: r v limbs_val_def algebra_simps)
  moreover have "limbs_val r < 2 ^ 256"
    by (metis be_nat_u256_to_word be_nat_word_less length_u256_to_word)
  ultimately show ?thesis by (metis mod_less mod_mult_self2)
qed

lemma sub_limb_step:
  fixes x y c :: u64
  assumes "uint c \<in> {0, 1}"
  defines "w \<equiv> uint x - uint c"
  shows "uint (if w \<ge> uint y then word_of_int (w - uint y) else word_of_int (2 ^ 64 + w - uint y) :: u64) =
         uint x - uint c - uint y + 2 ^ 64 * uint (if w \<ge> uint y then 0 else 1 :: u64)"
proof -
  have "0 \<le> uint x" "uint x < 2 ^ 64" "0 \<le> uint y" "uint y < 2 ^ 64"
    using uint_lt2p [of x] uint_lt2p [of y] by simp_all
  then have lim: "- 1 \<le> w" "w < 2 ^ 64" "0 \<le> uint y" "uint y < 2 ^ 64"
    using assms(1) unfolding w_def by (auto simp only: insert_iff empty_iff)
  have exact: "uint (word_of_int k :: u64) = k" if "0 \<le> k" "k < 2 ^ 64" for k
    using that by (simp add: uint_word_of_int)
  show ?thesis
  proof (cases "w \<ge> uint y")
    case True
    have "0 \<le> w - uint y" "w - uint y < 2 ^ 64" using True lim by linarith+
    then show ?thesis unfolding if_P [OF True] by (subst exact) (simp_all add: w_def)
  next
    case False
    have "0 \<le> 2 ^ 64 + w - uint y" "2 ^ 64 + w - uint y < 2 ^ 64" using False lim by linarith+
    then show ?thesis unfolding if_not_P [OF False] by (subst exact) (simp_all add: w_def)
  qed
qed

lemma sub_limbs:
  fixes a b :: "u64 list"
  assumes "length a = 4" "length b = 4"
  defines "r \<equiv> fst (fold (sub_limb a b) [3, 2, 1, 0] (replicate 4 0, 0))"
  shows "int (limbs_val r) = (int (limbs_val a) - int (limbs_val b)) mod 2 ^ 256"
proof -
  obtain a0 a1 a2 a3 b0 b1 b2 b3 where v: "a = [a0, a1, a2, a3]" "b = [b0, b1, b2, b3]"
    using assms by (auto simp: numeral_eq_Suc length_Suc_conv)
  define d where "d x y c = (if uint x - uint c \<ge> uint y then word_of_int (uint x - uint c - uint y)
      else word_of_int (2 ^ 64 + (uint x - uint c) - uint y) :: u64)" for x y c :: u64
  define c where "c x y cc = (if uint x - uint cc \<ge> uint y then 0 else 1 :: u64)" for x y cc :: u64
  have st: "sub_limb a b i (res, cc) = (res[i := d (a ! i) (b ! i) cc], c (a ! i) (b ! i) cc)" for i res cc
    by (auto simp: sub_limb_def d_def c_def Let_def)
  note limb = sub_limb_step [folded d_def c_def]
  let ?c3 = "c a3 b3 0" let ?c2 = "c a2 b2 ?c3" let ?c1 = "c a1 b1 ?c2" let ?c0 = "c a0 b0 ?c1"
  have r: "r = [d a0 b0 ?c1, d a1 b1 ?c2, d a2 b2 ?c3, d a3 b3 0]"
    unfolding r_def by (simp add: st) (simp add: v numeral_eq_Suc)
  have bit: "uint (c x y cc) \<in> {0, 1}" for x y cc by (simp add: c_def)
  have val: "int (limbs_val [x0, x1, x2, x3]) = uint x0 * 2 ^ 192 + uint x1 * 2 ^ 128 + uint x2 * 2 ^ 64 + uint x3" for x0 x1 x2 x3
    by (simp add: limbs_val_def)
  have "int (limbs_val r) = int (limbs_val a) - int (limbs_val b) + uint ?c0 * 2 ^ 256"
    using limb [of 0 a3 b3] limb [where x = a2 and y = b2 and c = ?c3, OF bit]
      limb [where x = a1 and y = b1 and c = ?c2, OF bit] limb [where x = a0 and y = b0 and c = ?c1, OF bit]
    unfolding r v val by (simp add: algebra_simps)
  moreover have "int (limbs_val r) < 2 ^ 256" "0 \<le> int (limbs_val r)"
    using be_nat_word_less [OF length_u256_to_word, of r] by simp_all
  ultimately show ?thesis by (metis mod_mult_self1 mod_pos_pos_trivial)
qed

section \<open>Comparison\<close>

lemma be_nat_Cons_less:
  assumes "length as = length bs" "a < (b :: u8)"
  shows "be_nat (a # as) < be_nat (b # bs)"
proof -
  have "Suc (unat a) \<le> unat b" using assms(2) by (simp add: word_less_nat_alt)
  then have "Suc (unat a) * 256 ^ length bs \<le> unat b * 256 ^ length bs" by (rule mult_right_mono) simp
  with be_nat_less [of as] assms(1) show ?thesis by (simp add: be_nat_Cons)
qed

lemma vm_lt_iff: "length a = length b \<Longrightarrow> vm_lt a b \<longleftrightarrow> be_nat a < be_nat b"
proof (induction a b rule: vm_lt.induct)
  case (1 a as b bs)
  consider "a < b" | "a > b" | "a = b" using less_linear by blast
  then show ?case
    using 1 be_nat_Cons_less [of as bs a b] be_nat_Cons_less [of bs as b a]
    by cases (auto simp: be_nat_Cons)
qed auto

lemma vm_gt_is_lt: "vm_gt a b = vm_lt b a"
  by (induction a b rule: vm_gt.induct) auto

section \<open>Properties of the words\<close>

lemma be_nat_replicate: "be_nat (replicate n 0) = 0" "be_nat (replicate n 255) = 256 ^ n - 1"
  by (induction n) (simp_all add: be_nat_Cons, simp_all add: be_nat_def)

lemma word_constants [simp]:
  "length word_zero = 32" "be_nat word_zero = 0" "length word_one = 32" "be_nat word_one = 1"
  "be_nat (replicate 32 255) = 2 ^ 256 - 1"
proof -
  have one: "word_one = replicate 31 0 @ [1]" by (simp add: word_one_def numeral_eq_Suc)
  show "be_nat word_one = 1" unfolding one by (simp add: be_nat_append be_nat_replicate) (simp add: be_nat_def)
  show "length word_zero = 32" "be_nat word_zero = 0" "length word_one = 32" "be_nat (replicate 32 255) = 2 ^ 256 - 1"
    by (simp_all add: word_zero_def word_one_def be_nat_replicate)
qed

text \<open>
  C25. The word arithmetic of the virtual machine: on 32-byte words, addition and subtraction
  return 32-byte words and are those of the integers modulo \<open>2 ^ 256\<close>, the comparisons compare
  the represented numbers, and the conversions to and from 64-bit limbs are inverse to each other.
\<close>

theorem vm_arithmetic_spec:
  assumes "length a = 32" "length b = 32" "length v = 4"
  shows "length (vm_add a b) = 32 \<and> be_nat (vm_add a b) = (be_nat a + be_nat b) mod 2 ^ 256 \<and>
         length (vm_sub a b) = 32 \<and> int (be_nat (vm_sub a b)) = (int (be_nat a) - int (be_nat b)) mod 2 ^ 256 \<and>
         (vm_lt a b \<longleftrightarrow> be_nat a < be_nat b) \<and> (vm_gt a b \<longleftrightarrow> be_nat a > be_nat b) \<and>
         u256_to_word (word_to_u256 a) = a \<and> word_to_u256 (u256_to_word v) = v"
proof -
  have "length (word_to_u256 w) = 4" for w by (simp add: word_to_u256_def)
  then show ?thesis
    using assms add_limbs [of "word_to_u256 a" "word_to_u256 b"] sub_limbs [of "word_to_u256 a" "word_to_u256 b"]
    by (simp add: vm_add_def vm_sub_def vm_lt_iff vm_gt_is_lt u256_to_word_to_u256 word_to_u256_to_word)
qed

theorem vm_arithmetic_spec_witness:
  "be_nat (vm_add word_one (replicate 32 255)) = 0 \<and> int (be_nat (vm_sub word_zero word_one)) = 2 ^ 256 - 1"
proof -
  have "be_nat (vm_add word_one (replicate 32 255)) = (be_nat word_one + be_nat (replicate 32 255)) mod 2 ^ 256"
    "int (be_nat (vm_sub word_zero word_one)) = (int (be_nat word_zero) - int (be_nat word_one)) mod 2 ^ 256"
    using vm_arithmetic_spec [of word_one "replicate 32 255" "[0, 0, 0, 0]"]
      vm_arithmetic_spec [of word_zero word_one "[0, 0, 0, 0]"] by simp_all
  then show ?thesis by simp
qed

lemma word_to_u256_small:
  assumes "length w = 32" "be_nat w < 2 ^ 64"
  shows "word_to_u256 w = [0, 0, 0, of_nat (be_nat w)]"
proof -
  obtain x y z u where v: "word_to_u256 w = [x, y, z, u]" by (simp add: word_to_u256_def)
  have "unat x * 2 ^ 192 + unat y * 2 ^ 128 + unat z * 2 ^ 64 + unat u = be_nat w"
    using limbs_val_word_to_u256 [OF assms(1)] by (simp add: v limbs_val_def)
  moreover from this assms(2) have "unat x = 0" "unat y = 0" "unat z = 0" by simp_all
  ultimately have "unat u = be_nat w" "x = 0" "y = 0" "z = 0" by (simp_all add: unat_eq_zero)
  then show ?thesis by (simp add: v flip: \<open>unat u = be_nat w\<close>)
qed

lemma low_half_small:
  assumes "length w = 32" "be_nat w < 2 ^ 64"
  shows "unat (low_half (word_to_u256 w)) = be_nat w * 2 ^ 64"
proof -
  have "low_half (word_to_u256 w) = push_bit 64 (ucast (of_nat (be_nat w) :: u64))"
    by (simp add: word_to_u256_small [OF assms] low_half_def)
  moreover have "ucast (of_nat (be_nat w) :: u64) = (of_nat (be_nat w) :: u128)"
    using assms(2) by (subst word_unat_eq_iff) (simp add: unat_ucast unat_of_nat)
  ultimately have "low_half (word_to_u256 w) = of_nat (be_nat w * 2 ^ 64)"
    by (simp add: push_bit_eq_mult)
  then show ?thesis
    using assms(2) by (simp only: unat_of_nat) simp
qed

text \<open>
  Multiplication and division combine the two low limbs in the wrong order. The product of any two
  words that stand for numbers below \<open>2 ^ 64\<close> is zero, and the quotient of two such words is
  the true quotient shifted left by 64 bits.
\<close>

theorem vm_mul_div_misplaced:
  assumes "length a = 32" "length b = 32" "be_nat a < 2 ^ 64" "be_nat b < 2 ^ 64"
  shows "be_nat (vm_mul a b) = 0 \<and> be_nat (vm_div a b) = be_nat a div be_nat b * 2 ^ 64"
proof
  let ?x = "low_half (word_to_u256 a)" and ?y = "low_half (word_to_u256 b)"
  have x: "unat ?x = be_nat a * 2 ^ 64" and y: "unat ?y = be_nat b * 2 ^ 64"
    using assms low_half_small by blast+
  have "unat (?x * ?y) = (be_nat a * be_nat b) * 2 ^ 128 mod 2 ^ 128"
    by (simp add: unat_word_ariths x y mult.commute mult.left_commute)
  then have "?x * ?y = 0" by (simp add: unat_eq_zero)
  then show "be_nat (vm_mul a b) = 0" by (simp add: vm_mul_def limbs_val_def)
  have zero: "be_nat b = 0 \<longleftrightarrow> is_zero b"
  proof -
    have "is_zero b \<longleftrightarrow> b = replicate 32 0"
      using assms(2) by (auto simp: is_zero_def intro: replicate_eqI)
    then show ?thesis using be_nat_inject [of b "replicate 32 0"] assms(2) by (auto simp: be_nat_replicate)
  qed
  show "be_nat (vm_div a b) = be_nat a div be_nat b * 2 ^ 64"
  proof (cases "be_nat b = 0")
    case True
    then show ?thesis using zero by (simp add: vm_div_def)
  next
    case False
    then have ne: "\<not> is_zero b" "?y \<noteq> 0" using zero y by (auto simp: unat_eq_zero [symmetric])
    have q: "unat (?x div ?y) = be_nat a div be_nat b"
      by (simp add: unat_div x y)
    have "be_nat a div be_nat b < 2 ^ 64" using assms(3) by (metis div_le_dividend le_less_trans)
    moreover from this have "drop_bit 64 (?x div ?y) = 0"
      unfolding word_unat_eq_iff unat_drop_bit_eq q by (simp add: drop_bit_eq_div)
    ultimately show ?thesis
      using ne by (simp add: vm_div_def Let_def limbs_val_def unat_ucast q)
  qed
qed

theorem vm_mul_div_misplaced_witness:
  "be_nat (vm_mul word_one word_one) = 0 \<and> be_nat (vm_div word_one word_one) = 2 ^ 64"
  using vm_mul_div_misplaced [of word_one word_one] by simp

end
