(* ===== verification/Execution_Gas.thy ===== *)
theory Execution_Gas
  imports Core_Types
begin

text \<open>
  \<open>src/execution/gas.rs\<close> (gas constants, \<open>GasCalculator\<close>, \<open>GasMeter\<close>, \<open>GasSchedule\<close>) and the types of
  \<open>src/execution/mod.rs\<close>: execution context, logs, results and errors. Lengths of byte vectors
  enter the gas formulas as \<open>usize\<close> values. \<open>remaining_percentage\<close>, a display value, is left out.
\<close>

section \<open>Errors, logs and results\<close>

datatype execution_error =
    ExOutOfGas u64 u64
  | ExRevert string
  | ExInvalidOpcode u8
  | ExStackOverflow
  | ExStackUnderflow
  | ExInvalidJump
  | ExCallDepthExceeded
  | ExContractNotFound address
  | ExInvalidSignature
  | ExNonceTooLow u64 u64
  | ExInsufficientBalance u128 u128
  | ExOther string

record log_entry =
  log_address :: address
  topics :: "hash list"
  log_data :: bytes
  log_block_height :: block_height
  log_tx_index :: usize
  log_index :: usize

record state_change =
  sc_address :: address
  sc_key :: bytes
  old_value :: bytes
  new_value :: bytes

record event =
  ev_contract :: address
  ev_name :: string
  ev_data :: bytes
  ev_topics :: "hash list"

record execution_context =
  ctx_block_height :: block_height
  block_timestamp :: timestamp
  ctx_block_hash :: hash
  tx_index :: usize
  origin :: address
  ctx_gas_limit :: u64
  ctx_gas_used :: u64
  ctx_logs :: "log_entry list"
  state_changes :: "state_change list"
  ctx_events :: "event list"

definition context_new :: "block_height \<Rightarrow> timestamp \<Rightarrow> address \<Rightarrow> u64 \<Rightarrow> execution_context" where
  "context_new h tm org limit =
     \<lparr>ctx_block_height = h, block_timestamp = tm, ctx_block_hash = zero32, tx_index = 0, origin = org,
      ctx_gas_limit = limit, ctx_gas_used = 0, ctx_logs = [], state_changes = [], ctx_events = []\<rparr>"

definition ctx_use_gas :: "u64 \<Rightarrow> execution_context \<Rightarrow> bool \<times> execution_context" where
  "ctx_use_gas amount c =
     (if ctx_gas_used c + amount > ctx_gas_limit c then (False, c)
      else (True, c\<lparr>ctx_gas_used := ctx_gas_used c + amount\<rparr>))"

definition remaining_gas :: "execution_context \<Rightarrow> u64" where
  "remaining_gas c = saturating_sub (ctx_gas_limit c) (ctx_gas_used c)"

definition add_log :: "log_entry \<Rightarrow> execution_context \<Rightarrow> execution_context" where
  "add_log l c = c\<lparr>ctx_logs := ctx_logs c @ [l]\<rparr>"

definition add_state_change :: "state_change \<Rightarrow> execution_context \<Rightarrow> execution_context" where
  "add_state_change s c = c\<lparr>state_changes := state_changes c @ [s]\<rparr>"

definition ctx_emit_event :: "event \<Rightarrow> execution_context \<Rightarrow> execution_context" where
  "ctx_emit_event e c = c\<lparr>ctx_events := ctx_events c @ [e]\<rparr>"

record execution_result =
  er_success :: bool
  er_gas_used :: u64
  er_gas_refund :: u64
  er_return_data :: bytes
  er_logs :: "log_entry list"
  er_state_changes :: "state_change list"
  er_events :: "event list"
  er_error :: "execution_error option"

definition result_success :: "u64 \<Rightarrow> bytes \<Rightarrow> execution_result" where
  "result_success used data =
     \<lparr>er_success = True, er_gas_used = used, er_gas_refund = 0, er_return_data = data, er_logs = [],
      er_state_changes = [], er_events = [], er_error = None\<rparr>"

definition result_failure :: "execution_error \<Rightarrow> u64 \<Rightarrow> execution_result" where
  "result_failure e used =
     \<lparr>er_success = False, er_gas_used = used, er_gas_refund = 0, er_return_data = [], er_logs = [],
      er_state_changes = [], er_events = [], er_error = Some e\<rparr>"

section \<open>Gas of transactions and data\<close>

definition TX_BASE_GAS :: u64 where "TX_BASE_GAS = 21000"
definition TX_DATA_NON_ZERO_GAS :: u64 where "TX_DATA_NON_ZERO_GAS = 68"
definition TX_DATA_ZERO_GAS :: u64 where "TX_DATA_ZERO_GAS = 4"
definition CONTRACT_CREATION_GAS :: u64 where "CONTRACT_CREATION_GAS = 32000"
definition COLD_SLOAD_GAS :: u64 where "COLD_SLOAD_GAS = 2100"
definition SSTORE_SET_GAS :: u64 where "SSTORE_SET_GAS = 20000"
definition SSTORE_RESET_GAS :: u64 where "SSTORE_RESET_GAS = 5000"
definition SSTORE_CLEAR_REFUND :: u64 where "SSTORE_CLEAR_REFUND = 15000"
definition LOG_GAS :: u64 where "LOG_GAS = 375"
definition LOG_TOPIC_GAS :: u64 where "LOG_TOPIC_GAS = 375"
definition LOG_DATA_GAS :: u64 where "LOG_DATA_GAS = 8"
definition SHA3_GAS :: u64 where "SHA3_GAS = 30"
definition SHA3_WORD_GAS :: u64 where "SHA3_WORD_GAS = 6"
definition MEMORY_GAS :: u64 where "MEMORY_GAS = 3"
definition COPY_GAS :: u64 where "COPY_GAS = 3"
definition CALL_GAS :: u64 where "CALL_GAS = 700"
definition CALL_VALUE_GAS :: u64 where "CALL_VALUE_GAS = 9000"
definition SELFDESTRUCT_GAS :: u64 where "SELFDESTRUCT_GAS = 5000"
definition SELFDESTRUCT_REFUND :: u64 where "SELFDESTRUCT_REFUND = 24000"

record gas_calculator =
  tx_base_gas :: u64
  tx_data_non_zero_gas :: u64
  tx_data_zero_gas :: u64
  contract_creation_gas :: u64

definition gas_calculator_default :: gas_calculator where
  "gas_calculator_default =
     \<lparr>tx_base_gas = TX_BASE_GAS, tx_data_non_zero_gas = TX_DATA_NON_ZERO_GAS,
      tx_data_zero_gas = TX_DATA_ZERO_GAS, contract_creation_gas = CONTRACT_CREATION_GAS\<rparr>"

definition intrinsic_gas :: "gas_calculator \<Rightarrow> transaction \<Rightarrow> bool \<Rightarrow> u64" where
  "intrinsic_gas gc tx is_contract_creation =
     (let gas = foldl (\<lambda>g byte. if byte = 0 then g + tx_data_zero_gas gc else g + tx_data_non_zero_gas gc)
                  (tx_base_gas gc) (tx_signature tx)
      in if is_contract_creation then gas + contract_creation_gas gc else gas)"

definition estimate_gas :: "gas_calculator \<Rightarrow> transaction \<Rightarrow> bool \<Rightarrow> u64" where
  "estimate_gas gc tx is_contract_creation =
     (let intrinsic = intrinsic_gas gc tx is_contract_creation
      in if \<not> is_contract_creation \<and> tx_to tx \<noteq> zero32 then intrinsic else intrinsic * 3)"

definition memory_expansion_gas :: "usize \<Rightarrow> usize \<Rightarrow> u64" where
  "memory_expansion_gas current_size new_size =
     (if new_size \<le> current_size then 0
      else let current_words = (current_size + 31) div 32; new_words = (new_size + 31) div 32
           in (new_words * new_words * MEMORY_GAS) div 512 - (current_words * current_words * MEMORY_GAS) div 512)"

definition log_gas :: "usize \<Rightarrow> usize \<Rightarrow> u64" where
  "log_gas n_topics data_len = LOG_GAS + n_topics * LOG_TOPIC_GAS + data_len * LOG_DATA_GAS"

definition sha3_gas :: "usize \<Rightarrow> u64" where
  "sha3_gas data_len = SHA3_GAS + (data_len + 31) div 32 * SHA3_WORD_GAS"

definition copy_gas :: "usize \<Rightarrow> u64" where
  "copy_gas len = COPY_GAS * ((len + 31) div 32)"

section \<open>The gas meter\<close>

record gas_meter =
  gas_limit :: u64
  gas_used :: u64
  gas_refund :: u64

definition gas_meter_new :: "u64 \<Rightarrow> gas_meter" where
  "gas_meter_new limit = \<lparr>gas_limit = limit, gas_used = 0, gas_refund = 0\<rparr>"

definition use_gas :: "u64 \<Rightarrow> gas_meter \<Rightarrow> bool \<times> gas_meter" where
  "use_gas amount m =
     (if gas_used m + amount > gas_limit m then (False, m) else (True, m\<lparr>gas_used := gas_used m + amount\<rparr>))"

definition add_refund :: "u64 \<Rightarrow> gas_meter \<Rightarrow> gas_meter" where
  "add_refund amount m = m\<lparr>gas_refund := gas_refund m + amount\<rparr>"

definition remaining :: "gas_meter \<Rightarrow> u64" where
  "remaining m = saturating_sub (gas_limit m) (gas_used m)"

definition max_refund :: "gas_meter \<Rightarrow> u64" where
  "max_refund m = gas_used m div 5"

definition actual_refund :: "gas_meter \<Rightarrow> u64" where
  "actual_refund m = min (gas_refund m) (max_refund m)"

definition net_used :: "gas_meter \<Rightarrow> u64" where
  "net_used m = saturating_sub (gas_used m) (actual_refund m)"

definition is_depleted :: "gas_meter \<Rightarrow> bool" where
  "is_depleted m \<longleftrightarrow> gas_used m \<ge> gas_limit m"

record gas_schedule =
  gs_base :: u64
  very_low :: u64
  gs_low :: u64
  gs_mid :: u64
  gs_high :: u64
  gs_exp :: u64
  exp_byte :: u64
  gs_sha3 :: u64
  sha3_word :: u64
  sload :: u64
  sstore_set :: u64
  sstore_reset :: u64
  sstore_clear_refund :: u64
  gs_balance :: u64
  gs_call :: u64
  call_value :: u64
  gs_create :: u64
  gs_selfdestruct :: u64
  selfdestruct_refund :: u64

definition gas_schedule_default :: gas_schedule where
  "gas_schedule_default =
     \<lparr>gs_base = 2, very_low = 3, gs_low = 5, gs_mid = 8, gs_high = 10, gs_exp = 10, exp_byte = 50,
      gs_sha3 = SHA3_GAS, sha3_word = SHA3_WORD_GAS, sload = COLD_SLOAD_GAS, sstore_set = SSTORE_SET_GAS,
      sstore_reset = SSTORE_RESET_GAS, sstore_clear_refund = SSTORE_CLEAR_REFUND, gs_balance = 100,
      gs_call = CALL_GAS, call_value = CALL_VALUE_GAS, gs_create = 32000, gs_selfdestruct = SELFDESTRUCT_GAS,
      selfdestruct_refund = SELFDESTRUCT_REFUND\<rparr>"

section \<open>Properties of the meter\<close>

lemma use_gas_exact:
  assumes "unat (gas_used m) + unat amount < 2 ^ 64"
  shows "use_gas amount m =
     (if unat (gas_used m) + unat amount > unat (gas_limit m) then (False, m)
      else (True, m\<lparr>gas_used := gas_used m + amount\<rparr>))"
  using assms by (simp add: use_gas_def word_less_nat_alt unat_add_no_overflow)

lemma use_gas_limit [simp]: "gas_limit (snd (use_gas amount m)) = gas_limit m"
  by (simp add: use_gas_def)

lemma use_gas_bounded: "gas_used m \<le> gas_limit m \<Longrightarrow> gas_used (snd (use_gas amount m)) \<le> gas_limit m"
  by (simp add: use_gas_def not_less)

lemma intrinsic_fold:
  "unat g + 68 * length bs < 2 ^ 64 \<Longrightarrow>
   unat (foldl (\<lambda>g byte. if byte = 0 then g + 4 else g + 68) g bs) =
     unat (g :: u64) + 4 * length (filter (\<lambda>b. b = 0) bs) + 68 * length (filter (\<lambda>b. b \<noteq> 0) (bs :: bytes))"
proof (induction bs arbitrary: g)
  case (Cons b bs)
  let ?k = "if b = 0 then 4 else 68 :: u64"
  have "unat (g + ?k) = unat g + unat ?k" using Cons.prems by (intro unat_add_no_overflow) auto
  with Cons show ?case by (cases "b = 0") auto
qed simp

end
