(* ===== verification/Execution_VM.thy ===== *)
theory Execution_VM
  imports Execution_Word Execution_Gas
begin

text \<open>
  The virtual machine of \<open>src/execution/vm.rs\<close>: memory, stack, opcodes and the interpreter loop.
  A step returns its result with the machine it leaves, since the gas used is read after an error.
  \<open>VPanic\<close> is a panic of the Rust code: a slice whose start is after its end, or a vector of more than
  \<open>isize::MAX\<close> bytes. (Smaller allocations succeed in the model; nothing in the code bounds them,
  because memory costs no gas.)

  The sixteen- and thirty-two-fold opcode families are one constructor with a number each
  (\<open>OpPush 1\<close> to \<open>OpPush 32\<close> for \<open>Push1\<close> to \<open>Push32\<close>, and so on); \<open>from_u8\<close> returns only the first
  of each family, and the interpreter executes none of them. The loop \<open>run\<close> is a partial function:
  \<open>None\<close> is the run that never returns.
\<close>

section \<open>Memory\<close>

record memory =
  mem_data :: bytes
  last_gas_cost :: u64

definition memory_new :: memory where
  "memory_new = \<lparr>mem_data = [], last_gas_cost = 0\<rparr>"

definition ISIZE_MAX :: nat where
  "ISIZE_MAX = 2 ^ 63 - 1"

definition memory_resize :: "nat \<Rightarrow> memory \<Rightarrow> memory option" where
  "memory_resize new_size m =
     (if new_size > length (mem_data m) then
        (if new_size > ISIZE_MAX then None
         else Some (m\<lparr>mem_data := mem_data m @ replicate (new_size - length (mem_data m)) 0\<rparr>))
      else Some m)"

definition memory_read :: "usize \<Rightarrow> usize \<Rightarrow> memory \<Rightarrow> bytes option" where
  "memory_read offset sz m =
     (if unat offset \<ge> length (mem_data m) then
        (if unat sz > ISIZE_MAX then None else Some (replicate (unat sz) 0))
      else
        let last = min (offset + sz) (of_nat (length (mem_data m)))
        in if last < offset then None
           else let result = take (unat (last - offset)) (drop (unat offset) (mem_data m))
                in if length result < unat sz then
                     (if unat sz > ISIZE_MAX then None
                      else Some (result @ replicate (unat sz - length result) 0))
                   else Some result)"

definition read_word :: "usize \<Rightarrow> memory \<Rightarrow> vm_word option" where
  "read_word offset m = memory_read offset 32 m"

definition memory_write :: "usize \<Rightarrow> bytes \<Rightarrow> memory \<Rightarrow> memory option" where
  "memory_write offset data m =
     (let last = offset + of_nat (length data)
      in case (if unat last > length (mem_data m) then memory_resize (unat last) m else Some m) of
           None \<Rightarrow> None
         | Some m' \<Rightarrow>
             if offset > last then None
             else Some (m'\<lparr>mem_data := take (unat offset) (mem_data m') @ data @ drop (unat last) (mem_data m')\<rparr>))"

definition write_word :: "usize \<Rightarrow> vm_word \<Rightarrow> memory \<Rightarrow> memory option" where
  "write_word offset w m = memory_write offset w m"

section \<open>Stack\<close>

text \<open>The vector of the stack; its last element is the top.\<close>

type_synonym vm_stack = "vm_word list"

definition MAX_STACK_SIZE :: nat where
  "MAX_STACK_SIZE = 1024"

definition stack_push :: "vm_word \<Rightarrow> vm_stack \<Rightarrow> execution_error + vm_stack" where
  "stack_push w st = (if length st \<ge> MAX_STACK_SIZE then Inl ExStackOverflow else Inr (st @ [w]))"

definition stack_pop :: "vm_stack \<Rightarrow> execution_error + (vm_word \<times> vm_stack)" where
  "stack_pop st = (if st = [] then Inl ExStackUnderflow else Inr (last st, butlast st))"

definition stack_peek :: "nat \<Rightarrow> vm_stack \<Rightarrow> execution_error + vm_word" where
  "stack_peek depth st =
     (if depth \<ge> length st then Inl ExStackUnderflow else Inr (st ! (length st - 1 - depth)))"

definition stack_dup :: "nat \<Rightarrow> vm_stack \<Rightarrow> execution_error + vm_stack" where
  "stack_dup depth st = (case stack_peek depth st of Inl e \<Rightarrow> Inl e | Inr w \<Rightarrow> stack_push w st)"

definition stack_swap :: "nat \<Rightarrow> vm_stack \<Rightarrow> execution_error + vm_stack" where
  "stack_swap depth st =
     (let len = length st
      in if depth \<ge> len then Inl ExStackUnderflow
         else Inr (st[len - 1 := st ! (len - 1 - depth), len - 1 - depth := st ! (len - 1)]))"

section \<open>Opcodes\<close>

datatype (plugins only:) opcode =
    OpStop
  | OpAdd | OpMul | OpSub | OpDiv | OpSDiv | OpMod | OpSMod | OpAddMod | OpMulMod | OpExp | OpSignExtend
  | OpLt | OpGt | OpSLt | OpSGt | OpEq | OpIsZero | OpAnd | OpOr | OpXor | OpNot | OpByte | OpShl | OpShr | OpSar
  | OpSha3
  | OpAddress | OpBalance | OpOrigin | OpCaller | OpCallValue | OpCallDataLoad | OpCallDataSize | OpCallDataCopy
  | OpCodeSize | OpCodeCopy | OpGasPrice | OpExtCodeSize | OpExtCodeCopy | OpRetDataSize | OpRetDataCopy | OpExtCodeHash
  | OpBlockHash | OpCoinbase | OpTimestamp | OpNumber | OpDifficulty | OpGasLimit | OpChainId | OpSelfBalance | OpBaseFee
  | OpPop | OpMLoad | OpMStore | OpMStore8 | OpSLoad | OpSStore | OpJump | OpJumpI | OpPC | OpMSize | OpGas | OpJumpDest
  | OpPush nat | OpDup nat | OpSwap nat | OpLog nat
  | OpCreate | OpCall | OpCallCode | OpReturn | OpDelegateCall | OpCreate2 | OpStaticCall | OpRevert | OpInvalid
  | OpSelfDestruct

text \<open>The consecutive runs of \<open>Opcode::from_u8\<close>, each with the byte it starts at.\<close>

definition opcode_rows :: "(u8 \<times> opcode list) list" where
  "opcode_rows =
     [(0x00, [OpStop, OpAdd, OpMul, OpSub, OpDiv, OpSDiv, OpMod, OpSMod, OpAddMod, OpMulMod, OpExp, OpSignExtend]),
      (0x10, [OpLt, OpGt, OpSLt, OpSGt, OpEq, OpIsZero, OpAnd, OpOr, OpXor, OpNot, OpByte, OpShl, OpShr, OpSar]),
      (0x20, [OpSha3]),
      (0x30, [OpAddress, OpBalance, OpOrigin, OpCaller, OpCallValue, OpCallDataLoad, OpCallDataSize, OpCallDataCopy,
              OpCodeSize, OpCodeCopy, OpGasPrice, OpExtCodeSize, OpExtCodeCopy, OpRetDataSize, OpRetDataCopy,
              OpExtCodeHash]),
      (0x40, [OpBlockHash, OpCoinbase, OpTimestamp, OpNumber, OpDifficulty, OpGasLimit, OpChainId, OpSelfBalance,
              OpBaseFee]),
      (0x50, [OpPop, OpMLoad, OpMStore, OpMStore8, OpSLoad, OpSStore, OpJump, OpJumpI, OpPC, OpMSize, OpGas,
              OpJumpDest]),
      (0x60, replicate 32 (OpPush 1)),
      (0x80, replicate 16 (OpDup 1)),
      (0x90, replicate 16 (OpSwap 1)),
      (0xa0, replicate 5 (OpLog 0)),
      (0xf0, [OpCreate, OpCall, OpCallCode, OpReturn, OpDelegateCall, OpCreate2]),
      (0xfa, [OpStaticCall]),
      (0xfd, [OpRevert, OpInvalid, OpSelfDestruct])]"

definition from_u8 :: "u8 \<Rightarrow> opcode option" where
  "from_u8 byte =
     fold (\<lambda>(start, ops) acc.
             if start \<le> byte \<and> unat (byte - start) < length ops then Some (ops ! unat (byte - start)) else acc)
          opcode_rows None"

definition gas_cost :: "gas_schedule \<Rightarrow> opcode \<Rightarrow> u64" where
  "gas_cost schedule op =
     (if op = OpStop then 0
      else if op \<in> {OpAdd, OpSub, OpMul, OpDiv, OpMod, OpLt, OpGt, OpEq, OpIsZero, OpAnd, OpOr, OpXor, OpNot,
                    OpPop, OpPC, OpMSize, OpGas, OpAddress, OpCaller, OpOrigin, OpCallDataSize, OpCodeSize,
                    OpRetDataSize} then gs_base schedule
      else if op \<in> {OpSDiv, OpSMod, OpSignExtend, OpSLt, OpSGt, OpByte, OpShl, OpShr, OpSar} then gs_low schedule
      else if op \<in> {OpAddMod, OpMulMod, OpJump, OpJumpI} then gs_mid schedule
      else if op = OpExp then gs_exp schedule
      else if op = OpSha3 then gs_sha3 schedule
      else if op = OpSLoad then sload schedule
      else if op = OpSStore then sstore_set schedule
      else if op \<in> {OpBalance, OpExtCodeSize, OpExtCodeHash} then gs_balance schedule
      else if op \<in> {OpCall, OpCallCode, OpDelegateCall, OpStaticCall} then gs_call schedule
      else if op \<in> {OpCreate, OpCreate2} then gs_create schedule
      else if op = OpSelfDestruct then gs_selfdestruct schedule
      else if op \<in> {OpMLoad, OpMStore, OpMStore8} then very_low schedule
      else if op = OpJumpDest then 1
      else if op = OpInvalid then 0
      else if op \<in> {OpReturn, OpRevert} then 0
      else gs_mid schedule)"

section \<open>The machine\<close>

record vm =
  vm_code :: bytes
  pc :: nat
  stack :: vm_stack
  memory :: memory
  meter :: gas_meter
  schedule :: gas_schedule
  return_data :: bytes
  stopped :: bool

definition vm_with_schedule :: "bytes \<Rightarrow> u64 \<Rightarrow> gas_schedule \<Rightarrow> vm" where
  "vm_with_schedule c limit sch =
     \<lparr>vm_code = c, pc = 0, stack = [], memory = memory_new, meter = gas_meter_new limit, schedule = sch,
      return_data = [], stopped = False\<rparr>"

definition vm_new :: "bytes \<Rightarrow> u64 \<Rightarrow> vm" where
  "vm_new c limit = vm_with_schedule c limit gas_schedule_default"

datatype 'a vm_result = VOk 'a | VErr execution_error | VPanic

type_synonym 'a vm_op = "vm \<Rightarrow> 'a vm_result \<times> vm"

definition vm_bind :: "'a vm_op \<Rightarrow> ('a \<Rightarrow> 'b vm_op) \<Rightarrow> 'b vm_op" where
  "vm_bind m f s =
     (case m s of (VOk a, s') \<Rightarrow> f a s' | (VErr e, s') \<Rightarrow> (VErr e, s') | (VPanic, s') \<Rightarrow> (VPanic, s'))"

definition vm_ret :: "'a \<Rightarrow> 'a vm_op" where
  "vm_ret a s = (VOk a, s)"

definition vm_err :: "execution_error \<Rightarrow> 'a vm_op" where
  "vm_err e s = (VErr e, s)"

definition pop_op :: "vm_word vm_op" where
  "pop_op s = (case stack_pop (stack s) of Inl e \<Rightarrow> (VErr e, s) | Inr (w, st) \<Rightarrow> (VOk w, s\<lparr>stack := st\<rparr>))"

definition push_op :: "vm_word \<Rightarrow> unit vm_op" where
  "push_op w s = (case stack_push w (stack s) of Inl e \<Rightarrow> (VErr e, s) | Inr st \<Rightarrow> (VOk (), s\<lparr>stack := st\<rparr>))"

definition read_op :: "usize \<Rightarrow> usize \<Rightarrow> bytes vm_op" where
  "read_op offset sz s = (case memory_read offset sz (memory s) of None \<Rightarrow> (VPanic, s) | Some bs \<Rightarrow> (VOk bs, s))"

definition write_op :: "usize \<Rightarrow> bytes \<Rightarrow> unit vm_op" where
  "write_op offset data s =
     (case memory_write offset data (memory s) of None \<Rightarrow> (VPanic, s) | Some m \<Rightarrow> (VOk (), s\<lparr>memory := m\<rparr>))"

definition binary_op :: "(vm_word \<Rightarrow> vm_word \<Rightarrow> vm_word) \<Rightarrow> unit vm_op" where
  "binary_op f = vm_bind pop_op (\<lambda>a. vm_bind pop_op (\<lambda>b. push_op (f a b)))"

definition word_of_bool :: "bool \<Rightarrow> vm_word" where
  "word_of_bool b = (if b then word_one else word_zero)"

definition jump_to :: "usize \<Rightarrow> unit vm_op" where
  "jump_to dest s =
     (if unat dest \<ge> length (vm_code s) \<or> vm_code s ! unat dest \<noteq> 0x5b then (VErr ExInvalidJump, s)
      else (VOk (), s\<lparr>pc := unat dest\<rparr>))"

definition counter_word :: "u64 \<Rightarrow> vm_word" where
  "counter_word n = replicate 24 0 @ be_bytes n"

definition offset_op :: "usize vm_op" where
  "offset_op = vm_bind pop_op (\<lambda>w. vm_ret (word_to_usize w))"

text \<open>\<open>String::from_utf8_lossy\<close>: an ill-formed sequence becomes the three bytes of U+FFFD.\<close>

definition utf8_tail :: "u8 \<Rightarrow> (u8 \<times> u8) list option" where
  "utf8_tail b =
     (if b < 0x80 then Some []
      else if 0xc2 \<le> b \<and> b \<le> 0xdf then Some [(0x80, 0xbf)]
      else if b = 0xe0 then Some [(0xa0, 0xbf), (0x80, 0xbf)]
      else if (0xe1 \<le> b \<and> b \<le> 0xec) \<or> (0xee \<le> b \<and> b \<le> 0xef) then Some [(0x80, 0xbf), (0x80, 0xbf)]
      else if b = 0xed then Some [(0x80, 0x9f), (0x80, 0xbf)]
      else if b = 0xf0 then Some [(0x90, 0xbf), (0x80, 0xbf), (0x80, 0xbf)]
      else if 0xf1 \<le> b \<and> b \<le> 0xf3 then Some [(0x80, 0xbf), (0x80, 0xbf), (0x80, 0xbf)]
      else if b = 0xf4 then Some [(0x80, 0x8f), (0x80, 0xbf), (0x80, 0xbf)]
      else None)"

fun match_tail :: "(u8 \<times> u8) list \<Rightarrow> bytes \<Rightarrow> nat" where
  "match_tail ((lo, hi) # rs) (b # bs) = (if lo \<le> b \<and> b \<le> hi then Suc (match_tail rs bs) else 0)"
| "match_tail _ _ = 0"

function utf8_lossy :: "bytes \<Rightarrow> bytes" where
  "utf8_lossy [] = []"
| "utf8_lossy (b # bs) =
     (case utf8_tail b of
        None \<Rightarrow> [0xef, 0xbf, 0xbd] @ utf8_lossy bs
      | Some rs \<Rightarrow>
          let n = match_tail rs bs
          in (if n = length rs then b # take n bs else [0xef, 0xbf, 0xbd]) @ utf8_lossy (drop n bs))"
  by pat_completeness auto
termination
  by (relation "measure length") auto

definition string_of_bytes :: "bytes \<Rightarrow> string" where
  "string_of_bytes bs = map (\<lambda>b. char_of (unat b)) bs"

text \<open>The \<open>match\<close> of \<open>VM::step\<close>; every opcode without an arm of its own does nothing.\<close>

definition exec_op :: "externals \<Rightarrow> opcode \<Rightarrow> unit vm_op" where
  "exec_op X op =
     (case op of
        OpStop \<Rightarrow> (\<lambda>s. (VOk (), s\<lparr>stopped := True\<rparr>))
      | OpAdd \<Rightarrow> binary_op vm_add
      | OpMul \<Rightarrow> binary_op vm_mul
      | OpSub \<Rightarrow> binary_op vm_sub
      | OpDiv \<Rightarrow> binary_op vm_div
      | OpLt \<Rightarrow> binary_op (\<lambda>a b. word_of_bool (vm_lt a b))
      | OpGt \<Rightarrow> binary_op (\<lambda>a b. word_of_bool (vm_gt a b))
      | OpEq \<Rightarrow> binary_op (\<lambda>a b. word_of_bool (a = b))
      | OpIsZero \<Rightarrow> vm_bind pop_op (\<lambda>a. push_op (word_of_bool (is_zero a)))
      | OpAnd \<Rightarrow> binary_op (map2 (AND))
      | OpOr \<Rightarrow> binary_op (map2 (OR))
      | OpXor \<Rightarrow> binary_op (map2 (XOR))
      | OpNot \<Rightarrow> vm_bind pop_op (\<lambda>a. push_op (map NOT a))
      | OpPop \<Rightarrow> vm_bind pop_op (\<lambda>_. vm_ret ())
      | OpMLoad \<Rightarrow> vm_bind offset_op (\<lambda>offset. vm_bind (read_op offset 32) push_op)
      | OpMStore \<Rightarrow> vm_bind offset_op (\<lambda>offset. vm_bind pop_op (write_op offset))
      | OpMStore8 \<Rightarrow> vm_bind offset_op (\<lambda>offset. vm_bind pop_op (\<lambda>value. write_op offset [value ! 31]))
      | OpJump \<Rightarrow> vm_bind offset_op jump_to
      | OpJumpI \<Rightarrow>
          vm_bind offset_op (\<lambda>dest. vm_bind pop_op (\<lambda>cond. if \<not> is_zero cond then jump_to dest else vm_ret ()))
      | OpPC \<Rightarrow> (\<lambda>s. push_op (counter_word (of_nat (pc s))) s)
      | OpGas \<Rightarrow> (\<lambda>s. push_op (counter_word (remaining (meter s))) s)
      | OpSha3 \<Rightarrow>
          vm_bind offset_op (\<lambda>offset. vm_bind offset_op (\<lambda>sz.
            vm_bind (read_op offset sz) (\<lambda>data. push_op (keccak256 X data))))
      | OpReturn \<Rightarrow>
          vm_bind offset_op (\<lambda>offset. vm_bind offset_op (\<lambda>sz.
            vm_bind (read_op offset sz) (\<lambda>data s. (VOk (), s\<lparr>return_data := data, stopped := True\<rparr>))))
      | OpRevert \<Rightarrow>
          vm_bind offset_op (\<lambda>offset. vm_bind offset_op (\<lambda>sz.
            vm_bind (read_op offset sz) (\<lambda>reason. vm_err (ExRevert (string_of_bytes (utf8_lossy reason))))))
      | OpInvalid \<Rightarrow> vm_err (ExInvalidOpcode 0xfe)
      | _ \<Rightarrow> vm_ret ())"

definition vm_step :: "externals \<Rightarrow> unit vm_op" where
  "vm_step X s =
     (let opcode_byte = vm_code s ! pc s
      in case from_u8 opcode_byte of
           None \<Rightarrow> (VErr (ExInvalidOpcode opcode_byte), s)
         | Some op \<Rightarrow>
             (case use_gas (gas_cost (schedule s) op) (meter s) of
                (False, _) \<Rightarrow> (VErr (ExOutOfGas (gas_used (meter s)) (gas_limit (meter s))), s)
              | (True, g) \<Rightarrow> exec_op X op (s\<lparr>meter := g, pc := pc s + 1\<rparr>)))"

partial_function (option) vm_run :: "externals \<Rightarrow> vm \<Rightarrow> (bytes vm_result \<times> vm) option" where
  "vm_run X s =
     (if \<not> stopped s \<and> pc s < length (vm_code s) then
        (case vm_step X s of
           (VOk _, s') \<Rightarrow> vm_run X s'
         | (VErr e, s') \<Rightarrow> Some (VErr e, s')
         | (VPanic, s') \<Rightarrow> Some (VPanic, s'))
      else Some (VOk (return_data s), s))"

section \<open>Well-formed machines\<close>

definition vm_ok :: "vm \<Rightarrow> bool" where
  "vm_ok s \<longleftrightarrow>
     length (stack s) \<le> MAX_STACK_SIZE \<and> (\<forall>w \<in> set (stack s). length w = 32) \<and>
     length (mem_data (memory s)) \<le> ISIZE_MAX \<and> pc s \<le> length (vm_code s)"

text \<open>
  An operation that keeps well-formed machines well-formed, leaves code, meter and schedule alone,
  and returns only values that satisfy \<open>Q\<close>.
\<close>

definition typed :: "('a \<Rightarrow> bool) \<Rightarrow> 'a vm_op \<Rightarrow> bool" where
  "typed Q m \<longleftrightarrow>
     (\<forall>s. vm_ok s \<longrightarrow>
        vm_ok (snd (m s)) \<and> vm_code (snd (m s)) = vm_code s \<and> meter (snd (m s)) = meter s \<and>
        schedule (snd (m s)) = schedule s \<and> (\<forall>a. fst (m s) = VOk a \<longrightarrow> Q a))"

named_theorems typed_rules \<open>operations of the machine that are typed\<close>

lemma typed_bind [typed_rules]:
  assumes "typed Q m" "\<And>a. Q a \<Longrightarrow> typed R (f a)"
  shows "typed R (vm_bind m f)"
  unfolding typed_def
proof (intro allI impI)
  fix s assume ok: "vm_ok s"
  obtain r s1 where m: "m s = (r, s1)" by fastforce
  show "vm_ok (snd (vm_bind m f s)) \<and> vm_code (snd (vm_bind m f s)) = vm_code s \<and> meter (snd (vm_bind m f s)) = meter s \<and>
      schedule (snd (vm_bind m f s)) = schedule s \<and> (\<forall>a. fst (vm_bind m f s) = VOk a \<longrightarrow> R a)"
    using assms ok by (cases r) (force simp: vm_bind_def m typed_def)+
qed

lemma typed_ret [typed_rules]: "Q a \<Longrightarrow> typed Q (vm_ret a)"
  by (simp add: typed_def vm_ret_def)

lemma typed_err [typed_rules]: "typed Q (vm_err e)"
  by (simp add: typed_def vm_err_def)

lemma typed_pop [typed_rules]: "typed (\<lambda>w. length w = 32) pop_op"
  by (auto simp: typed_def pop_op_def stack_pop_def vm_ok_def dest: in_set_butlastD)

lemma typed_push [typed_rules]: "length w = 32 \<Longrightarrow> typed (\<lambda>_. True) (push_op w)"
  by (auto simp: typed_def push_op_def stack_push_def vm_ok_def)

lemma length_memory_read:
  assumes "memory_read offset sz m = Some bs" "length (mem_data m) \<le> ISIZE_MAX"
  shows "length bs = unat sz"
proof (cases "unat offset \<ge> length (mem_data m)")
  case True
  with assms show ?thesis by (auto simp: memory_read_def split: if_splits)
next
  case False
  define l where "l = min (offset + sz) (of_nat (length (mem_data m)))"
  let ?r = "take (unat (l - offset)) (drop (unat offset) (mem_data m))"
  have rd: "memory_read offset sz m =
      (if l < offset then None
       else if length ?r < unat sz then
         (if unat sz > ISIZE_MAX then None else Some (?r @ replicate (unat sz - length ?r) 0))
       else Some ?r)"
    using False by (simp add: memory_read_def Let_def l_def)
  then have le: "offset \<le> l" and res: "bs = ?r @ replicate (unat sz - length ?r) 0 \<or> (bs = ?r \<and> unat sz \<le> length ?r)"
    using assms(1) by (auto simp: not_less split: if_splits)
  have "l \<le> offset + sz" by (simp add: l_def)
  with le have "unat l \<le> unat offset + unat sz"
    by (metis (no_types) le_trans unat_plus_if' word_le_nat_alt diff_le_self order.refl)
  moreover have "unat (l - offset) = unat l - unat offset" using le by (rule unat_sub_le)
  ultimately have "length ?r \<le> unat sz" by simp
  with res show ?thesis by auto
qed

lemma typed_read [typed_rules]: "typed (\<lambda>bs. length bs = unat sz) (read_op offset sz)"
  by (auto simp: typed_def read_op_def vm_ok_def length_memory_read split: option.splits)

lemma memory_write_bounded:
  assumes "memory_write offset data m = Some m'" "length (mem_data m) \<le> ISIZE_MAX" "length data \<le> ISIZE_MAX"
  shows "length (mem_data m') = max (length (mem_data m)) (unat offset + length data)"
    and "length (mem_data m') \<le> ISIZE_MAX"
proof -
  let ?last = "offset + of_nat (length data)"
  obtain m1 where m1: "(if unat ?last > length (mem_data m) then memory_resize (unat ?last) m else Some m) = Some m1"
    and le: "offset \<le> ?last"
    and m': "mem_data m' = take (unat offset) (mem_data m1) @ data @ drop (unat ?last) (mem_data m1)"
    using assms(1) by (auto simp: memory_write_def Let_def not_less split: option.splits if_splits)
  have "unat (of_nat (length data) :: usize) = length data"
    using assms(3) by (simp add: unat_of_nat ISIZE_MAX_def)
  moreover from le have "unat offset + unat (of_nat (length data) :: usize) < 2 ^ 64"
    by (simp add: no_plus_overflow_unat_size word_size)
  ultimately have last: "unat ?last = unat offset + length data" by (simp add: unat_add_no_overflow)
  have len: "length (mem_data m1) = max (length (mem_data m)) (unat ?last)" "length (mem_data m1) \<le> ISIZE_MAX"
    using m1 assms(2) by (auto simp: memory_resize_def split: if_splits)
  then show "length (mem_data m') = max (length (mem_data m)) (unat offset + length data)"
    "length (mem_data m') \<le> ISIZE_MAX" by (simp_all add: m' last)
qed

lemma typed_write [typed_rules]: "length data \<le> 32 \<Longrightarrow> typed (\<lambda>_. True) (write_op offset data)"
  using memory_write_bounded(2)
  by (fastforce simp: typed_def write_op_def vm_ok_def ISIZE_MAX_def split: option.splits)

lemma typed_jump [typed_rules]: "typed (\<lambda>_. True) (jump_to dest)"
  by (auto simp: typed_def jump_to_def vm_ok_def)

lemma typed_offset [typed_rules]: "typed (\<lambda>_. True) offset_op"
  unfolding offset_op_def by (rule typed_bind [OF typed_pop typed_ret]) simp

lemma typed_binary [typed_rules]:
  assumes "\<And>a b. length a = 32 \<Longrightarrow> length b = 32 \<Longrightarrow> length (f a b) = 32"
  shows "typed (\<lambda>_. True) (binary_op f)"
  unfolding binary_op_def by (intro typed_bind [OF typed_pop] typed_push assms)

lemma length_word_results [simp]:
  "length (vm_add a b) = 32" "length (vm_sub a b) = 32" "length (vm_mul a b) = 32" "length (vm_div a b) = 32"
  "length (word_of_bool c) = 32" "length (counter_word n) = 32"
  by (simp_all add: vm_add_def vm_sub_def vm_mul_def vm_div_def Let_def word_of_bool_def counter_word_def)

lemma typed_push_of [typed_rules]: "(\<And>s. length (f s) = 32) \<Longrightarrow> typed (\<lambda>_. True) (\<lambda>s. push_op (f s) s)"
  using typed_push by (simp add: typed_def)

lemma typed_flags [typed_rules]:
  "typed (\<lambda>_. True) (\<lambda>s. (VOk (), s\<lparr>stopped := b\<rparr>))"
  "typed (\<lambda>_. True) (\<lambda>s. (VOk (), s\<lparr>return_data := data, stopped := b\<rparr>))"
  by (simp_all add: typed_def vm_ok_def)

lemma typed_exec_op:
  assumes "\<And>m. length (keccak256 X m) = 32"
  shows "typed (\<lambda>_. True) (exec_op X op)"
proof (cases op)
qed (auto simp: exec_op_def assms intro!: typed_rules typed_push_of typed_bind [OF typed_pop] typed_bind [OF typed_offset]
    typed_bind [OF typed_read])

lemma vm_step_cases:
  assumes "vm_step X s = (r, s')"
  obtains "r \<noteq> VOk ()" "s' = s"
  | op g where "from_u8 (vm_code s ! pc s) = Some op" "use_gas (gas_cost (schedule s) op) (meter s) = (True, g)"
      "exec_op X op (s\<lparr>meter := g, pc := pc s + 1\<rparr>) = (r, s')"
  using assms by (auto simp: vm_step_def Let_def split: option.splits prod.splits bool.splits)

text \<open>
  C26. Type preservation of the machine: whatever instruction is executed and however it ends, a step of a
  well-formed machine (at most 1024 words of 32 bytes on the stack, the memory within the
  addressable size, the counter within the code) leaves a well-formed machine with the same
  code and gas schedule.
\<close>

theorem vm_step_typed:
  assumes "\<forall>m. length (keccak256 X m) = 32" "vm_ok s" "pc s < length (vm_code s)" "vm_step X s = (r, s')"
  shows "vm_ok s' \<and> vm_code s' = vm_code s \<and> schedule s' = schedule s"
  using assms(4)
proof (cases rule: vm_step_cases)
  case (2 op g)
  let ?s = "s\<lparr>meter := g, pc := pc s + 1\<rparr>"
  have "vm_ok ?s" using assms(2,3) by (simp add: vm_ok_def)
  with typed_exec_op [of X op] assms(1) 2(3) show ?thesis by (auto simp: typed_def dest!: spec [of _ ?s])
qed (use assms in simp)

theorem vm_step_typed_witness:
  "vm_ok (snd (vm_step sample_externals (vm_new [0x58, 0x00] 100)))"
proof -
  let ?s = "vm_new [0x58, 0x00] 100"
  have k: "\<forall>m. length (keccak256 sample_externals m) = 32" by (auto simp: sample_externals_def)
  have ok: "vm_ok ?s" "pc ?s < length (vm_code ?s)"
    by (simp_all add: vm_ok_def vm_new_def vm_with_schedule_def memory_new_def)
  obtain r s' where "vm_step sample_externals ?s = (r, s')" by fastforce
  with vm_step_typed [OF k ok this] show ?thesis by simp
qed

section \<open>Gas bounds every run\<close>

lemma gas_cost_default:
  "unat (gas_cost gas_schedule_default op) \<le> 32000"
  "op \<notin> {OpStop, OpInvalid, OpReturn, OpRevert} \<Longrightarrow> 1 \<le> unat (gas_cost gas_schedule_default op)"
  by (auto simp: gas_cost_def gas_schedule_default_def SHA3_GAS_def COLD_SLOAD_GAS_def SSTORE_SET_GAS_def
      CALL_GAS_def SELFDESTRUCT_GAS_def)

lemma vm_bind_VOk: "vm_bind m f s = (VOk b, s') \<Longrightarrow> \<exists>a s1. m s = (VOk a, s1) \<and> f a s1 = (VOk b, s')"
  by (auto simp: vm_bind_def split: prod.splits vm_result.splits)

lemma free_ops_stop:
  assumes "exec_op X op s = (VOk u, s')" "op \<in> {OpStop, OpInvalid, OpReturn, OpRevert}"
  shows "stopped s'"
  using assms by (auto simp: exec_op_def vm_err_def dest!: vm_bind_VOk)

text \<open>A machine with the default schedule whose meter cannot wrap around.\<close>

definition metered :: "vm \<Rightarrow> bool" where
  "metered s \<longleftrightarrow>
     schedule s = gas_schedule_default \<and> gas_used (meter s) \<le> gas_limit (meter s) \<and>
     unat (gas_limit (meter s)) + 32000 < 2 ^ 64"

lemma vm_step_metered:
  assumes keccak: "\<And>m. length (keccak256 X m) = 32"
    and ok: "vm_ok s" "metered s" "pc s < length (vm_code s)" and step: "vm_step X s = (r, s')"
  shows "vm_ok s' \<and> metered s' \<and> gas_limit (meter s') = gas_limit (meter s) \<and> vm_code s' = vm_code s \<and>
    (r = VOk () \<longrightarrow> stopped s' \<or> gas_used (meter s) < gas_used (meter s'))"
  using step
proof (cases rule: vm_step_cases)
  case 1
  with ok show ?thesis by simp
next
  case (2 op g)
  let ?s = "s\<lparr>meter := g, pc := pc s + 1\<rparr>" and ?c = "gas_cost gas_schedule_default op"
  have sch: "schedule s = gas_schedule_default" using ok by (simp add: metered_def)
  have c: "unat ?c \<le> 32000" by (rule gas_cost_default)
  have used: "unat (gas_used (meter s)) + unat ?c < 2 ^ 64"
    using ok(2) c by (simp add: metered_def word_le_nat_alt)
  then have g: "g = (meter s)\<lparr>gas_used := gas_used (meter s) + ?c\<rparr>"
    "unat (gas_used (meter s)) + unat ?c \<le> unat (gas_limit (meter s))"
    using 2(2) by (auto simp: sch use_gas_exact split: if_splits)
  have gu: "unat (gas_used g) = unat (gas_used (meter s)) + unat ?c"
    using used by (simp add: g unat_add_no_overflow)
  have "vm_ok ?s" using ok by (simp add: vm_ok_def)
  with typed_exec_op [OF keccak, of op] have t: "vm_ok s'" "vm_code s' = vm_code s" "meter s' = g" "schedule s' = gas_schedule_default"
    using 2(3) by (auto simp: typed_def sch dest!: spec [of _ ?s])
  have "metered s'"
    using ok(2) gu g(2) by (simp add: metered_def t word_le_nat_alt g(1))
  moreover have "r = VOk () \<longrightarrow> stopped s' \<or> gas_used (meter s) < gas_used (meter s')"
  proof (cases "op \<in> {OpStop, OpInvalid, OpReturn, OpRevert}")
    case True
    then show ?thesis using free_ops_stop [of X op ?s] 2(3) by auto
  next
    case False
    then show ?thesis using gas_cost_default(2) [OF False] gu by (simp add: t word_less_nat_alt)
  qed
  ultimately show ?thesis by (simp add: t g)
qed

definition steps_left :: "vm \<Rightarrow> nat" where
  "steps_left s = (if stopped s then 0 else Suc (unat (gas_limit (meter s)) - unat (gas_used (meter s))))"

lemma vm_run_metered:
  assumes keccak: "\<And>m. length (keccak256 X m) = 32" and "vm_ok s" "metered s"
  shows "\<exists>r s'. vm_run X s = Some (r, s') \<and> vm_ok s' \<and> metered s' \<and> gas_limit (meter s') = gas_limit (meter s)"
  using assms(2,3)
proof (induction "steps_left s" arbitrary: s rule: less_induct)
  case less
  show ?case
  proof (cases "\<not> stopped s \<and> pc s < length (vm_code s)")
    case False
    then have "vm_run X s = Some (VOk (return_data s), s)" by (subst vm_run.simps) auto
    with less.prems show ?thesis by auto
  next
    case True
    obtain r s1 where step: "vm_step X s = (r, s1)" by fastforce
    note s1 = vm_step_metered [OF keccak less.prems _ step]
    show ?thesis
    proof (cases "r = VOk ()")
      case ok: True
      have "steps_left s1 < steps_left s"
        using True s1 ok less.prems
        by (auto simp: steps_left_def metered_def word_less_nat_alt word_le_nat_alt)
      then have "\<exists>r s'. vm_run X s1 = Some (r, s') \<and> vm_ok s' \<and> metered s' \<and> gas_limit (meter s') = gas_limit (meter s1)"
        using s1 True by (intro less.hyps) auto
      moreover have "vm_run X s = vm_run X s1"
        using True step ok by (subst vm_run.simps) simp
      ultimately show ?thesis using s1 True by auto
    next
      case False
      then have "\<exists>r'. vm_run X s = Some (r', s1)"
        using True step by (subst vm_run.simps) (cases r; auto)
      with s1 True show ?thesis by blast
    qed
  qed
qed

section \<open>Properties of the virtual machine\<close>

text \<open>
  C27. Every run of the virtual machine ends: with the default schedule and a gas limit that leaves room
  for one more instruction below \<open>2 ^ 64\<close>, \<open>run\<close> returns (or panics) on every code, has not
  used more gas than the limit, and leaves at most 1024 words of 32 bytes on the stack. Keccak
  digests have 32 bytes.
\<close>

theorem vm_run_terminates:
  assumes "\<forall>m. length (keccak256 X m) = 32" "unat limit + 32000 < 2 ^ 64"
  shows "\<exists>r s. vm_run X (vm_new c limit) = Some (r, s) \<and> gas_used (meter s) \<le> limit \<and>
           length (stack s) \<le> 1024 \<and> (\<forall>w \<in> set (stack s). length w = 32)"
proof -
  have "vm_ok (vm_new c limit)" "metered (vm_new c limit)"
    using assms(2) by (simp_all add: vm_ok_def metered_def vm_new_def vm_with_schedule_def gas_meter_new_def
        memory_new_def)
  from vm_run_metered [OF _ this, of X] assms(1) obtain r s where
    "vm_run X (vm_new c limit) = Some (r, s)" "vm_ok s" "metered s" "gas_limit (meter s) = gas_limit (meter (vm_new c limit))"
    by blast
  then show ?thesis
    by (auto simp: vm_ok_def metered_def MAX_STACK_SIZE_def vm_new_def vm_with_schedule_def gas_meter_new_def)
qed

theorem vm_run_terminates_witness:
  "\<exists>r s. vm_run sample_externals (vm_new [0x5b, 0x58, 0x58, 0x14, 0x56] 10000000) = Some (r, s) \<and>
     gas_used (meter s) \<le> 10000000"
proof -
  have "\<forall>m. length (keccak256 sample_externals m) = 32" by (auto simp: sample_externals_def)
  from vm_run_terminates [OF this, of 10000000 "[0x5b, 0x58, 0x58, 0x14, 0x56]"] show ?thesis by auto
qed

text \<open>A loop of five instructions: \<open>JUMPDEST\<close>, twice \<open>PC\<close>, \<open>EQ\<close> (which yields zero) and \<open>JUMP\<close>.\<close>

definition loop_code :: bytes where
  "loop_code = [0x5b, 0x58, 0x58, 0x14, 0x56]"

definition looping :: "vm \<Rightarrow> bool" where
  "looping s \<longleftrightarrow>
     vm_code s = loop_code \<and> \<not> stopped s \<and> gas_limit (meter s) = - 1 \<and>
     (pc s, stack s) \<in> {(0, []), (1, []), (2, [counter_word 2]), (3, [counter_word 2, counter_word 3]), (4, [word_zero])}"

lemma loop_opcodes:
  "from_u8 0x5b = Some OpJumpDest" "from_u8 0x58 = Some OpPC" "from_u8 0x14 = Some OpEq" "from_u8 0x56 = Some OpJump"
  by (simp_all add: from_u8_def opcode_rows_def)

lemma use_gas_unlimited: "gas_limit m = - 1 \<Longrightarrow> use_gas amount m = (True, m\<lparr>gas_used := gas_used m + amount\<rparr>)"
  by (simp add: use_gas_def not_less)

lemma looping_step:
  assumes "looping s"
  shows "\<exists>s'. vm_step X s = (VOk (), s') \<and> looping s'"
proof -
  have words: "counter_word 2 \<noteq> counter_word 3" "word_to_usize word_zero = 0"
    by (simp_all add: counter_word_def be_bytes_def word_to_usize_def u64_from_be_def word_zero_def be_nat_replicate)
  have gas: "use_gas amount (meter s) = (True, (meter s)\<lparr>gas_used := gas_used (meter s) + amount\<rparr>)" for amount
    using assms by (simp add: looping_def use_gas_unlimited)
  have c: "vm_code s = loop_code" "\<not> stopped s" "gas_limit (meter s) = - 1" using assms by (simp_all add: looping_def)
  consider "pc s = 0" "stack s = []" | "pc s = 1" "stack s = []" | "pc s = 2" "stack s = [counter_word 2]"
    | "pc s = 3" "stack s = [counter_word 2, counter_word 3]" | "pc s = 4" "stack s = [word_zero]"
    using assms by (auto simp: looping_def)
  then show ?thesis
    using c words
    by cases (simp_all add: vm_step_def gas loop_code_def loop_opcodes exec_op_def vm_ret_def looping_def push_op_def
        stack_push_def MAX_STACK_SIZE_def binary_op_def vm_bind_def pop_op_def stack_pop_def word_of_bool_def
        offset_op_def jump_to_def numeral_eq_Suc)
qed

lemma looping_never_returns:
  assumes "vm_run X s = Some y"
  shows "\<not> looping s"
proof (rule vm_run.raw_induct [OF _ assms, where P = "\<lambda>X s y. \<not> looping s"], goal_cases)
  case (1 run X s y)
  show ?case
  proof
    assume l: "looping s"
    then obtain s' where "vm_step X s = (VOk (), s')" "looping s'" using looping_step by blast
    moreover have "\<not> stopped s" "pc s < length (vm_code s)" using l by (auto simp: looping_def loop_code_def)
    ultimately have "run X s' = Some y" using 1(2) by simp
    with 1(1) \<open>looping s'\<close> show False by blast
  qed
qed

text \<open>
  With the largest gas limit the meter is no bound: \<open>use_gas\<close> adds before it compares, the sum
  wraps around, and no instruction is ever refused. The five-instruction loop then never returns.
\<close>

theorem unlimited_gas_never_returns:
  "vm_run X (vm_new [0x5b, 0x58, 0x58, 0x14, 0x56] (- 1)) = None"
proof -
  have "looping (vm_new [0x5b, 0x58, 0x58, 0x14, 0x56] (- 1))"
    by (simp add: looping_def loop_code_def vm_new_def vm_with_schedule_def gas_meter_new_def)
  then show ?thesis using looping_never_returns by (metis option.exhaust)
qed

end
