(* ===== verification/Vault_Manager.thy ===== *)
theory Vault_Manager
  imports Vault_Supply State_Manager
begin

text \<open>
  \<open>src/vault/manager.rs\<close>: transfers with their fee split, fee distribution and burning over the
  state manager. \<open>parking_lot\<close> locks are not re-entrant, and in the assignment of the reduced
  supply the read guard of the right-hand side is still alive when the write lock is taken;
  \<open>execute_transfer\<close> is therefore an \<open>outcome\<close>, \<open>Blocked\<close> where the thread waits for itself.
  The bridge methods and \<open>process_dormant_accounts\<close> of the trait are stubs in the source (they
  return without touching the state) and are modelled as such.
\<close>

datatype vault_lock = TotalSupplyLock

record transfer_result =
  tr_success :: bool
  from_balance_after :: u128
  to_balance_after :: u128
  fee_burned :: u128
  fee_to_validator :: u128
  fee_to_genesis :: u128

record fee_distribution =
  fd_total_fee :: u128
  fd_burned :: u128
  fd_to_validators :: u128
  fd_to_genesis :: u128
  fd_phase :: supply_phase

record 's vault_manager =
  vm_state :: "'s state_manager"
  vm_total_supply :: u128
  genesis_balance :: u128
  vm_total_burned :: u128
  total_fees_collected :: u128
  total_transfers :: u64

definition FOUNDER_VESTING_ADDRESS :: address where "FOUNDER_VESTING_ADDRESS = replicate 32 1"
definition FOUNDER_ALLOCATION :: u128 where "FOUNDER_ALLOCATION = 55000000000000"
definition GENESIS_VAULT_ADDRESS :: address where "GENESIS_VAULT_ADDRESS = zero32"

definition vault_manager_new :: "'s state_manager \<Rightarrow> 's vault_manager" where
  "vault_manager_new sm =
     \<lparr>vm_state = sm, vm_total_supply = TOTAL_SUPPLY, genesis_balance = GENESIS_BALANCE,
      vm_total_burned = 0, total_fees_collected = 0, total_transfers = 0\<rparr>"

definition initialize_genesis :: "timestamp \<Rightarrow> 's vault_manager \<Rightarrow> 's vault_manager" where
  "initialize_genesis now v =
     (let founder = (account_new now FOUNDER_VESTING_ADDRESS FOUNDER_ALLOCATION)\<lparr>account_kind := System\<rparr>
      in v\<lparr>vm_state := set_account FOUNDER_VESTING_ADDRESS founder
             (set_account GENESIS_VAULT_ADDRESS (genesis_sovereign now GENESIS_BALANCE) (vm_state v))\<rparr>)"

definition current_phase :: "'s vault_manager \<Rightarrow> supply_phase" where
  "current_phase v = from_supply (vm_total_supply v)"

definition transfer_burned :: "u128 \<Rightarrow> u128 \<Rightarrow> u128" where
  "transfer_burned supply fee = word_of_f64 (fl_mul (f64_of_word fee) (burn_rate (from_supply supply) supply))"

definition transfer_to_genesis :: "u128 \<Rightarrow> u128 \<Rightarrow> u128" where
  "transfer_to_genesis supply fee = word_of_f64 (fl_mul (f64_of_word fee) (genesis_rate (from_supply supply) supply))"

definition transfer_to_validators :: "u128 \<Rightarrow> u128 \<Rightarrow> u128" where
  "transfer_to_validators supply fee =
     saturating_sub (saturating_sub fee (transfer_burned supply fee)) (transfer_to_genesis supply fee)"

definition node_share :: "u128 \<Rightarrow> u128 \<Rightarrow> u128" where
  "node_share supply fee = word_of_f64 (fl_mul (f64_of_word fee) (node_rate (from_supply supply) supply))"

text \<open>The genesis account receives its share of a fee.\<close>

definition credit_genesis ::
    "'s storage_ops \<Rightarrow> timestamp \<Rightarrow> u128 \<Rightarrow> 's state_manager \<Rightarrow> unit pacyte_result \<times> 's state_manager" where
  "credit_genesis S now amount sm =
     (case sm_get_account S GENESIS_VAULT_ADDRESS sm of
        (Inl e, sm') \<Rightarrow> (Inl e, sm')
      | (Inr opt, sm') \<Rightarrow>
          let genesis = (case opt of Some g \<Rightarrow> g | None \<Rightarrow> genesis_sovereign now 0)
          in (Inr (), set_account GENESIS_VAULT_ADDRESS
                (genesis\<lparr>balance := saturating_add (balance genesis) amount\<rparr>) sm'))"

text \<open>\<open>*total_supply.write() = total_supply.read().saturating_sub(burned)\<close> and the burn counter.\<close>

definition burn_fee :: "u128 \<Rightarrow> 's vault_manager \<Rightarrow> 's vault_manager outcome" where
  "burn_fee burned v =
     (if may_write [(TotalSupplyLock, ReadGuard)] TotalSupplyLock
      then Returned (v\<lparr>vm_total_supply := saturating_sub (vm_total_supply v) burned,
                       vm_total_burned := vm_total_burned v + burned\<rparr>)
      else Blocked)"

text \<open>From the genesis credit on: the accounts are stored and the result is assembled.\<close>

definition store_transfer ::
    "'s storage_ops \<Rightarrow> timestamp \<Rightarrow> address \<Rightarrow> address \<Rightarrow> u128 \<Rightarrow> u128 \<Rightarrow> u128 \<Rightarrow> u128 \<Rightarrow> account \<Rightarrow> account \<Rightarrow>
     's vault_manager \<Rightarrow> transfer_result pacyte_result \<times> 's vault_manager" where
  "store_transfer S now from to fee burned to_genesis to_validators from' to' v =
     (case (if to_genesis > 0 then credit_genesis S now to_genesis (vm_state v) else (Inr (), vm_state v)) of
        (Inl e, sm) \<Rightarrow> (Inl e, v\<lparr>vm_state := sm\<rparr>)
      | (Inr _, sm) \<Rightarrow>
          let sm1 = set_account to to' (set_account from from' sm);
              v1 = v\<lparr>vm_state := sm1, total_fees_collected := total_fees_collected v + fee,
                     total_transfers := total_transfers v + 1\<rparr>
          in case get_balance S from sm1 of
               (Inl e, sm2) \<Rightarrow> (Inl e, v1\<lparr>vm_state := sm2\<rparr>)
             | (Inr fb, sm2) \<Rightarrow>
                 (case get_balance S to sm2 of
                    (Inl e, sm3) \<Rightarrow> (Inl e, v1\<lparr>vm_state := sm3\<rparr>)
                  | (Inr tb, sm3) \<Rightarrow>
                      (Inr \<lparr>tr_success = True, from_balance_after = fb, to_balance_after = tb,
                            fee_burned = burned, fee_to_validator = to_validators,
                            fee_to_genesis = to_genesis\<rparr>, v1\<lparr>vm_state := sm3\<rparr>)))"

definition execute_transfer ::
    "'s storage_ops \<Rightarrow> timestamp \<Rightarrow> address \<Rightarrow> address \<Rightarrow> u128 \<Rightarrow> u128 \<Rightarrow> 's vault_manager \<Rightarrow>
     (transfer_result pacyte_result \<times> 's vault_manager) outcome" where
  "execute_transfer S now from to amount fee v =
     (let total_deduct = saturating_add amount fee in
      case sm_get_account S from (vm_state v) of
        (Inl e, sm1) \<Rightarrow> Returned (Inl e, v\<lparr>vm_state := sm1\<rparr>)
      | (Inr None, sm1) \<Rightarrow> Returned (Inl (AccountNotFound (debug_bytes from)), v\<lparr>vm_state := sm1\<rparr>)
      | (Inr (Some acc), sm1) \<Rightarrow>
          if is_dormant acc then Returned (Inl (DormantAccount 6), v\<lparr>vm_state := sm1\<rparr>)
          else if balance acc < total_deduct
          then Returned (Inl (InsufficientBalance total_deduct (balance acc)), v\<lparr>vm_state := sm1\<rparr>)
          else
            let acc1 = snd (increment_nonce now acc);
                from' = record_activity now (acc1\<lparr>balance := balance acc1 - total_deduct\<rparr>)
            in case sm_get_account S to sm1 of
                 (Inl e, sm2) \<Rightarrow> Returned (Inl e, v\<lparr>vm_state := sm2\<rparr>)
               | (Inr opt, sm2) \<Rightarrow>
                   let to' = credited now to amount opt;
                       supply = vm_total_supply v;
                       burned = transfer_burned supply fee;
                       to_genesis = transfer_to_genesis supply fee;
                       to_validators = transfer_to_validators supply fee
                   in case (if burned > 0 then burn_fee burned (v\<lparr>vm_state := sm2\<rparr>)
                            else Returned (v\<lparr>vm_state := sm2\<rparr>)) of
                        Blocked \<Rightarrow> Blocked
                      | Returned v1 \<Rightarrow>
                          Returned (store_transfer S now from to fee burned to_genesis to_validators from' to' v1))"

definition vault_transfer ::
    "'s storage_ops \<Rightarrow> timestamp \<Rightarrow> address \<Rightarrow> address \<Rightarrow> u128 \<Rightarrow> u128 \<Rightarrow> 's vault_manager \<Rightarrow>
     (transfer_result pacyte_result \<times> 's vault_manager) outcome" where
  "vault_transfer S now from to amount fee v =
     (if amount < MIN_BALANCE then Returned (Inl (AmountTooSmall amount MIN_BALANCE), v)
      else if from = to then Returned (Inl SelfTransfer, v)
      else execute_transfer S now from to amount fee v)"

definition vault_burn :: "u128 \<Rightarrow> 's vault_manager \<Rightarrow> unit pacyte_result \<times> 's vault_manager" where
  "vault_burn amount v =
     (if amount = 0 then (Inr (), v)
      else if vm_total_supply v < amount then (Inl InsufficientSupply, v)
      else (Inr (), v\<lparr>vm_total_supply := vm_total_supply v - amount,
                     vm_total_burned := vm_total_burned v + amount\<rparr>))"

definition distribute_fees ::
    "'s storage_ops \<Rightarrow> timestamp \<Rightarrow> u128 \<Rightarrow> 's vault_manager \<Rightarrow>
     fee_distribution pacyte_result \<times> 's vault_manager" where
  "distribute_fees S now total_fee v =
     (let phase = current_phase v;
          supply = vm_total_supply v;
          burned = transfer_burned supply total_fee;
          to_validators = node_share supply total_fee;
          to_genesis = saturating_sub (saturating_sub total_fee burned) to_validators
      in case (if burned > 0 then vault_burn burned v else (Inr (), v)) of
           (Inl e, v1) \<Rightarrow> (Inl e, v1)
         | (Inr _, v1) \<Rightarrow>
             (case (if to_genesis > 0 then credit_genesis S now to_genesis (vm_state v1) else (Inr (), vm_state v1)) of
                (Inl e, sm) \<Rightarrow> (Inl e, v1\<lparr>vm_state := sm\<rparr>)
              | (Inr _, sm) \<Rightarrow>
                  (Inr \<lparr>fd_total_fee = total_fee, fd_burned = burned, fd_to_validators = to_validators,
                        fd_to_genesis = to_genesis, fd_phase = phase\<rparr>, v1\<lparr>vm_state := sm\<rparr>)))"

text \<open>The stubs: the list of dormant accounts is always empty.\<close>

definition process_dormant_accounts :: "timestamp \<Rightarrow> 's vault_manager \<Rightarrow> address list pacyte_result \<times> 's vault_manager" where
  "process_dormant_accounts now v = (Inr [], v)"

definition vault_initiate_bridge :: "'s vault_manager \<Rightarrow> u64 pacyte_result \<times> 's vault_manager" where
  "vault_initiate_bridge v = (Inr 0, v)"

section \<open>Bounds on the rates\<close>

text \<open>Bounds of a rounded value from bounds of the exact one, with one part in ten million to spare.\<close>

lemma half_ulp_small: "0 < half_ulp" "half_ulp \<le> 1 / 10000000"
  by (simp_all add: half_ulp_def)

lemma rnd_upper: "0 \<le> x \<Longrightarrow> x \<le> c \<Longrightarrow> rnd x \<le> c * (1 + 1 / 10000000)"
proof -
  assume x: "0 \<le> x" "x \<le> c"
  have "rnd x \<le> x * (1 + half_ulp)" using rnd_le [OF x(1)] .
  also have "\<dots> \<le> c * (1 + 1 / 10000000)"
    using x half_ulp_small by (intro mult_mono) auto
  finally show ?thesis .
qed

lemma rnd_lower: "0 \<le> c \<Longrightarrow> c \<le> x \<Longrightarrow> c * (1 - 1 / 10000000) \<le> rnd x"
proof -
  assume x: "0 \<le> c" "c \<le> x"
  have "c * (1 - 1 / 10000000) \<le> x * (1 - half_ulp)"
    using x half_ulp_small by (intro mult_mono) auto
  also have "\<dots> \<le> rnd x" using rnd_ge [of x] x by simp
  finally show ?thesis .
qed

lemma rnd_neg: "x \<le> 0 \<Longrightarrow> rnd x \<le> 0"
  using rnd_nonneg [of "- x"] by (auto simp: rnd_def)

lemma rat_unsigned_nonneg [simp]: "0 \<le> (unsigned (w :: 'a::len word) :: rat)"
  by (metis of_nat_0_le_iff of_nat_unat)

lemma f64_of_word_nonneg: "0 \<le> f64_of_word w"
  unfolding f64_of_word_def by (rule rnd_nonneg) (rule of_nat_0_le_iff)

lemma f64_of_word_bounds:
  "of_nat (unat w) * (1 - 1 / 10000000) \<le> f64_of_word w"
  "f64_of_word w \<le> of_nat (unat w) * (1 + 1 / 10000000)"
  unfolding f64_of_word_def
  by (rule rnd_lower [OF of_nat_0_le_iff order_refl], rule rnd_upper [OF of_nat_0_le_iff order_refl])

text \<open>The progress through a phase of 150M, as the exact fraction \<open>p\<close> and as computed.\<close>

lemma phase_progress:
  fixes d :: u128
  assumes p: "p = of_nat (unat d) / 150000000000000"
  shows "p * (1 - 1 / 1000000) \<le> fl_div (f64_of_word d) 150000000000000"
    and "fl_div (f64_of_word d) 150000000000000 \<le> p * (1 + 1 / 1000000)"
    and "0 \<le> fl_div (f64_of_word d) 150000000000000"
proof -
  let ?q = "f64_of_word d / 150000000000000"
  have q: "p * (1 - 1 / 10000000) \<le> ?q" "?q \<le> p * (1 + 1 / 10000000)"
    using f64_of_word_bounds [of d] by (simp_all add: p field_simps)
  have nn: "0 \<le> ?q" "0 \<le> p" using f64_of_word_nonneg [of d] by (simp_all add: p)
  show "fl_div (f64_of_word d) 150000000000000 \<le> p * (1 + 1 / 1000000)"
    using rnd_upper [OF nn(1) q(2)] nn(2) by (simp add: fl_div_def)
  show "p * (1 - 1 / 1000000) \<le> fl_div (f64_of_word d) 150000000000000"
    using rnd_lower [OF _ q(1)] nn(2) by (simp add: fl_div_def)
  show "0 \<le> fl_div (f64_of_word d) 150000000000000"
    unfolding fl_div_def by (rule rnd_nonneg [OF nn(1)])
qed

lemma fl_mul_bounds:
  assumes "0 \<le> l" "l \<le> x" "x \<le> u" "0 \<le> k" "k \<le> y" "y \<le> m"
  shows "l * k * (1 - 1 / 10000000) \<le> fl_mul x y" "fl_mul x y \<le> u * m * (1 + 1 / 10000000)" "0 \<le> fl_mul x y"
proof -
  have "l * k \<le> x * y" "x * y \<le> u * m" "0 \<le> l * k"
    using assms by (auto intro!: mult_mono)
  moreover from this have "0 \<le> x * y" by linarith
  ultimately show "l * k * (1 - 1 / 10000000) \<le> fl_mul x y" "fl_mul x y \<le> u * m * (1 + 1 / 10000000)"
    "0 \<le> fl_mul x y"
    unfolding fl_mul_def using rnd_lower [of "l * k" "x * y"] rnd_upper [of "x * y" "u * m"] rnd_nonneg [of "x * y"]
    by simp_all
qed

lemma literal_bounds:
  assumes "0 \<le> c"
  shows "c * (1 - 1 / 10000000) \<le> rnd c" "rnd c \<le> c * (1 + 1 / 10000000)" "0 \<le> rnd c"
  by (rule rnd_lower [OF assms order_refl], rule rnd_upper [OF assms order_refl], rule rnd_nonneg [OF assms])

lemma great_burn_rate:
  fixes sp :: u128
  assumes "sp \<le> TOTAL_SUPPLY" and p: "p = of_nat (550000000000000 - unat sp) / 150000000000000" and "p \<le> 1"
  shows "60 / 100 + p * 30 / 100 - 1 / 100000 \<le> burn_rate GreatBurn sp"
    and "burn_rate GreatBurn sp \<le> 60 / 100 + p * 30 / 100 + 1 / 100000"
proof -
  let ?pr = "fl_div (f64_of_word (TOTAL_SUPPLY - sp)) 150000000000000"
  have d: "unat (TOTAL_SUPPLY - sp) = 550000000000000 - unat sp"
    using unat_sub_le [OF assms(1)] by (simp add: TOTAL_SUPPLY_def)
  have "p = of_nat (unat (TOTAL_SUPPLY - sp)) / 150000000000000" using p d by simp
  note pr = phase_progress [OF this]
  have p0: "0 \<le> p" by (simp add: p)
  have m: "p * (1 - 1 / 1000000) * (30 / 100 * (1 - 1 / 10000000)) * (1 - 1 / 10000000) \<le> fl_mul ?pr (rnd (30 / 100))"
    "fl_mul ?pr (rnd (30 / 100)) \<le> p * (1 + 1 / 1000000) * (30 / 100 * (1 + 1 / 10000000)) * (1 + 1 / 10000000)"
    using fl_mul_bounds [OF _ pr(1,2) _ literal_bounds(1,2) [of "30 / 100"]] p0 by auto
  have c: "60 / 100 * (1 - 1 / 10000000) \<le> rnd (60 / 100)" "rnd (60 / 100) \<le> 60 / 100 * (1 + 1 / 10000000)"
    using literal_bounds(1,2) [of "60 / 100"] by auto
  have s: "60 / 100 + p * 30 / 100 - 1 / 1000000 \<le> rnd (60 / 100) + fl_mul ?pr (rnd (30 / 100))"
    "rnd (60 / 100) + fl_mul ?pr (rnd (30 / 100)) \<le> 60 / 100 + p * 30 / 100 + 1 / 1000000"
    using m c p0 assms(3) by (simp_all add: field_simps)
  have eq: "burn_rate GreatBurn sp = rnd (rnd (60 / 100) + fl_mul ?pr (rnd (30 / 100)))"
    by (simp add: fl_add_def Let_def)
  show "60 / 100 + p * 30 / 100 - 1 / 100000 \<le> burn_rate GreatBurn sp"
    using rnd_lower [OF _ s(1)] p0 assms(3) unfolding eq by (simp add: field_simps)
  show "burn_rate GreatBurn sp \<le> 60 / 100 + p * 30 / 100 + 1 / 100000"
    using rnd_upper [OF _ s(2)] s(1) p0 assms(3) unfolding eq by (simp add: field_simps)
qed

lemma great_burn_split:
  fixes sp :: u128
  assumes "sp \<le> TOTAL_SUPPLY" "sp > 400000000000000"
  shows "0 \<le> burn_rate GreatBurn sp" "burn_rate GreatBurn sp + max 0 (genesis_rate GreatBurn sp) \<le> 95 / 100"
proof -
  define p where "p = (of_nat (550000000000000 - unat sp) / 150000000000000 :: rat)"
  have "550000000000000 - unat sp \<le> 150000000000000"
    using assms(2) by (simp add: word_less_nat_alt)
  then have "(of_nat (550000000000000 - unat sp) :: rat) \<le> of_nat 150000000000000"
    by (rule of_nat_mono)
  then have p: "p \<le> 1" "0 \<le> p" by (simp_all add: p_def)
  note b = great_burn_rate [OF assms(1) p_def p(1)]
  show "0 \<le> burn_rate GreatBurn sp" using b(1) p(2) by linarith
  let ?b = "burn_rate GreatBurn sp"
  have "0 \<le> 1 - ?b" using b(2) p by linarith
  then have g1: "fl_sub 1 ?b \<le> (1 - ?b) * (1 + 1 / 10000000)"
    unfolding fl_sub_def by (rule rnd_upper) simp
  have c: "36 / 100 * (1 - 1 / 10000000) \<le> rnd (36 / 100)"
    using literal_bounds(1) [of "36 / 100"] by auto
  let ?g = "fl_sub 1 ?b - rnd (36 / 100)"
  have "?b + max 0 (rnd ?g) \<le> 95 / 100"
  proof (cases "0 \<le> ?g")
    case True
    then have "rnd ?g \<le> ?g * (1 + 1 / 10000000)" by (rule rnd_upper) simp
    moreover have "?g \<le> 1" using g1 c b(1) p(2) by (simp add: algebra_simps)
    ultimately have "?b + rnd ?g \<le> 95 / 100"
      using g1 c b p by (simp add: algebra_simps)
    then show ?thesis using b(2) p(1) by (simp add: max_def)
  next
    case False
    then have "rnd ?g \<le> 0" by (intro rnd_neg) simp
    then show ?thesis using b(2) p(1) by (simp add: max_def)
  qed
  then show "?b + max 0 (genesis_rate GreatBurn sp) \<le> 95 / 100"
    by (simp add: fl_sub_def)
qed

lemma transition_split:
  fixes sp :: u128
  assumes "sp \<le> 400000000000000" "sp > 250000000000000"
  shows "0 \<le> burn_rate Transition sp" "burn_rate Transition sp + max 0 (genesis_rate Transition sp) \<le> 95 / 100"
proof -
  define p where "p = (of_nat (unat (sp - 250000000000000)) / 150000000000000 :: rat)"
  define q where "q = (of_nat (unat (400000000000000 - sp)) / 150000000000000 :: rat)"
  have u: "unat (sp - 250000000000000) + unat (400000000000000 - sp) = 150000000000000"
    using assms by (simp add: unat_sub_le less_imp_le word_less_nat_alt word_le_nat_alt)
  then have "(of_nat (unat (sp - 250000000000000) + unat (400000000000000 - sp)) :: rat) = of_nat 150000000000000"
    by (rule arg_cong)
  then have "(of_nat (unat (sp - 250000000000000)) + of_nat (unat (400000000000000 - sp)) :: rat) = 150000000000000"
    by (simp only: of_nat_add of_nat_numeral)
  then have pq: "p + q = 1" by (simp add: p_def q_def flip: add_divide_distrib)
  have nn: "0 \<le> p" "0 \<le> q" by (simp_all add: p_def q_def)
  let ?pr = "fl_div (f64_of_word (sp - 250000000000000)) 150000000000000"
  let ?qr = "fl_div (f64_of_word (400000000000000 - sp)) 150000000000000"
  note pr = phase_progress [OF p_def] and qr = phase_progress [OF q_def]
  have b: "fl_mul (rnd (90 / 100)) ?pr \<le> 90 / 100 * (1 + 1 / 10000000) * (p * (1 + 1 / 1000000)) * (1 + 1 / 10000000)"
    "0 \<le> fl_mul (rnd (90 / 100)) ?pr"
    using fl_mul_bounds [OF _ literal_bounds(1,2) [of "90 / 100"] _ pr(1,2)] nn by auto
  have g: "fl_mul ?qr (rnd (9 / 100)) \<le> q * (1 + 1 / 1000000) * (9 / 100 * (1 + 1 / 10000000)) * (1 + 1 / 10000000)"
    "0 \<le> fl_mul ?qr (rnd (9 / 100))"
    using fl_mul_bounds [OF _ qr(1,2) _ literal_bounds(1,2) [of "9 / 100"]] nn by auto
  have c: "rnd (1 / 100) \<le> 1 / 100 * (1 + 1 / 10000000)" "0 \<le> rnd (1 / 100)"
    using literal_bounds(2,3) [of "1 / 100"] by auto
  show "0 \<le> burn_rate Transition sp" using b(2) by (simp add: Let_def)
  let ?s = "rnd (1 / 100) + fl_mul ?qr (rnd (9 / 100))"
  have "rnd ?s \<le> ?s * (1 + 1 / 10000000)"
    by (rule rnd_upper) (use g(2) c(2) in auto)
  moreover have "?s \<le> 1" using g(1) c(1) pq nn by (simp add: algebra_simps)
  moreover have "0 \<le> rnd ?s" by (rule rnd_nonneg) (use g(2) c(2) in auto)
  ultimately have "fl_mul (rnd (90 / 100)) ?pr + max 0 (rnd ?s) \<le> 95 / 100"
    using b(1) g(1) c(1) pq nn by (simp add: algebra_simps max_def)
  then show "burn_rate Transition sp + max 0 (genesis_rate Transition sp) \<le> 95 / 100"
    by (simp add: Let_def fl_add_def)
qed

lemma rates_split:
  assumes "sp \<le> TOTAL_SUPPLY"
  shows "0 \<le> burn_rate (from_supply sp) sp"
    "burn_rate (from_supply sp) sp + max 0 (genesis_rate (from_supply sp) sp) \<le> 95 / 100"
proof -
  have "rnd (1 / 10) \<le> 1 / 10 * (1 + 1 / 10000000)" "0 \<le> rnd (1 / 10)"
    using literal_bounds(2,3) [of "1 / 10"] by auto
  then have "max 0 (rnd (1 / 10)) \<le> 95 / 100" by simp
  then show "0 \<le> burn_rate (from_supply sp) sp"
    "burn_rate (from_supply sp) sp + max 0 (genesis_rate (from_supply sp) sp) \<le> 95 / 100"
    using great_burn_split [OF assms] transition_split [of sp]
    by (auto simp: from_supply_def not_less)
qed

lemma share_le:
  assumes "0 \<le> r"
  shows "of_nat (unat (word_of_f64 (fl_mul (f64_of_word fee) r) :: 'a::len word)) \<le>
         of_nat (unat fee) * r * (1 + 1 / 1000000)"
proof -
  let ?x = "fl_mul (f64_of_word fee) r"
  have x: "?x \<le> of_nat (unat fee) * (1 + 1 / 10000000) * r * (1 + 1 / 10000000)" "0 \<le> ?x"
    using fl_mul_bounds [OF f64_of_word_nonneg order_refl f64_of_word_bounds(2) assms order_refl order_refl, of fee]
    by auto
  have "of_nat (unat (word_of_f64 ?x :: 'a word)) \<le> ?x"
  proof -
    have "unat (word_of_f64 ?x :: 'a word) \<le> nat \<lfloor>?x\<rfloor>" by (simp only: unat_word_of_f64 min.cobounded2)
    then have "(of_nat (unat (word_of_f64 ?x :: 'a word)) :: rat) \<le> of_nat (nat \<lfloor>?x\<rfloor>)" by (rule of_nat_mono)
    with of_nat_floor [OF x(2)] show ?thesis by linarith
  qed
  also have "\<dots> \<le> of_nat (unat fee) * r * (1 + 1 / 1000000)"
  proof -
    have "0 \<le> of_nat (unat fee) * r" using assms by simp
    with x(1) show ?thesis by (simp add: algebra_simps)
  qed
  finally show ?thesis .
qed

lemma share_neg: "r \<le> 0 \<Longrightarrow> (word_of_f64 (fl_mul (f64_of_word fee) r) :: 'a::len word) = 0"
  using rnd_neg [of "f64_of_word fee * r"] f64_of_word_nonneg [of fee]
  by (simp add: word_of_f64_def fl_mul_def mult_nonneg_nonpos)

lemma share_ge:
  fixes fee :: u128
  assumes "0 \<le> r" "r \<le> 99 / 100"
  shows "of_nat (unat fee) * r * (1 - 1 / 1000000) - 1 \<le>
         of_nat (unat (word_of_f64 (fl_mul (f64_of_word fee) r) :: u128))"
proof -
  let ?x = "fl_mul (f64_of_word fee) r" and ?n = "of_nat (unat fee) :: rat"
  have x: "?n * (1 - 1 / 10000000) * r * (1 - 1 / 10000000) \<le> ?x"
    "?x \<le> ?n * (1 + 1 / 10000000) * r * (1 + 1 / 10000000)" "0 \<le> ?x"
    using fl_mul_bounds [OF _ f64_of_word_bounds assms(1) order_refl order_refl, of fee]
    by auto
  have nr: "0 \<le> ?n * r" using assms(1) by simp
  have nr': "?n * r \<le> ?n * (99 / 100)" by (intro mult_left_mono assms(2)) simp
  have "unat fee \<le> 2 ^ 128 - 1" using unat_bound [of fee] by simp
  then have "?n \<le> of_nat (2 ^ 128 - 1)" by (rule of_nat_mono)
  then have n: "?n \<le> 2 ^ 128 - 1" by simp
  have "?x < 2 ^ 128 - 1" using x(2) nr nr' n by (simp add: algebra_simps)
  then have "\<lfloor>?x\<rfloor> < 2 ^ 128 - 1" by (simp add: floor_less_iff)
  then have "nat \<lfloor>?x\<rfloor> \<le> 2 ^ 128 - 1" by (simp only: nat_le_iff) simp
  then have "unat (word_of_f64 ?x :: u128) = nat \<lfloor>?x\<rfloor>"
    by (simp add: unat_word_of_f64)
  moreover have "?x - 1 < of_nat (nat \<lfloor>?x\<rfloor>)" using x(3) by linarith
  ultimately show ?thesis using x(1) nr by (simp add: algebra_simps)
qed

lemma two_shares_le:
  fixes x y A G n :: rat
  assumes "A + G \<le> n * (95 / 100)" "0 \<le> n" "x \<le> A * (1 + 1 / 1000000)" "y \<le> G * (1 + 1 / 1000000)"
  shows "x + y \<le> n"
  using assms by (simp add: field_simps)

lemma above_one: "2 * (59 / 100) \<le> (x :: rat) \<Longrightarrow> 0 < x * (1 - 1 / 1000000) - 1"
  by (simp add: field_simps)

lemma overspend_arith:
  fixes n b c B V :: rat
  assumes n: "1000 \<le> n" "n \<le> 10 ^ 14" and b: "66 / 100 - 1 / 100000 \<le> b" "b \<le> 91 / 100"
    and c: "36 / 100 - 1 / 10000000 \<le> c"
    and B: "n * b * (1 - 1 / 1000000) - 1 \<le> B" "B \<le> n * b * (1 + 1 / 1000000)"
    and V: "n * c * (1 - 1 / 1000000) - 1 \<le> V"
  shows "n < B + V" "B \<le> 10 ^ 14" "0 < B"
proof -
  define x y where "x = n * b" and "y = n * c"
  have "n * (66 / 100 - 1 / 100000) \<le> x" "n * (36 / 100 - 1 / 10000000) \<le> y" "x \<le> n * (91 / 100)"
    unfolding x_def y_def using n b c by (intro mult_left_mono; simp)+
  then show "n < B + V" "B \<le> 10 ^ 14" "0 < B"
    using n B V unfolding x_def [symmetric] y_def [symmetric] by (simp_all add: field_simps)
qed

section \<open>Properties of the vault\<close>

text \<open>
  C15. The fee split of a transfer is exact: for every supply up to the total supply and every
  fee, the burned share, the genesis share and the validators' share add up to the fee, with
  every rounding of the floating-point rates taken into account.
\<close>

theorem transfer_fee_split_exact:
  assumes "sp \<le> TOTAL_SUPPLY"
  shows "unat (transfer_burned sp fee) + unat (transfer_to_genesis sp fee) + unat (transfer_to_validators sp fee) =
         unat fee"
proof -
  let ?b = "burn_rate (from_supply sp) sp" and ?g = "genesis_rate (from_supply sp) sp"
  let ?n = "of_nat (unat fee) :: rat"
  note r = rates_split [OF assms]
  have g: "of_nat (unat (transfer_to_genesis sp fee)) \<le> ?n * max 0 ?g * (1 + 1 / 1000000)"
    unfolding transfer_to_genesis_def using share_le [of "max 0 ?g" fee, where ?'a = 128] share_neg [of ?g fee, where ?'a = 128]
    by (auto simp: max_def)
  have b: "of_nat (unat (transfer_burned sp fee)) \<le> ?n * ?b * (1 + 1 / 1000000)"
    unfolding transfer_burned_def by (rule share_le [OF r(1)])
  have "?n * (?b + max 0 ?g) \<le> ?n * (95 / 100)"
    by (intro mult_left_mono r(2)) simp
  then have "?n * ?b + ?n * max 0 ?g \<le> ?n * (95 / 100)" by (simp only: distrib_left)
  moreover have "0 \<le> ?n" by (rule of_nat_0_le_iff)
  ultimately have "of_nat (unat (transfer_burned sp fee)) + of_nat (unat (transfer_to_genesis sp fee)) \<le> ?n"
    by (intro two_shares_le [OF _ _ b g])
  then have "of_nat (unat (transfer_burned sp fee) + unat (transfer_to_genesis sp fee)) \<le> ?n"
    by (simp only: of_nat_add)
  then have "unat (transfer_burned sp fee) + unat (transfer_to_genesis sp fee) \<le> unat fee"
    by (simp only: of_nat_le_iff)
  then show ?thesis
    by (simp add: transfer_to_validators_def unat_saturating_sub)
qed

theorem transfer_fee_split_exact_witness:
  "unat (transfer_burned 500000000000000 (12345 :: u128)) + unat (transfer_to_genesis 500000000000000 12345) +
   unat (transfer_to_validators 500000000000000 12345) = 12345"
  using transfer_fee_split_exact [of 500000000000000 12345] by (simp add: TOTAL_SUPPLY_def)

text \<open>
  \<open>distribute_fees\<close> gives out more than it collects. Through most of the first phase (supply
  above 400M and at most 520M) the burn rate and the fixed 36 percent for the nodes exceed one, so for
  every fee of at least 1000 units the burned and the validators' amount together exceed the
  fee collected, and the genesis share is zero.
\<close>

theorem distribute_fees_overspends:
  fixes v :: "memory_storage vault_manager"
  assumes "vm_total_supply v > 400000000000000" "vm_total_supply v \<le> 520000000000000"
    and "1000 \<le> unat fee" "unat fee < 10 ^ 14"
  shows "\<exists>d v'. distribute_fees (memory_ops X t) now fee v = (Inr d, v') \<and>
     unat (fd_burned d) + unat (fd_to_validators d) > unat fee \<and> fd_to_genesis d = 0 \<and>
     unat (vm_total_supply v') + unat (fd_burned d) = unat (vm_total_supply v)"
proof -
  let ?sp = "vm_total_supply v" and ?n = "of_nat (unat fee) :: rat"
  define m where "m = 550000000000000 - unat ?sp"
  define p where "p = (of_nat m / 150000000000000 :: rat)"
  have sp: "400000000000000 < unat ?sp" "unat ?sp \<le> 520000000000000"
    using assms(1,2) by (simp_all add: word_less_nat_alt word_le_nat_alt)
  then have "(of_nat 30000000000000 :: rat) \<le> of_nat m" "of_nat m \<le> (of_nat 150000000000000 :: rat)"
    by (intro of_nat_mono; simp add: m_def)+
  then have p: "2 / 10 \<le> p" "p \<le> 1" by (simp_all add: p_def)
  have total: "?sp \<le> TOTAL_SUPPLY" using sp(2) by (simp add: TOTAL_SUPPLY_def word_le_nat_alt)
  note b = great_burn_rate [OF total p_def [unfolded m_def] p(2)]
  let ?b = "burn_rate GreatBurn ?sp" and ?c = "rnd (36 / 100) :: rat"
  have c: "35 / 100 \<le> ?c" "?c \<le> 37 / 100" "0 \<le> ?c" "36 / 100 - 1 / 10000000 \<le> ?c"
    using literal_bounds [of "36 / 100"] by auto
  have b': "66 / 100 - 1 / 100000 \<le> ?b" "?b \<le> 91 / 100" "0 \<le> ?b" using b p by linarith+
  define B V where "B = (word_of_f64 (fl_mul (f64_of_word fee) ?b) :: u128)"
    and "V = (word_of_f64 (fl_mul (f64_of_word fee) ?c) :: u128)"
  have n: "1000 \<le> ?n" "?n \<le> 10 ^ 14"
  proof -
    have "of_nat 1000 \<le> ?n" "?n \<le> of_nat (10 ^ 14)" using assms(3,4) by (intro of_nat_mono; simp)+
    then show "1000 \<le> ?n" "?n \<le> 10 ^ 14" by simp_all
  qed
  have B: "?n * ?b * (1 - 1 / 1000000) - 1 \<le> of_nat (unat B)" "of_nat (unat B) \<le> ?n * ?b * (1 + 1 / 1000000)"
    using share_ge [of ?b fee] share_le [of ?b fee, where ?'a = 128] b' by (simp_all add: B_def)
  have V: "?n * ?c * (1 - 1 / 1000000) - 1 \<le> of_nat (unat V)"
    using share_ge [of ?c fee] c by (simp add: V_def)
  note ar = overspend_arith [OF n b'(1,2) c(4) B V]
  have "?n < of_nat (unat B + unat V)" using ar(1) by (simp only: of_nat_add)
  then have over: "unat fee < unat B + unat V" by (simp only: of_nat_less_iff)
  have "of_nat (unat B) \<le> (of_nat (10 ^ 14) :: rat)" using ar(2) by (simp only: of_nat_power of_nat_numeral)
  then have "unat B \<le> 10 ^ 14" by (simp only: of_nat_le_iff)
  then have le: "B \<le> ?sp" using sp(1) by (simp add: word_le_nat_alt)
  have B': "transfer_burned ?sp fee = B" and V': "node_share ?sp fee = V"
    using assms(1) by (simp_all add: transfer_burned_def node_share_def from_supply_def B_def V_def)
  have ph: "current_phase v = GreatBurn" using assms(1) by (simp add: current_phase_def from_supply_def)
  have zero: "saturating_sub (saturating_sub fee B) V = 0"
    using over by (simp add: word_unat_eq_iff unat_saturating_sub)
  have "0 < unat B" using ar(3) by (simp only: of_nat_0_less_iff)
  then have pos: "0 < B" "B \<noteq> 0" by (auto simp: word_less_nat_alt)
  have dist: "distribute_fees (memory_ops X t) now fee v =
      (Inr \<lparr>fd_total_fee = fee, fd_burned = B, fd_to_validators = V, fd_to_genesis = 0, fd_phase = GreatBurn\<rparr>,
       (if B > 0 then v\<lparr>vm_total_supply := ?sp - B, vm_total_burned := vm_total_burned v + B\<rparr> else v)\<lparr>vm_state := vm_state v\<rparr>)"
    using leD [OF le] zero pos
    by (simp add: distribute_fees_def Let_def ph vault_burn_def B' V')
  show ?thesis
    unfolding dist using over le pos by (auto simp: unat_sub_le word_le_nat_alt word_neq_0_conv)
qed

theorem distribute_fees_overspends_witness:
  "\<exists>d v'. distribute_fees (memory_ops sample_externals 0) 0 1000000
       ((vault_manager_new sample_state)\<lparr>vm_total_supply := 450000000000000\<rparr>) = (Inr d, v') \<and>
     unat (fd_burned d) + unat (fd_to_validators d) > 1000000"
  using distribute_fees_overspends
    [of "(vault_manager_new sample_state)\<lparr>vm_total_supply := 450000000000000\<rparr>" 1000000 sample_externals 0 0]
  by auto

text \<open>
  \<open>VaultManager::transfer\<close> on a fresh vault (nothing burned yet): a transfer from a known,
  active sender with sufficient balance, of at least the minimum amount and not to itself, never
  returns as soon as its fee is at least two units, because the supply is assigned under its own
  read guard. With no fee the transfer returns and reports the balances it stored.
\<close>

theorem vault_transfer_deadlocks:
  assumes "mem_view (vm_state v) sender = Some acc" "\<not> is_dormant acc"
    and "saturating_add amount fee \<le> balance acc" "MIN_BALANCE \<le> amount" "sender \<noteq> to"
    and "vm_total_supply v = TOTAL_SUPPLY"
  shows "(2 \<le> unat fee \<longrightarrow> vault_transfer (memory_ops X t) now sender to amount fee v = Blocked) \<and>
     (fee = 0 \<longrightarrow> (\<exists>r v'. vault_transfer (memory_ops X t) now sender to amount fee v = Returned (Inr r, v') \<and>
        from_balance_after r = balance acc - amount \<and> fee_burned r = 0 \<and> fee_to_genesis r = 0))"
proof -
  obtain r1 sm1 where 1: "sm_get_account (memory_ops X t) sender (vm_state v) = (Inr r1, sm1)"
    using mem.get_account_total by blast
  have r1: "r1 = Some acc" using mem.get_account_ok(1) [OF 1] assms(1) by simp
  obtain r2 sm2 where 2: "sm_get_account (memory_ops X t) to sm1 = (Inr r2, sm2)"
    using mem.get_account_total by blast
  let ?sp = "vm_total_supply v"
  have run: "vault_transfer (memory_ops X t) now sender to amount fee v =
      (let from' = record_activity now ((snd (increment_nonce now acc))\<lparr>balance := balance (snd (increment_nonce now acc)) - saturating_add amount fee\<rparr>);
           burned = transfer_burned ?sp fee
       in case (if burned > 0 then burn_fee burned (v\<lparr>vm_state := sm2\<rparr>) else Returned (v\<lparr>vm_state := sm2\<rparr>)) of
            Blocked \<Rightarrow> Blocked
          | Returned v1 \<Rightarrow> Returned (store_transfer (memory_ops X t) now sender to fee burned (transfer_to_genesis ?sp fee)
              (transfer_to_validators ?sp fee) from' (credited now to amount r2) v1))"
    using assms(2-5) 1 2 r1
    by (simp add: vault_transfer_def execute_transfer_def Let_def not_less leD)
  have blocked: "vault_transfer (memory_ops X t) now sender to amount fee v = Blocked" if "2 \<le> unat fee"
  proof -
    have p: "(0 :: rat) = of_nat (550000000000000 - unat TOTAL_SUPPLY) / 150000000000000"
      by (simp add: TOTAL_SUPPLY_def)
    have b: "59 / 100 \<le> burn_rate GreatBurn TOTAL_SUPPLY" "burn_rate GreatBurn TOTAL_SUPPLY \<le> 61 / 100"
      using great_burn_rate [OF order_refl p] by simp_all
    have f: "from_supply TOTAL_SUPPLY = GreatBurn" by (simp add: from_supply_def TOTAL_SUPPLY_def)
    have "(of_nat 2 :: rat) \<le> of_nat (unat fee)" using that by (rule of_nat_mono)
    then have "2 * (59 / 100) \<le> of_nat (unat fee) * burn_rate GreatBurn TOTAL_SUPPLY"
      using b(1) by (intro mult_mono) auto
    then have "0 < of_nat (unat fee) * burn_rate GreatBurn TOTAL_SUPPLY * (1 - 1 / 1000000) - 1" by (rule above_one)
    also have "\<dots> \<le> of_nat (unat (transfer_burned ?sp fee))"
      unfolding transfer_burned_def assms(6) f using b by (intro share_ge) auto
    finally have "0 < unat (transfer_burned ?sp fee)" by (simp only: of_nat_0_less_iff)
    then have "transfer_burned ?sp fee > 0" by (simp add: word_less_nat_alt)
    then show ?thesis by (simp add: run Let_def burn_fee_def)
  qed
  moreover have "\<exists>r v'. vault_transfer (memory_ops X t) now sender to amount fee v = Returned (Inr r, v') \<and>
      from_balance_after r = balance acc - amount \<and> fee_burned r = 0 \<and> fee_to_genesis r = 0" if "fee = 0"
  proof -
    let ?from = "record_activity now ((snd (increment_nonce now acc))\<lparr>balance := balance (snd (increment_nonce now acc)) - amount\<rparr>)"
    have z: "transfer_burned ?sp 0 = 0" "transfer_to_genesis ?sp 0 = 0"
      by (simp_all add: transfer_burned_def transfer_to_genesis_def f64_of_word_def fl_mul_def rnd_def word_of_f64_def)
    have sat: "saturating_add amount 0 = amount" using unat_bound [of amount] by (simp add: saturating_add_def)
    show ?thesis
      using assms(5) by (simp add: that run [unfolded that] z sat Let_def store_transfer_def get_balance_def sm_get_account_def
          set_account_def record_activity_def increment_nonce_def)
  qed
  ultimately show ?thesis by blast
qed

theorem vault_transfer_deadlocks_witness:
  "vault_transfer (memory_ops sample_externals 0) 0 (replicate 32 1) (replicate 32 2) 1000 2
     (vault_manager_new (sample_state\<lparr>account_cache := [(replicate 32 1, sample_account\<lparr>balance := 5000\<rparr>)]\<rparr>)) = Blocked"
proof -
  let ?v = "vault_manager_new (sample_state\<lparr>account_cache := [(replicate 32 1, sample_account\<lparr>balance := 5000\<rparr>)]\<rparr>)"
  have v: "mem_view (vm_state ?v) (replicate 32 1) = Some (sample_account\<lparr>balance := 5000\<rparr>)"
    by (simp add: vault_manager_new_def sm_view_def)
  have ne: "replicate 32 1 \<noteq> (replicate 32 2 :: address)" by (simp add: numeral_eq_Suc)
  show ?thesis
    using vault_transfer_deadlocks [OF v _ _ _ ne, of 1000 2 sample_externals 0 0]
    by (simp add: vault_manager_new_def sample_account_def account_new_def MIN_BALANCE_def saturating_add_def)
qed

end
