(* ===== verification/Execution_Executor.thy ===== *)
theory Execution_Executor
  imports Execution_VM Vault_Manager
begin

text \<open>
  \<open>src/execution/executor.rs\<close>: the transaction executor with its account cache, over the vault (and the
  state manager both share) and a code storage, and the block executor. The code storage is a
  trait object whose implementations are not part of the sources: the record \<open>code_ops\<close> over a state.
  The contract storage is held and never used.

  A call returns (\<open>ExDone\<close>), waits forever for a lock it holds itself (\<open>ExBlocked\<close>, from
  the vault), panics, or runs contract code that never ends.
\<close>

datatype 'a exec_outcome = ExDone 'a | ExBlocked | ExPanic | ExDiverges

fun execution_error_string :: "execution_error \<Rightarrow> string" where
  "execution_error_string (ExOutOfGas used limit) = ''Out of gas: used '' @ show_word used @ '', limit '' @ show_word limit"
| "execution_error_string (ExRevert msg) = ''Contract reverted: '' @ msg"
| "execution_error_string (ExInvalidOpcode b) = ''Invalid opcode: '' @ show_word b"
| "execution_error_string ExStackOverflow = ''Stack overflow''"
| "execution_error_string ExStackUnderflow = ''Stack underflow''"
| "execution_error_string ExInvalidJump = ''Invalid jump destination''"
| "execution_error_string ExCallDepthExceeded = ''Contract call depth exceeded''"
| "execution_error_string (ExContractNotFound a) = ''Contract not found: '' @ debug_bytes a"
| "execution_error_string ExInvalidSignature = ''Invalid signature''"
| "execution_error_string (ExNonceTooLow expected actual) =
     ''Nonce too low: expected '' @ show_word expected @ '', got '' @ show_word actual"
| "execution_error_string (ExInsufficientBalance required available) =
     ''Insufficient balance: required '' @ show_word required @ '', available '' @ show_word available"
| "execution_error_string (ExOther msg) = ''Execution error: '' @ msg"

definition into_pacyte :: "execution_error \<Rightarrow> pacyte_error" where
  "into_pacyte e = ExecutionError (execution_error_string e)"

record 'c code_ops =
  co_get_code :: "address \<Rightarrow> 'c \<Rightarrow> bytes option"
  co_set_code :: "address \<Rightarrow> bytes \<Rightarrow> 'c \<Rightarrow> 'c"
  co_code_exists :: "address \<Rightarrow> 'c \<Rightarrow> bool"

record ('s, 'c) executor =
  ex_vault :: "'s vault_manager"
  gas_calc :: gas_calculator
  code_storage :: 'c
  ex_cache :: "(address \<times> account) list"

definition executor_new :: "'s vault_manager \<Rightarrow> 'c \<Rightarrow> ('s, 'c) executor" where
  "executor_new v c = \<lparr>ex_vault = v, gas_calc = gas_calculator_default, code_storage = c, ex_cache = []\<rparr>"

definition ex_get_account ::
    "'s storage_ops \<Rightarrow> address \<Rightarrow> ('s, 'c) executor \<Rightarrow> account option pacyte_result \<times> ('s, 'c) executor" where
  "ex_get_account S a ex =
     (case map_of (ex_cache ex) a of
        Some acc \<Rightarrow> (Inr (Some acc), ex)
      | None \<Rightarrow>
          (case sm_get_account S a (vm_state (ex_vault ex)) of
             (r, sm) \<Rightarrow>
               let ex1 = ex\<lparr>ex_vault := (ex_vault ex)\<lparr>vm_state := sm\<rparr>\<rparr>
               in (r, case r of Inr (Some acc) \<Rightarrow> ex1\<lparr>ex_cache := AList.update a acc (ex_cache ex1)\<rparr> | _ \<Rightarrow> ex1)))"

definition ex_set_account :: "address \<Rightarrow> account \<Rightarrow> ('s, 'c) executor \<Rightarrow> ('s, 'c) executor" where
  "ex_set_account a acc ex =
     ex\<lparr>ex_cache := AList.update a acc (ex_cache ex),
        ex_vault := (ex_vault ex)\<lparr>vm_state := set_account a acc (vm_state (ex_vault ex))\<rparr>\<rparr>"

text \<open>What every method of the executor returns: its result, the context and the executor.\<close>

type_synonym ('a, 's, 'c) exec_call = "('a pacyte_result \<times> execution_context \<times> ('s, 'c) executor) exec_outcome"

definition ex_validate_transaction ::
    "'s storage_ops \<Rightarrow> 'c code_ops \<Rightarrow> transaction \<Rightarrow> execution_context \<Rightarrow> ('s, 'c) executor \<Rightarrow> (unit, 's, 'c) exec_call" where
  "ex_validate_transaction S C tx ctx ex =
     (case ex_get_account S (tx_from tx) ex of
        (Inl e, ex1) \<Rightarrow> ExDone (Inl e, ctx, ex1)
      | (Inr None, ex1) \<Rightarrow> ExDone (Inl (into_pacyte (ExContractNotFound (tx_from tx))), ctx, ex1)
      | (Inr (Some acc), ex1) \<Rightarrow>
          if tx_nonce tx < nonce acc
          then ExDone (Inl (into_pacyte (ExNonceTooLow (nonce acc) (tx_nonce tx))), ctx, ex1)
          else let cost = saturating_add (tx_amount tx) (tx_fee tx)
               in if balance acc < cost
                  then ExDone (Inl (into_pacyte (ExInsufficientBalance cost (balance acc))), ctx, ex1)
                  else if ctx_gas_limit ctx = 0 then ExPanic
                  else let gas = intrinsic_gas (gas_calc ex1) tx (co_code_exists C (tx_to tx) (code_storage ex1))
                       in ExDone (Inr (), ctx\<lparr>ctx_gas_limit := max (ctx_gas_limit ctx) gas\<rparr>, ex1))"

text \<open>The increment of the sender's nonce after a successful execution.\<close>

definition bump_nonce ::
    "'s storage_ops \<Rightarrow> address \<Rightarrow> (account \<Rightarrow> account) \<Rightarrow> ('s, 'c) executor \<Rightarrow>
     (unit pacyte_result \<times> ('s, 'c) executor) exec_outcome" where
  "bump_nonce S a charge ex =
     (case ex_get_account S a ex of
        (Inl e, ex1) \<Rightarrow> ExDone (Inl e, ex1)
      | (Inr None, ex1) \<Rightarrow> ExPanic
      | (Inr (Some acc), ex1) \<Rightarrow> ExDone (Inr (), ex_set_account a (charge (acc\<lparr>nonce := nonce acc + 1\<rparr>)) ex1))"

definition out_of_gas :: "execution_context \<Rightarrow> execution_result" where
  "out_of_gas ctx = result_failure (ExOutOfGas (ctx_gas_used ctx) (ctx_gas_limit ctx)) (ctx_gas_used ctx)"

definition ex_execute_transfer ::
    "'s storage_ops \<Rightarrow> timestamp \<Rightarrow> transaction \<Rightarrow> execution_context \<Rightarrow> ('s, 'c) executor \<Rightarrow>
     (execution_result, 's, 'c) exec_call" where
  "ex_execute_transfer S now tx ctx ex =
     (case ctx_use_gas (intrinsic_gas (gas_calc ex) tx False) ctx of
        (False, ctx1) \<Rightarrow> ExDone (Inr (out_of_gas ctx1), ctx1, ex)
      | (True, ctx1) \<Rightarrow>
          (case vault_transfer S now (tx_from tx) (tx_to tx) (tx_amount tx) (tx_fee tx) (ex_vault ex) of
             Blocked \<Rightarrow> ExBlocked
           | Returned (Inl e, v) \<Rightarrow> ExDone (Inl e, ctx1, ex\<lparr>ex_vault := v\<rparr>)
           | Returned (Inr _, v) \<Rightarrow>
               (case bump_nonce S (tx_from tx) id (ex\<lparr>ex_vault := v\<rparr>) of
                  ExDone (Inl e, ex2) \<Rightarrow> ExDone (Inl e, ctx1, ex2)
                | ExDone (Inr _, ex2) \<Rightarrow> ExDone (Inr (result_success (ctx_gas_used ctx1) []), ctx1, ex2)
                | ExBlocked \<Rightarrow> ExBlocked | ExPanic \<Rightarrow> ExPanic | ExDiverges \<Rightarrow> ExDiverges)))"

text \<open>
  The part of a contract call after the value transfer: the code runs on the remaining gas, which is
  charged; a failed run leaves the sender's nonce alone.
\<close>

definition run_contract ::
    "externals \<Rightarrow> 's storage_ops \<Rightarrow> bytes \<Rightarrow> transaction \<Rightarrow> execution_context \<Rightarrow> ('s, 'c) executor \<Rightarrow>
     (execution_result, 's, 'c) exec_call" where
  "run_contract X S code tx ctx ex =
     (case vm_run X (vm_new code (remaining_gas ctx)) of
        None \<Rightarrow> ExDiverges
      | Some (VPanic, s) \<Rightarrow> ExPanic
      | Some (VErr e, s) \<Rightarrow>
          let ctx1 = snd (ctx_use_gas (gas_used (meter s)) ctx)
          in ExDone (Inr (result_failure e (ctx_gas_used ctx1)), ctx1, ex)
      | Some (VOk data, s) \<Rightarrow>
          let ctx1 = snd (ctx_use_gas (gas_used (meter s)) ctx)
          in (case bump_nonce S (tx_from tx) id ex of
                ExDone (Inl e, ex2) \<Rightarrow> ExDone (Inl e, ctx1, ex2)
              | ExDone (Inr _, ex2) \<Rightarrow> ExDone (Inr (result_success (ctx_gas_used ctx1) data), ctx1, ex2)
              | ExBlocked \<Rightarrow> ExBlocked | ExPanic \<Rightarrow> ExPanic | ExDiverges \<Rightarrow> ExDiverges))"

definition execute_contract_call ::
    "externals \<Rightarrow> 's storage_ops \<Rightarrow> 'c code_ops \<Rightarrow> timestamp \<Rightarrow> transaction \<Rightarrow> execution_context \<Rightarrow> ('s, 'c) executor \<Rightarrow>
     (execution_result, 's, 'c) exec_call" where
  "execute_contract_call X S C now tx ctx ex =
     (case co_get_code C (tx_to tx) (code_storage ex) of
        None \<Rightarrow> ExDone (Inl (into_pacyte (ExContractNotFound (tx_to tx))), ctx, ex)
      | Some code \<Rightarrow>
          (case ctx_use_gas (intrinsic_gas (gas_calc ex) tx False) ctx of
             (False, ctx1) \<Rightarrow> ExDone (Inr (out_of_gas ctx1), ctx1, ex)
           | (True, ctx1) \<Rightarrow>
               if tx_amount tx > 0 then
                 (case vault_transfer S now (tx_from tx) (tx_to tx) (tx_amount tx) 0 (ex_vault ex) of
                    Blocked \<Rightarrow> ExBlocked
                  | Returned (Inl e, v) \<Rightarrow> ExDone (Inl e, ctx1, ex\<lparr>ex_vault := v\<rparr>)
                  | Returned (Inr _, v) \<Rightarrow> run_contract X S code tx ctx1 (ex\<lparr>ex_vault := v\<rparr>))
               else run_contract X S code tx ctx1 ex))"

definition generate_contract_address :: "externals \<Rightarrow> address \<Rightarrow> u64 \<Rightarrow> address" where
  "generate_contract_address X sender n =
     replicate 12 0 @ drop 12 (keccak256 X (sender @ be_bytes n))"

definition generate_contract_address2 :: "externals \<Rightarrow> address \<Rightarrow> bytes \<Rightarrow> hash \<Rightarrow> address" where
  "generate_contract_address2 X sender salt init_code_hash =
     replicate 12 0 @ drop 12 (keccak256 X ([0xff] @ sender @ salt @ init_code_hash))"

definition contract_account :: "timestamp \<Rightarrow> address \<Rightarrow> u128 \<Rightarrow> account" where
  "contract_account tm a amount =
     \<lparr>acc_address = a, balance = amount, nonce = 1, staked = 0, created_at = tm, last_activity = tm,
      is_dormant = False, is_validator = False, validator_key = None, account_kind = User\<rparr>"

definition execute_contract_creation ::
    "externals \<Rightarrow> 's storage_ops \<Rightarrow> 'c code_ops \<Rightarrow> transaction \<Rightarrow> execution_context \<Rightarrow> ('s, 'c) executor \<Rightarrow>
     (execution_result, 's, 'c) exec_call" where
  "execute_contract_creation X S C tx ctx ex =
     (case ctx_use_gas (intrinsic_gas (gas_calc ex) tx True) ctx of
        (False, ctx1) \<Rightarrow> ExDone (Inr (out_of_gas ctx1), ctx1, ex)
      | (True, ctx1) \<Rightarrow>
          let a = generate_contract_address X (tx_from tx) (tx_nonce tx)
          in (case vm_run X (vm_new (tx_signature tx) (remaining_gas ctx1)) of
                None \<Rightarrow> ExDiverges
              | Some (VPanic, s) \<Rightarrow> ExPanic
              | Some (VErr e, s) \<Rightarrow>
                  let ctx2 = snd (ctx_use_gas (gas_used (meter s)) ctx1)
                  in ExDone (Inr (result_failure e (ctx_gas_used ctx2)), ctx2, ex)
              | Some (VOk code, s) \<Rightarrow>
                  let ctx2 = snd (ctx_use_gas (gas_used (meter s)) ctx1);
                      ex1 = ex\<lparr>code_storage := co_set_code C a code (code_storage ex)\<rparr>
                  in (case bump_nonce S (tx_from tx)
                            (\<lambda>acc. acc\<lparr>balance := saturating_sub (saturating_sub (balance acc) (tx_amount tx)) (tx_fee tx)\<rparr>) ex1 of
                        ExDone (Inl e, ex2) \<Rightarrow> ExDone (Inl e, ctx2, ex2)
                      | ExDone (Inr _, ex2) \<Rightarrow>
                          ExDone (Inr (result_success (ctx_gas_used ctx2) a), ctx2,
                                  ex_set_account a (contract_account (block_timestamp ctx2) a (tx_amount tx)) ex2)
                      | ExBlocked \<Rightarrow> ExBlocked | ExPanic \<Rightarrow> ExPanic | ExDiverges \<Rightarrow> ExDiverges)))"

definition execute_transaction ::
    "externals \<Rightarrow> 's storage_ops \<Rightarrow> 'c code_ops \<Rightarrow> timestamp \<Rightarrow> transaction \<Rightarrow> execution_context \<Rightarrow> ('s, 'c) executor \<Rightarrow>
     (execution_result, 's, 'c) exec_call" where
  "execute_transaction X S C now tx ctx ex =
     (case ex_validate_transaction S C tx ctx ex of
        ExDone (Inl e, ctx1, ex1) \<Rightarrow> ExDone (Inl e, ctx1, ex1)
      | ExDone (Inr _, ctx1, ex1) \<Rightarrow>
          if co_code_exists C (tx_to tx) (code_storage ex1) then execute_contract_call X S C now tx ctx1 ex1
          else if tx_to tx = zero32 then execute_contract_creation X S C tx ctx1 ex1
          else ex_execute_transfer S now tx ctx1 ex1
      | ExBlocked \<Rightarrow> ExBlocked | ExPanic \<Rightarrow> ExPanic | ExDiverges \<Rightarrow> ExDiverges)"

definition call_contract ::
    "externals \<Rightarrow> 'c code_ops \<Rightarrow> address \<Rightarrow> u64 \<Rightarrow> ('s, 'c) executor \<Rightarrow> execution_result pacyte_result exec_outcome" where
  "call_contract X C contract limit ex =
     (case co_get_code C contract (code_storage ex) of
        None \<Rightarrow> ExDone (Inl (into_pacyte (ExContractNotFound contract)))
      | Some code \<Rightarrow>
          (case vm_run X (vm_new code limit) of
             None \<Rightarrow> ExDiverges
           | Some (VPanic, s) \<Rightarrow> ExPanic
           | Some (VErr e, s) \<Rightarrow> ExDone (Inr (result_failure e (gas_used (meter s))))
           | Some (VOk data, s) \<Rightarrow> ExDone (Inr (result_success (gas_used (meter s)) data))))"

definition deploy_contract ::
    "externals \<Rightarrow> 'c code_ops \<Rightarrow> bytes \<Rightarrow> address \<Rightarrow> u64 \<Rightarrow> execution_context \<Rightarrow> ('s, 'c) executor \<Rightarrow>
     ((address \<times> execution_result) pacyte_result \<times> ('s, 'c) executor) exec_outcome" where
  "deploy_contract X C code deployer limit ctx ex =
     (case vm_run X (vm_new code limit) of
        None \<Rightarrow> ExDiverges
      | Some (VPanic, s) \<Rightarrow> ExPanic
      | Some (VErr e, s) \<Rightarrow> ExDone (Inr (zero32, result_failure e (gas_used (meter s))), ex)
      | Some (VOk runtime_code, s) \<Rightarrow>
          let a = generate_contract_address X deployer (tx_index ctx)
          in ExDone (Inr (a, result_success (gas_used (meter s)) a),
                     ex\<lparr>code_storage := co_set_code C a runtime_code (code_storage ex)\<rparr>))"

definition ex_estimate_gas :: "'c code_ops \<Rightarrow> transaction \<Rightarrow> ('s, 'c) executor \<Rightarrow> u64" where
  "ex_estimate_gas C tx ex =
     estimate_gas (gas_calc ex) tx (tx_to tx = zero32 \<or> co_code_exists C (tx_to tx) (code_storage ex))"

section \<open>Blocks\<close>

record block_execution_result =
  ber_block_height :: block_height
  ber_block_hash :: hash
  ber_transaction_count :: nat
  total_gas_used :: u64
  ber_total_fees :: u128
  ber_results :: "execution_result list"
  ber_logs :: "log_entry list"
  ber_events :: "event list"

fun execute_transactions ::
    "externals \<Rightarrow> 's storage_ops \<Rightarrow> 'c code_ops \<Rightarrow> timestamp \<Rightarrow> block_height \<Rightarrow> timestamp \<Rightarrow> hash \<Rightarrow> nat \<Rightarrow>
     transaction list \<Rightarrow> block_execution_result \<Rightarrow> ('s, 'c) executor \<Rightarrow>
     (block_execution_result pacyte_result \<times> ('s, 'c) executor) exec_outcome" where
  "execute_transactions X S C now h tm bh idx [] acc ex = ExDone (Inr acc, ex)"
| "execute_transactions X S C now h tm bh idx (tx # txs) acc ex =
     (let ctx = (context_new h tm (tx_from tx) 10000000)\<lparr>ctx_block_hash := bh, tx_index := of_nat idx\<rparr>
      in case execute_transaction X S C now tx ctx ex of
           ExDone (Inl e, _, ex1) \<Rightarrow> ExDone (Inl e, ex1)
         | ExDone (Inr result, _, ex1) \<Rightarrow>
             let acc1 = acc\<lparr>total_gas_used := total_gas_used acc + er_gas_used result,
                            ber_total_fees := ber_total_fees acc + tx_fee tx,
                            ber_logs := ber_logs acc @ er_logs result, ber_events := ber_events acc @ er_events result,
                            ber_results := ber_results acc @ [result],
                            ber_transaction_count := length (ber_results acc) + 1\<rparr>
             in if \<not> er_success result then ExDone (Inr acc1, ex1)
                else execute_transactions X S C now h tm bh (idx + 1) txs acc1 ex1
         | ExBlocked \<Rightarrow> ExBlocked | ExPanic \<Rightarrow> ExPanic | ExDiverges \<Rightarrow> ExDiverges)"

definition execute_block ::
    "externals \<Rightarrow> 's storage_ops \<Rightarrow> 'c code_ops \<Rightarrow> timestamp \<Rightarrow> transaction list \<Rightarrow> block_height \<Rightarrow> timestamp \<Rightarrow> hash \<Rightarrow>
     ('s, 'c) executor \<Rightarrow> (block_execution_result pacyte_result \<times> ('s, 'c) executor) exec_outcome" where
  "execute_block X S C now txs h tm bh ex =
     execute_transactions X S C now h tm bh 0 txs
       \<lparr>ber_block_height = h, ber_block_hash = bh, ber_transaction_count = 0, total_gas_used = 0, ber_total_fees = 0,
        ber_results = [], ber_logs = [], ber_events = []\<rparr> ex"

section \<open>Transfers through the executor\<close>

lemma free_transfer_shares [simp]: "transfer_burned sp 0 = 0" "transfer_to_genesis sp 0 = 0" "transfer_to_validators sp 0 = 0"
  by (simp_all add: transfer_to_validators_def transfer_burned_def transfer_to_genesis_def f64_of_word_def fl_mul_def
      rnd_def word_of_f64_def saturating_sub_def)

lemma saturating_add_zero [simp]: "saturating_add w 0 = w"
  using unat_bound [of w] by (simp add: saturating_add_def)

text \<open>A transfer without a fee: what the vault stores for the two accounts.\<close>

lemma vault_transfer_free:
  assumes "mem_view (vm_state v) sender = Some acc" "\<not> is_dormant acc" "amount \<le> balance acc"
    and "MIN_BALANCE \<le> amount" "sender \<noteq> to"
  shows "\<exists>r v' acc'. vault_transfer (memory_ops X t) now sender to amount 0 v = Returned (Inr r, v') \<and>
     mem_view (vm_state v') = (mem_view (vm_state v))(sender \<mapsto> acc', to \<mapsto> credited now to amount (mem_view (vm_state v) to)) \<and>
     balance acc' = balance acc - amount"
proof -
  obtain r1 sm1 where 1: "sm_get_account (memory_ops X t) sender (vm_state v) = (Inr r1, sm1)"
    using mem.get_account_total by blast
  obtain r2 sm2 where 2: "sm_get_account (memory_ops X t) to sm1 = (Inr r2, sm2)"
    using mem.get_account_total by blast
  note g = mem.get_account_ok [OF 1] mem.get_account_ok [OF 2]
  define acc' where "acc' = record_activity now ((snd (increment_nonce now acc))\<lparr>balance := balance (snd (increment_nonce now acc)) - amount\<rparr>)"
  define sm3 where "sm3 = set_account to (credited now to amount (mem_view (vm_state v) to)) (set_account sender acc' sm2)"
  obtain b1 sm4 where 4: "get_balance (memory_ops X t) sender sm3 = (Inr b1, sm4)" "mem_view sm4 = mem_view sm3"
  proof -
    obtain r sm4 where "sm_get_account (memory_ops X t) sender sm3 = (Inr r, sm4)"
      using mem.get_account_total by blast
    with mem.get_account_ok(2) [OF this] show thesis
      by (cases r) (auto simp: get_balance_def intro: that)
  qed
  obtain b2 sm5 where 5: "get_balance (memory_ops X t) to sm4 = (Inr b2, sm5)" "mem_view sm5 = mem_view sm4"
  proof -
    obtain r sm5 where "sm_get_account (memory_ops X t) to sm4 = (Inr r, sm5)"
      using mem.get_account_total by blast
    with mem.get_account_ok(2) [OF this] show thesis
      by (cases r) (auto simp: get_balance_def intro: that)
  qed
  have "balance acc' = balance acc - amount" by (simp add: acc'_def record_activity_def increment_nonce_def)
  moreover have "mem_view sm5 = (mem_view (vm_state v))(sender \<mapsto> acc', to \<mapsto> credited now to amount (mem_view (vm_state v) to))"
    using g by (simp add: 4 5 sm3_def)
  moreover have "\<exists>r v'. vault_transfer (memory_ops X t) now sender to amount 0 v = Returned (Inr r, v') \<and> vm_state v' = sm5"
    using assms g 1 2 4(1) 5(1)
    by (simp add: vault_transfer_def execute_transfer_def store_transfer_def Let_def not_less leD
        acc'_def [symmetric] sm3_def [symmetric])
  ultimately show ?thesis by blast
qed

lemma ex_get_account_cached: "map_of (ex_cache ex) a = Some acc \<Longrightarrow> ex_get_account S a ex = (Inr (Some acc), ex)"
  by (simp add: ex_get_account_def)

lemma ex_get_account_fresh:
  assumes "map_of (ex_cache ex) a = None" "mem_view (vm_state (ex_vault ex)) a = Some acc"
  shows "\<exists>ex'. ex_get_account (memory_ops X t) a ex = (Inr (Some acc), ex') \<and>
     mem_view (vm_state (ex_vault ex')) = mem_view (vm_state (ex_vault ex)) \<and>
     map_of (ex_cache ex') a = Some acc \<and> gas_calc ex' = gas_calc ex \<and> code_storage ex' = code_storage ex"
proof -
  obtain r sm where 1: "sm_get_account (memory_ops X t) a (vm_state (ex_vault ex)) = (Inr r, sm)"
    using mem.get_account_total by blast
  with mem.get_account_ok [OF 1] assms show ?thesis by (simp add: ex_get_account_def Let_def)
qed

text \<open>
  A fee-less transfer through the executor creates money. Validation puts the sender's account
  in the executor's cache, the vault debits the stored account, and the nonce update then writes
  the cached copy (with the old balance) back: the receiver is credited, the result says
  success, and the sender has all it had before.
\<close>

theorem executor_transfer_mints:
  assumes "map_of (ex_cache ex) (tx_from tx) = None" "mem_view (vm_state (ex_vault ex)) (tx_from tx) = Some acc"
    and "\<not> is_dormant acc" "nonce acc \<le> tx_nonce tx" "tx_fee tx = 0"
    and "tx_amount tx \<le> balance acc" "MIN_BALANCE \<le> tx_amount tx" "tx_from tx \<noteq> tx_to tx"
    and "\<not> co_code_exists C (tx_to tx) (code_storage ex)" "tx_to tx \<noteq> zero32"
    and "ctx_gas_limit ctx \<noteq> 0" "ctx_gas_used ctx = 0"
  shows "\<exists>res ctx' ex'. execute_transaction X (memory_ops X t) C now tx ctx ex = ExDone (Inr res, ctx', ex') \<and>
     er_success res \<and>
     mem_view (vm_state (ex_vault ex')) (tx_from tx) = Some (acc\<lparr>nonce := nonce acc + 1\<rparr>) \<and>
     mem_view (vm_state (ex_vault ex')) (tx_to tx) =
       Some (credited now (tx_to tx) (tx_amount tx) (mem_view (vm_state (ex_vault ex)) (tx_to tx)))"
proof -
  obtain ex1 where 1: "ex_get_account (memory_ops X t) (tx_from tx) ex = (Inr (Some acc), ex1)"
    "mem_view (vm_state (ex_vault ex1)) = mem_view (vm_state (ex_vault ex))" "map_of (ex_cache ex1) (tx_from tx) = Some acc"
    "gas_calc ex1 = gas_calc ex" "code_storage ex1 = code_storage ex"
    using ex_get_account_fresh [OF assms(1,2), of X t] by blast
  obtain r v' acc' where 2: "vault_transfer (memory_ops X t) now (tx_from tx) (tx_to tx) (tx_amount tx) 0 (ex_vault ex1) = Returned (Inr r, v')"
    "mem_view (vm_state v') = (mem_view (vm_state (ex_vault ex)))(tx_from tx \<mapsto> acc',
       tx_to tx \<mapsto> credited now (tx_to tx) (tx_amount tx) (mem_view (vm_state (ex_vault ex)) (tx_to tx)))"
    using vault_transfer_free [OF _ assms(3,6,7,8), of "ex_vault ex1" X t now] assms(2) by (auto simp: 1(2))
  let ?gas = "intrinsic_gas (gas_calc ex) tx False"
  have validated: "ex_validate_transaction (memory_ops X t) C tx ctx ex = ExDone (Inr (), ctx\<lparr>ctx_gas_limit := max (ctx_gas_limit ctx) ?gas\<rparr>, ex1)"
    using assms(4-6,9,11) by (simp add: ex_validate_transaction_def 1 Let_def leD not_less)
  have bumped: "bump_nonce (memory_ops X t) (tx_from tx) id (ex1\<lparr>ex_vault := v'\<rparr>) =
      ExDone (Inr (), ex_set_account (tx_from tx) (acc\<lparr>nonce := nonce acc + 1\<rparr>) (ex1\<lparr>ex_vault := v'\<rparr>))"
    using ex_get_account_cached [of "ex1\<lparr>ex_vault := v'\<rparr>" "tx_from tx" acc "memory_ops X t"] 1(3) by (simp add: bump_nonce_def)
  show ?thesis
    using assms(5,8-10,12) 2
    by (simp add: execute_transaction_def validated ex_execute_transfer_def ctx_use_gas_def 1 bumped result_success_def
        ex_set_account_def)
qed

definition no_code :: "unit code_ops" where
  "no_code = \<lparr>co_get_code = \<lambda>_ _. None, co_set_code = \<lambda>_ _ c. c, co_code_exists = \<lambda>_ _. False\<rparr>"

definition sample_executor :: "(memory_storage, unit) executor" where
  "sample_executor = executor_new (vault_manager_new sample_state) ()"

theorem executor_transfer_mints_witness:
  "\<exists>res ctx' ex'. execute_transaction sample_externals (memory_ops sample_externals 0) no_code 5 (sample_tx\<lparr>tx_amount := 1000, tx_fee := 0\<rparr>)
       (context_new 1 5 (replicate 32 1) 10000000) sample_executor = ExDone (Inr res, ctx', ex') \<and>
     er_success res \<and> view_balance (mem_view (vm_state (ex_vault ex'))) (replicate 32 1) = 1000"
proof -
  have ne: "replicate 32 1 \<noteq> (replicate 32 2 :: address)" "replicate 32 2 \<noteq> zero32"
    by (simp_all add: numeral_eq_Suc)
  have v: "mem_view (vm_state (ex_vault sample_executor)) (replicate 32 1) = Some sample_account"
    by (simp add: sample_executor_def executor_new_def vault_manager_new_def)
  show ?thesis
    using executor_transfer_mints [of sample_executor "sample_tx\<lparr>tx_amount := 1000, tx_fee := 0\<rparr>" sample_account no_code
        "context_new 1 5 (replicate 32 1) 10000000" sample_externals 0 5] ne v
    by (auto simp: sample_executor_def executor_new_def sample_tx_def sample_account_def account_new_def no_code_def
        context_new_def MIN_BALANCE_def view_balance_def)
qed

end
