(* ===== verification/Execution_Contracts.thy ===== *)
theory Execution_Contracts
  imports Execution_Executor
begin

text \<open>
  \<open>src/execution/precompiles.rs\<close> and \<open>src/execution/contract.rs\<close>: the precompiled contracts with their registry,
  and the contract manager with its metadata, upgrades and events.

  A \<open>dyn Precompile\<close> is the record of its methods. SHA-256, RIPEMD-160 and the \<open>bincode\<close> of a metadata
  record are the fields of \<open>contract_externals\<close>. The two storage traits have no implementation in the
  sources: \<open>kv_ops\<close> and \<open>code_ops\<close> are their methods over a state. A byte slice is shorter than
  \<open>2 ^ 63\<close>, so that the lengths below do not wrap.
\<close>

section \<open>Precompiled contracts\<close>

record contract_metadata =
  cd_address :: address
  cd_owner :: address
  cd_created_at :: timestamp
  created_height :: block_height
  code_hash :: hash
  code_size :: usize
  is_upgradeable :: bool
  implementation :: "address option"
  cd_version :: u32
  cd_name :: "string option"
  cd_symbol :: "string option"

record contract_externals =
  sha256 :: "bytes \<Rightarrow> bytes"
  ripemd160 :: "bytes \<Rightarrow> bytes"
  ser_metadata :: "contract_metadata \<Rightarrow> string + bytes"
  de_metadata :: "bytes \<Rightarrow> string + contract_metadata"

record precompile =
  pc_address :: address
  pc_execute :: "bytes \<Rightarrow> u64 \<Rightarrow> (bytes \<times> u64) pacyte_result"
  pc_gas_cost :: "bytes \<Rightarrow> u64"

definition precompile_address :: "u8 \<Rightarrow> address" where
  "precompile_address n = replicate 31 0 @ [n]"

definition words32 :: "bytes \<Rightarrow> u64" where
  "words32 input = of_nat ((length input + 31) div 32)"

text \<open>The recovered address is the hash itself: the signature is not looked at.\<close>

definition ec_recover_recover :: "bytes \<Rightarrow> u8 \<Rightarrow> bytes \<Rightarrow> bytes \<Rightarrow> bytes" where
  "ec_recover_recover h v r s = replicate 12 0 @ take 20 h"

definition ec_recover_precompile :: precompile where
  "ec_recover_precompile =
     \<lparr>pc_address = precompile_address 1,
      pc_execute = (\<lambda>input gas_limit.
        if 3000 > gas_limit then Inl OutOfGas
        else if length input \<noteq> 128 then Inr ([], 3000)
        else let h = take 32 input; v = input ! 63; r = take 32 (drop 64 input); s = drop 96 input
             in Inr (ec_recover_recover h v r s, 3000)),
      pc_gas_cost = (\<lambda>input. 3000)\<rparr>"

definition sha256_gas :: "bytes \<Rightarrow> u64" where
  "sha256_gas input = 60 + 12 * words32 input"

definition sha256_precompile :: "contract_externals \<Rightarrow> precompile" where
  "sha256_precompile E =
     \<lparr>pc_address = precompile_address 2,
      pc_execute = (\<lambda>input gas_limit.
        if sha256_gas input > gas_limit then Inl OutOfGas else Inr (sha256 E input, sha256_gas input)),
      pc_gas_cost = sha256_gas\<rparr>"

definition ripemd160_gas :: "bytes \<Rightarrow> u64" where
  "ripemd160_gas input = 600 + 120 * words32 input"

definition ripemd160_precompile :: "contract_externals \<Rightarrow> precompile" where
  "ripemd160_precompile E =
     \<lparr>pc_address = precompile_address 3,
      pc_execute = (\<lambda>input gas_limit.
        if ripemd160_gas input > gas_limit then Inl OutOfGas
        else Inr (replicate 12 0 @ ripemd160 E (sha256 E input), ripemd160_gas input)),
      pc_gas_cost = ripemd160_gas\<rparr>"

definition identity_gas :: "bytes \<Rightarrow> u64" where
  "identity_gas input = 15 + 3 * words32 input"

definition identity_precompile :: precompile where
  "identity_precompile =
     \<lparr>pc_address = precompile_address 4,
      pc_execute = (\<lambda>input gas_limit.
        if identity_gas input > gas_limit then Inl OutOfGas else Inr (input, identity_gas input)),
      pc_gas_cost = identity_gas\<rparr>"

definition mod_exp_precompile :: precompile where
  "mod_exp_precompile =
     \<lparr>pc_address = precompile_address 5,
      pc_execute = (\<lambda>input gas_limit. if 100000 > gas_limit then Inl OutOfGas else Inr ([], 100000)),
      pc_gas_cost = (\<lambda>input. 100000)\<rparr>"

definition ec_add_precompile :: precompile where
  "ec_add_precompile =
     \<lparr>pc_address = precompile_address 6,
      pc_execute = (\<lambda>input gas_limit. if 500 > gas_limit then Inl OutOfGas else Inr (replicate 64 0, 500)),
      pc_gas_cost = (\<lambda>input. 500)\<rparr>"

definition ec_mul_precompile :: precompile where
  "ec_mul_precompile =
     \<lparr>pc_address = precompile_address 7,
      pc_execute = (\<lambda>input gas_limit. if 40000 > gas_limit then Inl OutOfGas else Inr (replicate 64 0, 40000)),
      pc_gas_cost = (\<lambda>input. 40000)\<rparr>"

definition ec_pairing_gas :: "bytes \<Rightarrow> u64" where
  "ec_pairing_gas input = 100000 + 80000 * of_nat (length input div 192)"

definition ec_pairing_precompile :: precompile where
  "ec_pairing_precompile =
     \<lparr>pc_address = precompile_address 8,
      pc_execute = (\<lambda>input gas_limit.
        if ec_pairing_gas input > gas_limit then Inl OutOfGas else Inr (replicate 32 1, ec_pairing_gas input)),
      pc_gas_cost = ec_pairing_gas\<rparr>"

definition blake2f_gas :: "bytes \<Rightarrow> u64" where
  "blake2f_gas input = (if length input < 4 then 0 else of_nat (be_nat (take 4 input)))"

definition blake2f_precompile :: precompile where
  "blake2f_precompile =
     \<lparr>pc_address = precompile_address 9,
      pc_execute = (\<lambda>input gas_limit.
        if blake2f_gas input > gas_limit then Inl OutOfGas else Inr (replicate 64 0, blake2f_gas input)),
      pc_gas_cost = blake2f_gas\<rparr>"

type_synonym precompile_manager = "(address \<times> precompile) list"

definition pm_register :: "precompile \<Rightarrow> precompile_manager \<Rightarrow> precompile_manager" where
  "pm_register p pm = AList.update (pc_address p) p pm"

definition precompile_manager_new :: "contract_externals \<Rightarrow> precompile_manager" where
  "precompile_manager_new E =
     foldl (\<lambda>pm p. pm_register p pm) []
       [ec_recover_precompile, sha256_precompile E, ripemd160_precompile E, identity_precompile,
        mod_exp_precompile, ec_add_precompile, ec_mul_precompile, ec_pairing_precompile, blake2f_precompile]"

definition pm_is_precompile :: "address \<Rightarrow> precompile_manager \<Rightarrow> bool" where
  "pm_is_precompile a pm \<longleftrightarrow> map_of pm a \<noteq> None"

definition pm_execute :: "address \<Rightarrow> bytes \<Rightarrow> u64 \<Rightarrow> precompile_manager \<Rightarrow> (bytes \<times> u64) pacyte_result" where
  "pm_execute a input gl pm =
     (case map_of pm a of
        None \<Rightarrow> Inl (PrecompileNotFound a)
      | Some p \<Rightarrow> pc_execute p input gl)"

definition pm_gas_cost :: "address \<Rightarrow> bytes \<Rightarrow> precompile_manager \<Rightarrow> u64 option" where
  "pm_gas_cost a input pm = map_option (\<lambda>p. pc_gas_cost p input) (map_of pm a)"

text \<open>The second set of precompiles, of \<open>contract.rs\<close>. An address is an array of 32 bytes.\<close>

definition builtin_is_precompile :: "address \<Rightarrow> bool" where
  "builtin_is_precompile a \<longleftrightarrow> (\<forall>b\<in>set (take 31 a). b = 0) \<and> a ! 31 \<ge> 1 \<and> a ! 31 \<le> 9"

definition execute_precompile :: "contract_externals \<Rightarrow> address \<Rightarrow> bytes \<Rightarrow> bytes pacyte_result" where
  "execute_precompile E a input =
     (if a ! 31 = 1 then Inr []
      else if a ! 31 = 2 then Inr (sha256 E input)
      else if a ! 31 = 3 then Inr (ripemd160 E (sha256 E input))
      else if a ! 31 = 4 then Inr input
      else Inl (ContractNotFound a))"

section \<open>The contract manager\<close>

record 'k kv_ops =
  kv_get :: "address \<Rightarrow> bytes \<Rightarrow> 'k \<Rightarrow> bytes option"
  kv_set :: "address \<Rightarrow> bytes \<Rightarrow> bytes \<Rightarrow> 'k \<Rightarrow> 'k"

record contract_event =
  ce_contract :: address
  event_name :: string
  ce_topics :: "hash list"
  ce_data :: bytes
  ce_block_height :: block_height
  ce_tx_index :: usize
  ce_log_index :: usize

record ('k, 'c) contract_manager =
  cm_storage :: 'k
  cm_code_storage :: 'c
  metadata_cache :: "(address \<times> contract_metadata) list"
  cm_events :: "contract_event list"

definition contract_metadata_new :: "timestamp \<Rightarrow> address \<Rightarrow> address \<Rightarrow> hash \<Rightarrow> usize \<Rightarrow> block_height \<Rightarrow> contract_metadata" where
  "contract_metadata_new now a own h sz height =
     \<lparr>cd_address = a, cd_owner = own, cd_created_at = now, created_height = height, code_hash = h, code_size = sz,
      is_upgradeable = False, implementation = None, cd_version = 1, cd_name = None, cd_symbol = None\<rparr>"

definition contract_manager_new :: "'k \<Rightarrow> 'c \<Rightarrow> ('k, 'c) contract_manager" where
  "contract_manager_new k c = \<lparr>cm_storage = k, cm_code_storage = c, metadata_cache = [], cm_events = []\<rparr>"

definition metadata_key :: "address \<Rightarrow> bytes" where
  "metadata_key a = ascii ''contract_metadata:'' @ a"

definition hash_code :: "externals \<Rightarrow> bytes \<Rightarrow> hash" where
  "hash_code X code = keccak256 X code"

definition save_metadata ::
    "'k kv_ops \<Rightarrow> contract_externals \<Rightarrow> address \<Rightarrow> contract_metadata \<Rightarrow> ('k, 'c) contract_manager \<Rightarrow>
     unit pacyte_result \<times> ('k, 'c) contract_manager" where
  "save_metadata K E a md m =
     (case ser_metadata E md of
        Inl msg \<Rightarrow> (Inl (SerializationError msg), m)
      | Inr d \<Rightarrow> (Inr (), m\<lparr>cm_storage := kv_set K a (metadata_key a) d (cm_storage m)\<rparr>))"

definition get_metadata ::
    "'k kv_ops \<Rightarrow> contract_externals \<Rightarrow> address \<Rightarrow> ('k, 'c) contract_manager \<Rightarrow>
     contract_metadata option pacyte_result \<times> ('k, 'c) contract_manager" where
  "get_metadata K E a m =
     (case map_of (metadata_cache m) a of
        Some md \<Rightarrow> (Inr (Some md), m)
      | None \<Rightarrow>
          (case kv_get K a (metadata_key a) (cm_storage m) of
             None \<Rightarrow> (Inr None, m)
           | Some d \<Rightarrow>
               (case de_metadata E d of
                  Inl msg \<Rightarrow> (Inl (SerializationError msg), m)
                | Inr md \<Rightarrow> (Inr (Some md), m\<lparr>metadata_cache := AList.update a md (metadata_cache m)\<rparr>))))"

definition deploy ::
    "externals \<Rightarrow> 'k kv_ops \<Rightarrow> 'c code_ops \<Rightarrow> contract_externals \<Rightarrow> timestamp \<Rightarrow> address \<Rightarrow> address \<Rightarrow> bytes \<Rightarrow> block_height \<Rightarrow>
     ('k, 'c) contract_manager \<Rightarrow> contract_metadata pacyte_result \<times> ('k, 'c) contract_manager" where
  "deploy X K C E now a own code height m =
     (if co_code_exists C a (cm_code_storage m) then (Inl (ContractAlreadyExists a), m)
      else let md = contract_metadata_new now a own (hash_code X code) (of_nat (length code)) height;
               m1 = m\<lparr>cm_code_storage := co_set_code C a code (cm_code_storage m)\<rparr>
           in case save_metadata K E a md m1 of
                (Inl e, m2) \<Rightarrow> (Inl e, m2)
              | (Inr _, m2) \<Rightarrow> (Inr md, m2\<lparr>metadata_cache := AList.update a md (metadata_cache m2)\<rparr>))"

text \<open>\<open>call\<close> looks the code up and does not run it.\<close>

definition contract_call :: "'c code_ops \<Rightarrow> address \<Rightarrow> bytes \<Rightarrow> ('k, 'c) contract_manager \<Rightarrow> bytes pacyte_result" where
  "contract_call C a input m =
     (case co_get_code C a (cm_code_storage m) of None \<Rightarrow> Inl (ContractNotFound a) | Some code \<Rightarrow> Inr [])"

definition contract_upgrade ::
    "'k kv_ops \<Rightarrow> 'c code_ops \<Rightarrow> contract_externals \<Rightarrow> address \<Rightarrow> address \<Rightarrow> address \<Rightarrow> ('k, 'c) contract_manager \<Rightarrow>
     unit pacyte_result \<times> ('k, 'c) contract_manager" where
  "contract_upgrade K C E proxy impl own m =
     (case get_metadata K E proxy m of
        (Inl e, m1) \<Rightarrow> (Inl e, m1)
      | (Inr None, m1) \<Rightarrow> (Inl (ContractNotFound proxy), m1)
      | (Inr (Some md), m1) \<Rightarrow>
          if cd_owner md \<noteq> own then (Inl (Unauthorized ''Not contract owner''), m1)
          else if \<not> is_upgradeable md then (Inl (ContractNotUpgradeable proxy), m1)
          else if \<not> co_code_exists C impl (cm_code_storage m1) then (Inl (ContractNotFound impl), m1)
          else let md1 = md\<lparr>implementation := Some impl, cd_version := cd_version md + 1\<rparr>
               in case save_metadata K E proxy md1 m1 of
                    (Inl e, m2) \<Rightarrow> (Inl e, m2)
                  | (Inr _, m2) \<Rightarrow> (Inr (), m2\<lparr>metadata_cache := AList.update proxy md1 (metadata_cache m2)\<rparr>))"

definition emit_event :: "contract_event \<Rightarrow> ('k, 'c) contract_manager \<Rightarrow> ('k, 'c) contract_manager" where
  "emit_event e m = m\<lparr>cm_events := cm_events m @ [e]\<rparr>"

definition matches_opt :: "('a \<Rightarrow> bool) \<Rightarrow> 'a option \<Rightarrow> bool" where
  "matches_opt P x = (case x of None \<Rightarrow> True | Some y \<Rightarrow> P y)"

definition get_events ::
    "address option \<Rightarrow> string option \<Rightarrow> block_height option \<Rightarrow> block_height option \<Rightarrow> nat \<Rightarrow> ('k, 'c) contract_manager \<Rightarrow> contract_event list" where
  "get_events contract name from_block to_block limit m =
     take limit (filter (\<lambda>e. matches_opt (\<lambda>c. ce_contract e = c) contract \<and> matches_opt (\<lambda>n. event_name e = n) name \<and>
         matches_opt (\<lambda>h. ce_block_height e \<ge> h) from_block \<and> matches_opt (\<lambda>h. ce_block_height e \<le> h) to_block) (cm_events m))"

definition contract_exists :: "'c code_ops \<Rightarrow> address \<Rightarrow> ('k, 'c) contract_manager \<Rightarrow> bool" where
  "contract_exists C a m = co_code_exists C a (cm_code_storage m)"

section \<open>Gas of a precompile\<close>

text \<open>What the registry relies on: a precompile refuses exactly when its price exceeds the limit, and charges its price.\<close>

locale priced_precompile =
  fixes p :: precompile
  assumes refuses: "pc_gas_cost p input > gl \<Longrightarrow> pc_execute p input gl = Inl OutOfGas"
    and charges: "pc_gas_cost p input \<le> gl \<Longrightarrow> map_sum id snd (pc_execute p input gl) = Inr (pc_gas_cost p input)"
begin

lemma executes: "pc_execute p input gl = Inr (out, g) \<Longrightarrow> g = pc_gas_cost p input \<and> g \<le> gl"
  using refuses [of gl input] charges [of input gl] by (cases "pc_gas_cost p input \<le> gl") auto

lemma affordable: "pc_gas_cost p input \<le> gl \<Longrightarrow> \<exists>out. pc_execute p input gl = Inr (out, pc_gas_cost p input)"
  using charges [of input gl] by (cases "pc_execute p input gl") auto

lemma unaffordable: "pc_gas_cost p input > gl \<Longrightarrow> pc_execute p input gl = Inl OutOfGas"
  by (rule refuses)

end

interpretation ec_recover_p: priced_precompile ec_recover_precompile
  by unfold_locales (auto simp: ec_recover_precompile_def Let_def)

interpretation sha256_p: priced_precompile "sha256_precompile E" for E
  by unfold_locales (auto simp: sha256_precompile_def)

interpretation ripemd160_p: priced_precompile "ripemd160_precompile E" for E
  by unfold_locales (auto simp: ripemd160_precompile_def)

interpretation identity_p: priced_precompile identity_precompile
  by unfold_locales (auto simp: identity_precompile_def)

interpretation mod_exp_p: priced_precompile mod_exp_precompile
  by unfold_locales (auto simp: mod_exp_precompile_def)

interpretation ec_add_p: priced_precompile ec_add_precompile
  by unfold_locales (auto simp: ec_add_precompile_def)

interpretation ec_mul_p: priced_precompile ec_mul_precompile
  by unfold_locales (auto simp: ec_mul_precompile_def)

interpretation ec_pairing_p: priced_precompile ec_pairing_precompile
  by unfold_locales (auto simp: ec_pairing_precompile_def)

interpretation blake2f_p: priced_precompile blake2f_precompile
  by unfold_locales (auto simp: blake2f_precompile_def)

lemmas all_priced = ec_recover_p.priced_precompile_axioms sha256_p.priced_precompile_axioms ripemd160_p.priced_precompile_axioms
  identity_p.priced_precompile_axioms mod_exp_p.priced_precompile_axioms ec_add_p.priced_precompile_axioms
  ec_mul_p.priced_precompile_axioms ec_pairing_p.priced_precompile_axioms blake2f_p.priced_precompile_axioms

lemma precompile_address_eq [simp]: "precompile_address a = precompile_address b \<longleftrightarrow> a = b"
  by (simp add: precompile_address_def)

lemma precompile_manager_new_eq:
  "precompile_manager_new E =
     [(precompile_address 1, ec_recover_precompile), (precompile_address 2, sha256_precompile E),
      (precompile_address 3, ripemd160_precompile E), (precompile_address 4, identity_precompile),
      (precompile_address 5, mod_exp_precompile), (precompile_address 6, ec_add_precompile),
      (precompile_address 7, ec_mul_precompile), (precompile_address 8, ec_pairing_precompile),
      (precompile_address 9, blake2f_precompile)]"
  by (simp add: precompile_manager_new_def pm_register_def ec_recover_precompile_def sha256_precompile_def
      ripemd160_precompile_def identity_precompile_def mod_exp_precompile_def ec_add_precompile_def
      ec_mul_precompile_def ec_pairing_precompile_def blake2f_precompile_def)

lemma registered_priced: "map_of (precompile_manager_new E) a = Some p \<Longrightarrow> priced_precompile p"
  by (auto simp: precompile_manager_new_eq all_priced split: if_splits)

lemma byte_1_9: "(1 :: u8) \<le> b \<and> b \<le> 9 \<longleftrightarrow> b \<in> {1, 2, 3, 4, 5, 6, 7, 8, 9}"
proof
  assume "1 \<le> b \<and> b \<le> 9"
  then have "unat b \<in> {1..9}" by (simp add: word_le_nat_alt)
  then have "unat b \<in> {1, 2, 3, 4, 5, 6, 7, 8, 9}" by auto
  then have "(of_nat (unat b) :: u8) \<in> of_nat ` {1, 2, 3, 4, 5, 6, 7, 8, 9}" by (rule imageI)
  then show "b \<in> {1, 2, 3, 4, 5, 6, 7, 8, 9}" by simp
qed auto

lemma registered_addresses:
  assumes "length a = 32"
  shows "pm_is_precompile a (precompile_manager_new E) \<longleftrightarrow> builtin_is_precompile a"
proof -
  have a: "a = take 31 a @ [a ! 31]" using take_Suc_conv_app_nth [of 31 a] assms by simp
  have l: "length (take 31 a) = 31" using assms by simp
  have z: "(\<forall>b\<in>set (take 31 a). b = 0) \<longleftrightarrow> take 31 a = replicate 31 0"
    using replicate_eqI [OF l, of 0] in_set_replicate by metis
  have "builtin_is_precompile a \<longleftrightarrow> (\<exists>n\<in>{1, 2, 3, 4, 5, 6, 7, 8, 9}. a = precompile_address n)"
    unfolding builtin_is_precompile_def z byte_1_9 precompile_address_def using a
    by (metis append1_eq_conv singletonD)
  also have "\<dots> \<longleftrightarrow> pm_is_precompile a (precompile_manager_new E)"
    by (auto simp: pm_is_precompile_def precompile_manager_new_eq)
  finally show ?thesis by simp
qed

definition sample_metadata :: contract_metadata where
  "sample_metadata = contract_metadata_new 5 (replicate 32 1) (replicate 32 2) zero32 1 3"

text \<open>A serialiser that knows one value.\<close>

definition sample_contract_externals :: contract_externals where
  "sample_contract_externals =
     \<lparr>sha256 = (\<lambda>bs. zero32), ripemd160 = (\<lambda>bs. replicate 20 0),
      ser_metadata = (\<lambda>md. if md = sample_metadata then Inr [1] else Inl ''unknown''),
      de_metadata = (\<lambda>bs. if bs = [1] then Inr sample_metadata else Inl ''unknown'')\<rparr>"

text \<open>
  The registry of precompiles: the addresses it knows are those with 31 zero bytes and a last byte from 1 to 9,
  as \<open>builtin::is_precompile\<close> decides; a call returns exactly when its price is within the gas limit and
  then charges the price, and errors otherwise.
\<close>

theorem precompile_registry_spec:
  assumes "length a = 32"
  shows "(pm_is_precompile a (precompile_manager_new E) \<longleftrightarrow> builtin_is_precompile a) \<and>
    (\<not> builtin_is_precompile a \<longrightarrow> pm_execute a input gl (precompile_manager_new E) = Inl (PrecompileNotFound a)) \<and>
    (builtin_is_precompile a \<longrightarrow> (\<exists>g. pm_gas_cost a input (precompile_manager_new E) = Some g \<and>
       (if g > gl then pm_execute a input gl (precompile_manager_new E) = Inl OutOfGas
        else \<exists>out. pm_execute a input gl (precompile_manager_new E) = Inr (out, g))))"
proof -
  let ?pm = "precompile_manager_new E"
  have known: "pm_is_precompile a ?pm \<longleftrightarrow> builtin_is_precompile a"
    by (rule registered_addresses [OF assms])
  moreover have "pm_execute a input gl ?pm = Inl (PrecompileNotFound a)" if "\<not> builtin_is_precompile a"
    using that known by (simp add: pm_is_precompile_def pm_execute_def)
  moreover have "\<exists>g. pm_gas_cost a input ?pm = Some g \<and>
       (if g > gl then pm_execute a input gl ?pm = Inl OutOfGas else \<exists>out. pm_execute a input gl ?pm = Inr (out, g))"
    if is_pc: "builtin_is_precompile a"
  proof -
    obtain p where p: "map_of ?pm a = Some p" using is_pc known unfolding pm_is_precompile_def by blast
    note law = registered_priced [OF p]
    show ?thesis
      using priced_precompile.affordable [OF law, of input gl] priced_precompile.unaffordable [OF law, of gl input]
      by (cases "pc_gas_cost p input \<le> gl") (simp_all add: pm_execute_def pm_gas_cost_def p linorder_not_le)
  qed
  ultimately show ?thesis by blast
qed

theorem precompile_registry_spec_witness:
  "builtin_is_precompile (precompile_address 4) \<and> pm_gas_cost (precompile_address 4) [7] (precompile_manager_new sample_contract_externals) = Some 18 \<and>
   pm_execute (precompile_address 4) [7] 17 (precompile_manager_new sample_contract_externals) = Inl OutOfGas"
proof -
  have "length (precompile_address 4) = 32" by (simp add: precompile_address_def)
  note spec = precompile_registry_spec [OF this, of sample_contract_externals "[7]" 17]
  have b: "builtin_is_precompile (precompile_address 4)"
    by (simp add: builtin_is_precompile_def precompile_address_def nth_append)
  have g: "pm_gas_cost (precompile_address 4) [7] (precompile_manager_new sample_contract_externals) = Some 18"
    by (simp add: pm_gas_cost_def precompile_manager_new_eq identity_precompile_def identity_gas_def words32_def)
  with spec b have "pm_execute (precompile_address 4) [7] 17 (precompile_manager_new sample_contract_externals) = Inl OutOfGas" by auto
  with b g show ?thesis by blast
qed

section \<open>Deployment and upgrades\<close>

text \<open>
  What the manager relies on: a storage returns what was last set, a stored code exists and stays, and
  \<open>bincode\<close> decodes what it encoded.
\<close>

definition kv_law :: "'k kv_ops \<Rightarrow> bool" where
  "kv_law K \<longleftrightarrow> (\<forall>a k v b l s. kv_get K b l (kv_set K a k v s) = (if a = b \<and> k = l then Some v else kv_get K b l s))"

definition code_law :: "'c code_ops \<Rightarrow> bool" where
  "code_law C \<longleftrightarrow>
     (\<forall>a code b s. co_get_code C b (co_set_code C a code s) = (if a = b then Some code else co_get_code C b s)) \<and>
     (\<forall>a s. co_code_exists C a s \<longleftrightarrow> co_get_code C a s \<noteq> None)"

definition metadata_law :: "contract_externals \<Rightarrow> bool" where
  "metadata_law E \<longleftrightarrow> (\<forall>md bs. ser_metadata E md = Inr bs \<longrightarrow> de_metadata E bs = Inr md)"

lemma kv_lawD: "kv_law K \<Longrightarrow> kv_get K b l (kv_set K a k v s) = (if a = b \<and> k = l then Some v else kv_get K b l s)"
  unfolding kv_law_def by blast

text \<open>
  Deploying: a fresh address whose metadata can be encoded is deployed with the metadata of the call; from
  then on the manager, and any manager opened later on the same storages, reports this metadata and this code, and a
  second deployment is refused.
\<close>

theorem deploy_roundtrip:
  assumes "kv_law K" "code_law C" "metadata_law E"
    and "\<not> contract_exists C a m"
    and "ser_metadata E (contract_metadata_new now a own (keccak256 X code) (of_nat (length code)) height) = Inr bs"
  shows "\<exists>m1. deploy X K C E now a own code height m =
       (Inr (contract_metadata_new now a own (keccak256 X code) (of_nat (length code)) height), m1) \<and>
     fst (get_metadata K E a m1) = Inr (Some (contract_metadata_new now a own (keccak256 X code) (of_nat (length code)) height)) \<and>
     fst (get_metadata K E a (contract_manager_new (cm_storage m1) (cm_code_storage m1))) =
       Inr (Some (contract_metadata_new now a own (keccak256 X code) (of_nat (length code)) height)) \<and>
     co_get_code C a (cm_code_storage m1) = Some code \<and>
     fst (deploy X K C E now' a own' code' height' m1) = Inl (ContractAlreadyExists a)"
proof -
  let ?md = "contract_metadata_new now a own (keccak256 X code) (of_nat (length code)) height"
  let ?m1 = "m\<lparr>cm_code_storage := co_set_code C a code (cm_code_storage m),
      cm_storage := kv_set K a (metadata_key a) bs (cm_storage m), metadata_cache := AList.update a ?md (metadata_cache m)\<rparr>"
  have code: "co_get_code C a (co_set_code C a code s) = Some code" "co_code_exists C a (co_set_code C a code s)" for s
    using assms(2) by (simp_all add: code_law_def)
  have "deploy X K C E now a own code height m = (Inr ?md, ?m1)"
    using assms(4,5) by (simp add: deploy_def contract_exists_def hash_code_def save_metadata_def Let_def)
  moreover have "fst (get_metadata K E a ?m1) = Inr (Some ?md)" by (simp add: get_metadata_def)
  moreover have "fst (get_metadata K E a (contract_manager_new (cm_storage ?m1) (cm_code_storage ?m1))) = Inr (Some ?md)"
    using assms(3,5) kv_lawD [OF assms(1)] by (simp add: get_metadata_def contract_manager_new_def metadata_law_def)
  moreover have "fst (deploy X K C E now' a own' code' height' ?m1) = Inl (ContractAlreadyExists a)"
    by (simp add: deploy_def code)
  ultimately show ?thesis using code by (intro exI [of _ ?m1]) simp
qed

definition map_kv_ops :: "(address \<times> bytes \<rightharpoonup> bytes) kv_ops" where
  "map_kv_ops = \<lparr>kv_get = (\<lambda>a k s. s (a, k)), kv_set = (\<lambda>a k v s. s((a, k) \<mapsto> v))\<rparr>"

definition map_code_ops :: "(address \<rightharpoonup> bytes) code_ops" where
  "map_code_ops = \<lparr>co_get_code = (\<lambda>a s. s a), co_set_code = (\<lambda>a code s. s(a \<mapsto> code)), co_code_exists = (\<lambda>a s. s a \<noteq> None)\<rparr>"

lemma sample_laws: "kv_law map_kv_ops" "code_law map_code_ops" "metadata_law sample_contract_externals"
  by (auto simp: kv_law_def map_kv_ops_def code_law_def map_code_ops_def metadata_law_def sample_contract_externals_def split: if_splits)

definition sample_manager :: "(address \<times> bytes \<rightharpoonup> bytes, address \<rightharpoonup> bytes) contract_manager" where
  "sample_manager = contract_manager_new Map.empty Map.empty"

theorem deploy_roundtrip_witness:
  "\<exists>m1. deploy (sample_externals\<lparr>keccak256 := \<lambda>bs. zero32\<rparr>) map_kv_ops map_code_ops sample_contract_externals 5
       (replicate 32 1) (replicate 32 2) [9] 3 sample_manager = (Inr sample_metadata, m1) \<and>
     co_get_code map_code_ops (replicate 32 1) (cm_code_storage m1) = Some [9]"
proof -
  have e: "\<not> contract_exists map_code_ops (replicate 32 1) sample_manager"
    by (simp add: contract_exists_def sample_manager_def contract_manager_new_def map_code_ops_def)
  have s: "ser_metadata sample_contract_externals (contract_metadata_new 5 (replicate 32 1) (replicate 32 2)
      (keccak256 (sample_externals\<lparr>keccak256 := \<lambda>bs. zero32\<rparr>) [9]) (of_nat (length [9 :: u8])) 3) = Inr [1]"
    by (simp add: sample_contract_externals_def sample_metadata_def)
  show ?thesis
    using deploy_roundtrip [OF sample_laws e s, of 0 "[]" "[]" 0] by (simp add: sample_metadata_def) blast
qed

text \<open>The managers a program can reach from one whose storage holds no upgradeable contract.\<close>

definition none_upgradeable :: "'k kv_ops \<Rightarrow> contract_externals \<Rightarrow> ('k, 'c) contract_manager \<Rightarrow> bool" where
  "none_upgradeable K E m \<longleftrightarrow>
     (\<forall>a md. map_of (metadata_cache m) a = Some md \<longrightarrow> \<not> is_upgradeable md) \<and>
     (\<forall>a d md. kv_get K a (metadata_key a) (cm_storage m) = Some d \<longrightarrow> de_metadata E d = Inr md \<longrightarrow> \<not> is_upgradeable md)"

inductive reachable_manager ::
    "externals \<Rightarrow> 'k kv_ops \<Rightarrow> 'c code_ops \<Rightarrow> contract_externals \<Rightarrow> ('k, 'c) contract_manager \<Rightarrow> bool" for X K C E where
  opened: "(\<And>a. kv_get K a (metadata_key a) k = None) \<Longrightarrow> reachable_manager X K C E (contract_manager_new k c)"
| reopened: "reachable_manager X K C E m \<Longrightarrow> reachable_manager X K C E (contract_manager_new (cm_storage m) (cm_code_storage m))"
| deployed: "reachable_manager X K C E m \<Longrightarrow> reachable_manager X K C E (snd (deploy X K C E now a own code height m))"
| upgraded: "reachable_manager X K C E m \<Longrightarrow> reachable_manager X K C E (snd (contract_upgrade K C E proxy impl own m))"
| read: "reachable_manager X K C E m \<Longrightarrow> reachable_manager X K C E (snd (get_metadata K E a m))"
| emitted: "reachable_manager X K C E m \<Longrightarrow> reachable_manager X K C E (emit_event e m)"

lemma get_metadata_none_upgradeable:
  assumes "none_upgradeable K E m" "get_metadata K E a m = (r, m1)"
  shows "none_upgradeable K E m1 \<and> (\<forall>md. r = Inr (Some md) \<longrightarrow> \<not> is_upgradeable md)"
  using assms by (auto simp: get_metadata_def none_upgradeable_def update_conv split: option.splits sum.splits if_splits)

lemma upgrade_fails:
  assumes "none_upgradeable K E m"
  shows "fst (contract_upgrade K C E proxy impl own m) \<noteq> Inr () \<and>
    none_upgradeable K E (snd (contract_upgrade K C E proxy impl own m))"
proof -
  obtain r m1 where g: "get_metadata K E proxy m = (r, m1)" by fastforce
  have r: "none_upgradeable K E m1" "r = Inr (Some md) \<Longrightarrow> \<not> is_upgradeable md" for md
    using get_metadata_none_upgradeable [OF assms g] by blast+
  show ?thesis using r by (auto simp: contract_upgrade_def g split: sum.split option.split)
qed

lemma deploy_none_upgradeable:
  assumes "kv_law K" "metadata_law E" "none_upgradeable K E m"
  shows "none_upgradeable K E (snd (deploy X K C E now a own code height m))"
proof (cases "co_code_exists C a (cm_code_storage m)")
  case False
  let ?md = "contract_metadata_new now a own (hash_code X code) (of_nat (length code)) height"
  have nu: "\<not> is_upgradeable ?md" by (simp add: contract_metadata_new_def)
  show ?thesis
  proof (cases "ser_metadata E ?md")
    case (Inl msg)
    then show ?thesis using False assms(3) by (simp add: deploy_def Let_def save_metadata_def none_upgradeable_def)
  next
    case (Inr d)
    then have "de_metadata E d = Inr ?md" using assms(2) by (simp add: metadata_law_def)
    then show ?thesis using False Inr nu assms(3)
      by (auto simp: deploy_def Let_def save_metadata_def none_upgradeable_def update_conv kv_lawD [OF assms(1)] split: if_splits)
  qed
qed (use assms in \<open>simp add: deploy_def\<close>)

lemma reachable_none_upgradeable:
  assumes "kv_law K" "metadata_law E" "reachable_manager X K C E m"
  shows "none_upgradeable K E m"
  using assms(3)
proof induction
  case (deployed m now a own code height)
  then show ?case using deploy_none_upgradeable [OF assms(1,2)] by blast
next
  case (upgraded m proxy impl own)
  then show ?case using upgrade_fails by blast
next
  case (read m a)
  then show ?case using get_metadata_none_upgradeable by (metis prod.collapse)
qed (simp_all add: none_upgradeable_def contract_manager_new_def emit_event_def)

text \<open>
  No contract can be upgraded: a deployed contract is not upgradeable and no operation makes it so,
  so that in every state reached from an empty storage \<open>upgrade\<close> returns an error, whoever calls it.
\<close>

theorem upgrade_never_succeeds:
  assumes "kv_law K" "metadata_law E" "reachable_manager X K C E m"
  shows "\<exists>e. fst (contract_upgrade K C E proxy impl own m) = Inl e"
  using upgrade_fails [OF reachable_none_upgradeable [OF assms], of C proxy impl own]
  by (cases "fst (contract_upgrade K C E proxy impl own m)") auto

theorem upgrade_never_succeeds_witness:
  "\<exists>e. fst (contract_upgrade map_kv_ops map_code_ops sample_contract_externals (replicate 32 1) (replicate 32 1) (replicate 32 2)
     (snd (deploy (sample_externals\<lparr>keccak256 := \<lambda>bs. zero32\<rparr>) map_kv_ops map_code_ops sample_contract_externals 5
       (replicate 32 1) (replicate 32 2) [9] 3 sample_manager))) = Inl e"
proof -
  let ?X = "sample_externals\<lparr>keccak256 := \<lambda>bs. zero32\<rparr>"
  have "reachable_manager ?X map_kv_ops map_code_ops sample_contract_externals sample_manager"
    unfolding sample_manager_def by (rule opened) (simp add: map_kv_ops_def)
  then show ?thesis
    by (rule upgrade_never_succeeds [OF sample_laws(1,3) deployed])
qed

end
