(* ===== verification/State_Ledger.thy ===== *)
theory State_Ledger
  imports State_Manager
begin

text \<open>
  The abstract ledger: what the state manager promises, without cache, uncommitted accounts, versions,
  roots and storage. A ledger is a height and a partial map from addresses to accounts; a payment
  debits the sender and credits the receiver, and a block of the next height is applied completely or refused.
  The state manager refines it through \<open>ledger_of\<close>, over every storage with the
  contract \<open>reliable_storage\<close>, and so over the in-memory store.
\<close>

record ledger =
  led_height :: block_height
  led_accounts :: "address \<Rightarrow> account option"

definition ledger_pay :: "timestamp \<Rightarrow> transaction \<Rightarrow> (address \<Rightarrow> account option) \<Rightarrow> (address \<Rightarrow> account option) option" where
  "ledger_pay now tx L =
     (case L (tx_from tx) of
        None \<Rightarrow> None
      | Some acc \<Rightarrow>
          if balance acc < total_cost tx then None
          else Some (L(tx_from tx \<mapsto> debited now (total_cost tx) acc,
                       tx_to tx \<mapsto> credited now (tx_to tx) (tx_amount tx) (L (tx_to tx)))))"

fun ledger_pay_all :: "timestamp \<Rightarrow> transaction list \<Rightarrow> (address \<Rightarrow> account option) \<Rightarrow> (address \<Rightarrow> account option) option" where
  "ledger_pay_all now [] L = Some L"
| "ledger_pay_all now (tx # txs) L =
     (case ledger_pay now tx L of None \<Rightarrow> None | Some L1 \<Rightarrow> ledger_pay_all now txs L1)"

definition ledger_block :: "timestamp \<Rightarrow> block \<Rightarrow> ledger \<Rightarrow> ledger option" where
  "ledger_block now b l =
     (if hdr_height (header b) = led_height l + 1
      then map_option (\<lambda>L. \<lparr>led_height = hdr_height (header b), led_accounts = L\<rparr>)
             (ledger_pay_all now (transactions b) (led_accounts l))
      else None)"

fun ledger_chain :: "(timestamp \<times> block) list \<Rightarrow> ledger \<Rightarrow> ledger option" where
  "ledger_chain [] l = Some l"
| "ledger_chain ((now, b) # bs) l =
     (case ledger_block now b l of None \<Rightarrow> None | Some l1 \<Rightarrow> ledger_chain bs l1)"

text \<open>A chain of blocks given to the state manager, up to the first one it refuses.\<close>

fun apply_chain ::
    "externals \<Rightarrow> 's storage_ops \<Rightarrow> (timestamp \<times> block) list \<Rightarrow> 's state_manager \<Rightarrow> unit pacyte_result \<times> 's state_manager" where
  "apply_chain X S [] sm = (Inr (), sm)"
| "apply_chain X S ((now, b) # bs) sm =
     (case apply_block X S now b sm of
        (Inl e, sm1) \<Rightarrow> (Inl e, sm1)
      | (Inr _, sm1) \<Rightarrow> apply_chain X S bs sm1)"

definition ledger_of :: "('s \<Rightarrow> address \<Rightarrow> account option) \<Rightarrow> 's state_manager \<Rightarrow> ledger" where
  "ledger_of accounts sm = \<lparr>led_height = current_height sm, led_accounts = sm_view accounts sm\<rparr>"

context reliable_storage
begin

lemma transfer_refines:
  "case apply_transfer X S now (tx_from tx) (tx_to tx) (tx_amount tx) (tx_fee tx) sm of
     (Inl e, sm') \<Rightarrow> ledger_pay now tx (sm_view accounts sm) = None
   | (Inr _, sm') \<Rightarrow> ledger_pay now tx (sm_view accounts sm) = Some (sm_view accounts sm')"
proof (cases "apply_transfer X S now (tx_from tx) (tx_to tx) (tx_amount tx) (tx_fee tx) sm")
  case (Pair r sm')
  show ?thesis
  proof (cases r)
    case (Inl e)
    with Pair transfer_succeeds_iff [of X now "tx_from tx" "tx_to tx" "tx_amount tx" "tx_fee tx" sm] show ?thesis
      by (auto simp: ledger_pay_def total_cost_def split: option.splits)
  next
    case (Inr u)
    with Pair transfer_ok(1) [of X now "tx_from tx" "tx_to tx" "tx_amount tx" "tx_fee tx" sm sm'] show ?thesis
      by (auto simp: ledger_pay_def total_cost_def)
  qed
qed

lemma transactions_refine:
  "case apply_transactions X S now txs sm of
     (Inl e, sm') \<Rightarrow> ledger_pay_all now txs (sm_view accounts sm) = None
   | (Inr _, sm') \<Rightarrow> ledger_pay_all now txs (sm_view accounts sm) = Some (sm_view accounts sm')"
proof (induction txs arbitrary: sm)
  case (Cons tx txs)
  obtain r sm1 where 1: "apply_transfer X S now (tx_from tx) (tx_to tx) (tx_amount tx) (tx_fee tx) sm = (r, sm1)" by fastforce
  show ?case
    using transfer_refines [where X = X and now = now and tx = tx and sm = sm] Cons.IH [of sm1] 1
    by (cases r) (auto split: prod.splits sum.splits)
qed simp

lemma block_refines:
  assumes "sm_inv accounts sm"
  shows "case apply_block X S now b sm of
     (Inl e, sm') \<Rightarrow> ledger_block now b (ledger_of accounts sm) = None
   | (Inr _, sm') \<Rightarrow> ledger_block now b (ledger_of accounts sm) = Some (ledger_of accounts sm') \<and> sm_inv accounts sm'"
proof (cases "apply_block X S now b sm")
  case (Pair r sm')
  obtain r1 sm1 where 1: "apply_transactions X S now (transactions b) sm = (r1, sm1)" by fastforce
  note t = transactions_refine [where X = X and now = now and txs = "transactions b" and sm = sm, unfolded 1]
  show ?thesis
  proof (cases r)
    case (Inl e)
    with Pair 1 t block_succeeds_iff [of X now b sm] show ?thesis
      by (cases r1) (auto simp: ledger_block_def ledger_of_def)
  next
    case (Inr v)
    note ok = block_ok [OF assms Pair [unfolded Inr]]
    from ok(1) 1 t have "ledger_pay_all now (transactions b) (sm_view accounts sm) = Some (sm_view accounts sm')" by auto
    with ok(2,3,9) Pair Inr show ?thesis by (simp add: ledger_block_def ledger_of_def)
  qed
qed

lemma chain_refines:
  assumes "sm_inv accounts sm"
  shows "case apply_chain X S bs sm of
     (Inl e, sm') \<Rightarrow> ledger_chain bs (ledger_of accounts sm) = None
   | (Inr _, sm') \<Rightarrow> ledger_chain bs (ledger_of accounts sm) = Some (ledger_of accounts sm') \<and> sm_inv accounts sm' \<and>
       (bs \<noteq> [] \<longrightarrow> accounts (sm_storage sm') = led_accounts (ledger_of accounts sm'))"
  using assms
proof (induction bs arbitrary: sm)
  case (Cons nb bs)
  obtain now b where nb: "nb = (now, b)" by fastforce
  obtain r sm1 where 1: "apply_block X S now b sm = (r, sm1)" by fastforce
  note step = block_refines [OF Cons.prems, where X = X and now = now and b = b, unfolded 1]
  show ?case
  proof (cases r)
    case (Inl e)
    with step 1 nb show ?thesis by simp
  next
    case (Inr v)
    then have stored: "accounts (sm_storage sm1) = sm_view accounts sm1"
      using block_ok(7) [OF Cons.prems] 1 by simp
    from step Inr have "sm_inv accounts sm1" by simp
    from Cons.IH [OF this] step 1 nb Inr stored show ?thesis
      by (cases bs) (auto simp: ledger_of_def split: prod.splits sum.splits)
  qed
qed (simp add: ledger_of_def)

end

text \<open>
  C9. The state manager over the in-memory store refines the ledger: for every chain of blocks it accepts the chain exactly
  when the ledger does, ends with the ledger's height and accounts, keeps its invariant, and (after
  at least one block) holds the ledger's accounts in its storage, where a restart finds them.
\<close>

theorem state_manager_refines_ledger:
  assumes "mem_inv sm"
  shows "case apply_chain X (memory_ops X t) bs sm of
     (Inl e, sm') \<Rightarrow> ledger_chain bs (ledger_of (\<lambda>s a. get_account a s) sm) = None
   | (Inr _, sm') \<Rightarrow>
       ledger_chain bs (ledger_of (\<lambda>s a. get_account a s) sm) = Some (ledger_of (\<lambda>s a. get_account a s) sm') \<and> mem_inv sm' \<and>
       (bs \<noteq> [] \<longrightarrow> (\<lambda>a. get_account a (sm_storage sm')) = led_accounts (ledger_of (\<lambda>s a. get_account a s) sm'))"
  by (rule mem.chain_refines [OF assms])

theorem state_manager_refines_ledger_witness:
  "ledger_chain [(1000, sample_block)] (ledger_of (\<lambda>s a. get_account a s) sample_state) =
     Some (ledger_of (\<lambda>s a. get_account a s)
       (snd (apply_chain sample_externals (memory_ops sample_externals 0) [(1000, sample_block)] sample_state)))"
proof -
  obtain v sm' where r: "apply_block sample_externals (memory_ops sample_externals 0) 1000 sample_block
      sample_state = (Inr v, sm')"
    by (rule sample_block_applies)
  show ?thesis
    using state_manager_refines_ledger [OF sample_state_inv, where X = sample_externals and t = 0 and bs = "[(1000, sample_block)]"] by (simp add: r)
qed

end
