(* ===== verification/Pacyte_Text.thy ===== *)
theory Pacyte_Text
  imports Pacyte_Prelude "HOL-Library.Sublist"
begin

text \<open>
  Text the code prints and reads: hexadecimal numbers (\<open>{:x}\<close> and \<open>from_str_radix(_, 16)\<close>), \<open>trim_start_matches\<close>
  of the standard library, and their round trip.
\<close>

definition hex_char :: "nat \<Rightarrow> char" where
  "hex_char n = ''0123456789abcdef'' ! n"

definition hex_value :: "char \<Rightarrow> nat option" where
  "hex_value c =
     (let n = of_char c :: nat
      in if 48 \<le> n \<and> n \<le> 57 then Some (n - 48)
         else if 97 \<le> n \<and> n \<le> 102 then Some (n - 87)
         else if 65 \<le> n \<and> n \<le> 70 then Some (n - 55) else None)"

fun show_hex :: "nat \<Rightarrow> string" where
  "show_hex n = (if n < 16 then [hex_char n] else show_hex (n div 16) @ [hex_char (n mod 16)])"

declare show_hex.simps [simp del]

definition hex_nat :: "string \<Rightarrow> nat" where
  "hex_nat s = foldl (\<lambda>a c. 16 * a + the (hex_value c)) 0 s"

definition parse_hex_u64 :: "string \<Rightarrow> u64 option" where
  "parse_hex_u64 s =
     (let ds = (case s of [] \<Rightarrow> [] | c # cs \<Rightarrow> if c = CHR ''+'' then cs else s)
      in if ds = [] \<or> list_ex (\<lambda>c. hex_value c = None) ds \<or> hex_nat ds \<ge> 2 ^ 64 then None
         else Some (of_nat (hex_nat ds)))"

function trim_start_matches :: "string \<Rightarrow> string \<Rightarrow> string" where
  "trim_start_matches p s = (if p \<noteq> [] \<and> prefix p s then trim_start_matches p (drop (length p) s) else s)"
  by auto
termination by (relation "measure (length \<circ> snd)") (auto dest: prefix_length_le simp: prefix_def)

declare trim_start_matches.simps [simp del]

text \<open>\<open>str::trim\<close> on text whose white space is ASCII.\<close>

definition ascii_space :: "char \<Rightarrow> bool" where
  "ascii_space c \<longleftrightarrow> c = CHR '' '' \<or> (9 \<le> (of_char c :: nat) \<and> (of_char c :: nat) \<le> 13)"

definition trim_text :: "string \<Rightarrow> string" where
  "trim_text s = rev (dropWhile ascii_space (rev (dropWhile ascii_space s)))"

definition lower_hex :: "char \<Rightarrow> bool" where
  "lower_hex c \<longleftrightarrow> c \<in> set ''0123456789abcdef''"

definition hex_text :: "string \<Rightarrow> bool" where
  "hex_text s \<longleftrightarrow> list_all lower_hex s"

lemma hex_value_char: "n < 16 \<Longrightarrow> hex_value (hex_char n) = Some n \<and> lower_hex (hex_char n)"
proof -
  have "\<forall>n\<in>set [0..<16]. hex_value (hex_char n) = Some n \<and> lower_hex (hex_char n)" by code_simp
  then show "n < 16 \<Longrightarrow> ?thesis" by simp
qed

lemma show_hex_text: "hex_text (show_hex n) \<and> show_hex n \<noteq> []"
proof (induction n rule: show_hex.induct)
  case (1 n)
  then show ?case by (subst (1 2) show_hex.simps) (auto simp: hex_text_def hex_value_char)
qed

lemma hex_nat_show: "hex_nat (show_hex n) = n"
proof (induction n rule: show_hex.induct)
  case (1 n)
  then show ?case by (subst show_hex.simps) (auto simp: hex_nat_def hex_value_char)
qed

lemma hex_text_value: "lower_hex c \<Longrightarrow> hex_value c \<noteq> None \<and> c \<noteq> CHR ''+'' \<and> c \<noteq> CHR ''x''"
  by (auto simp: hex_value_def lower_hex_def)

lemma parse_hex_show: "parse_hex_u64 (show_hex (unat h)) = Some h"
proof -
  obtain c cs where s: "show_hex (unat h) = c # cs" using show_hex_text [of "unat h"] by (cases "show_hex (unat h)") auto
  have "list_all (\<lambda>c. hex_value c \<noteq> None \<and> c \<noteq> CHR ''+'') (show_hex (unat h))"
    using show_hex_text [of "unat h"] hex_text_value unfolding hex_text_def list_all_iff by blast
  then have "c \<noteq> CHR ''+''" "\<not> list_ex (\<lambda>c. hex_value c = None) (c # cs)"
    unfolding s by (auto simp: list_all_iff list_ex_iff)
  moreover have "hex_nat (c # cs) = unat h" using hex_nat_show [of "unat h"] by (simp add: s)
  ultimately show ?thesis using unat_bound [of h] by (simp add: parse_hex_u64_def s Let_def)
qed

lemma trim_hex: "hex_text s \<Longrightarrow> trim_start_matches ''0x'' (''0x'' @ s) = s"
proof -
  assume s: "hex_text s"
  have "\<not> prefix ''0x'' s"
  proof
    assume "prefix ''0x'' s"
    then have "CHR ''x'' \<in> set s" by (auto simp: prefix_def)
    then show False using s hex_text_value unfolding hex_text_def list_all_iff by blast
  qed
  then show ?thesis by (subst trim_start_matches.simps, subst trim_start_matches.simps) simp
qed

section \<open>Hexadecimal bytes\<close>

text \<open>What the \<open>hex\<close> crate documents: lower-case digits, and decoding undoes encoding.\<close>

definition hex_law :: "(bytes \<Rightarrow> string) \<Rightarrow> (string \<Rightarrow> bytes option) \<Rightarrow> bool" where
  "hex_law enc dec \<longleftrightarrow> (\<forall>bs. hex_text (enc bs) \<and> dec (enc bs) = Some bs)"

definition hex_lower :: "bytes \<Rightarrow> string" where
  "hex_lower bs = concat (map (\<lambda>b. [hex_char (unat b div 16), hex_char (unat b mod 16)]) bs)"

fun hex_bytes :: "string \<Rightarrow> bytes option" where
  "hex_bytes [] = Some []"
| "hex_bytes [c] = None"
| "hex_bytes (c # d # cs) =
     (case (hex_value c, hex_value d, hex_bytes cs) of
        (Some a, Some b, Some bs) \<Rightarrow> Some (of_nat (16 * a + b) # bs)
      | _ \<Rightarrow> None)"

lemma hex_law_lower: "hex_law hex_lower hex_bytes"
proof -
  have "hex_text (hex_lower bs) \<and> hex_bytes (hex_lower bs) = Some bs" for bs
  proof (induction bs)
    case (Cons b bs)
    have b: "unat b div 16 < 16" "unat b mod 16 < 16" using unat_bound [of b] by simp_all
    have "16 * (unat b div 16) + unat b mod 16 = unat b" by simp
    then show ?case
      using Cons.IH hex_value_char [OF b(1)] hex_value_char [OF b(2)] unfolding hex_text_def hex_lower_def
      by simp
  qed (simp add: hex_text_def hex_lower_def)
  then show ?thesis by (simp add: hex_law_def)
qed

end
