(* ===== verification/Storage_Wal.thy ===== *)
theory Storage_Wal
  imports Storage_Ops Pacyte_Text
begin

text \<open>
  \<open>src/storage/wal.rs\<close>: the write-ahead log, its records and framing, the buffered writer over a
  directory, flushing, file rotation and recovery.

  The record \<open>wal_externals\<close> holds what the code takes from elsewhere: \<open>bincode\<close> for one record
  (the error as its message) and \<open>DefaultHasher\<close>, whose algorithm the standard library leaves
  open. The directory is the record \<open>disk_ops\<close> of the calls of \<open>std::fs\<close>, each with its error
  message; \<open>dir_ops\<close> is a directory on which no call fails. Reading an opened file does not fail.
  Locks are modelled as in the vault: a method receives the guards its caller holds and is
  \<open>Blocked\<close> where the thread waits for itself.
\<close>

section \<open>Entries and records\<close>

datatype wal_entry =
    SaveBlock block_height block
  | SaveTransaction hash transaction
  | SaveAccount address account
  | DeleteAccount address
  | SaveStateRoot block_height hash
  | Batch "wal_entry list"
  | Checkpoint u64 timestamp

record wal_record =
  rec_magic :: u32
  rec_version :: u32
  rec_lsn :: u64
  rec_timestamp :: timestamp
  rec_entry :: wal_entry
  rec_checksum :: u32

definition WAL_MAGIC :: u32 where "WAL_MAGIC = 0x50435741"
definition WAL_VERSION :: u32 where "WAL_VERSION = 1"
definition WAL_MAX_FILE_SIZE :: u64 where "WAL_MAX_FILE_SIZE = 64 * 1024 * 1024"

record wal_externals =
  ser_record :: "wal_record \<Rightarrow> string + bytes"
  de_record :: "bytes \<Rightarrow> string + wal_record"
  default_hash :: "u32 \<Rightarrow> u32 \<Rightarrow> u64 \<Rightarrow> u64 \<Rightarrow> u64"

definition wal_record_new :: "timestamp \<Rightarrow> u64 \<Rightarrow> wal_entry \<Rightarrow> wal_record" where
  "wal_record_new now lsn e =
     \<lparr>rec_magic = WAL_MAGIC, rec_version = WAL_VERSION, rec_lsn = lsn, rec_timestamp = now,
      rec_entry = e, rec_checksum = 0\<rparr>"

definition compute_checksum :: "wal_externals \<Rightarrow> wal_record \<Rightarrow> u32" where
  "compute_checksum W r = ucast (default_hash W (rec_magic r) (rec_version r) (rec_lsn r) (rec_timestamp r))"

definition record_verify :: "wal_externals \<Rightarrow> wal_record \<Rightarrow> bool" where
  "record_verify W r \<longleftrightarrow>
     rec_magic r = WAL_MAGIC \<and> rec_version r = WAL_VERSION \<and> compute_checksum W r = rec_checksum r"

section \<open>The directory and the buffered writer\<close>

record 'd disk_ops =
  dk_create_dir :: "'d \<Rightarrow> (string + unit) \<times> 'd"
  dk_read_dir :: "'d \<Rightarrow> string + (string + string) list"
  dk_open_append :: "string \<Rightarrow> 'd \<Rightarrow> (string + unit) \<times> 'd"
  dk_append :: "string \<Rightarrow> bytes \<Rightarrow> 'd \<Rightarrow> bytes \<times> (string + unit) \<times> 'd"
  dk_len :: "string \<Rightarrow> 'd \<Rightarrow> u64 option"
  dk_read :: "string \<Rightarrow> 'd \<Rightarrow> string + bytes"

text \<open>\<open>dk_append\<close> also returns the bytes an error left unwritten.\<close>

record buf_writer =
  bw_name :: string
  bw_buffer :: bytes

definition BUF_CAPACITY :: nat where "BUF_CAPACITY = 64 * 1024"

definition io_result :: "string + 'a \<Rightarrow> 'a pacyte_result" where
  "io_result r = (case r of Inl msg \<Rightarrow> Inl (DiskIoFailure msg) | Inr x \<Rightarrow> Inr x)"

definition bw_flush :: "'d disk_ops \<Rightarrow> buf_writer \<Rightarrow> 'd \<Rightarrow> unit pacyte_result \<times> buf_writer \<times> 'd" where
  "bw_flush D w d =
     (if bw_buffer w = [] then (Inr (), w, d)
      else case dk_append D (bw_name w) (bw_buffer w) d of
             (rest, r, d') \<Rightarrow> (io_result r, w\<lparr>bw_buffer := rest\<rparr>, d'))"

text \<open>\<open>BufWriter::write_all\<close>: data that does not fit is written after the buffer was emptied.\<close>

definition write_all :: "'d disk_ops \<Rightarrow> bytes \<Rightarrow> buf_writer \<Rightarrow> 'd \<Rightarrow> unit pacyte_result \<times> buf_writer \<times> 'd" where
  "write_all D data w d =
     (case (if length data > BUF_CAPACITY - length (bw_buffer w) then bw_flush D w d else (Inr (), w, d)) of
        (Inl e, w1, d1) \<Rightarrow> (Inl e, w1, d1)
      | (Inr _, w1, d1) \<Rightarrow>
          if length data \<ge> BUF_CAPACITY then
            (case dk_append D (bw_name w1) data d1 of (rest, r, d2) \<Rightarrow> (io_result r, w1, d2))
          else (Inr (), w1\<lparr>bw_buffer := bw_buffer w1 @ data\<rparr>, d1))"

section \<open>File names\<close>

definition hex16 :: "u64 \<Rightarrow> string" where
  "hex16 w = map (\<lambda>i. hex_char (unat w div 16 ^ i mod 16)) (rev [0..<16])"

definition wal_name :: "u64 \<Rightarrow> string" where
  "wal_name lsn = ''wal_'' @ hex16 lsn @ ''.log''"

definition trim_end_matches :: "string \<Rightarrow> string \<Rightarrow> string" where
  "trim_end_matches p s = rev (trim_start_matches (rev p) (rev s))"

definition digit_value :: "char \<Rightarrow> nat option" where
  "digit_value c = (let n = of_char c :: nat in if 48 \<le> n \<and> n \<le> 57 then Some (n - 48) else None)"

definition parse_u64 :: "string \<Rightarrow> u64 option" where
  "parse_u64 s =
     (let ds = (case s of [] \<Rightarrow> [] | c # cs \<Rightarrow> if c = CHR ''+'' then cs else s);
          vs = map digit_value ds;
          n = foldl (\<lambda>a v. 10 * a + the v) 0 vs
      in if ds = [] \<or> None \<in> set vs \<or> n \<ge> 2 ^ 64 then None else Some (of_nat n))"

definition name_lsn :: "string \<Rightarrow> u64 option" where
  "name_lsn name =
     (if prefix ''wal_'' name \<and> suffix ''.log'' name
      then parse_u64 (trim_end_matches ''.log'' (trim_start_matches ''wal_'' name)) else None)"

fun latest_lsn :: "(string + string) list \<Rightarrow> u64 \<Rightarrow> u64 pacyte_result" where
  "latest_lsn [] m = Inr m"
| "latest_lsn (Inl msg # _) m = Inl (DiskIoFailure msg)"
| "latest_lsn (Inr name # es) m = latest_lsn es (case name_lsn name of Some l \<Rightarrow> max m l | None \<Rightarrow> m)"

definition find_latest_lsn :: "'d disk_ops \<Rightarrow> 'd \<Rightarrow> u64 pacyte_result" where
  "find_latest_lsn D d =
     (case dk_read_dir D d of Inl msg \<Rightarrow> Inl (DiskIoFailure msg) | Inr es \<Rightarrow> latest_lsn es 0)"

definition open_wal_file :: "'d disk_ops \<Rightarrow> u64 \<Rightarrow> 'd \<Rightarrow> buf_writer pacyte_result \<times> 'd" where
  "open_wal_file D lsn d =
     (case dk_open_append D (wal_name lsn) d of
        (Inl msg, d') \<Rightarrow> (Inl (DiskIoFailure msg), d')
      | (Inr _, d') \<Rightarrow> (Inr \<lparr>bw_name = wal_name lsn, bw_buffer = []\<rparr>, d'))"

section \<open>The manager\<close>

datatype wal_lock = WalFileLock | WalLsnLock | WalPendingLock

record wal_config =
  wal_enabled :: bool
  sync_interval_ms :: u64
  max_file_size :: u64
  max_pending_entries :: usize

definition wal_config_default :: wal_config where
  "wal_config_default =
     \<lparr>wal_enabled = True, sync_interval_ms = 100, max_file_size = WAL_MAX_FILE_SIZE, max_pending_entries = 1000\<rparr>"

record 'd wal_manager =
  wal_disk :: 'd
  wal_file :: "buf_writer option"
  current_lsn :: u64
  pending_entries :: "wal_entry list"
  wal_cfg :: wal_config

definition wal_manager_new :: "'d disk_ops \<Rightarrow> wal_config \<Rightarrow> 'd \<Rightarrow> 'd wal_manager pacyte_result \<times> 'd" where
  "wal_manager_new D cfg d =
     (case dk_create_dir D d of
        (Inl msg, d1) \<Rightarrow> (Inl (DiskIoFailure msg), d1)
      | (Inr _, d1) \<Rightarrow>
          (case find_latest_lsn D d1 of
             Inl e \<Rightarrow> (Inl e, d1)
           | Inr lsn \<Rightarrow>
               (case open_wal_file D lsn d1 of
                  (Inl e, d2) \<Rightarrow> (Inl e, d2)
                | (Inr w, d2) \<Rightarrow>
                    (Inr \<lparr>wal_disk = d2, wal_file = Some w, current_lsn = lsn, pending_entries = [], wal_cfg = cfg\<rparr>, d2))))"

definition sealed_record :: "wal_externals \<Rightarrow> timestamp \<Rightarrow> u64 \<Rightarrow> wal_entry \<Rightarrow> wal_record" where
  "sealed_record W now lsn e =
     (let r = wal_record_new now lsn e in r\<lparr>rec_checksum := compute_checksum W r\<rparr>)"

fun write_entries ::
    "wal_externals \<Rightarrow> 'd disk_ops \<Rightarrow> timestamp \<Rightarrow> u64 \<Rightarrow> wal_entry list \<Rightarrow> buf_writer \<Rightarrow> 'd \<Rightarrow>
     unit pacyte_result \<times> buf_writer \<times> 'd" where
  "write_entries W D now lsn [] w d = (Inr (), w, d)"
| "write_entries W D now lsn (e # es) w d =
     (case ser_record W (sealed_record W now lsn e) of
        Inl msg \<Rightarrow> (Inl (DiskIoFailure msg), w, d)
      | Inr bs \<Rightarrow>
          (case write_all D (le_bytes (of_nat (length bs) :: u32)) w d of
             (Inl er, w1, d1) \<Rightarrow> (Inl er, w1, d1)
           | (Inr _, w1, d1) \<Rightarrow>
               (case write_all D bs w1 d1 of
                  (Inl er, w2, d2) \<Rightarrow> (Inl er, w2, d2)
                | (Inr _, w2, d2) \<Rightarrow> write_entries W D now lsn es w2 d2)))"

text \<open>Writing a batch: the records, the buffer, and a new file once the current one is full.\<close>

definition write_pending ::
    "wal_externals \<Rightarrow> 'd disk_ops \<Rightarrow> timestamp \<Rightarrow> wal_entry list \<Rightarrow> buf_writer \<Rightarrow> 'd wal_manager \<Rightarrow>
     unit pacyte_result \<times> 'd wal_manager" where
  "write_pending W D now pending w m =
     (case write_entries W D now (current_lsn m) pending w (wal_disk m) of
        (Inl e, w1, d1) \<Rightarrow> (Inl e, m\<lparr>wal_file := Some w1, wal_disk := d1\<rparr>)
      | (Inr _, w1, d1) \<Rightarrow>
          (case bw_flush D w1 d1 of
             (Inl e, w2, d2) \<Rightarrow> (Inl e, m\<lparr>wal_file := Some w2, wal_disk := d2\<rparr>)
           | (Inr _, w2, d2) \<Rightarrow>
               let file_size = (case dk_len D (bw_name w2) d2 of Some n \<Rightarrow> n | None \<Rightarrow> 0)
               in if file_size \<ge> max_file_size (wal_cfg m) then
                    (case open_wal_file D (current_lsn m) d2 of
                       (Inl e, d3) \<Rightarrow> (Inl e, m\<lparr>wal_file := Some w2, wal_disk := d3\<rparr>)
                     | (Inr w3, d3) \<Rightarrow> (Inr (), m\<lparr>wal_file := Some w3, wal_disk := d3\<rparr>))
                  else (Inr (), m\<lparr>wal_file := Some w2, wal_disk := d2\<rparr>)))"

definition wal_flush ::
    "wal_externals \<Rightarrow> 'd disk_ops \<Rightarrow> timestamp \<Rightarrow> wal_lock guards \<Rightarrow> 'd wal_manager \<Rightarrow>
     (unit pacyte_result \<times> 'd wal_manager) outcome" where
  "wal_flush W D now held m =
     (if \<not> wal_enabled (wal_cfg m) then Returned (Inr (), m)
      else if \<not> may_write held WalPendingLock then Blocked
      else
        let pending = pending_entries m; m1 = m\<lparr>pending_entries := []\<rparr>
        in if pending = [] then Returned (Inr (), m1)
           else if \<not> may_write held WalFileLock then Blocked
           else case wal_file m1 of
                  None \<Rightarrow> Returned (Inl (DiskIoFailure ''WAL file not open''), m1)
                | Some w \<Rightarrow>
                    if \<not> may_read held WalLsnLock then Blocked
                    else Returned (write_pending W D now pending w m1))"

definition wal_append ::
    "wal_externals \<Rightarrow> 'd disk_ops \<Rightarrow> timestamp \<Rightarrow> wal_lock guards \<Rightarrow> wal_entry \<Rightarrow> 'd wal_manager \<Rightarrow>
     (u64 pacyte_result \<times> 'd wal_manager) outcome" where
  "wal_append W D now held e m =
     (if \<not> wal_enabled (wal_cfg m) then Returned (Inr 0, m)
      else if \<not> may_write held WalLsnLock \<or> \<not> may_write held WalPendingLock then Blocked
      else
        let lsn = current_lsn m + 1;
            m1 = m\<lparr>current_lsn := lsn, pending_entries := pending_entries m @ [e]\<rparr>
        in if length (pending_entries m1) \<ge> unat (max_pending_entries (wal_cfg m)) then
             (case wal_flush W D now ((WalLsnLock, WriteGuard) # held) m1 of
                Blocked \<Rightarrow> Blocked
              | Returned (Inl er, m2) \<Rightarrow> Returned (Inl er, m2)
              | Returned (Inr _, m2) \<Rightarrow> Returned (Inr lsn, m2))
           else Returned (Inr lsn, m1))"

text \<open>
  In \<open>checkpoint\<close> the read guard of \<open>*self.current_lsn.read()\<close> is a temporary of the statement that
  calls \<open>append\<close>, alive until that call has returned.
\<close>

definition wal_checkpoint ::
    "wal_externals \<Rightarrow> 'd disk_ops \<Rightarrow> timestamp \<Rightarrow> 'd wal_manager \<Rightarrow> (unit pacyte_result \<times> 'd wal_manager) outcome" where
  "wal_checkpoint W D now m =
     (case wal_append W D now [(WalLsnLock, ReadGuard)] (Checkpoint (current_lsn m) now) m of
        Blocked \<Rightarrow> Blocked
      | Returned (Inl e, m1) \<Rightarrow> Returned (Inl e, m1)
      | Returned (Inr _, m1) \<Rightarrow> wal_flush W D now [] m1)"

definition wal_close ::
    "wal_externals \<Rightarrow> 'd disk_ops \<Rightarrow> timestamp \<Rightarrow> 'd wal_manager \<Rightarrow> (unit pacyte_result \<times> 'd wal_manager) outcome" where
  "wal_close W D now m =
     (case wal_flush W D now [] m of
        Blocked \<Rightarrow> Blocked
      | Returned (Inl e, m1) \<Rightarrow> Returned (Inl e, m1)
      | Returned (Inr _, m1) \<Rightarrow> Returned (Inr (), m1\<lparr>wal_file := None\<rparr>))"

section \<open>Recovery\<close>

text \<open>The batches closed so far, the current one, and whether a batch marker was seen.\<close>

fun replay_entry ::
    "externals \<Rightarrow> wal_entry \<Rightarrow> write_batch list \<times> write_batch \<times> bool \<Rightarrow> write_batch list \<times> write_batch \<times> bool" where
  "replay_entry X (SaveBlock h b) (bs, cur, opn) = (bs, add_block b cur, opn)"
| "replay_entry X (SaveTransaction h tx) (bs, cur, opn) = (bs, add_transaction X tx cur, opn)"
| "replay_entry X (SaveAccount a acc) (bs, cur, opn) = (bs, add_account a acc cur, opn)"
| "replay_entry X (DeleteAccount a) (bs, cur, opn) = (bs, batch_delete_account a cur, opn)"
| "replay_entry X (SaveStateRoot h rt) (bs, cur, opn) = (bs, add_state_root h rt cur, opn)"
| "replay_entry X (Batch es) (bs, cur, opn) = (bs, cur, True)"
| "replay_entry X (Checkpoint l tm) (bs, cur, opn) =
     (if opn then (bs @ [cur], batch_clear cur, False) else (bs, cur, opn))"

definition replay_end :: "write_batch list \<times> write_batch \<times> bool \<Rightarrow> write_batch list" where
  "replay_end s = (case s of (bs, cur, opn) \<Rightarrow> if batch_is_empty cur then bs else bs @ [cur])"

function recover_loop ::
    "externals \<Rightarrow> wal_externals \<Rightarrow> bytes \<Rightarrow> write_batch list \<times> write_batch \<times> bool \<Rightarrow>
     (write_batch list \<times> write_batch \<times> bool) pacyte_result" where
  "recover_loop X W bs s =
     (if length bs < 4 then Inr s
      else
        let len = le_nat (take 4 bs); body = drop 4 bs
        in if length body < len then Inl (DiskIoFailure ''failed to fill whole buffer'')
           else case de_record W (take len body) of
                  Inl msg \<Rightarrow> Inl (DiskIoFailure (''Deserialize failed: '' @ msg))
                | Inr r \<Rightarrow>
                    recover_loop X W (drop len body) (if record_verify W r then replay_entry X (rec_entry r) s else s))"
  by auto
termination by (relation "measure (\<lambda>(X, W, bs, s). length bs)") auto

declare recover_loop.simps [simp del]

definition recover_from_file :: "externals \<Rightarrow> wal_externals \<Rightarrow> bytes \<Rightarrow> write_batch list pacyte_result" where
  "recover_from_file X W bs =
     (case recover_loop X W bs ([], batch_new, False) of Inl e \<Rightarrow> Inl e | Inr s \<Rightarrow> Inr (replay_end s))"

definition extension :: "string \<Rightarrow> string option" where
  "extension name =
     (let r = takeWhile (\<lambda>c. c \<noteq> CHR ''.'') (rev name)
      in if length r + 1 < length name then Some (rev r) else None)"

fun recover_files ::
    "externals \<Rightarrow> wal_externals \<Rightarrow> 'd disk_ops \<Rightarrow> 'd \<Rightarrow> (string + string) list \<Rightarrow> write_batch list \<Rightarrow>
     write_batch list pacyte_result" where
  "recover_files X W D d [] bs = Inr bs"
| "recover_files X W D d (Inl msg # _) bs = Inl (DiskIoFailure msg)"
| "recover_files X W D d (Inr name # es) bs =
     (if extension name = Some ''log'' then
        (case dk_read D name d of
           Inl msg \<Rightarrow> Inl (DiskIoFailure msg)
         | Inr content \<Rightarrow>
             (case recover_from_file X W content of
                Inl e \<Rightarrow> Inl e
              | Inr recovered \<Rightarrow> recover_files X W D d es (bs @ recovered)))
      else recover_files X W D d es bs)"

definition wal_recover :: "externals \<Rightarrow> wal_externals \<Rightarrow> 'd disk_ops \<Rightarrow> 'd wal_manager \<Rightarrow> write_batch list pacyte_result" where
  "wal_recover X W D m =
     (if \<not> wal_enabled (wal_cfg m) then Inr []
      else case dk_read_dir D (wal_disk m) of
             Inl msg \<Rightarrow> Inl (DiskIoFailure msg)
           | Inr es \<Rightarrow> recover_files X W D (wal_disk m) es [])"

section \<open>Frames\<close>

text \<open>What one entry contributes to the file, and what it means as a write.\<close>

definition frame :: "wal_externals \<Rightarrow> timestamp \<Rightarrow> u64 \<Rightarrow> wal_entry \<Rightarrow> bytes" where
  "frame W now lsn e =
     (case ser_record W (sealed_record W now lsn e) of
        Inl _ \<Rightarrow> [] | Inr bs \<Rightarrow> le_bytes (of_nat (length bs) :: u32) @ bs)"

fun plain_entry :: "wal_entry \<Rightarrow> bool" where
  "plain_entry (Batch _) = False"
| "plain_entry (Checkpoint _ _) = False"
| "plain_entry _ = True"

fun entry_write :: "externals \<Rightarrow> wal_entry \<Rightarrow> write_batch \<Rightarrow> write_batch" where
  "entry_write X (SaveBlock h b) wb = add_block b wb"
| "entry_write X (SaveTransaction h tx) wb = add_transaction X tx wb"
| "entry_write X (SaveAccount a acc) wb = add_account a acc wb"
| "entry_write X (DeleteAccount a) wb = batch_delete_account a wb"
| "entry_write X (SaveStateRoot h rt) wb = add_state_root h rt wb"
| "entry_write X _ wb = wb"

definition can_write :: "wal_externals \<Rightarrow> wal_entry \<Rightarrow> bool" where
  "can_write W e \<longleftrightarrow> (\<forall>now lsn. \<exists>bs. ser_record W (sealed_record W now lsn e) = Inr bs)"

text \<open>The serialiser's contract: what it wrote can be read back, and a length fits in four bytes.\<close>

definition codec_ok :: "wal_externals \<Rightarrow> bool" where
  "codec_ok W \<longleftrightarrow> (\<forall>r bs. ser_record W r = Inr bs \<longrightarrow> de_record W bs = Inr r \<and> length bs < 2 ^ 32)"

lemma sealed_verifies [simp]: "record_verify W (sealed_record W now lsn e)" "rec_entry (sealed_record W now lsn e) = e"
  by (simp_all add: record_verify_def sealed_record_def wal_record_new_def compute_checksum_def Let_def)

lemma recover_frame:
  assumes "codec_ok W" "can_write W e"
  shows "recover_loop X W (frame W now lsn e @ rest) s = recover_loop X W rest (replay_entry X e s)"
proof -
  obtain bs where bs: "ser_record W (sealed_record W now lsn e) = Inr bs" using assms(2) by (auto simp: can_write_def)
  then have de: "de_record W bs = Inr (sealed_record W now lsn e)" "length bs < 2 ^ 32"
    using assms(1) by (auto simp: codec_ok_def)
  have "le_nat (le_bytes (of_nat (length bs) :: u32)) = unat (of_nat (length bs) :: u32)"
    by (rule le_nat_le_bytes) simp
  then have "le_nat (le_bytes (of_nat (length bs) :: u32)) = length bs"
    using de(2) by (simp add: unat_of_nat)
  then show ?thesis
    by (subst recover_loop.simps) (simp add: frame_def bs de(1) Let_def)
qed

lemma recover_frames:
  assumes "codec_ok W" "\<forall>e\<in>set es. can_write W e"
  shows "recover_loop X W (concat (map (frame W now lsn) es)) s = Inr (fold (replay_entry X) es s)"
  using assms(2)
proof (induction es arbitrary: s)
  case Nil
  then show ?case by (subst recover_loop.simps) simp
next
  case (Cons e es)
  then show ?case using recover_frame [OF assms(1), of e] by simp
qed

lemma replay_plain:
  "\<forall>e\<in>set es. plain_entry e \<Longrightarrow> fold (replay_entry X) es (bs, cur, opn) = (bs, fold (entry_write X) es cur, opn)"
proof (induction es arbitrary: cur)
  case (Cons e es)
  then show ?case by (cases e) auto
qed simp

lemma entry_write_len: "plain_entry e \<Longrightarrow> batch_len (entry_write X e wb) = Suc (batch_len wb)"
  by (cases e)
    (auto simp: batch_len_def add_block_def add_transaction_def add_account_def batch_delete_account_def add_state_root_def)

lemma entry_writes_len: "\<forall>e\<in>set es. plain_entry e \<Longrightarrow> batch_len (fold (entry_write X) es wb) = length es + batch_len wb"
  by (induction es arbitrary: wb) (auto simp: entry_write_len)

lemma batch_empty_len: "batch_is_empty wb \<longleftrightarrow> batch_len wb = 0"
  by (auto simp: batch_is_empty_def batch_len_def)

lemma recover_plain_file:
  assumes "codec_ok W" "\<forall>e\<in>set es. can_write W e \<and> plain_entry e" "es \<noteq> []"
  shows "recover_from_file X W (concat (map (frame W now lsn) es)) = Inr [fold (entry_write X) es batch_new]"
  using recover_frames [OF assms(1), of es X now lsn] assms(2,3)
  by (simp add: recover_from_file_def replay_plain replay_end_def batch_empty_len entry_writes_len)

lemma recover_empty_file [simp]: "recover_from_file X W [] = Inr []"
  by (simp add: recover_from_file_def recover_loop.simps replay_end_def batch_is_empty_def batch_new_def)

lemma extension_wal_name [simp]: "extension (wal_name lsn) = Some ''log''"
  by (simp add: extension_def wal_name_def Let_def)

text \<open>A client that appends several entries.\<close>

fun wal_append_all ::
    "wal_externals \<Rightarrow> 'd disk_ops \<Rightarrow> timestamp \<Rightarrow> wal_entry list \<Rightarrow> 'd wal_manager \<Rightarrow> (unit pacyte_result \<times> 'd wal_manager) outcome" where
  "wal_append_all W D now [] m = Returned (Inr (), m)"
| "wal_append_all W D now (e # es) m =
     (case wal_append W D now [] e m of
        Blocked \<Rightarrow> Blocked
      | Returned (Inl er, m1) \<Rightarrow> Returned (Inl er, m1)
      | Returned (Inr _, m1) \<Rightarrow> wal_append_all W D now es m1)"

lemma append_all_below_limit:
  assumes "wal_enabled (wal_cfg m)" "length (pending_entries m) + length es < unat (max_pending_entries (wal_cfg m))"
  shows "wal_append_all W D now es m =
     Returned (Inr (), m\<lparr>current_lsn := current_lsn m + of_nat (length es), pending_entries := pending_entries m @ es\<rparr>)"
  using assms
proof (induction es arbitrary: m)
  case (Cons e es)
  let ?m = "m\<lparr>current_lsn := current_lsn m + 1, pending_entries := pending_entries m @ [e]\<rparr>"
  have "wal_append W D now [] e m = Returned (Inr (current_lsn m + 1), ?m)"
    using Cons.prems by (simp add: wal_append_def Let_def)
  moreover have "wal_append_all W D now es ?m =
      Returned (Inr (), m\<lparr>current_lsn := current_lsn m + of_nat (length (e # es)), pending_entries := pending_entries m @ e # es\<rparr>)"
    using Cons.IH [of ?m] Cons.prems by (simp add: add.assoc)
  ultimately show ?case by simp
qed simp

section \<open>The interface of the directory\<close>

text \<open>What the log relies on when no call fails; \<open>content d\<close> gives the files of \<open>d\<close>.\<close>

locale log_disk =
  fixes D :: "'d disk_ops" and content :: "'d \<Rightarrow> string \<Rightarrow> bytes option"
  assumes create_ok: "\<exists>d'. dk_create_dir D d = (Inr (), d') \<and> content d' = content d"
    and dir_ok: "\<exists>ns. dk_read_dir D d = Inr (map Inr ns) \<and> distinct ns \<and> set ns = dom (content d)"
    and open_ok: "\<exists>d'. dk_open_append D n d = (Inr (), d') \<and>
      content d' = (case content d n of None \<Rightarrow> (content d)(n \<mapsto> []) | Some _ \<Rightarrow> content d)"
    and append_ok: "content d n = Some c \<Longrightarrow>
      \<exists>d'. dk_append D n bs d = ([], Inr (), d') \<and> content d' = (content d)(n \<mapsto> c @ bs)"
    and read_ok: "content d n = Some c \<Longrightarrow> dk_read D n d = Inr c"
begin

text \<open>The text of a writer is what its file and its buffer hold together.\<close>

lemma bw_flush_ok:
  assumes "content d (bw_name w) = Some c"
  shows "\<exists>d'. bw_flush D w d = (Inr (), w\<lparr>bw_buffer := []\<rparr>, d') \<and> content d' = (content d)(bw_name w \<mapsto> c @ bw_buffer w)"
  using append_ok [OF assms, of "bw_buffer w"] assms
  by (cases w) (auto simp: bw_flush_def io_result_def fun_upd_idem)

lemma write_all_ok:
  assumes "content d (bw_name w) = Some c"
  shows "\<exists>w' d' c'. write_all D data w d = (Inr (), w', d') \<and> bw_name w' = bw_name w \<and>
     content d' = (content d)(bw_name w \<mapsto> c') \<and> c' @ bw_buffer w' = c @ bw_buffer w @ data"
proof -
  obtain w1 d1 c1 where 1: "(if length data > BUF_CAPACITY - length (bw_buffer w) then bw_flush D w d else (Inr (), w, d)) = (Inr (), w1, d1)"
    "bw_name w1 = bw_name w" "content d1 = (content d)(bw_name w \<mapsto> c1)" "c1 @ bw_buffer w1 = c @ bw_buffer w"
    "length data > BUF_CAPACITY - length (bw_buffer w) \<Longrightarrow> bw_buffer w1 = []"
  proof (cases "length data > BUF_CAPACITY - length (bw_buffer w)")
    case True
    obtain d1 where "bw_flush D w d = (Inr (), w\<lparr>bw_buffer := []\<rparr>, d1)" "content d1 = (content d)(bw_name w \<mapsto> c @ bw_buffer w)"
      using bw_flush_ok [OF assms] by blast
    with True show thesis by (intro that [of "w\<lparr>bw_buffer := []\<rparr>" d1 "c @ bw_buffer w"]) auto
  next
    case False
    with assms show thesis by (intro that [of w d c]) (auto simp: fun_upd_idem)
  qed
  show ?thesis
  proof (cases "length data \<ge> BUF_CAPACITY")
    case True
    have e: "bw_buffer w1 = []"
    proof (cases "length data > BUF_CAPACITY - length (bw_buffer w)")
      case False
      with True have "bw_buffer w = []" by (cases "bw_buffer w") (auto simp: BUF_CAPACITY_def)
      with False 1(1) show ?thesis by simp
    qed (rule 1(5))
    obtain d2 where "dk_append D (bw_name w1) data d1 = ([], Inr (), d2)" "content d2 = (content d1)(bw_name w1 \<mapsto> c1 @ data)"
      using append_ok [of d1 "bw_name w1" c1 data] 1(2,3) by auto
    with True e 1 show ?thesis
      by (intro exI [of _ w1] exI [of _ d2] exI [of _ "c1 @ data"]) (simp add: write_all_def io_result_def)
  next
    case False
    with 1 show ?thesis
      by (intro exI [of _ "w1\<lparr>bw_buffer := bw_buffer w1 @ data\<rparr>"] exI [of _ d1] exI [of _ c1]) (auto simp: write_all_def)
  qed
qed

lemma write_entries_ok:
  assumes "\<forall>e\<in>set es. can_write W e" "content d (bw_name w) = Some c"
  shows "\<exists>w' d' c'. write_entries W D now lsn es w d = (Inr (), w', d') \<and> bw_name w' = bw_name w \<and>
     content d' = (content d)(bw_name w \<mapsto> c') \<and> c' @ bw_buffer w' = c @ bw_buffer w @ concat (map (frame W now lsn) es)"
  using assms
proof (induction es arbitrary: w d c)
  case Nil
  then show ?case by (intro exI [of _ w] exI [of _ d] exI [of _ c]) (auto simp: fun_upd_idem)
next
  case (Cons e es)
  obtain bs where bs: "ser_record W (sealed_record W now lsn e) = Inr bs"
    using Cons.prems(1) unfolding can_write_def by (meson list.set_intros(1))
  let ?len = "le_bytes (of_nat (length bs) :: u32)"
  obtain w1 d1 c1 where 1: "write_all D ?len w d = (Inr (), w1, d1)" "bw_name w1 = bw_name w"
    "content d1 = (content d)(bw_name w \<mapsto> c1)" "c1 @ bw_buffer w1 = c @ bw_buffer w @ ?len"
    using write_all_ok [OF Cons.prems(2)] by blast
  obtain w2 d2 c2 where 2: "write_all D bs w1 d1 = (Inr (), w2, d2)" "bw_name w2 = bw_name w1"
    "content d2 = (content d1)(bw_name w1 \<mapsto> c2)" "c2 @ bw_buffer w2 = c1 @ bw_buffer w1 @ bs"
    using write_all_ok [of d1 w1 c1 bs] 1(2,3) by auto
  obtain w3 d3 c3 where 3: "write_entries W D now lsn es w2 d2 = (Inr (), w3, d3)" "bw_name w3 = bw_name w2"
    "content d3 = (content d2)(bw_name w2 \<mapsto> c3)" "c3 @ bw_buffer w3 = c2 @ bw_buffer w2 @ concat (map (frame W now lsn) es)"
  proof -
    have "\<forall>e\<in>set es. can_write W e" "content d2 (bw_name w2) = Some c2" using Cons.prems(1) 2(2,3) by simp_all
    then show thesis using Cons.IH that by blast
  qed
  have "c2 @ bw_buffer w2 = c @ bw_buffer w @ frame W now lsn e"
    using 1(4) 2(4) by (simp add: frame_def bs flip: append_assoc)
  then have "c3 @ bw_buffer w3 = c @ bw_buffer w @ concat (map (frame W now lsn) (e # es))"
    using 3(4) by (simp flip: append_assoc)
  with bs 1 2 3 show ?case
    by (intro exI [of _ w3] exI [of _ d3] exI [of _ c3]) simp
qed

lemma write_pending_ok:
  assumes "\<forall>e\<in>set es. can_write W e" "content (wal_disk m) (bw_name w) = Some c" "bw_buffer w = []"
  shows "\<exists>w' d'. write_pending W D now es w m = (Inr (), m\<lparr>wal_file := Some w', wal_disk := d'\<rparr>) \<and>
     (let f = (content (wal_disk m))(bw_name w \<mapsto> c @ concat (map (frame W now (current_lsn m)) es)); n = wal_name (current_lsn m)
      in content d' = f \<or> content d' = f(n \<mapsto> []) \<and> f n = None)"
proof -
  obtain w1 d1 c1 where 1: "write_entries W D now (current_lsn m) es w (wal_disk m) = (Inr (), w1, d1)" "bw_name w1 = bw_name w"
    "content d1 = (content (wal_disk m))(bw_name w \<mapsto> c1)"
    "c1 @ bw_buffer w1 = c @ concat (map (frame W now (current_lsn m)) es)"
    using write_entries_ok [OF assms(1,2)] assms(3) by force
  obtain d2 where 2: "bw_flush D w1 d1 = (Inr (), w1\<lparr>bw_buffer := []\<rparr>, d2)"
    "content d2 = (content (wal_disk m))(bw_name w \<mapsto> c @ concat (map (frame W now (current_lsn m)) es))"
    using bw_flush_ok [of d1 w1 c1] 1 by auto
  obtain d3 where 3: "dk_open_append D (wal_name (current_lsn m)) d2 = (Inr (), d3)"
    "content d3 = (case content d2 (wal_name (current_lsn m)) of None \<Rightarrow> (content d2)(wal_name (current_lsn m) \<mapsto> []) | Some _ \<Rightarrow> content d2)"
    using open_ok by blast
  define full where "full \<longleftrightarrow> (case dk_len D (bw_name w) d2 of Some n \<Rightarrow> n | None \<Rightarrow> 0) \<ge> max_file_size (wal_cfg m)"
  define w' where "w' = (if full then \<lparr>bw_name = wal_name (current_lsn m), bw_buffer = []\<rparr> else w1\<lparr>bw_buffer := []\<rparr>)"
  define d' where "d' = (if full then d3 else d2)"
  have "write_pending W D now es w m = (Inr (), m\<lparr>wal_file := Some w', wal_disk := d'\<rparr>)"
    by (simp add: write_pending_def 1 2(1) open_wal_file_def 3(1) Let_def full_def w'_def d'_def)
  moreover have "d' = d2 \<or> d' = d3" by (simp add: d'_def)
  ultimately show ?thesis
    using 2(2) 3(2) by (intro exI [of _ w'] exI [of _ d']) (auto simp: Let_def split: option.splits)
qed

lemma recover_files_ok:
  assumes "\<forall>n\<in>set ns. extension n = Some ''log'' \<and> (\<exists>c. content d n = Some c \<and> recover_from_file X W c = Inr (f n))"
  shows "recover_files X W D d (map Inr ns) bs = Inr (bs @ concat (map f ns))"
  using assms by (induction ns arbitrary: bs) (auto simp: read_ok)

lemma new_log:
  assumes "content d = Map.empty"
  shows "\<exists>d2. wal_manager_new D cfg d = (Inr \<lparr>wal_disk = d2, wal_file = Some \<lparr>bw_name = wal_name 0, bw_buffer = []\<rparr>,
       current_lsn = 0, pending_entries = [], wal_cfg = cfg\<rparr>, d2) \<and> content d2 = [wal_name 0 \<mapsto> []]"
proof -
  obtain d1 where 1: "dk_create_dir D d = (Inr (), d1)" "content d1 = Map.empty" using create_ok assms by metis
  have r1: "dk_read_dir D d1 = Inr []" using dir_ok [of d1] 1(2) by auto
  obtain d2 where 2: "dk_open_append D (wal_name 0) d1 = (Inr (), d2)" "content d2 = [wal_name 0 \<mapsto> []]"
    using open_ok [of "wal_name 0" d1] 1(2) by auto
  show ?thesis
    by (intro exI [of _ d2]) (simp add: wal_manager_new_def 1 find_latest_lsn_def r1 open_wal_file_def 2)
qed

text \<open>A directory with one log file, and perhaps a second one that is empty.\<close>

lemma recover_one:
  assumes "wal_enabled (wal_cfg m)" "recover_from_file X W c = Inr bs"
    and "content (wal_disk m) = [wal_name l \<mapsto> c] \<or>
         content (wal_disk m) = [wal_name l \<mapsto> c, wal_name k \<mapsto> []] \<and> wal_name k \<noteq> wal_name l"
  shows "wal_recover X W D m = Inr bs"
proof -
  obtain ns where ns: "dk_read_dir D (wal_disk m) = Inr (map Inr ns)" "distinct ns" "set ns = dom (content (wal_disk m))"
    using dir_ok by blast
  let ?f = "\<lambda>n. if n = wal_name l then bs else []"
  have files: "recover_files X W D (wal_disk m) (map Inr ns) [] = Inr ([] @ concat (map ?f ns))"
    by (rule recover_files_ok) (use assms(2,3) ns(3) in \<open>auto split: if_splits\<close>)
  have one: "wal_name l \<in> set ns" using ns(3) assms(3) by auto
  have "concat (map ?f ns) = bs"
    using ns(2) one
  proof (induction ns)
    case (Cons n ns)
    then show ?case by (cases "n = wal_name l") (auto simp: concat_eq_Nil_conv)
  qed simp
  then show ?thesis using files assms(1) by (simp add: wal_recover_def ns(1))
qed

lemma log_roundtrip:
  assumes empty: "content d = Map.empty" and cfg: "wal_enabled cfg" "length es < unat (max_pending_entries cfg)"
    and es: "codec_ok W" "\<forall>e\<in>set es. can_write W e \<and> plain_entry e" "es \<noteq> []"
  shows "\<exists>m0 d0 m1 m2. wal_manager_new D cfg d = (Inr m0, d0) \<and>
     wal_append_all W D now es m0 = Returned (Inr (), m1) \<and> wal_recover X W D m1 = Inr [] \<and>
     wal_flush W D now [] m1 = Returned (Inr (), m2) \<and>
     wal_recover X W D m2 = Inr [fold (entry_write X) es batch_new]"
proof -
  let ?w = "\<lparr>bw_name = wal_name 0, bw_buffer = []\<rparr>"
  define m0 where "m0 d = \<lparr>wal_disk = d, wal_file = Some ?w, current_lsn = 0, pending_entries = [], wal_cfg = cfg\<rparr>" for d :: 'd
  obtain d2 where new: "wal_manager_new D cfg d = (Inr (m0 d2), d2)" and d2: "content d2 = [wal_name 0 \<mapsto> []]"
    using new_log [OF empty, of cfg] by (auto simp: m0_def)
  define m1 where "m1 = (m0 d2)\<lparr>current_lsn := of_nat (length es), pending_entries := es\<rparr>"
  have app: "wal_append_all W D now es (m0 d2) = Returned (Inr (), m1)"
    using append_all_below_limit [of "m0 d2" es] cfg by (simp add: m0_def m1_def)
  have rec1: "wal_recover X W D m1 = Inr []"
    by (rule recover_one [of m1 X W "[]" "[]" 0]) (simp_all add: m1_def m0_def cfg d2)
  let ?m = "m1\<lparr>pending_entries := []\<rparr>" and ?n = "wal_name (of_nat (length es))"
  let ?c = "concat (map (frame W now (of_nat (length es))) es)"
  obtain w' d' where 3: "write_pending W D now es ?w ?m = (Inr (), ?m\<lparr>wal_file := Some w', wal_disk := d'\<rparr>)"
    "content d' = [wal_name 0 \<mapsto> ?c] \<or> content d' = [wal_name 0 \<mapsto> ?c, ?n \<mapsto> []] \<and> ?n \<noteq> wal_name 0"
    using write_pending_ok [of es W ?m ?w "[]" now] es(2) d2 by (auto simp: Let_def m1_def m0_def split: if_splits)
  have "wal_flush W D now [] m1 = Returned (Inr (), ?m\<lparr>wal_file := Some w', wal_disk := d'\<rparr>)"
    using cfg(1) es(3) 3(1) by (simp add: wal_flush_def Let_def m1_def m0_def)
  moreover have "wal_recover X W D (?m\<lparr>wal_file := Some w', wal_disk := d'\<rparr>) = Inr [fold (entry_write X) es batch_new]"
    by (rule recover_one [OF _ recover_plain_file [OF es]]) (use 3(2) cfg(1) in \<open>simp_all add: m1_def m0_def\<close>)
  ultimately show ?thesis using new app rec1 by blast
qed

end

section \<open>A directory that never fails\<close>

type_synonym wal_dir = "(string \<times> bytes) list"

definition dir_ops :: "wal_dir disk_ops" where
  "dir_ops =
     \<lparr>dk_create_dir = \<lambda>d. (Inr (), d),
      dk_read_dir = \<lambda>d. Inr (map Inr (remdups (map fst d))),
      dk_open_append = \<lambda>n d. (Inr (), case map_of d n of None \<Rightarrow> AList.update n [] d | Some _ \<Rightarrow> d),
      dk_append = \<lambda>n bs d. ([], Inr (), AList.update n (case map_of d n of None \<Rightarrow> bs | Some c \<Rightarrow> c @ bs) d),
      dk_len = \<lambda>n d. map_option (of_nat \<circ> length) (map_of d n),
      dk_read = \<lambda>n d. case map_of d n of None \<Rightarrow> Inl ''No such file or directory (os error 2)'' | Some c \<Rightarrow> Inr c\<rparr>"

interpretation wdir: log_disk dir_ops map_of
  by unfold_locales (auto simp: dir_ops_def dom_map_of_conv_image_fst fun_eq_iff split: option.splits)


text \<open>A codec for deletions, enough to run the log.\<close>

definition sample_wal_externals :: wal_externals where
  "sample_wal_externals =
     \<lparr>ser_record = \<lambda>r. case rec_entry r of
          DeleteAccount a \<Rightarrow> if length a = 32 then Inr (le_bytes (rec_magic r) @ le_bytes (rec_version r) @ le_bytes (rec_lsn r) @
             le_bytes (rec_timestamp r) @ le_bytes (rec_checksum r) @ a) else Inl ''length''
        | _ \<Rightarrow> Inl ''unsupported'',
      de_record = \<lambda>bs. Inr \<lparr>rec_magic = of_nat (le_nat (take 4 bs)), rec_version = of_nat (le_nat (take 4 (drop 4 bs))),
          rec_lsn = of_nat (le_nat (take 8 (drop 8 bs))), rec_timestamp = of_nat (le_nat (take 8 (drop 16 bs))),
          rec_entry = DeleteAccount (drop 28 bs), rec_checksum = of_nat (le_nat (take 4 (drop 24 bs)))\<rparr>,
      default_hash = \<lambda>a b c d. c + d\<rparr>"

lemma sample_codec_ok: "codec_ok sample_wal_externals"
proof -
  have "of_nat (le_nat (le_bytes w)) = w" for w :: u32 by (simp add: le_nat_le_bytes)
  moreover have "of_nat (le_nat (le_bytes w)) = w" for w :: u64 by (simp add: le_nat_le_bytes)
  ultimately show ?thesis
    by (auto simp: codec_ok_def sample_wal_externals_def split: wal_entry.splits if_splits)
qed


text \<open>
  The log waits for its own locks. With logging enabled \<open>checkpoint\<close> never returns, from any
  state and on any directory, and neither does the \<open>append\<close> that reaches the pending limit while
  the log file is open: the LSN is still locked when the LSN is read again.
\<close>

theorem wal_deadlocks:
  assumes "wal_enabled (wal_cfg m)"
  shows "wal_checkpoint W D now m = Blocked \<and>
     (wal_file m \<noteq> None \<and> unat (max_pending_entries (wal_cfg m)) \<le> length (pending_entries m) + 1 \<longrightarrow>
      wal_append W D now [] e m = Blocked)"
  using assms by (auto simp: wal_checkpoint_def wal_append_def wal_flush_def Let_def)

theorem wal_deadlocks_witness:
  "\<exists>m0 d0. wal_manager_new dir_ops (wal_config_default\<lparr>max_pending_entries := 1\<rparr>) [] = (Inr m0, d0) \<and>
     wal_checkpoint sample_wal_externals dir_ops 5 m0 = Blocked \<and>
     wal_append sample_wal_externals dir_ops 5 [] (DeleteAccount zero32) m0 = Blocked"
proof -
  obtain m0 d0 where m0: "wal_manager_new dir_ops (wal_config_default\<lparr>max_pending_entries := 1\<rparr>) [] = (Inr m0, d0)"
    "wal_file m0 \<noteq> None" "wal_cfg m0 = wal_config_default\<lparr>max_pending_entries := 1\<rparr>"
    using wdir.new_log [of "[]" "wal_config_default\<lparr>max_pending_entries := 1\<rparr>"] by auto
  then show ?thesis
    using wal_deadlocks [of m0 sample_wal_externals dir_ops 5 "DeleteAccount zero32"] by (auto simp: wal_config_default_def)
qed

text \<open>The LSN in a file name is written in hexadecimal and read in decimal; batches are read as nothing.\<close>

lemma names_read_in_decimal: "name_lsn (wal_name 16) = Some 10" "name_lsn (wal_name 10) = None"
proof -
  have "wal_name 16 = ''wal_0000000000000010.log''" "wal_name 10 = ''wal_000000000000000a.log''"
    by (simp_all add: wal_name_def hex16_def hex_char_def upt_rec)
  moreover have "name_lsn ''wal_0000000000000010.log'' = Some 10" "name_lsn ''wal_000000000000000a.log'' = None"
    by (simp_all add: name_lsn_def trim_end_matches_def trim_start_matches.simps parse_u64_def digit_value_def suffix_to_prefix)
  ultimately show "name_lsn (wal_name 16) = Some 10" "name_lsn (wal_name 10) = None" by simp_all
qed

lemma reopened_log_misreads_lsn: "latest_lsn [Inr (wal_name 16)] 0 = Inr 10" "latest_lsn [Inr (wal_name 10)] 0 = Inr 0"
  by (simp_all add: names_read_in_decimal)

lemma batch_entries_are_dropped:
  assumes "codec_ok W" "can_write W (Batch es)"
  shows "recover_from_file X W (frame W now lsn (Batch es)) = Inr []"
  using recover_frames [OF assms(1), of "[Batch es]" X now lsn] assms(2)
  by (simp add: recover_from_file_def replay_end_def batch_is_empty_def batch_new_def)

end
