(* ===== verification/Storage_Cache.thy ===== *)
theory Storage_Cache
  imports Core_Types Pacyte_Float
begin

text \<open>
  \<open>src/storage/cache.rs\<close>: the LRU cache with expiry and the block, transaction and account caches built
  on it. An \<open>Instant\<close> is the number of nanoseconds since the start of the clock, and the clock is
  the argument \<open>now\<close>. The hash map is an association list whose order stands for the
  map's iteration order, which only matters between entries of the same access time.
\<close>

section \<open>The LRU cache\<close>

record 'v lru_entry =
  le_value :: 'v
  last_access :: nat

record ('k, 'v) lru_cache =
  lru_max_size :: nat
  ttl :: "nat option"
  lru_map :: "('k \<times> 'v lru_entry) list"
  hits :: u64
  misses :: u64

definition lru_new :: "nat \<Rightarrow> ('k, 'v) lru_cache" where
  "lru_new n = \<lparr>lru_max_size = n, ttl = None, lru_map = [], hits = 0, misses = 0\<rparr>"

definition lru_with_ttl :: "nat \<Rightarrow> nat \<Rightarrow> ('k, 'v) lru_cache" where
  "lru_with_ttl n d = \<lparr>lru_max_size = n, ttl = Some d, lru_map = [], hits = 0, misses = 0\<rparr>"

definition evict_expired :: "nat \<Rightarrow> ('k, 'v) lru_cache \<Rightarrow> ('k, 'v) lru_cache" where
  "evict_expired now c =
     (case ttl c of
        None \<Rightarrow> c
      | Some d \<Rightarrow> c\<lparr>lru_map := filter (\<lambda>(_, e). now - last_access e < d) (lru_map c)\<rparr>)"

definition keys_to_remove :: "('k, 'v) lru_cache \<Rightarrow> 'k list" where
  "keys_to_remove c =
     map fst (take (length (lru_map c) - lru_max_size c) (sort_key (last_access \<circ> snd) (lru_map c)))"

definition evict_lru :: "('k, 'v) lru_cache \<Rightarrow> ('k, 'v) lru_cache" where
  "evict_lru c =
     (if length (lru_map c) > lru_max_size c
      then c\<lparr>lru_map := fold AList.delete (keys_to_remove c) (lru_map c)\<rparr> else c)"

definition lru_get :: "nat \<Rightarrow> 'k \<Rightarrow> ('k, 'v) lru_cache \<Rightarrow> 'v option \<times> ('k, 'v) lru_cache" where
  "lru_get now k c =
     (let c1 = evict_expired now c in
      case map_of (lru_map c1) k of
        Some e \<Rightarrow> (Some (le_value e), c1\<lparr>lru_map := AList.update k (e\<lparr>last_access := now\<rparr>) (lru_map c1), hits := hits c1 + 1\<rparr>)
      | None \<Rightarrow> (None, c1\<lparr>misses := misses c1 + 1\<rparr>))"

definition lru_put :: "nat \<Rightarrow> 'k \<Rightarrow> 'v \<Rightarrow> ('k, 'v) lru_cache \<Rightarrow> ('k, 'v) lru_cache" where
  "lru_put now k v c =
     (let c1 = evict_expired now c
      in evict_lru (c1\<lparr>lru_map := AList.update k \<lparr>le_value = v, last_access = now\<rparr> (lru_map c1)\<rparr>))"

definition lru_remove :: "'k \<Rightarrow> ('k, 'v) lru_cache \<Rightarrow> ('k, 'v) lru_cache" where
  "lru_remove k c = c\<lparr>lru_map := AList.delete k (lru_map c)\<rparr>"

definition lru_clear :: "('k, 'v) lru_cache \<Rightarrow> ('k, 'v) lru_cache" where
  "lru_clear c = c\<lparr>lru_map := []\<rparr>"

definition lru_len :: "('k, 'v) lru_cache \<Rightarrow> nat" where
  "lru_len c = length (lru_map c)"

definition lru_contains_key :: "nat \<Rightarrow> 'k \<Rightarrow> ('k, 'v) lru_cache \<Rightarrow> bool \<times> ('k, 'v) lru_cache" where
  "lru_contains_key now k c = (let c1 = evict_expired now c in (map_of (lru_map c1) k \<noteq> None, c1))"

definition hit_rate :: "('k, 'v) lru_cache \<Rightarrow> f64" where
  "hit_rate c =
     (let h = f64_of_word (hits c); n = fl_add h (f64_of_word (misses c)) in if n > 0 then fl_div h n else 0)"

section \<open>Typed caches\<close>

record block_cache =
  bc_cache :: "(block_height, block) lru_cache"
  hash_index :: "(hash \<times> block_height) list"

definition block_cache_new :: "nat \<Rightarrow> block_cache" where
  "block_cache_new n = \<lparr>bc_cache = lru_new n, hash_index = []\<rparr>"

definition bc_get :: "nat \<Rightarrow> block_height \<Rightarrow> block_cache \<Rightarrow> block option \<times> block_cache" where
  "bc_get now h bc = (let (r, c) = lru_get now h (bc_cache bc) in (r, bc\<lparr>bc_cache := c\<rparr>))"

definition bc_get_by_hash :: "nat \<Rightarrow> hash \<Rightarrow> block_cache \<Rightarrow> block option \<times> block_cache" where
  "bc_get_by_hash now hs bc =
     (case map_of (hash_index bc) hs of None \<Rightarrow> (None, bc) | Some h \<Rightarrow> bc_get now h bc)"

definition bc_put :: "externals \<Rightarrow> nat \<Rightarrow> block \<Rightarrow> block_cache \<Rightarrow> block_cache" where
  "bc_put X now b bc =
     bc\<lparr>hash_index := AList.update (block_hash X b) (hdr_height (header b)) (hash_index bc),
        bc_cache := lru_put now (hdr_height (header b)) b (bc_cache bc)\<rparr>"

definition bc_remove :: "externals \<Rightarrow> nat \<Rightarrow> block_height \<Rightarrow> block_cache \<Rightarrow> block_cache" where
  "bc_remove X now h bc =
     (let (r, c) = lru_get now h (bc_cache bc)
      in bc\<lparr>hash_index := (case r of Some b \<Rightarrow> AList.delete (block_hash X b) (hash_index bc) | None \<Rightarrow> hash_index bc),
            bc_cache := lru_remove h c\<rparr>)"

definition bc_clear :: "block_cache \<Rightarrow> block_cache" where
  "bc_clear bc = bc\<lparr>bc_cache := lru_clear (bc_cache bc), hash_index := []\<rparr>"

definition bc_contains :: "nat \<Rightarrow> block_height \<Rightarrow> block_cache \<Rightarrow> bool \<times> block_cache" where
  "bc_contains now h bc = (let (r, c) = lru_contains_key now h (bc_cache bc) in (r, bc\<lparr>bc_cache := c\<rparr>))"

type_synonym transaction_cache = "(hash, transaction) lru_cache"
type_synonym cached_accounts = "(address, account) lru_cache"

definition tc_put :: "externals \<Rightarrow> nat \<Rightarrow> transaction \<Rightarrow> transaction_cache \<Rightarrow> transaction_cache" where
  "tc_put X now tx c = lru_put now (tx_hash X tx) tx c"

record cache_config =
  block_cache_size :: nat
  transaction_cache_size :: nat
  account_cache_size :: nat
  ttl_seconds :: "u64 option"

definition cache_config_default :: cache_config where
  "cache_config_default =
     \<lparr>block_cache_size = 1000, transaction_cache_size = 10000, account_cache_size = 100000, ttl_seconds = Some 3600\<rparr>"

record cache_manager =
  cm_blocks :: block_cache
  cm_transactions :: transaction_cache
  cm_accounts :: cached_accounts
  cm_config :: cache_config

definition cache_manager_new :: "cache_config \<Rightarrow> cache_manager" where
  "cache_manager_new cfg =
     \<lparr>cm_blocks = block_cache_new (block_cache_size cfg), cm_transactions = lru_new (transaction_cache_size cfg),
      cm_accounts = lru_new (account_cache_size cfg), cm_config = cfg\<rparr>"

definition clear_all :: "cache_manager \<Rightarrow> cache_manager" where
  "clear_all cm =
     cm\<lparr>cm_blocks := bc_clear (cm_blocks cm), cm_transactions := lru_clear (cm_transactions cm),
        cm_accounts := lru_clear (cm_accounts cm)\<rparr>"

section \<open>What the cache holds\<close>

definition lru_inv :: "('k, 'v) lru_cache \<Rightarrow> bool" where
  "lru_inv c \<longleftrightarrow> wf_map (lru_map c) \<and> length (lru_map c) \<le> lru_max_size c"

lemma filter_wf_map: "wf_map al \<Longrightarrow> wf_map (filter P al)"
  by (induction al) auto

lemma evict_expired_inv [keeps_inv]: "lru_inv c \<Longrightarrow> lru_inv (evict_expired now c)"
  by (auto simp: lru_inv_def evict_expired_def filter_wf_map split: option.splits intro: le_trans [OF length_filter_le])

lemma fold_delete: "fold AList.delete ks al = filter (\<lambda>(k, _). k \<notin> set ks) al"
proof (induction ks arbitrary: al)
  case Nil
  then show ?case by (simp add: case_prod_unfold)
next
  case (Cons k ks)
  then show ?case by (auto simp: AList.delete_eq case_prod_unfold intro!: filter_cong)
qed

lemma length_filter_mem:
  "wf_map al \<Longrightarrow> distinct ks \<Longrightarrow> set ks \<subseteq> fst ` set al \<Longrightarrow>
   length (filter (\<lambda>(k, _). k \<notin> set ks) al) = length al - length ks"
proof -
  assume al: "wf_map al" and ks: "distinct ks" "set ks \<subseteq> fst ` set al"
  have "length (filter (\<lambda>(k, _). k \<notin> set ks) al) = card (fst ` set al - set ks)"
  proof -
    have "length (filter (\<lambda>(k, _). k \<notin> set ks) al) = length (map fst (filter (\<lambda>(k, _). k \<notin> set ks) al))" by simp
    also have "\<dots> = card (set (map fst (filter (\<lambda>(k, _). k \<notin> set ks) al)))"
      using filter_wf_map [OF al] by (simp only: distinct_card)
    also have "set (map fst (filter (\<lambda>(k, _). k \<notin> set ks) al)) = fst ` set al - set ks" by force
    finally show ?thesis .
  qed
  also have "\<dots> = card (fst ` set al) - card (set ks)" using ks(2) by (intro card_Diff_subset) auto
  also have "\<dots> = length al - length ks"
    using al ks(1) by (metis distinct_card length_map list.set_map)
  finally show ?thesis .
qed

lemma keys_to_remove_ok:
  assumes "wf_map (lru_map c)"
  shows "distinct (keys_to_remove c)" "set (keys_to_remove c) \<subseteq> fst ` set (lru_map c)"
    "length (keys_to_remove c) = length (lru_map c) - lru_max_size c"
proof -
  let ?s = "sort_key (last_access \<circ> snd) (lru_map c)" and ?n = "length (lru_map c) - lru_max_size c"
  have "wf_map ?s" using assms by (simp add: distinct_map)
  then have "distinct (take ?n (map fst ?s))" by (rule distinct_take)
  then show "distinct (keys_to_remove c)" "set (keys_to_remove c) \<subseteq> fst ` set (lru_map c)"
    "length (keys_to_remove c) = length (lru_map c) - lru_max_size c"
    using set_take_subset [of ?n ?s] by (auto simp: keys_to_remove_def take_map)
qed

lemma evict_lru_map:
  "lru_map (evict_lru c) =
     (if length (lru_map c) > lru_max_size c then filter (\<lambda>(k, _). k \<notin> set (keys_to_remove c)) (lru_map c) else lru_map c)"
  "lru_max_size (evict_lru c) = lru_max_size c" "ttl (evict_lru c) = ttl c"
  by (simp_all add: evict_lru_def fold_delete)

lemma length_evict_lru: "wf_map (lru_map c) \<Longrightarrow> length (lru_map (evict_lru c)) = min (length (lru_map c)) (lru_max_size c)"
  using length_filter_mem [OF _ keys_to_remove_ok(1,2), of c] keys_to_remove_ok(3) [of c]
  by (auto simp: evict_lru_map)

text \<open>Eviction keeps the most recently used entries.\<close>

lemma evict_lru_spec:
  assumes "wf_map (lru_map c)"
  shows "lru_inv (evict_lru c)" "set (lru_map (evict_lru c)) \<subseteq> set (lru_map c)"
    and "p \<in> set (lru_map c) - set (lru_map (evict_lru c)) \<Longrightarrow> q \<in> set (lru_map (evict_lru c)) \<Longrightarrow>
         last_access (snd p) \<le> last_access (snd q)"
proof -
  let ?al = "lru_map c" and ?key = "last_access \<circ> snd :: 'a \<times> 'b lru_entry \<Rightarrow> nat"
  let ?s = "sort_key ?key ?al" and ?n = "length ?al - lru_max_size c"
  note map = evict_lru_map(1) [of c]
  show "lru_inv (evict_lru c)"
    using length_evict_lru [OF assms] assms filter_wf_map [OF assms] by (simp add: lru_inv_def evict_lru_map)
  show "set (lru_map (evict_lru c)) \<subseteq> set ?al" by (auto simp: map)
  assume p: "p \<in> set ?al - set (lru_map (evict_lru c))" and q: "q \<in> set (lru_map (evict_lru c))"
  have "fst p \<in> set (keys_to_remove c)" using p by (auto simp: map split: if_splits)
  then obtain p' where "p' \<in> set (take ?n ?s)" "fst p' = fst p" by (auto simp: keys_to_remove_def)
  moreover from this have "p' \<in> set ?al" using in_set_takeD [of p' ?n ?s] by simp
  ultimately have pt: "p \<in> set (take ?n ?s)"
    using p assms eq_key_imp_eq_value [of ?al] by (metis DiffD1 prod.collapse)
  have "q \<in> set ?al" "q \<notin> set (take ?n ?s)"
    using q p by (auto simp: map keys_to_remove_def split: if_splits) (metis fst_conv imageI)
  then have "q \<in> set (drop ?n ?s)" using set_sort [of ?key ?al] append_take_drop_id [of ?n ?s] by (metis Un_iff set_append)
  moreover have "sorted (map ?key (take ?n ?s) @ map ?key (drop ?n ?s))"
    using sorted_sort_key [of ?key ?al] by (simp flip: map_append)
  ultimately show "last_access (snd p) \<le> last_access (snd q)" using pt by (auto simp: sorted_append)
qed

lemma expired_map: "wf_map (lru_map c) \<Longrightarrow> map_of (lru_map (evict_expired now c)) k = Some e \<Longrightarrow> map_of (lru_map c) k = Some e"
  by (auto simp: evict_expired_def filter_wf_map map_of_in_set [symmetric] split: option.splits)

text \<open>An entry that is newer than all others survives a \<open>put\<close>; every other entry is kept or gone, never changed.\<close>

lemma lru_put_entries:
  assumes "lru_inv c" "0 < lru_max_size c"
    and "\<forall>k' e. map_of (lru_map c) k' = Some e \<longrightarrow> k' \<noteq> k \<longrightarrow> last_access e < now"
  shows "lru_inv (lru_put now k v c)" "lru_max_size (lru_put now k v c) = lru_max_size c" "ttl (lru_put now k v c) = ttl c"
    and "map_of (lru_map (lru_put now k v c)) k = Some \<lparr>le_value = v, last_access = now\<rparr>"
    and "map_of (lru_map (lru_put now k v c)) k' = Some e \<Longrightarrow> k' \<noteq> k \<Longrightarrow> map_of (lru_map c) k' = Some e"
proof -
  let ?e = "\<lparr>le_value = v, last_access = now\<rparr>" and ?c1 = "evict_expired now c"
  let ?c2 = "?c1\<lparr>lru_map := AList.update k ?e (lru_map ?c1)\<rparr>"
  have c1: "lru_inv ?c1" using assms(1) by (rule evict_expired_inv)
  then have wf: "wf_map (lru_map ?c2)" by (auto simp: lru_inv_def)
  have put: "lru_put now k v c = evict_lru ?c2" by (simp add: lru_put_def Let_def)
  note ev = evict_lru_spec [OF wf]
  show inv: "lru_inv (lru_put now k v c)" using ev(1) by (simp add: put)
  show "lru_max_size (lru_put now k v c) = lru_max_size c" "ttl (lru_put now k v c) = ttl c"
    by (simp_all add: put evict_lru_def evict_expired_def split: option.splits)
  have wf3: "wf_map (lru_map (evict_lru ?c2))" using ev(1) by (simp add: lru_inv_def)
  have old: "map_of (lru_map c) k' = Some e" if "map_of (lru_map (evict_lru ?c2)) k' = Some e" "k' \<noteq> k" for k' e
  proof -
    have "(k', e) \<in> set (lru_map ?c2)" using that(1) ev(2) map_of_SomeD by fast
    then have "map_of (lru_map ?c2) k' = Some e" using map_of_in_set [OF wf] by blast
    with that(2) show ?thesis using expired_map [of c now k' e] assms(1) by (simp add: lru_inv_def)
  qed
  show "map_of (lru_map (lru_put now k v c)) k' = Some e \<Longrightarrow> k' \<noteq> k \<Longrightarrow> map_of (lru_map c) k' = Some e"
    using old by (simp add: put)
  show "map_of (lru_map (lru_put now k v c)) k = Some ?e"
  proof (rule ccontr)
    assume no: "map_of (lru_map (lru_put now k v c)) k \<noteq> Some ?e"
    have here: "(k, ?e) \<in> set (lru_map ?c2)" using map_of_in_set [OF wf, of k ?e] by simp
    have gone: "(k, ?e) \<notin> set (lru_map (evict_lru ?c2))" using no map_of_in_set [OF wf3, of k ?e] unfolding put by blast
    have "0 < length (lru_map ?c2)" using here by (metis length_pos_if_in_set)
    moreover have "lru_max_size ?c2 = lru_max_size c" by (simp add: evict_expired_def split: option.splits)
    ultimately have "0 < length (lru_map (evict_lru ?c2))" using length_evict_lru [OF wf] assms(2) by simp
    then have "lru_map (evict_lru ?c2) \<noteq> []" by simp
    then obtain k' e' where q: "(k', e') \<in> set (lru_map (evict_lru ?c2))" by (metis list.set_sel(1) prod.collapse)
    then have q': "map_of (lru_map (evict_lru ?c2)) k' = Some e'" using map_of_in_set [OF wf3] by blast
    have "k' \<noteq> k" using eq_key_imp_eq_value [OF wf here] q gone ev(2) by blast
    then have "last_access e' < now" using old [OF q'] assms(3) by simp
    moreover have "now \<le> last_access e'" using ev(3) [of "(k, ?e)" "(k', e')"] here gone q by simp
    ultimately show False by simp
  qed
qed

text \<open>
  \<open>LruCache::put\<close> on a cache within its size: the size bound holds again, the new entry is there if it is the newest, every
  other entry is kept unchanged or gone, and no entry that had not expired is gone while
  an entry used earlier is kept.
\<close>

theorem lru_put_spec:
  fixes c :: "('k, 'v) lru_cache"
  assumes "lru_inv c" "0 < lru_max_size c"
    and "\<forall>k' e. map_of (lru_map c) k' = Some e \<longrightarrow> k' \<noteq> k \<longrightarrow> last_access e < now"
  shows "lru_inv (lru_put now k v c) \<and>
     map_of (lru_map (lru_put now k v c)) k = Some \<lparr>le_value = v, last_access = now\<rparr> \<and>
     (\<forall>k' e. k' \<noteq> k \<longrightarrow> map_of (lru_map (lru_put now k v c)) k' = Some e \<longrightarrow> map_of (lru_map c) k' = Some e) \<and>
     (\<forall>k1 e1 k2 e2. k1 \<noteq> k \<longrightarrow> k2 \<noteq> k \<longrightarrow> map_of (lru_map (evict_expired now c)) k1 = Some e1 \<longrightarrow>
        map_of (lru_map (lru_put now k v c)) k1 = None \<longrightarrow> map_of (lru_map (lru_put now k v c)) k2 = Some e2 \<longrightarrow>
        last_access e1 \<le> last_access e2)"
proof (intro conjI allI impI)
  note e = lru_put_entries [OF assms]
  show "lru_inv (lru_put now k v c)" "map_of (lru_map (lru_put now k v c)) k = Some \<lparr>le_value = v, last_access = now\<rparr>"
    by (rule e)+
  show "map_of (lru_map (lru_put now k v c)) k' = Some e' \<Longrightarrow> k' \<noteq> k \<Longrightarrow> map_of (lru_map c) k' = Some e'" for k' e'
    by (rule e(5))
  fix k1 e1 k2 e2
  assume "k1 \<noteq> k" "k2 \<noteq> k" and 1: "map_of (lru_map (evict_expired now c)) k1 = Some e1"
    and gone: "map_of (lru_map (lru_put now k v c)) k1 = None" and 2: "map_of (lru_map (lru_put now k v c)) k2 = Some e2"
  define c2 where "c2 = (evict_expired now c)\<lparr>lru_map := AList.update k \<lparr>le_value = v, last_access = now\<rparr> (lru_map (evict_expired now c))\<rparr>"
  have put: "lru_put now k v c = evict_lru c2" by (simp add: lru_put_def Let_def c2_def)
  have wf: "wf_map (lru_map c2)" using evict_expired_inv [OF assms(1), of now] by (auto simp: lru_inv_def c2_def)
  have "(k1, e1) \<in> set (lru_map c2)"
    using 1 \<open>k1 \<noteq> k\<close> map_of_in_set [OF wf, of k1 e1] by (simp add: c2_def)
  moreover have "(k1, e1) \<notin> set (lru_map (evict_lru c2))" using gone unfolding put map_of_eq_None_iff by force
  moreover have "(k2, e2) \<in> set (lru_map (evict_lru c2))" using 2 by (auto simp: put dest: map_of_SomeD)
  ultimately show "last_access e1 \<le> last_access e2"
    using evict_lru_spec(3) [OF wf, of "(k1, e1)" "(k2, e2)"] by simp
qed

theorem lru_put_spec_witness:
  "map_of (lru_map (lru_put 7 (3 :: u64) (30 :: u64)
       ((lru_new 1)\<lparr>lru_map := [(1, \<lparr>le_value = 10, last_access = 5\<rparr>)]\<rparr>))) 3 = Some \<lparr>le_value = 30, last_access = 7\<rparr>"
proof -
  let ?c = "(lru_new 1)\<lparr>lru_map := [(1, \<lparr>le_value = 10, last_access = 5\<rparr>)]\<rparr> :: (u64, u64) lru_cache"
  have "lru_inv ?c" "0 < lru_max_size ?c"
    "\<forall>k' e. map_of (lru_map ?c) k' = Some e \<longrightarrow> k' \<noteq> 3 \<longrightarrow> last_access e < 7"
    by (auto simp: lru_inv_def lru_new_def)
  from lru_put_spec [OF this, of 30] show ?thesis by blast
qed

text \<open>
  \<open>BlockCache::get_by_hash\<close> returns the wrong block: after two different blocks of the same height
  were put, the hash of the first one still leads to the height and yields the second.
\<close>

theorem block_cache_wrong_block:
  assumes "lru_inv (bc_cache bc)" "0 < lru_max_size (bc_cache bc)" "ttl (bc_cache bc) = None"
    and "\<forall>h e. map_of (lru_map (bc_cache bc)) h = Some e \<longrightarrow> last_access e < now" "now < now'"
    and "hdr_height (header a) = hdr_height (header b)" "block_hash X a \<noteq> block_hash X b"
  shows "fst (bc_get_by_hash now'' (block_hash X a) (bc_put X now' b (bc_put X now a bc))) = Some b"
proof -
  let ?h = "hdr_height (header b)" and ?c = "bc_cache bc"
  let ?c1 = "lru_put now ?h a ?c"
  note p = lru_put_entries [OF assms(1,2), of ?h now a]
  have c1: "lru_inv ?c1" "0 < lru_max_size ?c1" "ttl ?c1 = None"
    and age: "\<forall>k e. map_of (lru_map ?c1) k = Some e \<longrightarrow> k \<noteq> ?h \<longrightarrow> last_access e < now'"
  proof -
    show "lru_inv ?c1" "0 < lru_max_size ?c1" "ttl ?c1 = None" using p(1-3) assms(2-4) by simp_all
    show "\<forall>k e. map_of (lru_map ?c1) k = Some e \<longrightarrow> k \<noteq> ?h \<longrightarrow> last_access e < now'"
      using p(5) assms(4,5) by (meson less_trans)
  qed
  note q = lru_put_entries [OF c1(1,2) age, of b]
  have "ttl (lru_put now' ?h b ?c1) = None" using q(3) c1(3) by simp
  with q(4) assms(6,7) show ?thesis
    by (simp add: bc_get_by_hash_def bc_get_def lru_get_def bc_put_def evict_expired_def case_prod_unfold Let_def)
qed

definition sample_block_b :: block where
  "sample_block_b = block_new sample_externals 1000 1 (replicate 32 9) [] zero32"

lemma lru_inv_new [simp]: "lru_inv (lru_new n)" "lru_map (lru_new n) = []" "lru_max_size (lru_new n) = n" "ttl (lru_new n) = None"
  by (simp_all add: lru_inv_def lru_new_def)

theorem block_cache_wrong_block_witness:
  "fst (bc_get_by_hash 9 (block_hash sample_externals (block_new sample_externals 1000 1 zero32 [] zero32))
     (bc_put sample_externals 8 sample_block_b
       (bc_put sample_externals 7 (block_new sample_externals 1000 1 zero32 [] zero32) (block_cache_new 10)))) = Some sample_block_b"
proof (rule block_cache_wrong_block)
  have h: "block_hash sample_externals (block_new sample_externals 1000 1 (replicate 32 x) [] zero32) = le_bytes (1 :: u64) @ replicate 24 x" for x
    by (simp add: block_hash_def header_hash_def header_preimage_def block_new_def sample_externals_def)
  show "block_hash sample_externals (block_new sample_externals 1000 1 zero32 [] zero32) \<noteq> block_hash sample_externals sample_block_b"
    unfolding sample_block_b_def h by simp
qed (simp_all add: block_cache_new_def sample_block_b_def block_new_def)

end
