(* ===== verification/Mempool_Order.thy ===== *)
theory Mempool_Order
  imports Mempool_Pool "HOL-Library.Multiset"
begin

text \<open>
  \<open>src/mempool/fee.rs\<close>, \<open>ordering.rs\<close> and \<open>pruning.rs\<close>: fee suggestions and market statistics, the priority
  of a transaction, the priority queue, and the choice of transactions to prune.

  A division by a zero limit of the mempool gives an infinity or NaN in \<open>f64\<close>; the congestion
  factor, the one place where this happens, is a \<open>factor\<close> of \<open>Pacyte_Float\<close>. Sorting with \<open>partial_cmp\<close> on the
  finite rates is the stable sort by the rate. \<open>BinaryHeap\<close> is a list whose \<open>pop\<close> takes a greatest
  element, as documented; which one of several equal elements it takes is not documented, and the model
  takes the one pushed first. Sizes are positive, as the size of an encoded transaction is. The order in which a
  \<open>HashMap\<close> is walked is the order of the first insertions.
\<close>

section \<open>Fees\<close>

record fee_calculator =
  fc_base_fee :: u128
  fc_min_fee :: u128
  fee_per_byte_unit :: u128
  congestion_multiplier :: factor

definition fee_calculator_new :: fee_calculator where
  "fee_calculator_new = \<lparr>fc_base_fee = 1000, fc_min_fee = 100, fee_per_byte_unit = 1, congestion_multiplier = Finite 1\<rparr>"

definition calculate_min_fee :: "usize \<Rightarrow> fee_calculator \<Rightarrow> u128" where
  "calculate_min_fee sz fc = max (max (fc_base_fee fc) (ucast sz * fee_per_byte_unit fc)) (fc_min_fee fc)"

definition calculate_recommended_fee :: "usize \<Rightarrow> nat \<Rightarrow> nat \<Rightarrow> fee_calculator \<Rightarrow> u128" where
  "calculate_recommended_fee sz mempool_size max_mempool fc =
     scale_fee (calculate_min_fee sz fc) (congestion_factor mempool_size max_mempool 2)"

definition calculate_priority_fee :: "usize \<Rightarrow> u32 \<Rightarrow> fee_calculator \<Rightarrow> u128" where
  "calculate_priority_fee sz target_blocks fc =
     (let multiplier = (if target_blocks = 1 then 5 else if target_blocks = 2 then 3 else if target_blocks = 3 then 2 else 3 / 2)
      in scale_fee (calculate_min_fee sz fc) (Finite multiplier))"

record fee_market_stats =
  median_fee_per_byte :: f64
  average_fee_per_byte :: f64
  min_fee_rate :: f64
  max_fee_rate :: f64
  p25_fee_per_byte :: f64
  p75_fee_per_byte :: f64
  p90_fee_per_byte :: f64
  total_pending :: nat

definition fee_market_default :: fee_market_stats where
  "fee_market_default =
     \<lparr>median_fee_per_byte = 0, average_fee_per_byte = 0, min_fee_rate = 0, max_fee_rate = 0, p25_fee_per_byte = 0,
      p75_fee_per_byte = 0, p90_fee_per_byte = 0, total_pending = 0\<rparr>"

definition analyze_fee_market :: "externals \<Rightarrow> transaction list \<Rightarrow> fee_market_stats" where
  "analyze_fee_market X txs =
     (if txs = [] then fee_market_default
      else let fees = sort (map (fee_rate X) txs); n = length fees
           in \<lparr>median_fee_per_byte = fees ! (n div 2),
               average_fee_per_byte = fl_div (foldl fl_add 0 fees) (rnd (of_nat n)),
               min_fee_rate = fees ! 0, max_fee_rate = fees ! (n - 1), p25_fee_per_byte = fees ! (n div 4),
               p75_fee_per_byte = fees ! (n * 3 div 4), p90_fee_per_byte = fees ! (n * 9 div 10),
               total_pending = length txs\<rparr>)"

definition update_congestion :: "nat \<Rightarrow> nat \<Rightarrow> fee_calculator \<Rightarrow> fee_calculator" where
  "update_congestion mempool_size max_mempool fc =
     fc\<lparr>congestion_multiplier := congestion_factor mempool_size max_mempool 3\<rparr>"

definition base_fee :: "fee_calculator \<Rightarrow> u128" where
  "base_fee fc = scale_fee (fc_base_fee fc) (congestion_multiplier fc)"

datatype fee_priority = FeeLow | FeeNormal | FeeHigh | FeeUrgent

definition recommended_fee_for_priority :: "fee_priority \<Rightarrow> fee_market_stats \<Rightarrow> f64" where
  "recommended_fee_for_priority p st =
     (case p of FeeLow \<Rightarrow> p25_fee_per_byte st | FeeNormal \<Rightarrow> median_fee_per_byte st
      | FeeHigh \<Rightarrow> p75_fee_per_byte st | FeeUrgent \<Rightarrow> p90_fee_per_byte st)"

section \<open>Ordering\<close>

record transaction_ordering =
  fee_priority_weight :: f64
  age_priority_weight :: f64
  size_priority_weight :: f64

definition transaction_ordering_default :: transaction_ordering where
  "transaction_ordering_default =
     \<lparr>fee_priority_weight = rnd (7 / 10), age_priority_weight = rnd (2 / 10), size_priority_weight = rnd (1 / 10)\<rparr>"

definition calculate_priority :: "u128 \<Rightarrow> usize \<Rightarrow> u64 \<Rightarrow> transaction_ordering \<Rightarrow> f64" where
  "calculate_priority fee sz age od =
     (let fee_score = fl_div (f64_of_word fee) (f64_of_word sz);
          age_score = min (fl_div (f64_of_word age) 60) 100;
          size_score = fl_div 1 (fl_sqrt (f64_of_word sz))
      in fl_add (fl_add (fl_mul fee_score (fee_priority_weight od)) (fl_mul age_score (age_priority_weight od)))
           (fl_mul size_score (size_priority_weight od)))"

definition group_by_sender :: "transaction list \<Rightarrow> (address \<times> transaction list) list" where
  "group_by_sender txs =
     foldl (\<lambda>g tx. AList.update (tx_from tx) ((case map_of g (tx_from tx) of Some l \<Rightarrow> l | None \<Rightarrow> []) @ [tx]) g) [] txs"

definition tx_priority :: "externals \<Rightarrow> transaction_ordering \<Rightarrow> transaction \<Rightarrow> f64" where
  "tx_priority X od tx = calculate_priority (tx_fee tx) (tx_size X tx) 0 od"

text \<open>The groups sorted by nonce are dropped; what remains is the global sort.\<close>

definition sort_by_nonce :: "externals \<Rightarrow> transaction_ordering \<Rightarrow> transaction list \<Rightarrow> transaction list" where
  "sort_by_nonce X od txs = sort_key (\<lambda>tx. - tx_priority X od tx) txs"

definition resolve_dependencies :: "transaction list \<Rightarrow> transaction list list" where
  "resolve_dependencies txs = map (sort_key tx_nonce \<circ> snd) (group_by_sender txs)"

record priority_tx =
  qt_hash :: hash
  qt_priority :: f64
  qt_timestamp :: u64

record transaction_queue =
  heap :: "priority_tx list"
  tq_ordering :: transaction_ordering

definition transaction_queue_new :: transaction_queue where
  "transaction_queue_new = \<lparr>heap = [], tq_ordering = transaction_ordering_default\<rparr>"

definition tq_push :: "hash \<Rightarrow> u128 \<Rightarrow> usize \<Rightarrow> u64 \<Rightarrow> transaction_queue \<Rightarrow> transaction_queue" where
  "tq_push h fee sz ts q =
     q\<lparr>heap := heap q @ [\<lparr>qt_hash = h, qt_priority = calculate_priority fee sz 0 (tq_ordering q), qt_timestamp = ts\<rparr>]\<rparr>"

definition tx_cmp_le :: "priority_tx \<Rightarrow> priority_tx \<Rightarrow> bool" where
  "tx_cmp_le a b \<longleftrightarrow> qt_priority a < qt_priority b \<or> qt_priority a = qt_priority b \<and> qt_timestamp a \<le> qt_timestamp b"

fun greatest :: "priority_tx \<Rightarrow> priority_tx list \<Rightarrow> priority_tx" where
  "greatest p [] = p"
| "greatest p (q # qs) = (if tx_cmp_le q p then greatest p qs else greatest q qs)"

definition tq_peek :: "transaction_queue \<Rightarrow> hash option" where
  "tq_peek q = (case heap q of [] \<Rightarrow> None | p # ps \<Rightarrow> Some (qt_hash (greatest p ps)))"

definition tq_pop :: "transaction_queue \<Rightarrow> hash option \<times> transaction_queue" where
  "tq_pop q =
     (case heap q of
        [] \<Rightarrow> (None, q)
      | p # ps \<Rightarrow> let g = greatest p ps in (Some (qt_hash g), q\<lparr>heap := remove1 g (heap q)\<rparr>))"

definition tq_clear :: "transaction_queue \<Rightarrow> transaction_queue" where
  "tq_clear q = q\<lparr>heap := []\<rparr>"

section \<open>Pruning\<close>

definition expired_hashes :: "externals \<Rightarrow> mempool_config \<Rightarrow> timestamp \<Rightarrow> transaction list \<Rightarrow> hash list" where
  "expired_hashes X cfg now txs =
     map (tx_hash X) (filter (\<lambda>tx. saturating_sub now (tx_timestamp tx) > max_tx_age_secs cfg) txs)"

definition cheapest :: "externals \<Rightarrow> mempool_config \<Rightarrow> transaction list \<Rightarrow> transaction list" where
  "cheapest X cfg txs = take (length txs - unat (mc_max_size cfg)) (sort_key (fee_rate X) txs)"

definition count_by_address :: "transaction list \<Rightarrow> (address \<times> nat) list" where
  "count_by_address txs =
     foldl (\<lambda>g tx. AList.update (tx_from tx) ((case map_of g (tx_from tx) of Some n \<Rightarrow> n | None \<Rightarrow> 0) + 1) g) [] txs"

definition oldest_excess :: "mempool_config \<Rightarrow> transaction list \<Rightarrow> address \<times> nat \<Rightarrow> transaction list" where
  "oldest_excess cfg txs ac =
     (case ac of (a, n) \<Rightarrow>
        if n > unat (max_tx_per_address cfg)
        then take (n - unat (max_tx_per_address cfg)) (sort_key tx_timestamp (filter (\<lambda>tx. tx_from tx = a) txs))
        else [])"

definition select_for_pruning :: "externals \<Rightarrow> mempool_config \<Rightarrow> transaction list \<Rightarrow> timestamp \<Rightarrow> hash list" where
  "select_for_pruning X cfg txs now =
     remdups (expired_hashes X cfg now txs @
       (if length txs > unat (mc_max_size cfg) then map (tx_hash X) (cheapest X cfg txs) else []) @
       concat (map (map (tx_hash X) \<circ> oldest_excess cfg txs) (count_by_address txs)))"

definition prune_old_nonces :: "externals \<Rightarrow> transaction list \<Rightarrow> address \<Rightarrow> u64 \<Rightarrow> hash list" where
  "prune_old_nonces X txs a current_nonce =
     map (tx_hash X) (filter (\<lambda>tx. tx_from tx = a \<and> tx_nonce tx \<le> current_nonce) txs)"

definition prune_capacity :: "externals \<Rightarrow> mempool_config \<Rightarrow> transaction list \<Rightarrow> hash list" where
  "prune_capacity X cfg txs =
     (if length txs \<le> unat (mc_max_size cfg) then [] else map (tx_hash X) (cheapest X cfg txs))"

section \<open>The queue\<close>

fun tq_drain :: "nat \<Rightarrow> transaction_queue \<Rightarrow> hash list" where
  "tq_drain 0 q = []"
| "tq_drain (Suc n) q = (case tq_pop q of (None, q1) \<Rightarrow> [] | (Some h, q1) \<Rightarrow> h # tq_drain n q1)"

lemma tx_cmp_le_total: "tx_cmp_le a b \<or> tx_cmp_le b a"
  by (auto simp: tx_cmp_le_def)

lemma tx_cmp_le_trans: "tx_cmp_le a b \<Longrightarrow> tx_cmp_le b c \<Longrightarrow> tx_cmp_le a c"
  by (auto simp: tx_cmp_le_def)

lemma tx_cmp_le_refl [simp]: "tx_cmp_le a a"
  by (simp add: tx_cmp_le_def)

lemma greatest_spec: "greatest p ps \<in> set (p # ps) \<and> (\<forall>x\<in>set (p # ps). tx_cmp_le x (greatest p ps))"
proof (induction ps arbitrary: p)
  case (Cons q qs)
  show ?case
  proof (cases "tx_cmp_le q p")
    case True
    then have "tx_cmp_le q (greatest p qs)" using Cons.IH [of p] tx_cmp_le_trans by (metis list.set_intros(1))
    with True Cons.IH [of p] show ?thesis by auto
  next
    case False
    then have "tx_cmp_le p (greatest q qs)" using Cons.IH [of q] tx_cmp_le_total tx_cmp_le_trans by (metis list.set_intros(1))
    with False Cons.IH [of q] show ?thesis by auto
  qed
qed simp

lemma drain_sorted:
  "\<exists>ps. mset ps = mset (heap q) \<and> sorted_wrt (\<lambda>a b. tx_cmp_le b a) ps \<and> tq_drain (length (heap q)) q = map qt_hash ps"
proof (induction "length (heap q)" arbitrary: q)
  case (Suc n)
  then obtain p ps where h: "heap q = p # ps" by (cases "heap q") auto
  define g where "g = greatest p ps"
  have g: "g \<in> set (heap q)" "\<forall>x\<in>set (heap q). tx_cmp_le x g" using greatest_spec [of p ps] by (auto simp: g_def h)
  let ?q = "q\<lparr>heap := remove1 g (heap q)\<rparr>"
  have pop: "tq_pop q = (Some (qt_hash g), ?q)" by (simp add: tq_pop_def h g_def Let_def)
  have n: "length (heap ?q) = n" using Suc.hyps(2) g(1) by (simp add: length_remove1)
  obtain ps' where ps': "mset ps' = mset (remove1 g (heap q))" "sorted_wrt (\<lambda>a b. tx_cmp_le b a) ps'"
    "tq_drain n ?q = map qt_hash ps'"
    using Suc.hyps(1) [of ?q] n by auto
  have "mset (g # ps') = mset (heap q)" using ps'(1) g(1) by simp
  moreover have "set ps' \<subseteq> set (heap q)" using ps'(1) by (metis set_mset_mset set_remove1_subset)
  then have "sorted_wrt (\<lambda>a b. tx_cmp_le b a) (g # ps')" using ps'(2) g(2) by auto
  moreover have "tq_drain (length (heap q)) q = map qt_hash (g # ps')"
    using pop ps'(3) Suc.hyps(2) unfolding Suc.hyps(2) [symmetric] by simp
  ultimately show ?case by blast
qed simp

text \<open>
  The transaction queue hands out its entries by falling priority, each exactly once. Among equal
  priorities the newest comes first.
\<close>

theorem queue_drains_by_priority:
  "\<exists>ps. mset ps = mset (heap q) \<and> tq_drain (length (heap q)) q = map qt_hash ps \<and>
     (\<forall>i j. i < j \<longrightarrow> j < length ps \<longrightarrow> qt_priority (ps ! j) \<le> qt_priority (ps ! i) \<and>
        (qt_priority (ps ! i) = qt_priority (ps ! j) \<longrightarrow> qt_timestamp (ps ! j) \<le> qt_timestamp (ps ! i)))"
proof -
  obtain ps where ps: "mset ps = mset (heap q)" "sorted_wrt (\<lambda>a b. tx_cmp_le b a) ps" "tq_drain (length (heap q)) q = map qt_hash ps"
    using drain_sorted by blast
  have "tx_cmp_le (ps ! j) (ps ! i)" if "i < j" "j < length ps" for i j
    using ps(2) that by (simp add: sorted_wrt_iff_nth_less)
  then have "\<forall>i j. i < j \<longrightarrow> j < length ps \<longrightarrow> qt_priority (ps ! j) \<le> qt_priority (ps ! i) \<and>
        (qt_priority (ps ! i) = qt_priority (ps ! j) \<longrightarrow> qt_timestamp (ps ! j) \<le> qt_timestamp (ps ! i))"
    by (fastforce simp: tx_cmp_le_def)
  with ps show ?thesis by blast
qed

theorem queue_drains_by_priority_witness:
  "\<exists>ps. mset ps = mset (heap (tq_push (replicate 32 1) 500 100 7 (tq_push zero32 10 100 5 transaction_queue_new))) \<and>
     length ps = 2"
proof -
  let ?q = "tq_push (replicate 32 1) 500 100 7 (tq_push zero32 10 100 5 transaction_queue_new)"
  obtain ps where "mset ps = mset (heap ?q)" using queue_drains_by_priority [of ?q] by blast
  moreover from this have "length ps = length (heap ?q)" by (metis size_mset)
  moreover have "length (heap ?q) = 2" by (simp add: tq_push_def transaction_queue_new_def)
  ultimately show ?thesis by metis
qed

section \<open>What is pruned\<close>

lemma count_by_address:
  "map_of (count_by_address txs) a =
     (if a \<in> tx_from ` set txs then Some (length (filter (\<lambda>tx. tx_from tx = a) txs)) else None)"
proof (induction txs arbitrary: a rule: rev_induct)
  case (snoc tx txs)
  have none: "filter (\<lambda>t. tx_from t = b) txs = []" if "b \<notin> tx_from ` set txs" for b
    using that by (intro filter_False) auto
  have step: "count_by_address (txs @ [tx]) = AList.update (tx_from tx)
      ((case map_of (count_by_address txs) (tx_from tx) of Some n \<Rightarrow> n | None \<Rightarrow> 0) + 1) (count_by_address txs)"
    by (simp add: count_by_address_def)
  show ?case
    by (cases "a = tx_from tx") (simp_all add: step snoc none)
qed (simp add: count_by_address_def)

definition kept :: "externals \<Rightarrow> hash list \<Rightarrow> transaction list \<Rightarrow> transaction list" where
  "kept X hs txs = filter (\<lambda>tx. tx_hash X tx \<notin> set hs) txs"

text \<open>Removing at least \<open>k\<close> transactions of a list by their hashes.\<close>

lemma kept_length:
  assumes "mset rs \<subseteq># mset txs" "tx_hash X ` set rs \<subseteq> set hs"
  shows "length (kept X hs txs) + length rs \<le> length txs"
proof -
  let ?P = "\<lambda>tx. tx_hash X tx \<in> set hs"
  have rs: "filter ?P rs = rs" using assms(2) by (intro filter_True) blast
  have "mset (filter ?P rs) \<subseteq># mset (filter ?P txs)"
    unfolding mset_filter by (rule multiset_filter_mono [OF assms(1)])
  then have "length rs \<le> length (filter ?P txs)" unfolding rs by (metis size_mset size_mset_mono)
  moreover have "length (filter ?P txs) + length (kept X hs txs) = length txs"
    unfolding kept_def by (rule sum_length_filter_compl)
  ultimately show ?thesis by simp
qed

lemma take_sort_subset: "mset (take k (sort_key f xs)) \<subseteq># mset xs"
  by (metis append_take_drop_id mset_append mset_sort mset_subset_eq_add_left)

lemma excess_of_sender:
  assumes "\<not> length (filter (\<lambda>tx. tx_from tx = a) txs) \<le> unat (max_tx_per_address cfg)"
  shows "set (map (tx_hash X) (oldest_excess cfg txs (a, length (filter (\<lambda>tx. tx_from tx = a) txs)))) \<subseteq> set (select_for_pruning X cfg txs now)"
proof -
  have "a \<in> tx_from ` set txs"
  proof (rule ccontr)
    assume "a \<notin> tx_from ` set txs"
    then have "filter (\<lambda>tx. tx_from tx = a) txs = []" by (intro filter_False) auto
    with assms show False by simp
  qed
  then have "(a, length (filter (\<lambda>tx. tx_from tx = a) txs)) \<in> set (count_by_address txs)"
    using count_by_address [of txs a] map_of_SomeD by fastforce
  then show ?thesis by (auto simp: select_for_pruning_def)
qed

text \<open>
  C24. What \<open>Pruner::select_for_pruning\<close> chooses: when the chosen hashes are removed, no expired transaction
  remains, the pool is within its size and every sender within its limit; and nothing
  is chosen without one of these reasons.
\<close>

theorem pruning_restores_limits:
  "(\<forall>tx\<in>set (kept X (select_for_pruning X cfg txs now) txs). saturating_sub now (tx_timestamp tx) \<le> max_tx_age_secs cfg) \<and>
   length (kept X (select_for_pruning X cfg txs now) txs) \<le> unat (mc_max_size cfg) \<and>
   length (filter (\<lambda>tx. tx_from tx = a) (kept X (select_for_pruning X cfg txs now) txs)) \<le> unat (max_tx_per_address cfg) \<and>
   (\<forall>h\<in>set (select_for_pruning X cfg txs now). \<exists>tx\<in>set txs. tx_hash X tx = h \<and>
      (saturating_sub now (tx_timestamp tx) > max_tx_age_secs cfg \<or>
       length txs > unat (mc_max_size cfg) \<and> tx \<in> set (cheapest X cfg txs) \<or>
       length (filter (\<lambda>t. tx_from t = tx_from tx) txs) > unat (max_tx_per_address cfg)))"
proof (intro conjI)
  let ?hs = "select_for_pruning X cfg txs now"
  show "\<forall>tx\<in>set (kept X ?hs txs). saturating_sub now (tx_timestamp tx) \<le> max_tx_age_secs cfg"
    by (force simp: kept_def select_for_pruning_def expired_hashes_def)
  show "length (kept X ?hs txs) \<le> unat (mc_max_size cfg)"
  proof (cases "length txs > unat (mc_max_size cfg)")
    case True
    then have "tx_hash X ` set (cheapest X cfg txs) \<subseteq> set ?hs" by (auto simp: select_for_pruning_def)
    moreover have "mset (cheapest X cfg txs) \<subseteq># mset txs" unfolding cheapest_def by (rule take_sort_subset)
    ultimately show ?thesis using kept_length True by (fastforce simp: cheapest_def)
  next
    case False
    then show ?thesis using length_filter_le [of "\<lambda>tx. tx_hash X tx \<notin> set ?hs" txs] unfolding kept_def by linarith
  qed
  let ?mine = "filter (\<lambda>tx. tx_from tx = a) txs"
  have mine: "filter (\<lambda>tx. tx_from tx = a) (kept X ?hs txs) = kept X ?hs ?mine" by (simp add: kept_def filter_filter conj_commute)
  show "length (filter (\<lambda>tx. tx_from tx = a) (kept X ?hs txs)) \<le> unat (max_tx_per_address cfg)"
  proof (cases "length ?mine \<le> unat (max_tx_per_address cfg)")
    case True
    then show ?thesis unfolding mine using length_filter_le [of "\<lambda>tx. tx_hash X tx \<notin> set ?hs" ?mine] unfolding kept_def by linarith
  next
    case False
    let ?ex = "oldest_excess cfg txs (a, length ?mine)"
    have "mset ?ex \<subseteq># mset ?mine" using take_sort_subset [of _ tx_timestamp ?mine] by (simp add: oldest_excess_def del: mset_filter)
    moreover have "tx_hash X ` set ?ex \<subseteq> set ?hs" using excess_of_sender [OF False] by simp
    ultimately have "length (kept X ?hs ?mine) + length ?ex \<le> length ?mine" by (rule kept_length)
    moreover have "length ?ex = length ?mine - unat (max_tx_per_address cfg)" using False by (simp add: oldest_excess_def)
    ultimately show ?thesis unfolding mine using False by linarith
  qed
  show "\<forall>h\<in>set ?hs. \<exists>tx\<in>set txs. tx_hash X tx = h \<and>
      (saturating_sub now (tx_timestamp tx) > max_tx_age_secs cfg \<or>
       length txs > unat (mc_max_size cfg) \<and> tx \<in> set (cheapest X cfg txs) \<or>
       length (filter (\<lambda>t. tx_from t = tx_from tx) txs) > unat (max_tx_per_address cfg))"
  proof
    fix h assume "h \<in> set ?hs"
    then consider "h \<in> set (expired_hashes X cfg now txs)"
      | "length txs > unat (mc_max_size cfg)" "h \<in> tx_hash X ` set (cheapest X cfg txs)"
      | b n where "(b, n) \<in> set (count_by_address txs)" "h \<in> tx_hash X ` set (oldest_excess cfg txs (b, n))"
      by (auto simp: select_for_pruning_def split: if_splits)
    then show "\<exists>tx\<in>set txs. tx_hash X tx = h \<and>
      (saturating_sub now (tx_timestamp tx) > max_tx_age_secs cfg \<or>
       length txs > unat (mc_max_size cfg) \<and> tx \<in> set (cheapest X cfg txs) \<or>
       length (filter (\<lambda>t. tx_from t = tx_from tx) txs) > unat (max_tx_per_address cfg))"
    proof cases
      case 1
      then show ?thesis by (auto simp: expired_hashes_def)
    next
      case 2
      then obtain tx where tx: "tx \<in> set (cheapest X cfg txs)" "h = tx_hash X tx" by blast
      then have "tx \<in> set txs" by (auto simp: cheapest_def dest!: in_set_takeD)
      with tx 2(1) show ?thesis by blast
    next
      case 3
      have wf: "wf_map (count_by_address txs)"
        by (induction txs rule: rev_induct) (simp_all add: count_by_address_def)
      have "map_of (count_by_address txs) b = Some n" using 3(1) unfolding map_of_in_set [OF wf] .
      then have n: "n = length (filter (\<lambda>t. tx_from t = b) txs)" unfolding count_by_address by (simp split: if_splits)
      obtain tx where tx: "tx \<in> set (oldest_excess cfg txs (b, n))" "h = tx_hash X tx" using 3(2) by blast
      then have more: "n > unat (max_tx_per_address cfg)" by (auto simp: oldest_excess_def split: if_splits)
      have "tx \<in> set txs" "tx_from tx = b"
        using tx(1) more by (auto simp: oldest_excess_def dest!: in_set_takeD)
      with tx(2) more show ?thesis unfolding n by blast
    qed
  qed
qed

theorem pruning_restores_limits_witness:
  "length (kept sample_externals (select_for_pruning sample_externals (mempool_config_default\<lparr>mc_max_size := 1\<rparr>)
       [sample_pool_tx 11, sample_pool_tx 12] 5) [sample_pool_tx 11, sample_pool_tx 12]) \<le> 1"
  using pruning_restores_limits [of sample_externals "mempool_config_default\<lparr>mc_max_size := 1\<rparr>" "[sample_pool_tx 11, sample_pool_tx 12]" 5]
  by simp

text \<open>The statistics are ordered as their names say.\<close>

lemma fee_market_ordered:
  assumes "txs \<noteq> []"
  shows "min_fee_rate (analyze_fee_market X txs) \<le> p25_fee_per_byte (analyze_fee_market X txs)"
    "p25_fee_per_byte (analyze_fee_market X txs) \<le> median_fee_per_byte (analyze_fee_market X txs)"
    "median_fee_per_byte (analyze_fee_market X txs) \<le> p75_fee_per_byte (analyze_fee_market X txs)"
    "p75_fee_per_byte (analyze_fee_market X txs) \<le> p90_fee_per_byte (analyze_fee_market X txs)"
    "p90_fee_per_byte (analyze_fee_market X txs) \<le> max_fee_rate (analyze_fee_market X txs)"
proof -
  let ?f = "sort (map (fee_rate X) txs)" and ?n = "length txs"
  have n: "0 < ?n" "?n * 3 div 4 < ?n" "?n * 9 div 10 < ?n" using assms by (simp_all add: div_less_iff_less_mult)
  have le: "?f ! i \<le> ?f ! j" if "i \<le> j" "j < ?n" for i j
    using that by (intro sorted_nth_mono) simp_all
  show "min_fee_rate (analyze_fee_market X txs) \<le> p25_fee_per_byte (analyze_fee_market X txs)"
    "p25_fee_per_byte (analyze_fee_market X txs) \<le> median_fee_per_byte (analyze_fee_market X txs)"
    "median_fee_per_byte (analyze_fee_market X txs) \<le> p75_fee_per_byte (analyze_fee_market X txs)"
    "p75_fee_per_byte (analyze_fee_market X txs) \<le> p90_fee_per_byte (analyze_fee_market X txs)"
    "p90_fee_per_byte (analyze_fee_market X txs) \<le> max_fee_rate (analyze_fee_market X txs)"
    using assms n by (auto simp: analyze_fee_market_def Let_def intro!: le)
qed

text \<open>Sorting by nonce does not look at nonces: of two transactions the one with the higher priority is first.\<close>

lemma sort_by_nonce_ignores_nonces:
  "tx_priority X od a < tx_priority X od b \<Longrightarrow> sort_by_nonce X od [a, b] = [b, a]"
  by (simp add: sort_by_nonce_def)

end
