(* ===== verification/Network_Messages.thy ===== *)
theory Network_Messages
  imports Core_Types
begin

text \<open>
  \<open>src/network/message.rs\<close>, \<open>gossip.rs\<close>, \<open>handshake.rs\<close> and the types of \<open>mod.rs\<close>: the messages of the network, the
  router that relays a message once, and the signed handshake.

  \<open>bincode\<close> of a message is the record \<open>net_externals\<close>; \<open>CARGO_PKG_VERSION\<close> is a parameter. A
  \<open>DashMap\<close> is an association list. Strings of the handshake are ASCII.
\<close>

section \<open>Messages\<close>

record handshake_data =
  hd_version :: string
  hd_protocol_version :: u32
  hd_node_id :: u64
  hd_port :: u16
  hd_genesis_hash :: hash
  hd_best_height :: block_height
  hd_best_hash :: hash
  hd_capabilities :: "string list"
  hd_timestamp :: u64

record net_handshake_ack =
  na_accepted :: bool
  na_reason :: "string option"
  na_peer_id :: "u64 option"

record peer_info =
  pi_id :: u64
  pi_address :: string
  pi_port :: u16
  pi_best_height :: block_height
  pi_best_hash :: hash
  pi_capabilities :: "string list"
  connected_since :: u64
  last_seen :: u64
  latency_ms :: u64

record block_header_data =
  hb_height :: block_height
  hb_hash :: hash
  hb_previous_hash :: hash
  hb_timestamp :: u64
  hb_transaction_count :: u32

record consensus_proposal =
  xp_height :: block_height
  xp_round :: u64
  xp_block :: block
  xp_proposer :: u64
  xp_signature :: signature

datatype net_vote_type = NetPrevote | NetPrecommit

record consensus_vote =
  xv_height :: block_height
  xv_round :: u64
  xv_block_hash :: hash
  xv_voter :: u64
  xv_vote_type :: net_vote_type
  xv_signature :: signature

datatype (plugins only:) network_message =
    MHandshake handshake_data
  | MHandshakeAck net_handshake_ack
  | MPing u64
  | MPong u64
  | MGetPeers
  | MPeers "peer_info list"
  | MPeerConnected peer_info
  | MPeerDisconnected u64
  | MGetBlocks block_height block_height
  | MBlocks "block list"
  | MNewBlock block
  | MGetBlockHeaders block_height u32
  | MBlockHeaders "block_header_data list"
  | MNewTransaction transaction
  | MGetTransactions "hash list"
  | MTransactions "transaction list"
  | MProposal consensus_proposal
  | MVote consensus_vote
  | MNewView block_height u64
  | MTimeout block_height u64
  | MGetStateChunk hash u32
  | MStateChunk hash u32 bytes
  | MError u32 string

definition handshake_data_new :: "string \<Rightarrow> timestamp \<Rightarrow> u64 \<Rightarrow> u16 \<Rightarrow> hash \<Rightarrow> block_height \<Rightarrow> hash \<Rightarrow> handshake_data" where
  "handshake_data_new version now node port genesis height best =
     \<lparr>hd_version = version, hd_protocol_version = 1, hd_node_id = node, hd_port = port, hd_genesis_hash = genesis,
      hd_best_height = height, hd_best_hash = best, hd_capabilities = [''full'', ''titan''], hd_timestamp = now\<rparr>"

record net_externals =
  ser_message :: "network_message \<Rightarrow> bytes option"
  de_message :: "bytes \<Rightarrow> network_message option"

definition to_bytes :: "net_externals \<Rightarrow> network_message \<Rightarrow> bytes" where
  "to_bytes N msg = (case ser_message N msg of Some bs \<Rightarrow> bs | None \<Rightarrow> [])"

definition from_bytes :: "net_externals \<Rightarrow> bytes \<Rightarrow> network_message option" where
  "from_bytes N bs = de_message N bs"

fun message_type :: "network_message \<Rightarrow> string" where
  "message_type (MHandshake d) = ''Handshake''"
| "message_type (MHandshakeAck a) = ''HandshakeAck''"
| "message_type (MPing n) = ''Ping''"
| "message_type (MPong n) = ''Pong''"
| "message_type MGetPeers = ''GetPeers''"
| "message_type (MPeers ps) = ''Peers''"
| "message_type (MPeerConnected p) = ''PeerConnected''"
| "message_type (MPeerDisconnected i) = ''PeerDisconnected''"
| "message_type (MGetBlocks a b) = ''GetBlocks''"
| "message_type (MBlocks bs) = ''Blocks''"
| "message_type (MNewBlock b) = ''NewBlock''"
| "message_type (MGetBlockHeaders a l) = ''GetBlockHeaders''"
| "message_type (MBlockHeaders hs) = ''BlockHeaders''"
| "message_type (MNewTransaction t) = ''NewTransaction''"
| "message_type (MGetTransactions hs) = ''GetTransactions''"
| "message_type (MTransactions ts) = ''Transactions''"
| "message_type (MProposal p) = ''Proposal''"
| "message_type (MVote v) = ''Vote''"
| "message_type (MNewView h r) = ''NewView''"
| "message_type (MTimeout h r) = ''Timeout''"
| "message_type (MGetStateChunk r i) = ''GetStateChunk''"
| "message_type (MStateChunk r i d) = ''StateChunk''"
| "message_type (MError c m) = ''Error''"

fun message_priority :: "network_message \<Rightarrow> u8" where
  "message_priority (MProposal p) = 1"
| "message_priority (MVote v) = 1"
| "message_priority (MNewBlock b) = 2"
| "message_priority (MNewTransaction t) = 2"
| "message_priority (MPing n) = 3"
| "message_priority (MPong n) = 3"
| "message_priority msg = 4"

section \<open>Gossip\<close>

record gossip_router =
  seen_messages :: "(hash \<times> u64) list"
  max_seen_cache :: nat
  ttl_seconds :: u64

definition gossip_router_new :: "nat \<Rightarrow> u64 \<Rightarrow> gossip_router" where
  "gossip_router_new n ttl = \<lparr>seen_messages = [], max_seen_cache = n, ttl_seconds = ttl\<rparr>"

fun compute_short_hash :: "externals \<Rightarrow> timestamp \<Rightarrow> network_message \<Rightarrow> hash" where
  "compute_short_hash X now (MNewTransaction tx) = sha3_256 X (ascii ''tx:'' @ tx_hash X tx)"
| "compute_short_hash X now (MNewBlock b) = sha3_256 X (ascii ''block:'' @ block_hash X b)"
| "compute_short_hash X now (MProposal p) =
     sha3_256 X (ascii ''proposal:'' @ block_hash X (xp_block p) @ le_bytes (xp_round p))"
| "compute_short_hash X now (MVote v) =
     sha3_256 X (ascii ''vote:'' @ xv_block_hash v @ le_bytes (xv_voter v) @ le_bytes (xv_round v))"
| "compute_short_hash X now msg = sha3_256 X (ascii ''other:'' @ le_bytes now)"

definition gr_cleanup_expired :: "timestamp \<Rightarrow> gossip_router \<Rightarrow> gossip_router" where
  "gr_cleanup_expired now g =
     (let cutoff = saturating_sub now (ttl_seconds g)
      in g\<lparr>seen_messages := filter (\<lambda>(h, ts). ts > cutoff) (seen_messages g)\<rparr>)"

text \<open>The clock is read once for the hash of some messages and once for the entry.\<close>

definition should_propagate ::
    "externals \<Rightarrow> timestamp \<Rightarrow> timestamp \<Rightarrow> network_message \<Rightarrow> gossip_router \<Rightarrow> bool \<times> gossip_router" where
  "should_propagate X t0 now msg g =
     (let h = compute_short_hash X t0 msg;
          g1 = (if length (seen_messages g) > max_seen_cache g then gr_cleanup_expired now g else g);
          g2 = g1\<lparr>seen_messages := AList.update h now (seen_messages g1)\<rparr>
      in (map_of (seen_messages g1) h = None, g2))"

section \<open>The signed handshake\<close>

record handshake_message =
  hm_protocol_version :: u32
  hm_network_id :: u32
  hm_node_id :: u64
  hm_port :: u16
  hm_genesis_hash :: hash
  hm_best_height :: u64
  hm_best_hash :: hash
  hm_capabilities :: "string list"
  hm_timestamp :: u64
  hm_signature :: bytes

definition handshake_message_new :: "timestamp \<Rightarrow> u64 \<Rightarrow> u16 \<Rightarrow> hash \<Rightarrow> u64 \<Rightarrow> hash \<Rightarrow> handshake_message" where
  "handshake_message_new now node port genesis height best =
     \<lparr>hm_protocol_version = 1, hm_network_id = 1, hm_node_id = node, hm_port = port, hm_genesis_hash = genesis,
      hm_best_height = height, hm_best_hash = best, hm_capabilities = [''full'', ''titan''], hm_timestamp = now,
      hm_signature = []\<rparr>"

definition signing_preimage :: "handshake_message \<Rightarrow> bytes" where
  "signing_preimage h =
     le_bytes (hm_protocol_version h) @ le_bytes (hm_network_id h) @ le_bytes (hm_node_id h) @ le_bytes (hm_port h) @
     hm_genesis_hash h @ le_bytes (hm_best_height h) @ hm_best_hash h @ le_bytes (hm_timestamp h) @
     concat (map ascii (hm_capabilities h))"

definition signing_hash :: "externals \<Rightarrow> handshake_message \<Rightarrow> hash" where
  "signing_hash X h = sha3_256 X (signing_preimage h)"

definition handshake_validate :: "timestamp \<Rightarrow> hash \<Rightarrow> u64 \<Rightarrow> handshake_message \<Rightarrow> unit pacyte_result" where
  "handshake_validate now our_genesis max_diff h =
     (if hm_genesis_hash h \<noteq> our_genesis then Inl (HandshakeFailed ''Genesis hash mismatch'')
      else if hm_timestamp h > now + max_diff \<or> hm_timestamp h < now - max_diff
      then Inl (HandshakeFailed ''Timestamp out of range'')
      else Inr ())"

record handshake_ack =
  ha_accepted :: bool
  ha_reason :: "string option"
  assigned_peer_id :: "u64 option"

definition ack_accept :: "u64 \<Rightarrow> handshake_ack" where
  "ack_accept pid = \<lparr>ha_accepted = True, ha_reason = None, assigned_peer_id = Some pid\<rparr>"

definition ack_reject :: "string \<Rightarrow> handshake_ack" where
  "ack_reject reason = \<lparr>ha_accepted = False, ha_reason = Some reason, assigned_peer_id = None\<rparr>"

section \<open>A message is relayed once\<close>

text \<open>The router knows \<open>h\<close> since a time not before \<open>t1\<close>.\<close>

definition knows_since :: "timestamp \<Rightarrow> hash \<Rightarrow> gossip_router \<Rightarrow> bool" where
  "knows_since t1 h g \<longleftrightarrow> wf_map (seen_messages g) \<and> (\<exists>ts \<ge> t1. map_of (seen_messages g) h = Some ts)"

definition in_ttl :: "timestamp \<Rightarrow> timestamp \<Rightarrow> gossip_router \<Rightarrow> bool" where
  "in_ttl t1 now g \<longleftrightarrow> 0 < t1 \<and> t1 \<le> now \<and> now - t1 < ttl_seconds g"

lemma map_of_filter_value:
  "wf_map al \<Longrightarrow> map_of (filter (\<lambda>(k, v). P v) al) k = (case map_of al k of Some v \<Rightarrow> if P v then Some v else None | None \<Rightarrow> None)"
  by (induction al) (auto simp: image_iff map_of_eq_None_iff split: option.splits)

lemma wf_map_filter: "wf_map al \<Longrightarrow> wf_map (filter P al)"
  by (simp add: distinct_map_filter)

lemma cleanup_keeps:
  assumes "knows_since t1 h g" "in_ttl t1 now g"
  shows "knows_since t1 h (gr_cleanup_expired now g)"
proof -
  obtain ts where ts: "ts \<ge> t1" "map_of (seen_messages g) h = Some ts" using assms(1) by (auto simp: knows_since_def)
  have "saturating_sub now (ttl_seconds g) < t1"
    using assms(2) by (auto simp: in_ttl_def word_less_nat_alt word_le_nat_alt unat_saturating_sub unat_sub_le)
  then have "ts > saturating_sub now (ttl_seconds g)" using ts(1) by simp
  then show ?thesis
    using assms(1) ts by (auto simp: knows_since_def gr_cleanup_expired_def Let_def map_of_filter_value wf_map_filter)
qed

lemma propagate_parts:
  "ttl_seconds (snd (should_propagate X t0 now msg g)) = ttl_seconds g"
  "wf_map (seen_messages g) \<Longrightarrow> wf_map (seen_messages (snd (should_propagate X t0 now msg g)))"
  by (simp_all add: should_propagate_def gr_cleanup_expired_def Let_def wf_map_filter)

lemma in_ttl_propagate [simp]: "in_ttl t1 t (snd (should_propagate X t0 now msg g)) = in_ttl t1 t g"
  by (simp add: in_ttl_def propagate_parts)

lemma propagate_knows:
  assumes "wf_map (seen_messages g)"
  shows "knows_since now (compute_short_hash X t0 msg) (snd (should_propagate X t0 now msg g))"
  using propagate_parts(2) [OF assms, of X t0 now msg] by (simp add: knows_since_def should_propagate_def Let_def)

lemma propagate_keeps:
  assumes "knows_since t1 h g" "in_ttl t1 now g"
  shows "knows_since t1 h (snd (should_propagate X t0 now msg g))"
    "compute_short_hash X t0 msg = h \<Longrightarrow> \<not> fst (should_propagate X t0 now msg g)"
proof -
  define g1 where "g1 = (if length (seen_messages g) > max_seen_cache g then gr_cleanup_expired now g else g)"
  have k: "knows_since t1 h g1" using assms cleanup_keeps by (simp add: g1_def)
  have sp: "should_propagate X t0 now msg g =
      (map_of (seen_messages g1) (compute_short_hash X t0 msg) = None, g1\<lparr>seen_messages := AList.update (compute_short_hash X t0 msg) now (seen_messages g1)\<rparr>)"
    by (simp add: should_propagate_def g1_def Let_def)
  show "knows_since t1 h (snd (should_propagate X t0 now msg g))"
    using k assms(2) unfolding sp by (auto simp: knows_since_def in_ttl_def update_conv)
  show "\<not> fst (should_propagate X t0 now msg g)" if "compute_short_hash X t0 msg = h"
    using k that unfolding sp by (auto simp: knows_since_def)
qed

definition relay_all ::
    "externals \<Rightarrow> (timestamp \<times> timestamp \<times> network_message) list \<Rightarrow> gossip_router \<Rightarrow> gossip_router" where
  "relay_all X calls g = fold (\<lambda>(t0, now, msg) g. snd (should_propagate X t0 now msg g)) calls g"

lemma relay_all_parts:
  "ttl_seconds (relay_all X calls g) = ttl_seconds g"
  "wf_map (seen_messages g) \<Longrightarrow> wf_map (seen_messages (relay_all X calls g))"
  by (induction calls arbitrary: g) (auto simp: relay_all_def propagate_parts)

lemma relay_all_keeps:
  assumes "knows_since t1 h g" "list_all (\<lambda>(t0, now, msg). in_ttl t1 now g) calls"
  shows "knows_since t1 h (relay_all X calls g)"
  using assms
proof (induction calls arbitrary: g)
  case (Cons c calls)
  obtain t0 now msg where c: "c = (t0, now, msg)" by (cases c)
  let ?g = "snd (should_propagate X t0 now msg g)"
  have "knows_since t1 h ?g" using Cons.prems propagate_keeps(1) by (simp add: c)
  moreover have "list_all (\<lambda>(t0, now, msg). in_ttl t1 now ?g) calls"
    using Cons.prems(2) by simp
  ultimately show ?case using Cons.IH [of ?g] by (simp add: relay_all_def c)
qed (simp add: relay_all_def)

text \<open>
  C34. Gossip: whatever was relayed before, once a message has been offered to the router, another message with the same short
  hash is refused within the time to live, whatever the router was offered in between, also
  when the table overflows and is cleaned.
\<close>

theorem gossip_relays_once:
  assumes "in_ttl t1 t2 g" "list_all (\<lambda>(t0, now, m). in_ttl t1 now g) between"
    and "compute_short_hash X t0 msg = compute_short_hash X t0' msg'"
    and "g = relay_all X before (gossip_router_new n ttl)"
  shows "fst (should_propagate X t0' t2 msg' (relay_all X between (snd (should_propagate X t0 t1 msg g)))) = False"
proof -
  let ?g1 = "snd (should_propagate X t0 t1 msg g)"
  have "wf_map (seen_messages g)" unfolding assms(4) by (rule relay_all_parts(2)) (simp add: gossip_router_new_def)
  then have "knows_since t1 (compute_short_hash X t0 msg) ?g1" by (rule propagate_knows)
  moreover have "list_all (\<lambda>(t0, now, m). in_ttl t1 now ?g1) between"
    using assms(2) by simp
  ultimately have "knows_since t1 (compute_short_hash X t0 msg) (relay_all X between ?g1)" by (rule relay_all_keeps)
  moreover have "in_ttl t1 t2 (relay_all X between ?g1)"
    using assms(1) by (simp add: in_ttl_def relay_all_parts propagate_parts)
  ultimately show ?thesis using propagate_keeps(2) assms(3) by metis
qed

definition sample_net_message :: "net_vote_type \<Rightarrow> network_message" where
  "sample_net_message ty = MVote \<lparr>xv_height = 1, xv_round = 2, xv_block_hash = zero32, xv_voter = 3, xv_vote_type = ty, xv_signature = []\<rparr>"

text \<open>The type of a vote is not part of its hash: after the prevote the precommit is not relayed.\<close>

theorem gossip_relays_once_witness:
  "fst (should_propagate sample_externals 10 10 (sample_net_message NetPrevote) (gossip_router_new 100 60)) \<and>
   fst (should_propagate sample_externals 12 12 (sample_net_message NetPrecommit)
     (relay_all sample_externals [(11, 11, MPing 1)]
       (snd (should_propagate sample_externals 10 10 (sample_net_message NetPrevote) (gossip_router_new 100 60))))) = False"
proof -
  let ?g = "gossip_router_new 100 60"
  have g: "?g = relay_all sample_externals [] (gossip_router_new 100 60)" by (simp add: relay_all_def)
  have "fst (should_propagate sample_externals 10 10 (sample_net_message NetPrevote) ?g)"
    by (simp add: should_propagate_def gossip_router_new_def Let_def)
  moreover have "in_ttl 10 12 ?g" "list_all (\<lambda>(t0, now, m). in_ttl 10 now ?g) [(11, 11, MPing 1)]"
    by (simp_all add: in_ttl_def gossip_router_new_def)
  moreover have "compute_short_hash sample_externals 10 (sample_net_message NetPrevote) =
      compute_short_hash sample_externals 12 (sample_net_message NetPrecommit)"
    by (simp add: sample_net_message_def)
  ultimately show ?thesis using gossip_relays_once [OF _ _ _ g] by blast
qed

text \<open>Two messages of the kinds without a hash of their own collide within a second.\<close>

lemma other_messages_collide:
  "compute_short_hash X now (MPing a) = compute_short_hash X now MGetPeers"
  "compute_short_hash X now (MGetBlocks a' b) = compute_short_hash X now (MTimeout h r)"
  by simp_all

section \<open>What the handshake checks and signs\<close>

lemma handshake_validate_spec:
  assumes "d \<le> now" "unat now + unat d < 2 ^ 64"
  shows "handshake_validate now g d h = Inr () \<longleftrightarrow>
    hm_genesis_hash h = g \<and> unat now \<le> unat (hm_timestamp h) + unat d \<and> unat (hm_timestamp h) \<le> unat now + unat d"
proof -
  have "unat (now + d) = unat now + unat d" using assms(2) by (simp add: unat_word_ariths)
  moreover have "unat (now - d) = unat now - unat d" using assms(1) by (rule unat_sub)
  ultimately show ?thesis by (auto simp: handshake_validate_def word_less_nat_alt)
qed

text \<open>Before the clock has reached the tolerance, \<open>now - max\<close> wraps and no honest handshake passes.\<close>

lemma handshake_validate_young_clock:
  assumes "now < d" "hm_timestamp h \<le> now"
  shows "\<exists>e. handshake_validate now g d h = Inl e"
proof -
  have "uint (now - d) = uint now - uint d + 2 ^ 64"
    using assms(1) by (simp add: uint_sub_if' word_less_def)
  moreover have "uint d < 2 ^ 64" using unsigned_less [of d] by simp
  ultimately have "hm_timestamp h < now - d"
    using assms by (simp add: word_less_def word_le_def)
  then show ?thesis by (simp add: handshake_validate_def)
qed

lemma signing_preimage_inject:
  assumes "length (hm_genesis_hash a) = 32" "length (hm_genesis_hash b) = 32" "length (hm_best_hash a) = 32" "length (hm_best_hash b) = 32"
    and "signing_preimage a = signing_preimage b"
  shows "a\<lparr>hm_signature := s, hm_capabilities := c\<rparr> = b\<lparr>hm_signature := s, hm_capabilities := c\<rparr> \<and>
    concat (map ascii (hm_capabilities a)) = concat (map ascii (hm_capabilities b))"
  using assms by (simp add: signing_preimage_def append_eq_append_conv le_bytes_inject)

text \<open>
  The hash a handshake signs binds every field but the signature, or SHA3-256 collides; of the
  capabilities it binds only the concatenation.
\<close>

theorem handshake_hash_binds:
  assumes "\<forall>h\<in>{a, b}. length (hm_genesis_hash h) = 32 \<and> length (hm_best_hash h) = 32"
    and "signing_hash X a = signing_hash X b"
  shows "a\<lparr>hm_signature := s, hm_capabilities := c\<rparr> = b\<lparr>hm_signature := s, hm_capabilities := c\<rparr> \<and>
      concat (map ascii (hm_capabilities a)) = concat (map ascii (hm_capabilities b)) \<or>
    (\<exists>m m'. m \<noteq> m' \<and> sha3_256 X m = sha3_256 X m')"
  using assms signing_preimage_inject [of a b c s]
  by (cases "signing_preimage a = signing_preimage b") (auto simp: signing_hash_def)

theorem handshake_hash_binds_witness:
  "concat (map ascii [''full'', ''titan'']) = concat (map ascii [''fulltitan'']) \<or>
   (\<exists>m m'. m \<noteq> m' \<and> sha3_256 sample_externals m = sha3_256 sample_externals m')"
proof -
  let ?a = "handshake_message_new 5 1 9333 zero32 7 zero32" and ?b = "(handshake_message_new 5 1 9333 zero32 7 zero32)\<lparr>hm_capabilities := [''fulltitan'']\<rparr>"
  have "\<forall>h\<in>{?a, ?b}. length (hm_genesis_hash h) = 32 \<and> length (hm_best_hash h) = 32" by (simp add: handshake_message_new_def)
  moreover have "signing_hash sample_externals ?a = signing_hash sample_externals ?b"
    by (simp add: signing_hash_def signing_preimage_def handshake_message_new_def ascii_def)
  ultimately show ?thesis using handshake_hash_binds [of ?a ?b sample_externals "[]" "[]"]
    by (auto simp: handshake_message_new_def)
qed

end
