(* ===== verification/Network_Peers.thy ===== *)
theory Network_Peers
  imports Network_Messages
begin

text \<open>
  \<open>src/network/peer.rs\<close>: peers, their connections and the peer manager with its bans.

  \<open>Instant\<close> is a natural number, given to the operations that read the monotonic clock; the wall clock is a separate
  argument. A \<open>SocketAddr\<close> is its printed IP address and port. An unbounded channel is the list of messages
  sent and not yet received, with a flag for the life of its receiver. The random choice of \<open>rand\<close> is a
  parameter. No method holds a lock while it takes another, so guards are not modelled.
\<close>

section \<open>Peers\<close>

type_synonym instant = nat

record socket_addr =
  sa_ip :: string
  sa_v6 :: bool
  sa_port :: u16

definition addr_string :: "socket_addr \<Rightarrow> string" where
  "addr_string a = (if sa_v6 a then ''['' @ sa_ip a @ '']'' else sa_ip a) @ '':'' @ show_word (sa_port a)"

record peer_connection =
  ch_queue :: "network_message list"
  ch_open :: bool

definition peer_connection_new :: peer_connection where
  "peer_connection_new = \<lparr>ch_queue = [], ch_open = True\<rparr>"

definition connection_send :: "network_message \<Rightarrow> peer_connection \<Rightarrow> bool \<times> peer_connection" where
  "connection_send msg c = (if ch_open c then (True, c\<lparr>ch_queue := ch_queue c @ [msg]\<rparr>) else (False, c))"

datatype peer_state = PeerConnecting | PeerHandshaking | PeerConnected | PeerDisconnected | PeerBannedState

record peer_stats =
  ps_connected_at :: "instant option"
  last_message_at :: "instant option"
  messages_sent :: u64
  messages_received :: u64
  bytes_sent :: u64
  bytes_received :: u64
  ping_latency_ms :: u64
  failed_pings :: u32

definition peer_stats_default :: peer_stats where
  "peer_stats_default =
     \<lparr>ps_connected_at = None, last_message_at = None, messages_sent = 0, messages_received = 0, bytes_sent = 0,
      bytes_received = 0, ping_latency_ms = 0, failed_pings = 0\<rparr>"

record peer =
  pr_id :: u64
  pr_address :: socket_addr
  pr_info :: peer_info
  pr_connection :: peer_connection
  pr_state :: peer_state
  pr_stats :: peer_stats

definition peer_new :: "timestamp \<Rightarrow> u64 \<Rightarrow> socket_addr \<Rightarrow> peer_connection \<Rightarrow> peer" where
  "peer_new wall i a c =
     \<lparr>pr_id = i, pr_address = a,
      pr_info = \<lparr>pi_id = i, pi_address = sa_ip a, pi_port = sa_port a, pi_best_height = 0, pi_best_hash = zero32,
                 pi_capabilities = [], connected_since = wall, last_seen = wall, latency_ms = 0\<rparr>,
      pr_connection = c, pr_state = PeerConnecting, pr_stats = peer_stats_default\<rparr>"

definition is_connected :: "peer \<Rightarrow> bool" where
  "is_connected p \<longleftrightarrow> pr_state p = PeerConnected"

definition update_info :: "handshake_data \<Rightarrow> peer \<Rightarrow> peer" where
  "update_info h p =
     p\<lparr>pr_info := (pr_info p)\<lparr>pi_best_height := hd_best_height h, pi_best_hash := hd_best_hash h,
                             pi_capabilities := hd_capabilities h\<rparr>\<rparr>"

definition record_message_sent :: "instant \<Rightarrow> usize \<Rightarrow> peer \<Rightarrow> peer" where
  "record_message_sent now n p =
     p\<lparr>pr_stats := (pr_stats p)\<lparr>messages_sent := messages_sent (pr_stats p) + 1, bytes_sent := bytes_sent (pr_stats p) + n,
                               last_message_at := Some now\<rparr>\<rparr>"

definition record_message_received :: "instant \<Rightarrow> timestamp \<Rightarrow> usize \<Rightarrow> peer \<Rightarrow> peer" where
  "record_message_received now wall n p =
     p\<lparr>pr_stats := (pr_stats p)\<lparr>messages_received := messages_received (pr_stats p) + 1,
                               bytes_received := bytes_received (pr_stats p) + n, last_message_at := Some now\<rparr>,
       pr_info := (pr_info p)\<lparr>last_seen := wall\<rparr>\<rparr>"

section \<open>The peer manager\<close>

record peer_manager =
  peers :: "(u64 \<times> peer) list"
  address_to_id :: "(socket_addr \<times> u64) list"
  next_peer_id :: u64
  max_peers :: usize
  banned_peers :: "(socket_addr \<times> instant) list"

definition peer_manager_new :: "usize \<Rightarrow> peer_manager" where
  "peer_manager_new n = \<lparr>peers = [], address_to_id = [], next_peer_id = 1, max_peers = n, banned_peers = []\<rparr>"

definition is_banned :: "instant \<Rightarrow> socket_addr \<Rightarrow> peer_manager \<Rightarrow> bool" where
  "is_banned now a m = (case map_of (banned_peers m) a of Some until \<Rightarrow> now < until | None \<Rightarrow> False)"

definition add_peer ::
    "instant \<Rightarrow> timestamp \<Rightarrow> socket_addr \<Rightarrow> peer_connection \<Rightarrow> peer_manager \<Rightarrow> u64 pacyte_result \<times> peer_manager" where
  "add_peer now wall a c m =
     (if is_banned now a m then (Inl (PeerBanned (addr_string a)), m)
      else if map_of (address_to_id m) a \<noteq> None then (Inl (PeerAlreadyConnected (addr_string a)), m)
      else if length (peers m) \<ge> unat (max_peers m) then (Inl (MaxPeersReached (max_peers m)), m)
      else let i = next_peer_id m
           in (Inr i, m\<lparr>next_peer_id := i + 1, peers := AList.update i (peer_new wall i a c) (peers m),
                       address_to_id := AList.update a i (address_to_id m)\<rparr>))"

definition remove_peer :: "u64 \<Rightarrow> peer_manager \<Rightarrow> peer option \<times> peer_manager" where
  "remove_peer i m =
     (let m1 = m\<lparr>peers := AList.delete i (peers m)\<rparr>
      in case map_of (peers m) i of
           None \<Rightarrow> (None, m1)
         | Some p \<Rightarrow> (Some p, m1\<lparr>address_to_id := AList.delete (pr_address p) (address_to_id m1)\<rparr>))"

text \<open>A copy of the peer, with a new connection and new statistics.\<close>

definition get_peer :: "u64 \<Rightarrow> peer_manager \<Rightarrow> peer option" where
  "get_peer i m =
     map_option (\<lambda>p. \<lparr>pr_id = pr_id p, pr_address = pr_address p, pr_info = pr_info p, pr_connection = peer_connection_new,
                     pr_state = pr_state p, pr_stats = peer_stats_default\<rparr>) (map_of (peers m) i)"

definition get_peer_by_address :: "socket_addr \<Rightarrow> peer_manager \<Rightarrow> u64 option" where
  "get_peer_by_address a m = map_of (address_to_id m) a"

definition update_peer_state :: "instant \<Rightarrow> u64 \<Rightarrow> peer_state \<Rightarrow> peer_manager \<Rightarrow> unit pacyte_result \<times> peer_manager" where
  "update_peer_state now i s m =
     (case map_of (peers m) i of
        None \<Rightarrow> (Inl (PeerNotFound (show_word i)), m)
      | Some p \<Rightarrow>
          let p1 = p\<lparr>pr_state := s\<rparr>;
              p2 = (if s = PeerConnected then p1\<lparr>pr_stats := (pr_stats p1)\<lparr>ps_connected_at := Some now\<rparr>\<rparr> else p1)
          in (Inr (), m\<lparr>peers := AList.update i p2 (peers m)\<rparr>))"

definition get_all_peers :: "peer_manager \<Rightarrow> peer_info list" where
  "get_all_peers m = map (pr_info \<circ> snd) (peers m)"

definition get_connected_peers :: "peer_manager \<Rightarrow> peer_info list" where
  "get_connected_peers m = map pr_info (filter is_connected (map snd (peers m)))"

definition peer_count :: "peer_manager \<Rightarrow> nat" where
  "peer_count m = length (peers m)"

definition connected_count :: "peer_manager \<Rightarrow> nat" where
  "connected_count m = length (filter is_connected (map snd (peers m)))"

definition ban_peer :: "instant \<Rightarrow> socket_addr \<Rightarrow> nat \<Rightarrow> peer_manager \<Rightarrow> peer_manager" where
  "ban_peer now a duration m =
     (let m1 = m\<lparr>banned_peers := AList.update a (now + duration) (banned_peers m)\<rparr>
      in case get_peer_by_address a m1 of None \<Rightarrow> m1 | Some i \<Rightarrow> snd (remove_peer i m1))"

definition cleanup_banned :: "instant \<Rightarrow> peer_manager \<Rightarrow> peer_manager" where
  "cleanup_banned now m = m\<lparr>banned_peers := filter (\<lambda>(a, until). now < until) (banned_peers m)\<rparr>"

definition get_random_peers :: "(nat \<Rightarrow> peer_info list \<Rightarrow> peer_info list) \<Rightarrow> nat \<Rightarrow> peer_manager \<Rightarrow> peer_info list" where
  "get_random_peers choose_multiple n m = choose_multiple n (get_connected_peers m)"

section \<open>The table and its index\<close>

definition indexed :: "(u64 \<rightharpoonup> socket_addr) \<Rightarrow> (socket_addr \<rightharpoonup> u64) \<Rightarrow> bool" where
  "indexed f g \<longleftrightarrow> (\<forall>a i. g a = Some i \<longleftrightarrow> f i = Some a)"

lemma indexed_add:
  assumes "indexed f g" "f i = None" "g a = None"
  shows "indexed (f(i \<mapsto> a)) (g(a \<mapsto> i))"
proof -
  have fg: "g b = Some j \<longleftrightarrow> f j = Some b" for b j using assms(1) by (simp add: indexed_def)
  have "f j \<noteq> Some a" "g b \<noteq> Some i" for j b using fg [of a j] fg [of b i] assms(2,3) by auto
  then show ?thesis unfolding indexed_def using fg by auto
qed

lemma indexed_remove:
  assumes "indexed f g" "f i = Some a"
  shows "indexed (f(i := None)) (g(a := None))"
proof -
  have fg: "g b = Some j \<longleftrightarrow> f j = Some b" for b j using assms(1) by (simp add: indexed_def)
  then have "f j = Some a \<longleftrightarrow> j = i" for j using assms(2) by (metis option.inject)
  moreover have "f i = Some b \<longleftrightarrow> b = a" for b using assms(2) by auto
  ultimately show ?thesis unfolding indexed_def using fg by auto
qed

definition addr_of :: "peer_manager \<Rightarrow> u64 \<rightharpoonup> socket_addr" where
  "addr_of m i = map_option pr_address (map_of (peers m) i)"

definition peers_inv :: "peer_manager \<Rightarrow> bool" where
  "peers_inv m \<longleftrightarrow>
     wf_map (peers m) \<and> wf_map (address_to_id m) \<and> wf_map (banned_peers m) \<and>
     (\<forall>i p. map_of (peers m) i = Some p \<longrightarrow> pr_id p = i \<and> pi_id (pr_info p) = i \<and> i < next_peer_id m) \<and>
     indexed (addr_of m) (map_of (address_to_id m)) \<and>
     length (peers m) \<le> unat (max_peers m)"

lemma peers_inv_new: "peers_inv (peer_manager_new n)"
  by (simp add: peers_inv_def peer_manager_new_def indexed_def addr_of_def)

text \<open>The manager runs for less than \<open>2 ^ 64 - 1\<close> successful additions.\<close>

lemma less_next_id: "(i :: u64) \<noteq> - 1 \<Longrightarrow> j \<le> i \<Longrightarrow> j < i + 1"
proof -
  assume "i \<noteq> - 1" "j \<le> i"
  then have "i + 1 \<noteq> 0" by (simp add: eq_neg_iff_add_eq_0 [symmetric])
  then have "unat (i + 1) = Suc (unat i)" using unatSuc [of i] by (simp add: add.commute)
  with \<open>j \<le> i\<close> show ?thesis by (simp add: word_le_nat_alt word_less_nat_alt)
qed

lemma peers_inv_add:
  assumes "peers_inv m" "next_peer_id m \<noteq> - 1"
  shows "peers_inv (snd (add_peer now wall a c m))"
proof (cases "is_banned now a m \<or> map_of (address_to_id m) a \<noteq> None \<or> length (peers m) \<ge> unat (max_peers m)")
  case True
  then show ?thesis using assms(1) by (auto simp: add_peer_def Let_def)
next
  case False
  let ?i = "next_peer_id m"
  let ?m = "m\<lparr>next_peer_id := ?i + 1, peers := AList.update ?i (peer_new wall ?i a c) (peers m),
      address_to_id := AList.update a ?i (address_to_id m)\<rparr>"
  note next1 = less_next_id [OF assms(2)]
  have fresh: "map_of (peers m) ?i = None"
    using assms(1) unfolding peers_inv_def by (metis option.exhaust order_less_irrefl)
  have "addr_of ?m = (addr_of m)(?i \<mapsto> a)" by (rule ext) (simp add: addr_of_def peer_new_def)
  moreover have "map_of (address_to_id ?m) = (map_of (address_to_id m))(a \<mapsto> ?i)" by (simp add: update_conv')
  moreover have "indexed (addr_of m) (map_of (address_to_id m))" using assms(1) by (simp add: peers_inv_def)
  ultimately have "indexed (addr_of ?m) (map_of (address_to_id ?m))"
    using indexed_add False fresh by (simp add: addr_of_def)
  moreover have "\<forall>i p. map_of (peers ?m) i = Some p \<longrightarrow> pr_id p = i \<and> pi_id (pr_info p) = i \<and> i < next_peer_id ?m"
  proof (intro allI impI)
    fix i p assume p: "map_of (peers ?m) i = Some p"
    show "pr_id p = i \<and> pi_id (pr_info p) = i \<and> i < next_peer_id ?m"
    proof (cases "i = ?i")
      case True
      with p next1 [of i] show ?thesis by (auto simp: peer_new_def)
    next
      case False
      with p have "map_of (peers m) i = Some p" by simp
      with assms(1) have "pr_id p = i \<and> pi_id (pr_info p) = i \<and> i < ?i" unfolding peers_inv_def by blast
      with next1 [OF less_imp_le, of i] show ?thesis by simp
    qed
  qed
  moreover have "snd (add_peer now wall a c m) = ?m" using False by (simp add: add_peer_def Let_def)
  moreover have "wf_map (peers m)" "wf_map (address_to_id m)" "wf_map (banned_peers m)"
    using assms(1) unfolding peers_inv_def by blast+
  then have "wf_map (peers ?m)" "wf_map (address_to_id ?m)" "wf_map (banned_peers ?m)" by simp_all
  moreover have "length (peers ?m) \<le> unat (max_peers ?m)" using False fresh by (simp add: length_update)
  ultimately show ?thesis unfolding peers_inv_def by metis
qed

lemma peers_inv_remove:
  assumes "peers_inv m"
  shows "peers_inv (snd (remove_peer i m))"
proof (cases "map_of (peers m) i")
  case None
  then have "AList.delete i (peers m) = peers m" by (simp add: delete_notin_dom map_of_eq_None_iff)
  with None assms show ?thesis by (simp add: remove_peer_def Let_def)
next
  case (Some p)
  let ?m = "m\<lparr>peers := AList.delete i (peers m), address_to_id := AList.delete (pr_address p) (address_to_id m)\<rparr>"
  have "addr_of ?m = (addr_of m)(i := None)" by (rule ext) (simp add: addr_of_def)
  moreover have "map_of (address_to_id ?m) = (map_of (address_to_id m))(pr_address p := None)" by (simp add: delete_conv')
  moreover have "indexed (addr_of m) (map_of (address_to_id m))" using assms by (simp add: peers_inv_def)
  ultimately have "indexed (addr_of ?m) (map_of (address_to_id ?m))"
    using indexed_remove Some by (simp add: addr_of_def)
  moreover have "snd (remove_peer i m) = ?m" using Some by (simp add: remove_peer_def Let_def)
  moreover have "length (AList.delete i (peers m)) \<le> unat (max_peers m)"
    using assms length_delete_le [of i "peers m"] unfolding peers_inv_def by linarith
  ultimately show ?thesis using assms unfolding peers_inv_def by simp
qed

lemma peers_inv_update_entry:
  assumes "peers_inv m" "map_of (peers m) i = Some p" "pr_id q = pr_id p" "pi_id (pr_info q) = pi_id (pr_info p)" "pr_address q = pr_address p"
  shows "peers_inv (m\<lparr>peers := AList.update i q (peers m)\<rparr>)"
proof -
  have "addr_of (m\<lparr>peers := AList.update i q (peers m)\<rparr>) = addr_of m"
    by (rule ext) (simp add: addr_of_def assms(2,5))
  then show ?thesis using assms unfolding peers_inv_def by (simp add: length_update)
qed

lemma peers_inv_state: "peers_inv m \<Longrightarrow> peers_inv (snd (update_peer_state now i s m))"
  by (cases "map_of (peers m) i") (auto simp: update_peer_state_def Let_def intro!: peers_inv_update_entry)

lemma peers_inv_banned: "peers_inv m \<Longrightarrow> wf_map bs \<Longrightarrow> peers_inv (m\<lparr>banned_peers := bs\<rparr>)"
  unfolding peers_inv_def addr_of_def by simp

lemma peers_inv_ban: "peers_inv m \<Longrightarrow> peers_inv (ban_peer now a d m)"
proof -
  assume inv: "peers_inv m"
  let ?m = "m\<lparr>banned_peers := AList.update a (now + d) (banned_peers m)\<rparr>"
  have "peers_inv ?m" using inv by (intro peers_inv_banned) (simp_all add: peers_inv_def)
  then show ?thesis using peers_inv_remove [of ?m] by (simp add: ban_peer_def Let_def split: option.split)
qed

lemma peers_inv_cleanup: "peers_inv m \<Longrightarrow> peers_inv (cleanup_banned now m)"
  unfolding cleanup_banned_def by (rule peers_inv_banned) (simp_all add: peers_inv_def distinct_map_filter)

inductive reachable_peers :: "peer_manager \<Rightarrow> bool" where
  reachable_new: "reachable_peers (peer_manager_new n)"
| reachable_add: "reachable_peers m \<Longrightarrow> next_peer_id m \<noteq> - 1 \<Longrightarrow> reachable_peers (snd (add_peer now wall a c m))"
| reachable_remove: "reachable_peers m \<Longrightarrow> reachable_peers (snd (remove_peer i m))"
| reachable_state: "reachable_peers m \<Longrightarrow> reachable_peers (snd (update_peer_state now i s m))"
| reachable_ban: "reachable_peers m \<Longrightarrow> reachable_peers (ban_peer now a d m)"
| reachable_cleanup: "reachable_peers m \<Longrightarrow> reachable_peers (cleanup_banned now m)"

lemma reachable_peers_inv: "reachable_peers m \<Longrightarrow> peers_inv m"
  by (induction rule: reachable_peers.induct)
    (simp_all add: peers_inv_new peers_inv_add peers_inv_remove peers_inv_state peers_inv_ban peers_inv_cleanup)

lemma ban_disconnects:
  assumes "peers_inv m"
  shows "get_peer_by_address a (ban_peer now a d m) = None" "banned_peers (ban_peer now a d m) = AList.update a (now + d) (banned_peers m)"
proof -
  have "pr_address p = a" if "map_of (address_to_id m) a = Some i" "map_of (peers m) i = Some p" for i p
    using assms that unfolding peers_inv_def indexed_def addr_of_def by (metis option.inject option.simps(9))
  moreover have "map_of (peers m) i \<noteq> None" if "map_of (address_to_id m) a = Some i" for i
    using assms that unfolding peers_inv_def indexed_def addr_of_def by (metis option.distinct(1) option.simps(8))
  ultimately show "get_peer_by_address a (ban_peer now a d m) = None"
    by (auto simp: ban_peer_def get_peer_by_address_def remove_peer_def Let_def split: option.split)
  show "banned_peers (ban_peer now a d m) = AList.update a (now + d) (banned_peers m)"
    by (simp add: ban_peer_def remove_peer_def Let_def split: option.split)
qed


definition sample_addr :: socket_addr where
  "sample_addr = \<lparr>sa_ip = ''127.0.0.1'', sa_v6 = False, sa_port = 9333\<rparr>"

definition sample_peers :: peer_manager where
  "sample_peers = snd (add_peer 0 5 sample_addr peer_connection_new (peer_manager_new 10))"


end
