(* ===== verification/Network_P2P.thy ===== *)
theory Network_P2P
  imports Network_Peers
begin

text \<open>
  \<open>src/network/p2p.rs\<close>: the TCP network over the peer manager, and the configuration of \<open>mod.rs\<close>.

  The socket of a connection is a writer with its buffer (\<open>tokio\<close>'s \<open>BufWriter\<close>, 8 KiB) and a script of
  what the operating system answers: the outcome of each write of the handshake, the bytes or error of each read. A
  connection task is split at its suspension points: registration, handshake, and one pass of its loop per event of \<open>select!\<close>; the
  relation \<open>net_reachable\<close> interleaves the tasks with each other and with the calls of the node. Messages
  handed to the upper layer are the list \<open>upward\<close>. A message waiting in the channel of a peer that is removed is dropped with it (there
  is never one).
\<close>

section \<open>The network\<close>

record network_config =
  nc_node_id :: u64
  listen_addr :: socket_addr
  public_addr :: "socket_addr option"
  bootstrap_peers :: "socket_addr list"
  nc_max_peers :: usize
  min_peers :: usize
  handshake_timeout_ms :: u64
  ping_interval_ms :: u64
  max_message_size :: usize

definition network_config_default :: network_config where
  "network_config_default =
     \<lparr>nc_node_id = 1, listen_addr = \<lparr>sa_ip = ''0.0.0.0'', sa_v6 = False, sa_port = 9333\<rparr>, public_addr = None, bootstrap_peers = [],
      nc_max_peers = 50, min_peers = 3, handshake_timeout_ms = 5000, ping_interval_ms = 30000,
      max_message_size = 16 * 1024 * 1024\<rparr>"

record peer_message =
  pm_from :: u64
  pm_message :: network_message
  received_at :: u64

datatype network_state = NetStopped | NetStarting | NetRunning | NetStopping

record p2p_network =
  p2p_config :: network_config
  peer_mgr :: peer_manager
  upward :: "peer_message list"
  has_message_rx :: bool
  net_state :: network_state
  p2p_genesis_hash :: hash
  p2p_best_height :: block_height
  p2p_best_hash :: hash

definition p2p_network_new :: "network_config \<Rightarrow> hash \<Rightarrow> p2p_network" where
  "p2p_network_new cfg genesis =
     \<lparr>p2p_config = cfg, peer_mgr = peer_manager_new (nc_max_peers cfg), upward = [], has_message_rx = True,
      net_state = NetStopped, p2p_genesis_hash = genesis, p2p_best_height = 0, p2p_best_hash = zero32\<rparr>"

definition update_best_block :: "block_height \<Rightarrow> hash \<Rightarrow> p2p_network \<Rightarrow> p2p_network" where
  "update_best_block height h net = net\<lparr>p2p_best_height := height, p2p_best_hash := h\<rparr>"

text \<open>The message goes into the connection of the copy that \<open>get_peer\<close> returns.\<close>

definition send_to :: "u64 \<Rightarrow> network_message \<Rightarrow> p2p_network \<Rightarrow> unit pacyte_result" where
  "send_to i msg net =
     (case get_peer i (peer_mgr net) of
        Some p \<Rightarrow>
          (case connection_send msg (pr_connection p) of
             (True, c) \<Rightarrow> Inr ()
           | (False, c) \<Rightarrow> Inl (PeerNotFound (show_word i)))
      | None \<Rightarrow> Inl (PeerNotFound (show_word i)))"

definition net_broadcast :: "network_message \<Rightarrow> p2p_network \<Rightarrow> unit pacyte_result" where
  "net_broadcast msg net =
     (let results = map (\<lambda>p. send_to (pi_id p) msg net) (get_connected_peers (peer_mgr net)) in Inr ())"

definition forward_up :: "timestamp \<Rightarrow> u64 \<Rightarrow> network_message \<Rightarrow> p2p_network \<Rightarrow> p2p_network" where
  "forward_up wall i msg net = net\<lparr>upward := upward net @ [\<lparr>pm_from = i, pm_message = msg, received_at = wall\<rparr>]\<rparr>"

definition handle_message :: "timestamp \<Rightarrow> u64 \<Rightarrow> network_message \<Rightarrow> p2p_network \<Rightarrow> unit pacyte_result \<times> p2p_network" where
  "handle_message wall i msg net =
     (case msg of
        MPing n \<Rightarrow> (let r = send_to i (MPong n) net in (Inr (), net))
      | MPong n \<Rightarrow> (Inr (), net)
      | MGetPeers \<Rightarrow> (let r = send_to i (MPeers (get_connected_peers (peer_mgr net))) net in (Inr (), net))
      | _ \<Rightarrow> (Inr (), forward_up wall i msg net))"

section \<open>A connection\<close>

record tokio_writer =
  tw_sent :: bytes
  tw_buffer :: bytes

definition tw_new :: tokio_writer where "tw_new = \<lparr>tw_sent = [], tw_buffer = []\<rparr>"

definition tw_flush :: "tokio_writer \<Rightarrow> tokio_writer" where
  "tw_flush w = \<lparr>tw_sent = tw_sent w @ tw_buffer w, tw_buffer = []\<rparr>"

definition tw_write :: "bytes \<Rightarrow> tokio_writer \<Rightarrow> tokio_writer" where
  "tw_write bs w =
     (let w1 = (if length (tw_buffer w) + length bs > 8192 then tw_flush w else w)
      in if length bs \<ge> 8192 then w1\<lparr>tw_sent := tw_sent w1 @ bs\<rparr> else w1\<lparr>tw_buffer := tw_buffer w1 @ bs\<rparr>)"

datatype handshake_read = HsTimeout | HsReadError string | HsBytes bytes

record handshake_io =
  hi_write :: "string option"
  hi_flush :: "string option"
  hi_read :: handshake_read
  hi_ack_ok :: bool

definition our_handshake :: "string \<Rightarrow> timestamp \<Rightarrow> p2p_network \<Rightarrow> handshake_data" where
  "our_handshake version wall net =
     handshake_data_new version wall (nc_node_id (p2p_config net)) (sa_port (listen_addr (p2p_config net))) (p2p_genesis_hash net)
       (p2p_best_height net) (p2p_best_hash net)"

text \<open>
  The rejection is written to the buffer and not flushed; \<open>ok()\<close> ignores errors of the acknowledgement.
\<close>

definition perform_handshake ::
    "net_externals \<Rightarrow> string \<Rightarrow> timestamp \<Rightarrow> handshake_io \<Rightarrow> u64 \<Rightarrow> p2p_network \<Rightarrow> handshake_data pacyte_result \<times> tokio_writer" where
  "perform_handshake N version wall io i net =
     (let w1 = tw_write (to_bytes N (MHandshake (our_handshake version wall net))) tw_new; w2 = tw_flush w1
      in case hi_write io of
           Some e \<Rightarrow> (Inl (NetworkError e), tw_new)
         | None \<Rightarrow>
       case hi_flush io of
           Some e \<Rightarrow> (Inl (NetworkError e), w1)
         | None \<Rightarrow>
       case hi_read io of
           HsTimeout \<Rightarrow> (Inl HandshakeTimeout, w2)
         | HsReadError e \<Rightarrow> (Inl (NetworkError e), w2)
         | HsBytes bs \<Rightarrow>
             if take 4096 bs = [] then (Inl (HandshakeFailed ''Connection closed''), w2)
             else case from_bytes N (take 4096 bs) of
                    None \<Rightarrow> (Inl (HandshakeFailed ''Invalid message''), w2)
                  | Some (MHandshake theirs) \<Rightarrow>
                      if hd_genesis_hash theirs \<noteq> p2p_genesis_hash net
                      then (Inl (HandshakeFailed ''Genesis mismatch''),
                            if hi_ack_ok io
                            then tw_write (to_bytes N (MHandshakeAck \<lparr>na_accepted = False, na_reason = Some ''Genesis hash mismatch'', na_peer_id = None\<rparr>)) w2
                            else w2)
                      else (Inr theirs,
                            if hi_ack_ok io
                            then tw_flush (tw_write (to_bytes N (MHandshakeAck \<lparr>na_accepted = True, na_reason = None, na_peer_id = Some i\<rparr>)) w2)
                            else w2)
                  | Some _ \<Rightarrow> (Inl (HandshakeFailed ''Expected Handshake''), w2))"

definition conn_register :: "instant \<Rightarrow> timestamp \<Rightarrow> socket_addr \<Rightarrow> p2p_network \<Rightarrow> u64 pacyte_result \<times> p2p_network" where
  "conn_register now wall a net =
     (case add_peer now wall a peer_connection_new (peer_mgr net) of (r, pm) \<Rightarrow> (r, net\<lparr>peer_mgr := pm\<rparr>))"

text \<open>When the task ends, its end of the channel goes away.\<close>

definition close_channel :: "u64 \<Rightarrow> p2p_network \<Rightarrow> p2p_network" where
  "close_channel i net =
     (case map_of (peers (peer_mgr net)) i of
        None \<Rightarrow> net
      | Some p \<Rightarrow> net\<lparr>peer_mgr := (peer_mgr net)\<lparr>peers :=
          AList.update i (p\<lparr>pr_connection := (pr_connection p)\<lparr>ch_open := False\<rparr>\<rparr>) (peers (peer_mgr net))\<rparr>\<rparr>)"

definition conn_handshake ::
    "net_externals \<Rightarrow> string \<Rightarrow> instant \<Rightarrow> timestamp \<Rightarrow> handshake_io \<Rightarrow> u64 \<Rightarrow> p2p_network \<Rightarrow> unit pacyte_result \<times> tokio_writer \<times> p2p_network" where
  "conn_handshake N version now wall io i net =
     (case perform_handshake N version wall io i net of
        (Inl e, w) \<Rightarrow> (Inl e, w, close_channel i net)
      | (Inr theirs, w) \<Rightarrow>
          (case update_peer_state now i PeerConnected (peer_mgr net) of
             (Inl e, pm) \<Rightarrow> (Inl e, w, close_channel i (net\<lparr>peer_mgr := pm\<rparr>))
           | (Inr _, pm) \<Rightarrow> (Inr (), w, net\<lparr>peer_mgr := pm\<rparr>)))"

datatype conn_event = ConnRead timestamp bytes | ConnReadError | ConnOutgoing bool | ConnShutdown

definition conn_end :: "u64 \<Rightarrow> p2p_network \<Rightarrow> p2p_network" where
  "conn_end i net = net\<lparr>peer_mgr := snd (remove_peer i (peer_mgr net))\<rparr>"

definition take_outgoing :: "u64 \<Rightarrow> p2p_network \<Rightarrow> network_message option \<times> p2p_network" where
  "take_outgoing i net =
     (case map_of (peers (peer_mgr net)) i of
        None \<Rightarrow> (None, net)
      | Some p \<Rightarrow>
          (case ch_queue (pr_connection p) of
             [] \<Rightarrow> (None, net)
           | msg # q \<Rightarrow> (Some msg, net\<lparr>peer_mgr := (peer_mgr net)\<lparr>peers :=
               AList.update i (p\<lparr>pr_connection := (pr_connection p)\<lparr>ch_queue := q\<rparr>\<rparr>) (peers (peer_mgr net))\<rparr>\<rparr>)))"

text \<open>One pass of the loop: the result is None while the task goes on.\<close>

fun conn_pass ::
    "net_externals \<Rightarrow> u64 \<Rightarrow> conn_event \<Rightarrow> tokio_writer \<Rightarrow> p2p_network \<Rightarrow> unit pacyte_result option \<times> tokio_writer \<times> p2p_network" where
  "conn_pass N i (ConnRead wall bs) w net =
     (let chunk = take (unat (max_message_size (p2p_config net))) bs
      in if chunk = [] then (Some (Inr ()), w, conn_end i net)
         else case from_bytes N chunk of
                None \<Rightarrow> (None, w, net)
              | Some msg \<Rightarrow>
                  (case handle_message wall i msg net of
                     (Inl e, net1) \<Rightarrow> (Some (Inl e), w, close_channel i net1)
                   | (Inr _, net1) \<Rightarrow> (None, w, net1)))"
| "conn_pass N i ConnReadError w net = (Some (Inr ()), w, conn_end i net)"
| "conn_pass N i (ConnOutgoing ok) w net =
     (case take_outgoing i net of
        (None, net1) \<Rightarrow> (None, w, net1)
      | (Some msg, net1) \<Rightarrow>
          if ok then (None, tw_flush (tw_write (to_bytes N msg) w), net1) else (Some (Inr ()), w, conn_end i net1))"
| "conn_pass N i ConnShutdown w net = (Some (Inr ()), w, conn_end i net)"

fun conn_loop ::
    "net_externals \<Rightarrow> u64 \<Rightarrow> conn_event list \<Rightarrow> tokio_writer \<Rightarrow> p2p_network \<Rightarrow> unit pacyte_result option \<times> tokio_writer \<times> p2p_network" where
  "conn_loop N i [] w net = (None, w, net)"
| "conn_loop N i (ev # evs) w net =
     (case conn_pass N i ev w net of
        (None, w1, net1) \<Rightarrow> conn_loop N i evs w1 net1
      | (Some r, w1, net1) \<Rightarrow> (Some r, w1, net1))"

definition handle_connection ::
    "net_externals \<Rightarrow> string \<Rightarrow> instant \<Rightarrow> timestamp \<Rightarrow> socket_addr \<Rightarrow> handshake_io \<Rightarrow> conn_event list \<Rightarrow> p2p_network \<Rightarrow>
     unit pacyte_result option \<times> tokio_writer \<times> p2p_network" where
  "handle_connection N version now wall a io evs net =
     (case conn_register now wall a net of
        (Inl e, net1) \<Rightarrow> (Some (Inl e), tw_new, net1)
      | (Inr i, net1) \<Rightarrow>
          (case conn_handshake N version now wall io i net1 of
             (Inl e, w, net2) \<Rightarrow> (Some (Inl e), w, net2)
           | (Inr _, w, net2) \<Rightarrow> conn_loop N i evs w net2))"

section \<open>Upkeep and the calls of the node\<close>

text \<open>
  The addresses that are dialled, given the number of connected peers when each one's turn comes.
\<close>

definition connect_to_bootstrap :: "nat list \<Rightarrow> p2p_network \<Rightarrow> socket_addr list" where
  "connect_to_bootstrap counts net =
     map fst (takeWhile (\<lambda>(a, n). n < unat (nc_max_peers (p2p_config net))) (zip (bootstrap_peers (p2p_config net)) counts))"

definition maintain_pass :: "instant \<Rightarrow> nat list \<Rightarrow> (u64 \<Rightarrow> u64) \<Rightarrow> p2p_network \<Rightarrow> socket_addr list \<times> p2p_network" where
  "maintain_pass now counts nonce_for net =
     (let dialled = (if connected_count (peer_mgr net) < unat (min_peers (p2p_config net)) then connect_to_bootstrap counts net else []);
          pings = map (\<lambda>p. send_to (pi_id p) (MPing (nonce_for (pi_id p))) net) (get_connected_peers (peer_mgr net))
      in (dialled, net\<lparr>peer_mgr := cleanup_banned now (peer_mgr net)\<rparr>))"

definition net_starting :: "p2p_network \<Rightarrow> p2p_network" where
  "net_starting net = net\<lparr>net_state := NetRunning\<rparr>"

text \<open>The accept loop goes on as long as it does not see \<open>Stopping\<close>.\<close>

definition accept_continues :: "p2p_network \<Rightarrow> bool" where
  "accept_continues net \<longleftrightarrow> net_state net \<noteq> NetStopping"

definition net_stop :: "p2p_network \<Rightarrow> p2p_network" where
  "net_stop net = (let net1 = net\<lparr>net_state := NetStopping\<rparr> in net1\<lparr>net_state := NetStopped\<rparr>)"

definition net_disconnect :: "u64 \<Rightarrow> p2p_network \<Rightarrow> p2p_network" where
  "net_disconnect i net = net\<lparr>peer_mgr := snd (remove_peer i (peer_mgr net))\<rparr>"

text \<open>A subscriber is connected to the messages only if it is the first.\<close>

definition net_subscribe :: "p2p_network \<Rightarrow> bool \<times> p2p_network" where
  "net_subscribe net = (has_message_rx net, net\<lparr>has_message_rx := False\<rparr>)"

section \<open>What leaves the node\<close>

definition quiet :: "peer_manager \<Rightarrow> bool" where
  "quiet m \<longleftrightarrow> (\<forall>i p. map_of (peers m) i = Some p \<longrightarrow> ch_queue (pr_connection p) = [])"

lemma quiet_update: "quiet m \<Longrightarrow> ch_queue (pr_connection q) = [] \<Longrightarrow> quiet (m\<lparr>peers := AList.update i q (peers m)\<rparr>)"
  unfolding quiet_def by simp

lemma quiet_add: "quiet m \<Longrightarrow> quiet (snd (add_peer now wall a peer_connection_new m))"
  unfolding add_peer_def Let_def quiet_def by (simp add: peer_new_def peer_connection_new_def)

lemma quiet_remove: "quiet m \<Longrightarrow> quiet (snd (remove_peer i m))"
  unfolding remove_peer_def Let_def quiet_def by (simp split: option.split)

lemma quiet_state: "quiet m \<Longrightarrow> quiet (snd (update_peer_state now i st m))"
  unfolding update_peer_state_def Let_def quiet_def by (auto split: option.split)

lemma quiet_ban: "quiet m \<Longrightarrow> quiet (ban_peer now a d m)"
  using quiet_remove [of "m\<lparr>banned_peers := bs\<rparr>" for bs]
  unfolding ban_peer_def Let_def by (simp add: quiet_def split: option.split)

lemma quiet_cleanup: "quiet m \<Longrightarrow> quiet (cleanup_banned now m)"
  unfolding cleanup_banned_def quiet_def by simp

lemma quiet_close: "quiet (peer_mgr net) \<Longrightarrow> quiet (peer_mgr (close_channel i net))"
  using quiet_update [of "peer_mgr net"] unfolding close_channel_def by (auto simp: quiet_def split: option.split)

lemma quiet_take: "quiet (peer_mgr net) \<Longrightarrow> take_outgoing i net = (None, net)"
  unfolding take_outgoing_def quiet_def by (auto split: option.split list.split)

lemma handle_message_peers: "fst (handle_message wall i msg net) = Inr ()" "peer_mgr (snd (handle_message wall i msg net)) = peer_mgr net"
  by (cases msg; simp add: handle_message_def forward_up_def Let_def)+

lemma conn_pass_quiet:
  assumes "quiet (peer_mgr net)" "conn_pass N i ev w net = (r, w1, net1)"
  shows "quiet (peer_mgr net1) \<and> w1 = w"
proof (cases ev)
  case (ConnRead wall bs)
  let ?chunk = "take (unat (max_message_size (p2p_config net))) bs"
  consider "?chunk = []" | "?chunk \<noteq> []" "from_bytes N ?chunk = None" | msg where "?chunk \<noteq> []" "from_bytes N ?chunk = Some msg"
    by blast
  then show ?thesis
  proof cases
    case 1
    then show ?thesis using assms ConnRead quiet_remove [of "peer_mgr net" i] by (auto simp: Let_def conn_end_def)
  next
    case 2
    then show ?thesis using assms ConnRead by (auto simp: Let_def)
  next
    case 3
    obtain net' where h: "handle_message wall i msg net = (Inr (), net')" "peer_mgr net' = peer_mgr net"
      using handle_message_peers [of wall i msg net] by (metis prod.collapse)
    with 3 show ?thesis using assms ConnRead by (auto simp: Let_def)
  qed
qed (use assms quiet_remove [of "peer_mgr net" i] quiet_take [of net i] in \<open>auto simp: conn_end_def\<close>)

definition tw_all :: "tokio_writer \<Rightarrow> bytes" where
  "tw_all w = tw_sent w @ tw_buffer w"

lemma tw_all_simps [simp]: "tw_all tw_new = []" "tw_all (tw_flush w) = tw_all w" "tw_all (tw_write bs w) = tw_all w @ bs"
proof -
  consider "length (tw_buffer w) + length bs > 8192" | "length (tw_buffer w) + length bs \<le> 8192" "length bs < 8192"
    | "tw_buffer w = []" "length bs = 8192" by (cases "tw_buffer w") force+
  then show "tw_all (tw_write bs w) = tw_all w @ bs"
    by cases (simp_all add: tw_all_def tw_write_def tw_flush_def Let_def)
qed (simp_all add: tw_all_def tw_new_def tw_flush_def)

definition only_handshake :: "net_externals \<Rightarrow> u64 \<Rightarrow> tokio_writer \<Rightarrow> bool" where
  "only_handshake N i w \<longleftrightarrow>
     (\<exists>ours. tw_all w = to_bytes N (MHandshake ours) \<or>
        tw_all w = to_bytes N (MHandshake ours) @ to_bytes N (MHandshakeAck \<lparr>na_accepted = True, na_reason = None, na_peer_id = Some i\<rparr>))"

lemma handshake_output:
  assumes "perform_handshake N version wall io i net = (Inr theirs, w)"
  shows "only_handshake N i w"
  using assms unfolding perform_handshake_def only_handshake_def
  by (auto simp: Let_def split: option.splits handshake_read.splits if_splits network_message.splits)

lemma conn_handshake_quiet:
  assumes "quiet (peer_mgr net)" "conn_handshake N version now wall io i net = (r, w, net1)"
  shows "quiet (peer_mgr net1) \<and> (r = Inr () \<longrightarrow> only_handshake N i w)"
proof -
  obtain h w0 where h: "perform_handshake N version wall io i net = (h, w0)" by fastforce
  obtain u pm where u: "update_peer_state now i PeerConnected (peer_mgr net) = (u, pm)" by fastforce
  have q: "quiet pm" using quiet_state [OF assms(1), of now i PeerConnected] u by simp
  show ?thesis
  proof (cases h)
    case (Inl e)
    then show ?thesis using assms quiet_close [of net i] h by (auto simp: conn_handshake_def)
  next
    case (Inr theirs)
    then have "only_handshake N i w0" using h handshake_output by blast
    then show ?thesis using assms q h u Inr quiet_close [of "net\<lparr>peer_mgr := pm\<rparr>" i]
      by (cases u) (auto simp: conn_handshake_def)
  qed
qed

text \<open>
  The network under any interleaving: a table of the running connection tasks with their writers, the steps of
  these tasks, and the calls of the node. \<open>send_to\<close> and \<open>broadcast\<close> change nothing and need no rule.
\<close>

inductive net_reachable :: "net_externals \<Rightarrow> string \<Rightarrow> (u64 \<rightharpoonup> tokio_writer) \<Rightarrow> p2p_network \<Rightarrow> bool" for N version where
  net_init: "net_reachable N version Map.empty (p2p_network_new cfg genesis)"
| net_register: "net_reachable N version T net \<Longrightarrow> net_reachable N version T (snd (conn_register now wall a net))"
| net_handshake: "net_reachable N version T net \<Longrightarrow> conn_handshake N version now wall io i net = (r, w, net1) \<Longrightarrow>
    net_reachable N version (T(i := if r = Inr () then Some w else None)) net1"
| net_pass: "net_reachable N version T net \<Longrightarrow> T i = Some w \<Longrightarrow> conn_pass N i ev w net = (r, w1, net1) \<Longrightarrow>
    net_reachable N version (T(i := if r = None then Some w1 else None)) net1"
| net_disconnected: "net_reachable N version T net \<Longrightarrow> net_reachable N version T (net_disconnect i net)"
| net_banned: "net_reachable N version T net \<Longrightarrow> net_reachable N version T (net\<lparr>peer_mgr := ban_peer now a d (peer_mgr net)\<rparr>)"
| net_maintained: "net_reachable N version T net \<Longrightarrow> net_reachable N version T (snd (maintain_pass now counts nonces net))"
| net_best: "net_reachable N version T net \<Longrightarrow> net_reachable N version T (update_best_block h hs net)"
| net_started: "net_reachable N version T net \<Longrightarrow> net_reachable N version T (net_starting net)"
| net_stopped: "net_reachable N version T net \<Longrightarrow> net_reachable N version T (net_stop net)"
| net_subscribed: "net_reachable N version T net \<Longrightarrow> net_reachable N version T (snd (net_subscribe net))"

lemma net_reachable_quiet:
  assumes "net_reachable N version T net"
  shows "quiet (peer_mgr net) \<and> (\<forall>i w. T i = Some w \<longrightarrow> only_handshake N i w)"
  using assms
proof induction
  case (net_init cfg genesis)
  then show ?case by (simp add: quiet_def p2p_network_new_def peer_manager_new_def)
next
  case (net_register T net now wall a)
  then show ?case using quiet_add [of "peer_mgr net" now wall a] by (auto simp: conn_register_def split: prod.split)
next
  case (net_handshake T net now wall io i r w net1)
  then show ?case using conn_handshake_quiet by auto
next
  case (net_pass T net i w ev r w1 net1)
  then have "quiet (peer_mgr net1)" "w1 = w" using conn_pass_quiet [OF _ net_pass.hyps(3)] by blast+
  with net_pass show ?case by auto
next
  case (net_disconnected T net i)
  then show ?case using quiet_remove by (simp add: net_disconnect_def)
next
  case (net_banned T net now a d)
  then show ?case using quiet_ban by simp
next
  case (net_maintained T net now counts nonces)
  then show ?case using quiet_cleanup by (simp add: maintain_pass_def Let_def)
qed (simp_all add: update_best_block_def net_starting_def net_stop_def net_subscribe_def Let_def)

text \<open>
  Nothing but handshakes leaves the node: whatever is sent or broadcast, and however the tasks interleave, the channel of
  every registered peer is empty and every connection has written its handshake and at most its
  acknowledgement. A send to a registered peer reports success all the same.
\<close>

theorem network_sends_only_handshakes:
  assumes "net_reachable N version T net"
  shows "(\<forall>i p. map_of (peers (peer_mgr net)) i = Some p \<longrightarrow> ch_queue (pr_connection p) = [] \<and> send_to i msg net = Inr ()) \<and>
    (\<forall>i w. T i = Some w \<longrightarrow> only_handshake N i w) \<and> net_broadcast msg net = Inr ()"
  using net_reachable_quiet [OF assms]
  by (simp add: quiet_def send_to_def get_peer_def connection_send_def peer_connection_new_def net_broadcast_def Let_def)

definition sample_net_externals :: net_externals where
  "sample_net_externals = \<lparr>ser_message = (\<lambda>msg. Some [1]), de_message = (\<lambda>bs. None)\<rparr>"

definition sample_p2p :: p2p_network where
  "sample_p2p = snd (conn_register 0 5 sample_addr (p2p_network_new network_config_default zero32))"

lemma sample_p2p_peer: "map_of (peers (peer_mgr sample_p2p)) 1 = Some (peer_new 5 1 sample_addr peer_connection_new)"
  by (simp add: sample_p2p_def conn_register_def p2p_network_new_def network_config_default_def add_peer_def peer_manager_new_def is_banned_def Let_def)

theorem network_sends_only_handshakes_witness:
  "map_of (peers (peer_mgr sample_p2p)) 1 = Some (peer_new 5 1 sample_addr peer_connection_new) \<and>
   send_to 1 (MPing 7) sample_p2p = Inr () \<and> ch_queue (pr_connection (peer_new 5 1 sample_addr peer_connection_new)) = []"
proof -
  have "net_reachable sample_net_externals ''v'' Map.empty sample_p2p"
    unfolding sample_p2p_def by (intro net_register net_init)
  from network_sends_only_handshakes [OF this, of "MPing 7"] sample_p2p_peer show ?thesis by blast
qed

section \<open>Failed handshakes and stopping\<close>

text \<open>
  A failed handshake leaves the peer registered: the slot stays taken and the address cannot connect
  again, although the connection is gone.
\<close>

theorem failed_handshake_keeps_peer:
  assumes "conn_register now wall a net = (Inr i, net1)"
    and "conn_handshake N version now wall io i net1 = (Inl e, w, net2)"
    and "map_of (peers (peer_mgr net)) i = None"
  shows "peer_count (peer_mgr net2) = peer_count (peer_mgr net) + 1 \<and> get_peer_by_address a (peer_mgr net2) = Some i \<and>
    (\<not> is_banned later a (peer_mgr net2) \<longrightarrow>
      fst (handle_connection N version later wall2 a io2 evs net2) = Some (Inl (PeerAlreadyConnected (addr_string a))))"
proof -
  let ?p = "peer_new wall i a peer_connection_new"
  have net1: "peers (peer_mgr net1) = AList.update i ?p (peers (peer_mgr net))" "get_peer_by_address a (peer_mgr net1) = Some i"
    using assms(1) by (auto simp: conn_register_def add_peer_def get_peer_by_address_def Let_def split: if_splits)
  have known: "map_of (peers (peer_mgr net1)) i = Some ?p" by (simp add: net1)
  then have "net2 = close_channel i net1"
    using assms(2) by (auto simp: conn_handshake_def update_peer_state_def Let_def split: prod.splits sum.splits)
  then have "peer_mgr net2 = (peer_mgr net1)\<lparr>peers := AList.update i (?p\<lparr>pr_connection := (pr_connection ?p)\<lparr>ch_open := False\<rparr>\<rparr>) (peers (peer_mgr net1))\<rparr>"
    by (simp add: close_channel_def known)
  then have len: "peer_count (peer_mgr net2) = peer_count (peer_mgr net) + 1" and idx: "get_peer_by_address a (peer_mgr net2) = Some i"
    using assms(3) net1 by (simp_all add: peer_count_def get_peer_by_address_def length_update)
  then have "fst (handle_connection N version later wall2 a io2 evs net2) = Some (Inl (PeerAlreadyConnected (addr_string a)))"
    if "\<not> is_banned later a (peer_mgr net2)"
    using that by (simp add: handle_connection_def conn_register_def add_peer_def get_peer_by_address_def)
  with len idx show ?thesis by blast
qed

theorem failed_handshake_keeps_peer_witness:
  "let io = \<lparr>hi_write = None, hi_flush = None, hi_read = HsTimeout, hi_ack_ok = True\<rparr>;
       net2 = snd (snd (conn_handshake sample_net_externals ''v'' 0 5 io 1 sample_p2p))
   in fst (conn_handshake sample_net_externals ''v'' 0 5 io 1 sample_p2p) = Inl HandshakeTimeout \<and>
      get_peer_by_address sample_addr (peer_mgr net2) = Some 1"
proof -
  let ?io = "\<lparr>hi_write = None, hi_flush = None, hi_read = HsTimeout, hi_ack_ok = True\<rparr>" and ?net = "p2p_network_new network_config_default zero32"
  have r: "conn_register 0 5 sample_addr ?net = (Inr 1, sample_p2p)"
    by (simp add: sample_p2p_def conn_register_def p2p_network_new_def network_config_default_def add_peer_def peer_manager_new_def is_banned_def Let_def)
  have n: "map_of (peers (peer_mgr ?net)) 1 = None" by (simp add: p2p_network_new_def peer_manager_new_def)
  obtain w net2 where h: "conn_handshake sample_net_externals ''v'' 0 5 ?io 1 sample_p2p = (Inl HandshakeTimeout, w, net2)"
    by (simp add: conn_handshake_def perform_handshake_def Let_def)
  from failed_handshake_keeps_peer [OF r h n] show ?thesis by (simp add: h Let_def)
qed

text \<open>\<open>stop\<close> leaves the state \<open>Stopped\<close>, on which the accept loop goes on; a second subscriber receives nothing.\<close>

lemma stop_does_not_stop: "accept_continues (net_stop net)"
  by (simp add: accept_continues_def net_stop_def Let_def)

lemma second_subscriber_deaf: "fst (net_subscribe (snd (net_subscribe net))) = False"
  by (simp add: net_subscribe_def)

end
