(* ===== verification/Api_Middleware.thy ===== *)
theory Api_Middleware
  imports Pacyte_Prelude "HOL-Library.Sublist"
begin

text \<open>
  \<open>src/api/middleware.rs\<close>: the rate limiter, the client address, API keys, request counters and the CORS layer of the
  HTTP servers. A request is what the code reads of it: its headers, whose values are given where
  \<open>to_str\<close> succeeds (visible ASCII and tab). Instants are nanoseconds. Passing a request on to the next handler is \<open>PassOn\<close>.
\<close>

section \<open>The rate limiter\<close>

record rate_limiter =
  requests :: "(string \<times> nat list) list"
  max_requests :: u32
  window_secs :: u64

definition rate_limiter_new :: "u32 \<Rightarrow> u64 \<Rightarrow> rate_limiter" where
  "rate_limiter_new n secs = \<lparr>requests = [], max_requests = n, window_secs = secs\<rparr>"

definition window :: "rate_limiter \<Rightarrow> nat" where
  "window rl = unat (window_secs rl) * 10 ^ 9"

definition limiter_check :: "nat \<Rightarrow> string \<Rightarrow> rate_limiter \<Rightarrow> bool \<times> rate_limiter" where
  "limiter_check now ip rl =
     (let entry = (case map_of (requests rl) ip of Some ts \<Rightarrow> ts | None \<Rightarrow> []);
          kept = filter (\<lambda>t. now - t < window rl) entry
      in if length kept \<ge> unat (max_requests rl) then (False, rl\<lparr>requests := AList.update ip kept (requests rl)\<rparr>)
         else (True, rl\<lparr>requests := AList.update ip (kept @ [now]) (requests rl)\<rparr>))"

section \<open>Requests\<close>

type_synonym headers = "(string \<times> string) list"

datatype handled = PassOn | Respond u16 string

definition blank :: "char \<Rightarrow> bool" where
  "blank c \<longleftrightarrow> c = CHR '' '' \<or> c = CHR 0x09"

definition trim :: "string \<Rightarrow> string" where
  "trim s = rev (dropWhile blank (rev (dropWhile blank s)))"

definition get_client_ip :: "headers \<Rightarrow> string" where
  "get_client_ip hs =
     (case map_of hs ''x-forwarded-for'' of
        Some s \<Rightarrow> trim (takeWhile (\<lambda>c. c \<noteq> CHR '','') s)
      | None \<Rightarrow> (case map_of hs ''x-real-ip'' of Some s \<Rightarrow> s | None \<Rightarrow> ''unknown''))"

definition rate_limit_middleware :: "nat \<Rightarrow> headers \<Rightarrow> rate_limiter \<Rightarrow> handled \<times> rate_limiter" where
  "rate_limit_middleware now hs rl =
     (case limiter_check now (get_client_ip hs) rl of
        (False, rl1) \<Rightarrow> (Respond 429 ''Rate limit exceeded'', rl1)
      | (True, rl1) \<Rightarrow> (PassOn, rl1))"

record api_key_info =
  ak_key :: string
  ak_name :: string
  permissions :: "string list"
  ak_rate_limit :: "u32 option"

type_synonym api_key_auth = "(string \<times> api_key_info) list"

definition add_key :: "string \<Rightarrow> api_key_info \<Rightarrow> api_key_auth \<Rightarrow> api_key_auth" where
  "add_key k info auth = AList.update k info auth"

definition remove_key :: "string \<Rightarrow> api_key_auth \<Rightarrow> api_key_auth" where
  "remove_key k auth = AList.delete k auth"

definition auth_validate :: "string \<Rightarrow> api_key_auth \<Rightarrow> api_key_info option" where
  "auth_validate k auth = map_of auth k"

definition strip_prefix :: "string \<Rightarrow> string \<Rightarrow> string option" where
  "strip_prefix p s = (if take (length p) s = p then Some (drop (length p) s) else None)"

text \<open>Header names compare without case: the table has them in lower case.\<close>

definition api_key_middleware :: "headers \<Rightarrow> api_key_auth \<Rightarrow> handled" where
  "api_key_middleware hs auth =
     (case Option.bind (map_of hs ''authorization'') (strip_prefix ''Bearer '') of
        Some k \<Rightarrow> if auth_validate k auth \<noteq> None then PassOn else Respond 401 ''Invalid API key''
      | None \<Rightarrow> Respond 401 ''Invalid API key'')"

datatype cors_layer = CorsAny

definition create_cors_layer :: "string list \<Rightarrow> cors_layer" where
  "create_cors_layer allowed_origins = (if ''*'' \<in> set allowed_origins then CorsAny else CorsAny)"

section \<open>Counters\<close>

record api_metrics =
  total_requests :: u64
  requests_by_method :: "(string \<times> u64) list"
  requests_by_path :: "(string \<times> u64) list"
  response_codes :: "(u16 \<times> u64) list"

definition metrics_new :: api_metrics where
  "metrics_new = \<lparr>total_requests = 0, requests_by_method = [], requests_by_path = [], response_codes = []\<rparr>"

definition count_up :: "'k \<Rightarrow> ('k \<times> u64) list \<Rightarrow> ('k \<times> u64) list" where
  "count_up k al = AList.update k (case map_of al k of Some n \<Rightarrow> n + 1 | None \<Rightarrow> 1) al"

definition metrics_record :: "string \<Rightarrow> string \<Rightarrow> u16 \<Rightarrow> api_metrics \<Rightarrow> api_metrics" where
  "metrics_record meth path status m =
     m\<lparr>total_requests := total_requests m + 1, requests_by_method := count_up meth (requests_by_method m),
       requests_by_path := count_up path (requests_by_path m), response_codes := count_up status (response_codes m)\<rparr>"

section \<open>At most the limit in every window\<close>

text \<open>A run: the times at which the requests of one client were let through.\<close>

fun accepted :: "string \<Rightarrow> (nat \<times> string) list \<Rightarrow> rate_limiter \<Rightarrow> nat list" where
  "accepted ip [] rl = []"
| "accepted ip ((now, ip') # calls) rl =
     (case limiter_check now ip' rl of (ok, rl1) \<Rightarrow> (if ok \<and> ip' = ip then [now] else []) @ accepted ip calls rl1)"

definition entry_of :: "string \<Rightarrow> rate_limiter \<Rightarrow> nat list" where
  "entry_of ip rl = (case map_of (requests rl) ip of Some ts \<Rightarrow> ts | None \<Rightarrow> [])"

definition bounded_windows :: "nat \<Rightarrow> nat \<Rightarrow> nat list \<Rightarrow> bool" where
  "bounded_windows k w ts \<longleftrightarrow> (\<forall>t. length (filter (\<lambda>x. t \<le> x \<and> x < t + w) ts) \<le> k)"

text \<open>The limiter remembers of the past \<open>A\<close> of a client what its window still reaches.\<close>

definition remembers :: "string \<Rightarrow> nat list \<Rightarrow> nat \<Rightarrow> rate_limiter \<Rightarrow> bool" where
  "remembers ip A now rl \<longleftrightarrow> (\<forall>t\<ge>now. filter (\<lambda>x. t - x < window rl) (entry_of ip rl) = filter (\<lambda>x. t - x < window rl) A)"

lemma limiter_check_parts:
  "window (snd (limiter_check now ip rl)) = window rl"
  "max_requests (snd (limiter_check now ip rl)) = max_requests rl"
  by (simp_all add: limiter_check_def window_def Let_def)

lemma remembers_later: "remembers ip A now rl \<Longrightarrow> now \<le> t \<Longrightarrow> remembers ip A t rl"
  by (simp add: remembers_def)

lemma check_other: "ip' \<noteq> ip \<Longrightarrow> remembers ip A now rl \<Longrightarrow> remembers ip A now (snd (limiter_check t ip' rl))"
  by (simp add: remembers_def entry_of_def limiter_check_def window_def Let_def)

lemma check_own:
  assumes "remembers ip A t0 rl" "t0 \<le> now"
  shows "remembers ip (if fst (limiter_check now ip rl) then A @ [now] else A) now (snd (limiter_check now ip rl))"
    "fst (limiter_check now ip rl) \<longleftrightarrow> length (filter (\<lambda>x. now - x < window rl) A) < unat (max_requests rl)"
proof -
  let ?kept = "filter (\<lambda>x. now - x < window rl) (entry_of ip rl)"
  have kept: "?kept = filter (\<lambda>x. now - x < window rl) A" using assms by (simp add: remembers_def)
  show ok: "fst (limiter_check now ip rl) \<longleftrightarrow> length (filter (\<lambda>x. now - x < window rl) A) < unat (max_requests rl)"
    using kept by (simp add: limiter_check_def Let_def entry_of_def not_le)
  have "filter (\<lambda>x. t - x < window rl) (filter (\<lambda>x. now - x < window rl) A) = filter (\<lambda>x. t - x < window rl) A" if "now \<le> t" for t
  proof -
    have "now - x < window rl" if "t - x < window rl" for x using that \<open>now \<le> t\<close> by linarith
    then show ?thesis by (auto simp: filter_filter intro: filter_cong)
  qed
  then show "remembers ip (if fst (limiter_check now ip rl) then A @ [now] else A) now (snd (limiter_check now ip rl))"
    using kept ok by (simp add: remembers_def limiter_check_def entry_of_def window_def Let_def)
qed

lemma bounded_windows_snoc:
  assumes "bounded_windows k w A" "\<forall>x\<in>set A. x \<le> now" "length (filter (\<lambda>x. now - x < w) A) < k"
  shows "bounded_windows k w (A @ [now])"
  unfolding bounded_windows_def
proof
  fix t
  show "length (filter (\<lambda>x. t \<le> x \<and> x < t + w) (A @ [now])) \<le> k"
  proof (cases "t \<le> now \<and> now < t + w")
    case True
    then have "\<forall>x\<in>set A. t \<le> x \<and> x < t + w \<longrightarrow> now - x < w" by auto
    then have "length (filter (\<lambda>x. t \<le> x \<and> x < t + w) A) \<le> length (filter (\<lambda>x. now - x < w) A)"
      by (induction A) auto
    with True assms(3) show ?thesis by simp
  next
    case False
    then show ?thesis using assms(1) by (auto simp: bounded_windows_def)
  qed
qed

lemma accepted_bounded:
  assumes "bounded_windows (unat (max_requests rl)) (window rl) A" "\<forall>x\<in>set A. x \<le> t0" "remembers ip A t0 rl"
    and "sorted (t0 # map fst calls)"
  shows "bounded_windows (unat (max_requests rl)) (window rl) (A @ accepted ip calls rl)"
  using assms
proof (induction calls arbitrary: A t0 rl)
  case (Cons c calls)
  obtain now ip' where c: "c = (now, ip')" by (cases c)
  obtain ok rl1 where ch: "limiter_check now ip' rl = (ok, rl1)" by fastforce
  have parts: "window rl1 = window rl" "max_requests rl1 = max_requests rl"
    using limiter_check_parts [of now ip' rl] by (simp_all add: ch)
  have le: "t0 \<le> now" and srt: "sorted (now # map fst calls)" using Cons.prems(4) by (simp_all add: c)
  let ?A = "if ok \<and> ip' = ip then A @ [now] else A"
  have rem: "remembers ip ?A now rl1"
  proof (cases "ip' = ip")
    case True
    then show ?thesis using check_own(1) [OF Cons.prems(3) le] ch by simp
  next
    case False
    then show ?thesis using check_other [OF False remembers_later [OF Cons.prems(3) le], of now] ch by simp
  qed
  have "bounded_windows (unat (max_requests rl)) (window rl) ?A"
  proof (cases "ok \<and> ip' = ip")
    case True
    then have "length (filter (\<lambda>x. now - x < window rl) A) < unat (max_requests rl)"
      using check_own(2) [OF Cons.prems(3) le] ch by simp
    moreover have "\<forall>x\<in>set A. x \<le> now" using Cons.prems(2) le by auto
    ultimately show ?thesis using True bounded_windows_snoc [OF Cons.prems(1)] by simp
  qed (use Cons.prems(1) in auto)
  moreover have "\<forall>x\<in>set ?A. x \<le> now" using Cons.prems(2) le by (auto split: if_splits)
  ultimately have "bounded_windows (unat (max_requests rl1)) (window rl1) (?A @ accepted ip calls rl1)"
    using Cons.IH [of rl1 ?A now] rem srt parts by simp
  moreover have "A @ accepted ip (c # calls) rl = ?A @ accepted ip calls rl1" by (simp add: c ch)
  ultimately show ?case by (simp only: parts)
qed simp

text \<open>
  C36. The rate limiter: for any requests at non-decreasing times, of the requests of one client at most \<open>max_requests\<close> are let
  through in every interval of \<open>window_secs\<close> seconds.
\<close>

theorem rate_limit_holds:
  assumes "sorted (map fst calls)"
  shows "length (filter (\<lambda>x. t \<le> x \<and> x < t + unat secs * 10 ^ 9) (accepted ip calls (rate_limiter_new n secs))) \<le> unat n"
proof -
  let ?rl = "rate_limiter_new n secs"
  have "bounded_windows (unat (max_requests ?rl)) (window ?rl) ([] @ accepted ip calls ?rl)"
    by (rule accepted_bounded)
      (use assms in \<open>auto simp: bounded_windows_def remembers_def entry_of_def rate_limiter_new_def intro: exI [of _ 0]\<close>)
  then show ?thesis by (simp add: bounded_windows_def window_def rate_limiter_new_def)
qed

theorem rate_limit_holds_witness:
  "length (filter (\<lambda>x. 0 \<le> x \<and> x < 0 + unat (1 :: u64) * 10 ^ 9)
     (accepted ''a'' [(1, ''a''), (2, ''b''), (3, ''a''), (4, ''a'')] (rate_limiter_new 2 1))) \<le> unat (2 :: u32)"
  by (rule rate_limit_holds) simp

text \<open>The client is named by a header it sends: a new name for each request is never limited.\<close>

lemma fresh_name_passes:
  assumes "0 < unat (max_requests rl)" "map_of hs ''x-forwarded-for'' = Some s" "map_of (requests rl) (trim (takeWhile (\<lambda>c. c \<noteq> CHR '','') s)) = None"
  shows "fst (rate_limit_middleware now hs rl) = PassOn"
  using assms by (simp add: rate_limit_middleware_def get_client_ip_def limiter_check_def Let_def)

text \<open>Which requests the key check passes.\<close>

lemma api_key_middleware_spec:
  "api_key_middleware hs auth = PassOn \<longleftrightarrow>
     (\<exists>k. map_of hs ''authorization'' = Some (''Bearer '' @ k) \<and> map_of auth k \<noteq> None)"
proof -
  have "strip_prefix p s = Some k \<longleftrightarrow> s = p @ k" for p s k
    by (auto simp: strip_prefix_def) (metis append_take_drop_id)
  then have b: "Option.bind (map_of hs ''authorization'') (strip_prefix ''Bearer '') = Some k \<longleftrightarrow>
      map_of hs ''authorization'' = Some (''Bearer '' @ k)" for k
    by (simp only: bind_eq_Some_conv) blast
  show ?thesis
  proof (cases "Option.bind (map_of hs ''authorization'') (strip_prefix ''Bearer '')")
    case None
    then have "\<not> (\<exists>k. map_of hs ''authorization'' = Some (''Bearer '' @ k))" using b by (metis option.distinct(1))
    moreover have "api_key_middleware hs auth \<noteq> PassOn" by (simp add: api_key_middleware_def None)
    ultimately show ?thesis by blast
  next
    case (Some k)
    then have "map_of hs ''authorization'' = Some (''Bearer '' @ k)" using b by blast
    moreover have "api_key_middleware hs auth = PassOn \<longleftrightarrow> map_of auth k \<noteq> None"
      by (simp add: api_key_middleware_def auth_validate_def Some)
    ultimately show ?thesis by (metis option.inject same_append_eq)
  qed
qed

lemma count_up_total: "sum_list (map snd (count_up k al)) = sum_list (map snd al) + 1"
  by (induction al) (auto simp: count_up_def split: option.splits)

text \<open>Every request is counted once by method, once by path and once by status.\<close>

lemma metrics_totals:
  "(let m = fold (\<lambda>(meth, path, status). metrics_record meth path status) reqs metrics_new
    in total_requests m = of_nat (length reqs) \<and> sum_list (map snd (requests_by_method m)) = total_requests m \<and>
       sum_list (map snd (requests_by_path m)) = total_requests m \<and> sum_list (map snd (response_codes m)) = total_requests m)"
proof (induction reqs rule: rev_induct)
  case (snoc r reqs)
  then show ?case by (cases r) (simp add: metrics_record_def count_up_total Let_def)
qed (simp add: metrics_new_def Let_def)

end
