(* ===== verification/Api_Rpc.thy ===== *)
theory Api_Rpc
  imports Mempool_Pool Consensus_Validators Network_Messages Pacyte_Text
begin

text \<open>
  \<open>src/api/mod.rs\<close> and \<open>src/api/rpc.rs\<close>: the servers' configuration and start, the interface the handlers call, error
  codes, pagination, and the JSON-RPC methods.

  JSON values are a datatype; an object is the list of its fields. The interface \<open>BlockchainApi\<close> is a record of operations over
  the parts of the node a server shares. The record \<open>api_externals\<close> holds what comes from other crates: \<open>hex::decode\<close>,
  \<open>bincode\<close> for a transaction, and the texts that \<open>thiserror\<close> generates for errors. Sockets, routing of HTTP requests and
  the parsing of their bodies belong to \<open>axum\<close>.
\<close>

section \<open>JSON\<close>

datatype json =
    JNull
  | JBool bool
  | JInt int
  | JFloat f64
  | JStr string
  | JArr "json list"
  | JObj "(string \<times> json) list"

fun as_str :: "json \<Rightarrow> string option" where
  "as_str (JStr s) = Some s"
| "as_str v = None"

fun as_bool :: "json \<Rightarrow> bool option" where
  "as_bool (JBool b) = Some b"
| "as_bool v = None"

definition nth_param :: "nat \<Rightarrow> json list \<Rightarrow> json option" where
  "nth_param i vs = (if i < length vs then Some (vs ! i) else None)"

definition hex_num :: "'a::len word \<Rightarrow> string" where
  "hex_num w = ''0x'' @ show_hex (unat w)"

definition hex_data :: "externals \<Rightarrow> bytes \<Rightarrow> string" where
  "hex_data X bs = ''0x'' @ hex_encode X bs"

section \<open>Configuration and servers\<close>

record api_config =
  api_enabled :: bool
  rest_enabled :: bool
  rpc_enabled :: bool
  ws_enabled :: bool
  rest_addr :: string
  rpc_addr :: string
  ws_addr :: string
  cors_allowed_origins :: "string list"
  max_request_body_size :: usize
  rate_limit_per_second :: u32
  enable_metrics :: bool
  enable_docs :: bool

definition api_config_default :: api_config where
  "api_config_default =
     \<lparr>api_enabled = True, rest_enabled = True, rpc_enabled = True, ws_enabled = True,
      rest_addr = ''127.0.0.1:8080'', rpc_addr = ''127.0.0.1:9332'', ws_addr = ''127.0.0.1:9334'',
      cors_allowed_origins = [''*''], max_request_body_size = 10 * 1024 * 1024, rate_limit_per_second = 100,
      enable_metrics = True, enable_docs = True\<rparr>"

text \<open>A server is built or absent; its shutdown sender is there once its own \<open>start\<close> has run.\<close>

record server =
  srv_addr :: string
  srv_shutdown_tx :: bool

record api_server =
  as_config :: api_config
  rest_server :: "server option"
  rpc_server :: "server option"
  ws_server :: "server option"

definition api_server_new :: "api_config \<Rightarrow> api_server" where
  "api_server_new cfg = \<lparr>as_config = cfg, rest_server = None, rpc_server = None, ws_server = None\<rparr>"

definition server_new :: "string \<Rightarrow> server" where
  "server_new addr = \<lparr>srv_addr = addr, srv_shutdown_tx = False\<rparr>"

definition api_server_start :: "api_server \<Rightarrow> unit pacyte_result \<times> api_server" where
  "api_server_start a =
     (let cfg = as_config a
      in if \<not> api_enabled cfg then (Inr (), a)
         else
           let a1 = (if rest_enabled cfg then a\<lparr>rest_server := Some (server_new (rest_addr cfg))\<rparr> else a);
               a2 = (if rpc_enabled cfg then a1\<lparr>rpc_server := Some (server_new (rpc_addr cfg))\<rparr> else a1);
               a3 = (if ws_enabled cfg then a2\<lparr>ws_server := Some (server_new (ws_addr cfg))\<rparr> else a2)
           in (Inr (), a3))"

text \<open>Stopping a server returns \<open>Ok\<close> without an effect on the record.\<close>

definition api_server_stop :: "api_server \<Rightarrow> unit pacyte_result \<times> api_server" where
  "api_server_stop a = (Inr (), a)"

section \<open>The interface of the handlers\<close>

record network_info =
  ni_node_id :: u64
  ni_network_id :: u64
  ni_peer_count :: nat
  ni_is_listening :: bool
  ni_protocol_version :: string

record consensus_state_info =
  cs_height :: block_height
  cs_round :: u64
  cs_state :: string
  cs_is_validator :: bool
  cs_is_proposer :: bool

record api_validator_info =
  av_id :: u64
  av_address :: address
  av_stake :: u128
  av_voting_power :: u64
  av_is_active :: bool

record api_mempool_stats =
  am_size :: nat
  am_total_size_bytes :: usize
  am_avg_fee_per_byte :: f64
  am_oldest_tx_age_secs :: u64

record api_peer_info =
  ap_id :: u64
  ap_address :: string
  ap_best_height :: block_height
  ap_latency_ms :: u64

record 'w blockchain_api =
  ba_get_block_by_height :: "block_height \<Rightarrow> 'w \<Rightarrow> block option pacyte_result"
  ba_get_block_by_hash :: "hash \<Rightarrow> 'w \<Rightarrow> block option pacyte_result"
  ba_get_latest_block :: "'w \<Rightarrow> block option pacyte_result"
  ba_get_block_height :: "'w \<Rightarrow> block_height pacyte_result"
  ba_get_transaction :: "hash \<Rightarrow> 'w \<Rightarrow> transaction option pacyte_result"
  ba_send_transaction :: "transaction \<Rightarrow> 'w \<Rightarrow> hash pacyte_result \<times> 'w"
  ba_get_pending_transactions :: "'w \<Rightarrow> transaction list pacyte_result"
  ba_get_balance :: "address \<Rightarrow> 'w \<Rightarrow> u128 pacyte_result"
  ba_get_account :: "address \<Rightarrow> 'w \<Rightarrow> account option pacyte_result"
  ba_get_nonce :: "address \<Rightarrow> 'w \<Rightarrow> u64 pacyte_result"
  ba_get_network_info :: "'w \<Rightarrow> network_info pacyte_result"
  ba_get_peers :: "'w \<Rightarrow> api_peer_info list pacyte_result"
  ba_get_consensus_state :: "'w \<Rightarrow> consensus_state_info pacyte_result"
  ba_get_validators :: "'w \<Rightarrow> api_validator_info list pacyte_result"
  ba_get_mempool_stats :: "'w \<Rightarrow> api_mempool_stats pacyte_result"

section \<open>Errors and answers\<close>

record api_error =
  ae_code :: "32 word"
  ae_message :: string
  ae_data :: "json option"

definition api_error_new :: "32 word \<Rightarrow> string \<Rightarrow> api_error" where
  "api_error_new c msg = \<lparr>ae_code = c, ae_message = msg, ae_data = None\<rparr>"

definition with_data :: "json \<Rightarrow> api_error \<Rightarrow> api_error" where
  "with_data v e = e\<lparr>ae_data := Some v\<rparr>"

definition PARSE_ERROR :: "32 word" where "PARSE_ERROR = - 32700"
definition INVALID_REQUEST :: "32 word" where "INVALID_REQUEST = - 32600"
definition METHOD_NOT_FOUND :: "32 word" where "METHOD_NOT_FOUND = - 32601"
definition INVALID_PARAMS :: "32 word" where "INVALID_PARAMS = - 32602"
definition INTERNAL_ERROR :: "32 word" where "INTERNAL_ERROR = - 32603"
definition BLOCK_NOT_FOUND :: "32 word" where "BLOCK_NOT_FOUND = - 32000"
definition TRANSACTION_NOT_FOUND :: "32 word" where "TRANSACTION_NOT_FOUND = - 32001"
definition ACCOUNT_NOT_FOUND :: "32 word" where "ACCOUNT_NOT_FOUND = - 32002"
definition INVALID_TRANSACTION :: "32 word" where "INVALID_TRANSACTION = - 32003"
definition MEMPOOL_FULL :: "32 word" where "MEMPOOL_FULL = - 32004"
definition RATE_LIMITED :: "32 word" where "RATE_LIMITED = - 32005"

record 'a api_response =
  ar_jsonrpc :: string
  ar_id :: json
  ar_result :: "'a option"
  ar_error :: "api_error option"

definition api_response_success :: "json \<Rightarrow> 'a \<Rightarrow> 'a api_response" where
  "api_response_success i r = \<lparr>ar_jsonrpc = ''2.0'', ar_id = i, ar_result = Some r, ar_error = None\<rparr>"

definition api_response_error :: "json \<Rightarrow> api_error \<Rightarrow> 'a api_response" where
  "api_response_error i e = \<lparr>ar_jsonrpc = ''2.0'', ar_id = i, ar_result = None, ar_error = Some e\<rparr>"

section \<open>Pagination\<close>

record pagination =
  pg_page :: "usize option"
  pg_limit :: "usize option"

definition pagination_default :: pagination where
  "pagination_default = \<lparr>pg_page = Some 1, pg_limit = Some 20\<rparr>"

definition unwrap_usize :: "usize option \<Rightarrow> usize \<Rightarrow> usize" where
  "unwrap_usize ox d = (case ox of Some x \<Rightarrow> x | None \<Rightarrow> d)"

definition page_offset :: "pagination \<Rightarrow> usize" where
  "page_offset g = saturating_sub (unwrap_usize (pg_page g) 1) 1 * unwrap_usize (pg_limit g) 20"

definition page_limit :: "pagination \<Rightarrow> usize" where
  "page_limit g = min (unwrap_usize (pg_limit g) 20) 100"

record 'a paginated_response =
  pr_items :: "'a list"
  pr_total :: usize
  pr_page :: usize
  pr_limit :: usize
  has_next :: bool

section \<open>The node behind the handlers\<close>

text \<open>The storage and the consensus and network objects as the trait objects the server holds; each answer is read off the world.\<close>

record consensus_view =
  cv_state :: consensus_state
  cv_height :: block_height
  cv_round :: u64
  cv_is_validator :: bool
  cv_is_proposer :: "block_height \<Rightarrow> u64 \<Rightarrow> bool"

record network_view =
  nv_connected_peers :: "peer_info list"
  nv_peer_count :: nat

record ('s, 'm) api_world =
  w_storage :: 's
  w_mempool :: 'm
  w_consensus :: consensus_view
  w_network :: network_view

record 'm api_mempool =
  mo_add_transaction :: "transaction \<Rightarrow> 'm \<Rightarrow> add_tx_result pacyte_result \<times> 'm"
  mo_get_all_transactions :: "'m \<Rightarrow> transaction list"
  mo_stats :: "'m \<Rightarrow> mempool_stats"

record api_externals =
  hex_decode :: "string \<Rightarrow> bytes option"
  de_transaction :: "bytes \<Rightarrow> transaction option"
  error_text :: "pacyte_error \<Rightarrow> string"

definition VERSION :: string where "VERSION = ''0.25.2''"
definition PROTOCOL_VERSION :: string where "PROTOCOL_VERSION = ''25.0.2''"

fun consensus_state_display :: "consensus_state \<Rightarrow> string" where
  "consensus_state_display Idle = ''Idle''"
| "consensus_state_display Proposing = ''Proposing''"
| "consensus_state_display Prevoting = ''Prevoting''"
| "consensus_state_display Precommitting = ''Precommitting''"
| "consensus_state_display Committed = ''Committed''"
| "consensus_state_display WaitingForBlock = ''WaitingForBlock''"
| "consensus_state_display Syncing = ''Syncing''"

definition rpc_send_transaction_impl ::
    "externals \<Rightarrow> api_externals \<Rightarrow> 'm api_mempool \<Rightarrow> transaction \<Rightarrow> ('s, 'm) api_world \<Rightarrow> hash pacyte_result \<times> ('s, 'm) api_world" where
  "rpc_send_transaction_impl X A M tx w =
     (let h = tx_hash X tx
      in case mo_add_transaction M tx (w_mempool w) of
           (Inl e, m) \<Rightarrow> (Inl (Internal (error_text A e)), w\<lparr>w_mempool := m\<rparr>)
         | (Inr _, m) \<Rightarrow> (Inr h, w\<lparr>w_mempool := m\<rparr>))"

definition rpc_api_impl ::
    "externals \<Rightarrow> api_externals \<Rightarrow> 's storage_ops \<Rightarrow> 'm api_mempool \<Rightarrow> ('s, 'm) api_world blockchain_api" where
  "rpc_api_impl X A S M =
     \<lparr>ba_get_block_by_height = \<lambda>h w. so_get_block S h (w_storage w),
      ba_get_block_by_hash = \<lambda>h w. so_get_block_by_hash S h (w_storage w),
      ba_get_latest_block = \<lambda>w. so_get_latest_block S (w_storage w),
      ba_get_block_height = \<lambda>w. so_get_block_height S (w_storage w),
      ba_get_transaction = \<lambda>h w. so_get_transaction S h (w_storage w),
      ba_send_transaction = rpc_send_transaction_impl X A M,
      ba_get_pending_transactions = \<lambda>w. Inr (mo_get_all_transactions M (w_mempool w)),
      ba_get_balance = \<lambda>a w. map_sum id (\<lambda>acc. case acc of Some x \<Rightarrow> balance x | None \<Rightarrow> 0) (so_get_account S a (w_storage w)),
      ba_get_account = \<lambda>a w. so_get_account S a (w_storage w),
      ba_get_nonce = \<lambda>a w. map_sum id (\<lambda>acc. case acc of Some x \<Rightarrow> nonce x | None \<Rightarrow> 0) (so_get_account S a (w_storage w)),
      ba_get_network_info = \<lambda>w. Inr
        \<lparr>ni_node_id = 1, ni_network_id = 1, ni_peer_count = nv_peer_count (w_network w), ni_is_listening = True,
         ni_protocol_version = PROTOCOL_VERSION\<rparr>,
      ba_get_peers = \<lambda>w. Inr (map (\<lambda>p.
        \<lparr>ap_id = pi_id p, ap_address = pi_address p, ap_best_height = pi_best_height p, ap_latency_ms = latency_ms p\<rparr>)
        (nv_connected_peers (w_network w))),
      ba_get_consensus_state = \<lambda>w. let c = w_consensus w in Inr
        \<lparr>cs_height = cv_height c, cs_round = cv_round c, cs_state = consensus_state_display (cv_state c),
         cs_is_validator = cv_is_validator c, cs_is_proposer = cv_is_proposer c (cv_height c) (cv_round c)\<rparr>,
      ba_get_validators = \<lambda>w. Inr [],
      ba_get_mempool_stats = \<lambda>w. let st = mo_stats M (w_mempool w) in Inr
        \<lparr>am_size = total_transactions st, am_total_size_bytes = total_size_bytes st,
         am_avg_fee_per_byte = avg_fee_per_byte st, am_oldest_tx_age_secs = oldest_tx_age_secs st\<rparr>\<rparr>"

section \<open>Parameters\<close>

type_synonym 'a rpc_result = "api_error + 'a"

abbreviation bad_params :: "string \<Rightarrow> api_error" where
  "bad_params msg \<equiv> api_error_new INVALID_PARAMS msg"

definition internal :: "api_externals \<Rightarrow> 'a pacyte_result \<Rightarrow> 'a rpc_result" where
  "internal A r = (case r of Inl e \<Rightarrow> Inl (api_error_new INTERNAL_ERROR (error_text A e)) | Inr x \<Rightarrow> Inr x)"

definition parse_block_number :: "json \<Rightarrow> block_height rpc_result" where
  "parse_block_number v =
     (case v of
        JStr s \<Rightarrow>
          if s = ''latest'' then Inr 0
          else if s = ''earliest'' then Inr 0
          else if s = ''pending'' then Inr 0
          else (case parse_hex_u64 (trim_start_matches ''0x'' s) of
                  Some h \<Rightarrow> Inr h
                | None \<Rightarrow> Inl (bad_params ''Invalid block number''))
      | JInt n \<Rightarrow> if 0 \<le> n \<and> n < 2 ^ 64 then Inr (of_int n) else Inl (bad_params ''Invalid block number'')
      | JFloat x \<Rightarrow> Inl (bad_params ''Invalid block number'')
      | _ \<Rightarrow> Inl (bad_params ''Invalid block number format''))"

definition parse_hash :: "api_externals \<Rightarrow> string \<Rightarrow> hash rpc_result" where
  "parse_hash A s =
     (case hex_decode A (trim_start_matches ''0x'' s) of
        None \<Rightarrow> Inl (bad_params ''Invalid hex'')
      | Some bs \<Rightarrow> if length bs \<noteq> 32 then Inl (bad_params ''Hash must be 32 bytes'') else Inr bs)"

definition parse_address :: "api_externals \<Rightarrow> string \<Rightarrow> address rpc_result" where
  "parse_address A s =
     (case hex_decode A (trim_start_matches ''0x'' s) of
        None \<Rightarrow> Inl (bad_params ''Invalid hex'')
      | Some bs \<Rightarrow> if length bs \<noteq> 32 then Inl (bad_params ''Address must be 32 bytes'') else Inr bs)"

definition param_list :: "json option \<Rightarrow> json list rpc_result" where
  "param_list ps =
     (case ps of
        None \<Rightarrow> Inl (bad_params ''Missing params'')
      | Some (JArr vs) \<Rightarrow> Inr vs
      | Some v \<Rightarrow> Inl (bad_params ''Invalid params''))"

definition str_param :: "string \<Rightarrow> json option \<Rightarrow> string rpc_result" where
  "str_param missing ps =
     (case param_list ps of
        Inl e \<Rightarrow> Inl e
      | Inr vs \<Rightarrow> (case Option.bind (nth_param 0 vs) as_str of Some s \<Rightarrow> Inr s | None \<Rightarrow> Inl (bad_params missing)))"

definition include_txs :: "json list \<Rightarrow> bool" where
  "include_txs vs = (case Option.bind (nth_param 1 vs) as_bool of Some b \<Rightarrow> b | None \<Rightarrow> False)"

section \<open>Rendering\<close>

definition tx_to_rpc :: "externals \<Rightarrow> transaction \<Rightarrow> json" where
  "tx_to_rpc X tx =
     JObj [(''hash'', JStr (hex_data X (tx_hash X tx))), (''nonce'', JStr (hex_num (tx_nonce tx))),
           (''blockHash'', JNull), (''blockNumber'', JNull), (''transactionIndex'', JNull),
           (''from'', JStr (hex_data X (tx_from tx))), (''to'', JStr (hex_data X (tx_to tx))),
           (''value'', JStr (hex_num (tx_amount tx))), (''gas'', JStr ''0x0''), (''gasPrice'', JStr (hex_num (tx_fee tx))),
           (''input'', JStr ''0x''), (''v'', JStr ''0x0''), (''r'', JStr ''0x0''), (''s'', JStr ''0x0''), (''chainId'', JStr ''0x1'')]"

definition block_to_rpc :: "externals \<Rightarrow> block \<Rightarrow> bool \<Rightarrow> json" where
  "block_to_rpc X b full =
     JObj [(''number'', JStr (hex_num (hdr_height (header b)))), (''hash'', JStr (hex_data X (block_hash X b))),
           (''parentHash'', JStr (hex_data X (previous_hash (header b)))),
           (''transactionsRoot'', JStr (hex_data X (hdr_transactions_root (header b)))),
           (''stateRoot'', JStr (hex_data X (state_root (header b)))),
           (''timestamp'', JStr (hex_num (hdr_timestamp (header b)))), (''miner'', JStr (hex_data X (proposer (header b)))),
           (''size'', JStr (hex_num (block_size (header b)))), (''gasLimit'', JStr ''0x989680''), (''gasUsed'', JStr ''0x0''),
           (''transactions'', JArr (if full then map (tx_to_rpc X) (transactions b)
                                   else map (\<lambda>tx. JStr (hex_data X (tx_hash X tx))) (transactions b))),
           (''uncles'', JArr [])]"

section \<open>Methods\<close>

definition rpc_block_number :: "api_externals \<Rightarrow> 'w blockchain_api \<Rightarrow> 'w \<Rightarrow> json rpc_result" where
  "rpc_block_number A api w =
     (case internal A (ba_get_block_height api w) of Inl e \<Rightarrow> Inl e | Inr h \<Rightarrow> Inr (JStr (hex_num h)))"

definition found :: "api_externals \<Rightarrow> 32 word \<Rightarrow> string \<Rightarrow> 'a option pacyte_result \<Rightarrow> 'a rpc_result" where
  "found A code msg r =
     (case internal A r of Inl e \<Rightarrow> Inl e | Inr None \<Rightarrow> Inl (api_error_new code msg) | Inr (Some x) \<Rightarrow> Inr x)"

definition rpc_get_block_by_number ::
    "externals \<Rightarrow> api_externals \<Rightarrow> 'w blockchain_api \<Rightarrow> json option \<Rightarrow> 'w \<Rightarrow> json rpc_result" where
  "rpc_get_block_by_number X A api ps w =
     (case param_list ps of Inl e \<Rightarrow> Inl e | Inr vs \<Rightarrow>
      case nth_param 0 vs of None \<Rightarrow> Inl (bad_params ''Missing block number'') | Some v \<Rightarrow>
      case parse_block_number v of Inl e \<Rightarrow> Inl e | Inr h \<Rightarrow>
      case found A BLOCK_NOT_FOUND ''Block not found'' (ba_get_block_by_height api h w) of
        Inl e \<Rightarrow> Inl e
      | Inr b \<Rightarrow> Inr (block_to_rpc X b (include_txs vs)))"

definition rpc_get_block_by_hash ::
    "externals \<Rightarrow> api_externals \<Rightarrow> 'w blockchain_api \<Rightarrow> json option \<Rightarrow> 'w \<Rightarrow> json rpc_result" where
  "rpc_get_block_by_hash X A api ps w =
     (case param_list ps of Inl e \<Rightarrow> Inl e | Inr vs \<Rightarrow>
      case Option.bind (nth_param 0 vs) as_str of None \<Rightarrow> Inl (bad_params ''Missing hash'') | Some s \<Rightarrow>
      case parse_hash A s of Inl e \<Rightarrow> Inl e | Inr h \<Rightarrow>
      case found A BLOCK_NOT_FOUND ''Block not found'' (ba_get_block_by_hash api h w) of
        Inl e \<Rightarrow> Inl e
      | Inr b \<Rightarrow> Inr (block_to_rpc X b (include_txs vs)))"

definition rpc_get_transaction ::
    "externals \<Rightarrow> api_externals \<Rightarrow> 'w blockchain_api \<Rightarrow> json option \<Rightarrow> 'w \<Rightarrow> json rpc_result" where
  "rpc_get_transaction X A api ps w =
     (case str_param ''Missing hash'' ps of Inl e \<Rightarrow> Inl e | Inr s \<Rightarrow>
      case parse_hash A s of Inl e \<Rightarrow> Inl e | Inr h \<Rightarrow>
      case found A TRANSACTION_NOT_FOUND ''Transaction not found'' (ba_get_transaction api h w) of
        Inl e \<Rightarrow> Inl e
      | Inr tx \<Rightarrow> Inr (tx_to_rpc X tx))"

definition rpc_send_transaction ::
    "externals \<Rightarrow> api_externals \<Rightarrow> 'w blockchain_api \<Rightarrow> json option \<Rightarrow> 'w \<Rightarrow> json rpc_result \<times> 'w" where
  "rpc_send_transaction X A api ps w =
     (case str_param ''Missing raw transaction'' ps of Inl e \<Rightarrow> (Inl e, w) | Inr s \<Rightarrow>
      case hex_decode A (trim_start_matches ''0x'' s) of None \<Rightarrow> (Inl (bad_params ''Invalid hex''), w) | Some bs \<Rightarrow>
      case de_transaction A bs of
        None \<Rightarrow> (Inl (api_error_new INVALID_TRANSACTION ''Invalid transaction format''), w)
      | Some tx \<Rightarrow>
          (case ba_send_transaction api tx w of
             (r, w') \<Rightarrow> ((case internal A r of Inl e \<Rightarrow> Inl e | Inr h \<Rightarrow> Inr (JStr (hex_data X h))), w')))"

definition rpc_get_balance :: "api_externals \<Rightarrow> 'w blockchain_api \<Rightarrow> json option \<Rightarrow> 'w \<Rightarrow> json rpc_result" where
  "rpc_get_balance A api ps w =
     (case str_param ''Missing address'' ps of Inl e \<Rightarrow> Inl e | Inr s \<Rightarrow>
      case parse_address A s of Inl e \<Rightarrow> Inl e | Inr a \<Rightarrow>
      case internal A (ba_get_balance api a w) of Inl e \<Rightarrow> Inl e | Inr v \<Rightarrow> Inr (JStr (hex_num v)))"

definition rpc_get_nonce :: "api_externals \<Rightarrow> 'w blockchain_api \<Rightarrow> json option \<Rightarrow> 'w \<Rightarrow> json rpc_result" where
  "rpc_get_nonce A api ps w =
     (case str_param ''Missing address'' ps of Inl e \<Rightarrow> Inl e | Inr s \<Rightarrow>
      case parse_address A s of Inl e \<Rightarrow> Inl e | Inr a \<Rightarrow>
      case internal A (ba_get_nonce api a w) of Inl e \<Rightarrow> Inl e | Inr v \<Rightarrow> Inr (JStr (hex_num v)))"

definition rpc_accounts :: "json rpc_result" where "rpc_accounts = Inr (JArr [])"

definition rpc_net_version :: "json rpc_result" where "rpc_net_version = Inr (JStr ''1'')"

definition rpc_peer_count :: "api_externals \<Rightarrow> 'w blockchain_api \<Rightarrow> 'w \<Rightarrow> json rpc_result" where
  "rpc_peer_count A api w =
     (case internal A (ba_get_peers api w) of
        Inl e \<Rightarrow> Inl e
      | Inr ps \<Rightarrow> Inr (JStr (''0x'' @ show_hex (length ps))))"

definition rpc_chain_id :: "json rpc_result" where "rpc_chain_id = Inr (JStr ''0x1'')"

definition rpc_syncing :: "json rpc_result" where "rpc_syncing = Inr (JBool False)"

definition rpc_gas_price :: "json rpc_result" where "rpc_gas_price = Inr (JStr ''0x3b9aca00'')"

definition rpc_client_version :: "json rpc_result" where
  "rpc_client_version = Inr (JStr (''PacyteNexus/v'' @ VERSION))"

definition rpc_sha3 :: "externals \<Rightarrow> api_externals \<Rightarrow> json option \<Rightarrow> json rpc_result" where
  "rpc_sha3 X A ps =
     (case str_param ''Missing data'' ps of Inl e \<Rightarrow> Inl e | Inr s \<Rightarrow>
      case hex_decode A (trim_start_matches ''0x'' s) of
        None \<Rightarrow> Inl (bad_params ''Invalid hex'')
      | Some bs \<Rightarrow> Inr (JStr (hex_data X (keccak256 X bs))))"

definition rpc_get_validators :: "api_externals \<Rightarrow> 'w blockchain_api \<Rightarrow> 'w \<Rightarrow> json rpc_result" where
  "rpc_get_validators A api w =
     (case internal A (ba_get_validators api w) of
        Inl e \<Rightarrow> Inl e
      | Inr vs \<Rightarrow> Inr (JArr (map (\<lambda>v. JObj
          [(''id'', JInt (uint (av_id v))), (''address'', JArr (map (\<lambda>b. JInt (uint b)) (av_address v))),
           (''stake'', JInt (uint (av_stake v))), (''voting_power'', JInt (uint (av_voting_power v))),
           (''is_active'', JBool (av_is_active v))]) vs)))"

definition rpc_get_consensus_state :: "api_externals \<Rightarrow> 'w blockchain_api \<Rightarrow> 'w \<Rightarrow> json rpc_result" where
  "rpc_get_consensus_state A api w =
     (case internal A (ba_get_consensus_state api w) of
        Inl e \<Rightarrow> Inl e
      | Inr c \<Rightarrow> Inr (JObj
          [(''height'', JInt (uint (cs_height c))), (''round'', JInt (uint (cs_round c))), (''state'', JStr (cs_state c)),
           (''is_validator'', JBool (cs_is_validator c)), (''is_proposer'', JBool (cs_is_proposer c))]))"

definition rpc_get_mempool_stats :: "api_externals \<Rightarrow> 'w blockchain_api \<Rightarrow> 'w \<Rightarrow> json rpc_result" where
  "rpc_get_mempool_stats A api w =
     (case internal A (ba_get_mempool_stats api w) of
        Inl e \<Rightarrow> Inl e
      | Inr st \<Rightarrow> Inr (JObj
          [(''size'', JInt (int (am_size st))), (''total_size_bytes'', JInt (uint (am_total_size_bytes st))),
           (''avg_fee_per_byte'', JFloat (am_avg_fee_per_byte st)), (''oldest_tx_age_secs'', JInt (uint (am_oldest_tx_age_secs st)))]))"

definition rpc_get_network_info :: "api_externals \<Rightarrow> 'w blockchain_api \<Rightarrow> 'w \<Rightarrow> json rpc_result" where
  "rpc_get_network_info A api w =
     (case internal A (ba_get_network_info api w) of
        Inl e \<Rightarrow> Inl e
      | Inr i \<Rightarrow> Inr (JObj
          [(''node_id'', JInt (uint (ni_node_id i))), (''network_id'', JInt (uint (ni_network_id i))),
           (''peer_count'', JInt (int (ni_peer_count i))), (''is_listening'', JBool (ni_is_listening i)),
           (''protocol_version'', JStr (ni_protocol_version i))]))"

definition rpc_get_transaction_receipt ::
    "externals \<Rightarrow> api_externals \<Rightarrow> 'w blockchain_api \<Rightarrow> json option \<Rightarrow> 'w \<Rightarrow> json rpc_result" where
  "rpc_get_transaction_receipt X A api ps w =
     (case str_param ''Missing hash'' ps of Inl e \<Rightarrow> Inl e | Inr s \<Rightarrow>
      case parse_hash A s of Inl e \<Rightarrow> Inl e | Inr h \<Rightarrow>
      case found A TRANSACTION_NOT_FOUND ''Transaction not found'' (ba_get_transaction api h w) of
        Inl e \<Rightarrow> Inl e
      | Inr tx \<Rightarrow> Inr (JObj
          [(''transactionHash'', JStr (hex_data X h)), (''transactionIndex'', JStr ''0x0''), (''blockHash'', JNull),
           (''blockNumber'', JNull), (''from'', JStr (hex_data X (tx_from tx))), (''to'', JStr (hex_data X (tx_to tx))),
           (''cumulativeGasUsed'', JStr ''0x0''), (''gasUsed'', JStr ''0x0''), (''contractAddress'', JNull), (''logs'', JArr []),
           (''logsBloom'', JStr (''0x'' @ replicate 512 CHR ''0'')), (''status'', JStr ''0x1'')]))"

section \<open>Requests\<close>

record rpc_request =
  rq_jsonrpc :: string
  rq_method :: string
  rq_params :: "json option"
  rq_id :: json

definition rpc_request_validate :: "rpc_request \<Rightarrow> bool" where
  "rpc_request_validate r \<longleftrightarrow> rq_jsonrpc r = ''2.0''"

record rpc_response =
  rs_jsonrpc :: string
  rs_id :: json
  rs_result :: "json option"
  rs_error :: "api_error option"

text \<open>Each method with what it answers and the world it leaves; only one of them changes it.\<close>

definition rpc_dispatch ::
    "externals \<Rightarrow> api_externals \<Rightarrow> 'w blockchain_api \<Rightarrow> string \<Rightarrow> json option \<Rightarrow> 'w \<Rightarrow> json rpc_result \<times> 'w" where
  "rpc_dispatch X A api method ps w =
     (if method = ''eth_blockNumber'' then (rpc_block_number A api w, w)
      else if method = ''eth_getBlockByNumber'' then (rpc_get_block_by_number X A api ps w, w)
      else if method = ''eth_getBlockByHash'' then (rpc_get_block_by_hash X A api ps w, w)
      else if method = ''eth_getTransactionByHash'' then (rpc_get_transaction X A api ps w, w)
      else if method = ''eth_sendRawTransaction'' then rpc_send_transaction X A api ps w
      else if method = ''eth_getTransactionReceipt'' then (rpc_get_transaction_receipt X A api ps w, w)
      else if method = ''eth_getBalance'' then (rpc_get_balance A api ps w, w)
      else if method = ''eth_getTransactionCount'' then (rpc_get_nonce A api ps w, w)
      else if method = ''eth_accounts'' then (rpc_accounts, w)
      else if method = ''net_version'' then (rpc_net_version, w)
      else if method = ''net_peerCount'' then (rpc_peer_count A api w, w)
      else if method = ''eth_chainId'' then (rpc_chain_id, w)
      else if method = ''eth_syncing'' then (rpc_syncing, w)
      else if method = ''eth_gasPrice'' then (rpc_gas_price, w)
      else if method = ''web3_clientVersion'' then (rpc_client_version, w)
      else if method = ''web3_sha3'' then (rpc_sha3 X A ps, w)
      else if method = ''pacyte_getValidators'' then (rpc_get_validators A api w, w)
      else if method = ''pacyte_getConsensusState'' then (rpc_get_consensus_state A api w, w)
      else if method = ''pacyte_getMempoolStats'' then (rpc_get_mempool_stats A api w, w)
      else if method = ''pacyte_getNetworkInfo'' then (rpc_get_network_info A api w, w)
      else (Inl (api_error_new METHOD_NOT_FOUND (''Method not found: '' @ method)), w))"

definition handle_rpc_request ::
    "externals \<Rightarrow> api_externals \<Rightarrow> 'w blockchain_api \<Rightarrow> rpc_request \<Rightarrow> 'w \<Rightarrow> rpc_response \<times> 'w" where
  "handle_rpc_request X A api r w =
     (if \<not> rpc_request_validate r then
        (\<lparr>rs_jsonrpc = ''2.0'', rs_id = rq_id r, rs_result = None,
          rs_error = Some (api_error_new INVALID_REQUEST ''Invalid JSON-RPC request'')\<rparr>, w)
      else case rpc_dispatch X A api (rq_method r) (rq_params r) w of
             (Inr v, w') \<Rightarrow> (\<lparr>rs_jsonrpc = ''2.0'', rs_id = rq_id r, rs_result = Some v, rs_error = None\<rparr>, w')
           | (Inl e, w') \<Rightarrow> (\<lparr>rs_jsonrpc = ''2.0'', rs_id = rq_id r, rs_result = None, rs_error = Some e\<rparr>, w'))"

section \<open>The mempool behind the interface\<close>

definition pool_api :: "externals \<Rightarrow> 's storage_ops \<Rightarrow> timestamp \<Rightarrow> (mempool_impl \<times> 's state_manager) api_mempool" where
  "pool_api X S now =
     \<lparr>mo_add_transaction = \<lambda>tx (p, sm). pool_add_transaction X S now tx p sm,
      mo_get_all_transactions = \<lambda>(p, sm). get_all_transactions p,
      mo_stats = \<lambda>(p, sm). mp_stats p\<rparr>"

section \<open>What the answers say\<close>

lemma trim_hex_num: "trim_start_matches ''0x'' (hex_num h) = show_hex (unat h)"
  using trim_hex [of "show_hex (unat h)"] show_hex_text by (simp add: hex_num_def)

lemma parse_block_number_hex: "parse_block_number (JStr (hex_num h)) = Inr h"
  by (simp add: parse_block_number_def trim_hex_num parse_hex_show) (simp add: hex_num_def)

lemma parse_hash_hex: "hex_law (hex_encode X) (hex_decode A) \<Longrightarrow> length bs = 32 \<Longrightarrow> parse_hash A (hex_data X bs) = Inr bs"
  using trim_hex [of "hex_encode X bs"] by (simp add: parse_hash_def hex_data_def hex_law_def)

definition rpc_call :: "string \<Rightarrow> json list \<Rightarrow> rpc_request" where
  "rpc_call method ps = \<lparr>rq_jsonrpc = ''2.0'', rq_method = method, rq_params = Some (JArr ps), rq_id = JInt 1\<rparr>"

definition rpc_answer :: "externals \<Rightarrow> api_externals \<Rightarrow> 'w blockchain_api \<Rightarrow> string \<Rightarrow> json list \<Rightarrow> 'w \<Rightarrow> json option" where
  "rpc_answer X A api method ps w = rs_result (fst (handle_rpc_request X A api (rpc_call method ps) w))"


definition sample_hex_externals :: externals where
  "sample_hex_externals = sample_externals\<lparr>hex_encode := hex_lower\<rparr>"

definition sample_api_externals :: api_externals where
  "sample_api_externals = \<lparr>hex_decode = hex_bytes, de_transaction = \<lambda>bs. None, error_text = \<lambda>e. ''error''\<rparr>"

definition sample_world :: "(memory_storage, mempool_impl \<times> memory_storage state_manager) api_world" where
  "sample_world =
     (let st = save_block sample_hex_externals 0 (block_genesis sample_hex_externals 0) memory_storage_new
      in \<lparr>w_storage = st, w_mempool = (mempool_new mempool_config_default, state_manager_new sample_hex_externals st),
          w_consensus = \<lparr>cv_state = Idle, cv_height = 0, cv_round = 0, cv_is_validator = False, cv_is_proposer = \<lambda>h r. False\<rparr>,
          w_network = \<lparr>nv_connected_peers = [], nv_peer_count = 0\<rparr>\<rparr>)"


text \<open>
  Every response repeats the identifier of its request and has either a result or an error; only \<open>eth_sendRawTransaction\<close> changes the node.
\<close>

lemma rpc_response_shape:
  assumes "handle_rpc_request X A api r w = (rs, w')"
  shows "rs_id rs = rq_id r \<and> rs_jsonrpc rs = ''2.0'' \<and> (rs_result rs = None) = (rs_error rs \<noteq> None) \<and>
    (rq_method r \<noteq> ''eth_sendRawTransaction'' \<or> rq_jsonrpc r \<noteq> ''2.0'' \<longrightarrow> w' = w)"
proof -
  have "w1 = w" if "rpc_dispatch X A api m ps w = (res, w1)" "m \<noteq> ''eth_sendRawTransaction''" for m ps res w1
    using that unfolding rpc_dispatch_def by (simp split: if_splits)
  with assms show ?thesis
    by (auto simp: handle_rpc_request_def rpc_request_validate_def split: if_splits prod.splits sum.splits)
qed

text \<open>
  A transaction the mempool rejects is reported as sent: the answer is its hash, whatever the mempool said.
\<close>

lemma rejected_transaction_reported_sent:
  assumes "hex_decode A (trim_start_matches ''0x'' s) = Some bs" "de_transaction A bs = Some tx"
  shows "fst (rpc_send_transaction X A (rpc_api_impl X A S (pool_api X S now)) (Some (JArr [JStr s])) w) =
      Inr (JStr (hex_data X (tx_hash X tx)))"
proof -
  obtain p sm where w: "w_mempool w = (p, sm)" by (cases "w_mempool w")
  have "\<exists>r p' sm'. pool_add_transaction X S now tx p sm = (Inr r, p', sm')"
    unfolding pool_add_transaction_def by (auto simp: Let_def split: option.splits sum.splits prod.splits)
  then show ?thesis using assms w
    by (auto simp: rpc_send_transaction_def str_param_def param_list_def nth_param_def rpc_api_impl_def rpc_send_transaction_impl_def
        pool_api_def internal_def)
qed

text \<open>The names of the latest and the pending block select the block at height 0, and starting the API starts no server.\<close>

lemma latest_selects_genesis: "parse_block_number (JStr ''latest'') = Inr 0" "parse_block_number (JStr ''pending'') = Inr 0"
  by (simp_all add: parse_block_number_def)

lemma start_starts_no_server:
  assumes "api_server_start (api_server_new cfg) = (r, a)"
  shows "list_all (\<lambda>s. \<not> srv_shutdown_tx s) (List.map_filter id [rest_server a, rpc_server a, ws_server a])"
  using assms by (auto simp: api_server_start_def api_server_new_def server_new_def Let_def List.map_filter_simps split: if_splits)

end
