(* ===== verification/Api_Rest.thy ===== *)
theory Api_Rest
  imports Api_Rpc
begin

text \<open>
  \<open>src/api/rest.rs\<close>: the REST handlers. A response is its status and the value that is serialised into its body; routing, the
  extraction of path and query parameters and serialisation belong to \<open>axum\<close> and \<open>serde\<close>. A request that was routed is a
  \<open>rest_call\<close>.
\<close>

section \<open>Responses\<close>

datatype rest_body =
    BodyText string
  | BodyBlock block
  | BodyBlocks "block paginated_response"
  | BodyTransaction transaction
  | BodyTransactions "transaction list"
  | BodySent string
  | BodyAccount account
  | BodyBalance string u128
  | BodyNetwork network_info
  | BodyPeers "api_peer_info list"
  | BodyConsensus consensus_state_info
  | BodyValidators "api_validator_info list"
  | BodyMempool api_mempool_stats
  | BodyHealth string string timestamp
  | BodyMarkdown string
  | BodyError string

record rest_response =
  rr_status :: u16
  rr_body :: rest_body

definition respond :: "u16 \<Rightarrow> rest_body \<Rightarrow> rest_response" where
  "respond st b = \<lparr>rr_status = st, rr_body = b\<rparr>"

definition error_status :: "pacyte_error \<Rightarrow> u16" where
  "error_status e =
     (case e of
        BlockNotFound h \<Rightarrow> 404
      | AccountNotFound s \<Rightarrow> 404
      | InsufficientBalance r a \<Rightarrow> 400
      | InvalidSignature \<Rightarrow> 401
      | _ \<Rightarrow> 500)"

definition error_response :: "api_externals \<Rightarrow> pacyte_error \<Rightarrow> rest_response" where
  "error_response A e = respond (error_status e) (BodyError (error_text A e))"

definition rest_parse_address :: "api_externals \<Rightarrow> string \<Rightarrow> rest_response + address" where
  "rest_parse_address A s =
     (case hex_decode A (trim_start_matches ''0x'' s) of
        None \<Rightarrow> Inl (respond 400 (BodyText ''Invalid hex address''))
      | Some bs \<Rightarrow> if length bs \<noteq> 32 then Inl (respond 400 (BodyText ''Address must be 32 bytes'')) else Inr bs)"

definition rest_parse_hash :: "api_externals \<Rightarrow> string \<Rightarrow> hash option" where
  "rest_parse_hash A s =
     (case hex_decode A (trim_start_matches ''0x'' s) of
        Some h \<Rightarrow> if length h = 32 then Some h else None
      | None \<Rightarrow> None)"

section \<open>The node behind the handlers\<close>

definition rest_send_transaction_impl ::
    "externals \<Rightarrow> api_externals \<Rightarrow> 'm api_mempool \<Rightarrow> transaction \<Rightarrow> ('s, 'm) api_world \<Rightarrow> hash pacyte_result \<times> ('s, 'm) api_world" where
  "rest_send_transaction_impl X A M tx w =
     (let h = tx_hash X tx
      in case mo_add_transaction M tx (w_mempool w) of
           (Inl e, m) \<Rightarrow> (Inl (Internal (error_text A e)), w\<lparr>w_mempool := m\<rparr>)
         | (Inr _, m) \<Rightarrow> (Inr h, w\<lparr>w_mempool := m\<rparr>))"

definition rest_api_impl ::
    "externals \<Rightarrow> api_externals \<Rightarrow> 's storage_ops \<Rightarrow> 'm api_mempool \<Rightarrow> ('s, 'm) api_world blockchain_api" where
  "rest_api_impl X A S M =
     \<lparr>ba_get_block_by_height = \<lambda>h w. so_get_block S h (w_storage w),
      ba_get_block_by_hash = \<lambda>h w. so_get_block_by_hash S h (w_storage w),
      ba_get_latest_block = \<lambda>w. so_get_latest_block S (w_storage w),
      ba_get_block_height = \<lambda>w. so_get_block_height S (w_storage w),
      ba_get_transaction = \<lambda>h w. so_get_transaction S h (w_storage w),
      ba_send_transaction = rest_send_transaction_impl X A M,
      ba_get_pending_transactions = \<lambda>w. Inr (mo_get_all_transactions M (w_mempool w)),
      ba_get_balance = \<lambda>a w. map_sum id (\<lambda>acc. case acc of Some x \<Rightarrow> balance x | None \<Rightarrow> 0) (so_get_account S a (w_storage w)),
      ba_get_account = \<lambda>a w. so_get_account S a (w_storage w),
      ba_get_nonce = \<lambda>a w. map_sum id (\<lambda>acc. case acc of Some x \<Rightarrow> nonce x | None \<Rightarrow> 0) (so_get_account S a (w_storage w)),
      ba_get_network_info = \<lambda>w. Inr
        \<lparr>ni_node_id = 1, ni_network_id = 1, ni_peer_count = nv_peer_count (w_network w), ni_is_listening = True,
         ni_protocol_version = PROTOCOL_VERSION\<rparr>,
      ba_get_peers = \<lambda>w. Inr (map (\<lambda>p.
        \<lparr>ap_id = pi_id p, ap_address = pi_address p, ap_best_height = pi_best_height p, ap_latency_ms = latency_ms p\<rparr>)
        (nv_connected_peers (w_network w))),
      ba_get_consensus_state = \<lambda>w. let c = w_consensus w in Inr
        \<lparr>cs_height = cv_height c, cs_round = cv_round c, cs_state = consensus_state_display (cv_state c),
         cs_is_validator = cv_is_validator c, cs_is_proposer = cv_is_proposer c (cv_height c) (cv_round c)\<rparr>,
      ba_get_validators = \<lambda>w. Inr [],
      ba_get_mempool_stats = \<lambda>w. let st = mo_stats M (w_mempool w) in Inr
        \<lparr>am_size = total_transactions st, am_total_size_bytes = total_size_bytes st,
         am_avg_fee_per_byte = avg_fee_per_byte st, am_oldest_tx_age_secs = oldest_tx_age_secs st\<rparr>\<rparr>"

section \<open>Handlers\<close>

definition get_latest_block_handler :: "api_externals \<Rightarrow> 'w blockchain_api \<Rightarrow> 'w \<Rightarrow> rest_response" where
  "get_latest_block_handler A api w =
     (case ba_get_latest_block api w of
        Inr (Some b) \<Rightarrow> respond 200 (BodyBlock b)
      | Inr None \<Rightarrow> respond 404 (BodyText ''No blocks found'')
      | Inl e \<Rightarrow> error_response A e)"

definition get_block_by_height_handler :: "api_externals \<Rightarrow> 'w blockchain_api \<Rightarrow> block_height \<Rightarrow> 'w \<Rightarrow> rest_response" where
  "get_block_by_height_handler A api h w =
     (case ba_get_block_by_height api h w of
        Inr (Some b) \<Rightarrow> respond 200 (BodyBlock b)
      | Inr None \<Rightarrow> respond 404 (BodyText (''Block '' @ show_word h @ '' not found''))
      | Inl e \<Rightarrow> error_response A e)"

definition get_block_by_hash_handler :: "api_externals \<Rightarrow> 'w blockchain_api \<Rightarrow> string \<Rightarrow> 'w \<Rightarrow> rest_response" where
  "get_block_by_hash_handler A api s w =
     (case rest_parse_hash A s of
        None \<Rightarrow> respond 400 (BodyText ''Invalid hash format'')
      | Some h \<Rightarrow>
          (case ba_get_block_by_hash api h w of
             Inr (Some b) \<Rightarrow> respond 200 (BodyBlock b)
           | Inr None \<Rightarrow> respond 404 (BodyText ''Block not found'')
           | Inl e \<Rightarrow> error_response A e))"

text \<open>The heights from the tip down.\<close>

definition heights_down :: "block_height \<Rightarrow> block_height list" where
  "heights_down h = rev (map of_nat [0..<Suc (unat h)])"

definition list_blocks :: "'w blockchain_api \<Rightarrow> pagination \<Rightarrow> 'w \<Rightarrow> block paginated_response" where
  "list_blocks api g w =
     (let height = (case ba_get_block_height api w of Inr h \<Rightarrow> h | Inl e \<Rightarrow> 0);
          limit = page_limit g;
          offset = page_offset g;
          blocks = List.map_filter (\<lambda>h. case ba_get_block_by_height api h w of Inr b \<Rightarrow> b | Inl e \<Rightarrow> None)
            (take (unat limit) (drop (unat offset) (heights_down height)))
      in \<lparr>pr_items = blocks, pr_total = height + 1, pr_page = unwrap_usize (pg_page g) 1, pr_limit = limit,
          has_next = offset + limit \<le> height\<rparr>)"

definition get_blocks_handler :: "'w blockchain_api \<Rightarrow> pagination \<Rightarrow> 'w \<Rightarrow> rest_response" where
  "get_blocks_handler api g w = respond 200 (BodyBlocks (list_blocks api g w))"

definition get_transaction_handler :: "api_externals \<Rightarrow> 'w blockchain_api \<Rightarrow> string \<Rightarrow> 'w \<Rightarrow> rest_response" where
  "get_transaction_handler A api s w =
     (case rest_parse_hash A s of
        None \<Rightarrow> respond 400 (BodyText ''Invalid hash format'')
      | Some h \<Rightarrow>
          (case ba_get_transaction api h w of
             Inr (Some tx) \<Rightarrow> respond 200 (BodyTransaction tx)
           | Inr None \<Rightarrow> respond 404 (BodyText ''Transaction not found'')
           | Inl e \<Rightarrow> error_response A e))"

definition send_transaction_handler ::
    "externals \<Rightarrow> api_externals \<Rightarrow> 'w blockchain_api \<Rightarrow> transaction \<Rightarrow> 'w \<Rightarrow> rest_response \<times> 'w" where
  "send_transaction_handler X A api tx w =
     (case ba_send_transaction api tx w of
        (Inr h, w') \<Rightarrow> (respond 200 (BodySent (hex_data X h)), w')
      | (Inl e, w') \<Rightarrow> (error_response A e, w'))"

definition get_pending_transactions_handler :: "api_externals \<Rightarrow> 'w blockchain_api \<Rightarrow> 'w \<Rightarrow> rest_response" where
  "get_pending_transactions_handler A api w =
     (case ba_get_pending_transactions api w of
        Inr txs \<Rightarrow> respond 200 (BodyTransactions txs)
      | Inl e \<Rightarrow> error_response A e)"

definition get_account_handler :: "api_externals \<Rightarrow> 'w blockchain_api \<Rightarrow> string \<Rightarrow> 'w \<Rightarrow> rest_response" where
  "get_account_handler A api s w =
     (case rest_parse_address A s of
        Inl r \<Rightarrow> r
      | Inr a \<Rightarrow>
          (case ba_get_account api a w of
             Inr (Some acc) \<Rightarrow> respond 200 (BodyAccount acc)
           | Inr None \<Rightarrow> respond 404 (BodyText ''Account not found'')
           | Inl e \<Rightarrow> error_response A e))"

definition get_balance_handler :: "api_externals \<Rightarrow> 'w blockchain_api \<Rightarrow> string \<Rightarrow> 'w \<Rightarrow> rest_response" where
  "get_balance_handler A api s w =
     (case rest_parse_address A s of
        Inl r \<Rightarrow> r
      | Inr a \<Rightarrow>
          (case ba_get_balance api a w of
             Inr v \<Rightarrow> respond 200 (BodyBalance s v)
           | Inl e \<Rightarrow> error_response A e))"

definition get_network_info_handler :: "api_externals \<Rightarrow> 'w blockchain_api \<Rightarrow> 'w \<Rightarrow> rest_response" where
  "get_network_info_handler A api w =
     (case ba_get_network_info api w of Inr i \<Rightarrow> respond 200 (BodyNetwork i) | Inl e \<Rightarrow> error_response A e)"

definition get_peers_handler :: "api_externals \<Rightarrow> 'w blockchain_api \<Rightarrow> 'w \<Rightarrow> rest_response" where
  "get_peers_handler A api w =
     (case ba_get_peers api w of Inr ps \<Rightarrow> respond 200 (BodyPeers ps) | Inl e \<Rightarrow> error_response A e)"

definition get_consensus_state_handler :: "api_externals \<Rightarrow> 'w blockchain_api \<Rightarrow> 'w \<Rightarrow> rest_response" where
  "get_consensus_state_handler A api w =
     (case ba_get_consensus_state api w of Inr c \<Rightarrow> respond 200 (BodyConsensus c) | Inl e \<Rightarrow> error_response A e)"

definition get_validators_handler :: "api_externals \<Rightarrow> 'w blockchain_api \<Rightarrow> 'w \<Rightarrow> rest_response" where
  "get_validators_handler A api w =
     (case ba_get_validators api w of Inr vs \<Rightarrow> respond 200 (BodyValidators vs) | Inl e \<Rightarrow> error_response A e)"

definition get_mempool_stats_handler :: "api_externals \<Rightarrow> 'w blockchain_api \<Rightarrow> 'w \<Rightarrow> rest_response" where
  "get_mempool_stats_handler A api w =
     (case ba_get_mempool_stats api w of Inr st \<Rightarrow> respond 200 (BodyMempool st) | Inl e \<Rightarrow> error_response A e)"

definition health_check :: "timestamp \<Rightarrow> rest_response" where
  "health_check now = respond 200 (BodyHealth ''ok'' VERSION now)"

definition API_DOCS :: string where
  "API_DOCS =
     (let nl = [CHR 0x0A]
      in nl @ ''# Pacyte Nexus API Documentation'' @ nl @ nl @
         ''## Blocks'' @ nl @
         ''- `GET /api/v1/blocks/latest` - Get latest block'' @ nl @
         ''- `GET /api/v1/blocks/:height` - Get block by height'' @ nl @
         ''- `GET /api/v1/blocks/hash/:hash` - Get block by hash'' @ nl @
         ''- `GET /api/v1/blocks?page=1&limit=20` - List blocks'' @ nl @ nl @
         ''## Transactions'' @ nl @
         ''- `GET /api/v1/transactions/:hash` - Get transaction'' @ nl @
         ''- `POST /api/v1/transactions` - Send transaction'' @ nl @
         ''- `GET /api/v1/transactions/pending` - Get pending transactions'' @ nl @ nl @
         ''## Accounts'' @ nl @
         ''- `GET /api/v1/accounts/:address` - Get account info'' @ nl @
         ''- `GET /api/v1/accounts/:address/balance` - Get account balance'' @ nl @ nl @
         ''## Network'' @ nl @
         ''- `GET /api/v1/network/info` - Get network info'' @ nl @
         ''- `GET /api/v1/network/peers` - Get connected peers'' @ nl @ nl @
         ''## Consensus'' @ nl @
         ''- `GET /api/v1/consensus/state` - Get consensus state'' @ nl @
         ''- `GET /api/v1/consensus/validators` - Get validator set'' @ nl @ nl @
         ''## Mempool'' @ nl @
         ''- `GET /api/v1/mempool/stats` - Get mempool statistics'' @ nl)"

definition get_docs :: rest_response where
  "get_docs = respond 200 (BodyMarkdown API_DOCS)"

section \<open>Routes\<close>

datatype rest_call =
    CallLatestBlock
  | CallBlockByHeight block_height
  | CallBlockByHash string
  | CallBlocks pagination
  | CallTransaction string
  | CallSend transaction
  | CallPending
  | CallAccount string
  | CallBalance string
  | CallNetworkInfo
  | CallPeers
  | CallConsensusState
  | CallValidators
  | CallMempoolStats
  | CallHealth
  | CallDocs

fun rest_handle ::
    "externals \<Rightarrow> api_externals \<Rightarrow> 'w blockchain_api \<Rightarrow> timestamp \<Rightarrow> rest_call \<Rightarrow> 'w \<Rightarrow> rest_response \<times> 'w" where
  "rest_handle X A api now CallLatestBlock w = (get_latest_block_handler A api w, w)"
| "rest_handle X A api now (CallBlockByHeight h) w = (get_block_by_height_handler A api h w, w)"
| "rest_handle X A api now (CallBlockByHash s) w = (get_block_by_hash_handler A api s w, w)"
| "rest_handle X A api now (CallBlocks g) w = (get_blocks_handler api g w, w)"
| "rest_handle X A api now (CallTransaction s) w = (get_transaction_handler A api s w, w)"
| "rest_handle X A api now (CallSend tx) w = send_transaction_handler X A api tx w"
| "rest_handle X A api now CallPending w = (get_pending_transactions_handler A api w, w)"
| "rest_handle X A api now (CallAccount s) w = (get_account_handler A api s w, w)"
| "rest_handle X A api now (CallBalance s) w = (get_balance_handler A api s w, w)"
| "rest_handle X A api now CallNetworkInfo w = (get_network_info_handler A api w, w)"
| "rest_handle X A api now CallPeers w = (get_peers_handler A api w, w)"
| "rest_handle X A api now CallConsensusState w = (get_consensus_state_handler A api w, w)"
| "rest_handle X A api now CallValidators w = (get_validators_handler A api w, w)"
| "rest_handle X A api now CallMempoolStats w = (get_mempool_stats_handler A api w, w)"
| "rest_handle X A api now CallHealth w = (health_check now, w)"
| "rest_handle X A api now CallDocs w = (get_docs, w)"

section \<open>The listing shows every block once\<close>

lemma concat_chunks: "concat (map (\<lambda>i. take l (drop (i * l) xs)) [0..<k]) = take (k * l) xs"
  by (induction k) (simp_all add: take_add [symmetric] add.commute)

lemma length_heights_down [simp]: "length (heights_down h) = Suc (unat h)"
  by (simp add: heights_down_def)

lemma set_heights_down: "h \<in> set (heights_down H) \<Longrightarrow> h \<le> H"
proof -
  assume "h \<in> set (heights_down H)"
  then have "h \<in> of_nat ` {0..<Suc (unat H)}" by (simp only: heights_down_def set_rev set_map set_upt)
  then obtain n where "n \<le> unat H" "h = of_nat n" by (elim imageE) (simp add: less_Suc_eq_le)
  then show "h \<le> H" by (simp add: word_le_nat_alt unat_of_nat)
qed

lemma map_filter_Some: "(\<And>x. x \<in> set xs \<Longrightarrow> g x = Some (f x)) \<Longrightarrow> List.map_filter g xs = map f xs"
  by (induction xs) (simp_all add: List.map_filter_simps)

lemma unat_page_offset:
  assumes "unat (p - 1) * unat l < 2 ^ 64" "p \<noteq> 0"
  shows "unat (page_offset \<lparr>pg_page = Some p, pg_limit = Some l\<rparr>) = unat (p - 1) * unat l"
proof -
  have "saturating_sub p 1 = p - 1" using assms(2)
    by (simp add: saturating_sub_def word_le_nat_alt unat_gt_0 Suc_leI not_le)
  then show ?thesis using assms(1) by (simp add: page_offset_def unwrap_usize_def unat_word_ariths)
qed

text \<open>
  C38. Paging through the block list. With a page size of 1 to 100 the pages from the first on show
  the blocks from the tip down, each exactly once, and a page announces a next one exactly when that page has blocks.
\<close>

theorem rest_pages_cover:
  assumes "ba_get_block_height api w = Inr H" "\<forall>h\<le>H. ba_get_block_by_height api h w = Inr (Some (b h))"
    and l: "0 < l" "l \<le> 100" and k: "unat H < k * unat l" "(k + 1) * unat l < 2 ^ 64"
  shows "concat (map (\<lambda>i. pr_items (list_blocks api \<lparr>pg_page = Some (of_nat (Suc i)), pg_limit = Some l\<rparr> w)) [0..<k]) =
      map b (heights_down H) \<and>
    (\<forall>i<k. has_next (list_blocks api \<lparr>pg_page = Some (of_nat (Suc i)), pg_limit = Some l\<rparr> w) \<longleftrightarrow>
       pr_items (list_blocks api \<lparr>pg_page = Some (of_nat (Suc (Suc i))), pg_limit = Some l\<rparr> w) \<noteq> [])"
proof -
  have lp: "0 < unat l" "unat l \<le> 100" using l by (simp_all add: unat_gt_0 word_le_nat_alt)
  have lim: "page_limit \<lparr>pg_page = q, pg_limit = Some l\<rparr> = l" for q
    using l(2) by (simp add: page_limit_def unwrap_usize_def min_absorb1)
  have off: "unat (page_offset \<lparr>pg_page = Some (of_nat (Suc i)), pg_limit = Some l\<rparr>) = i * unat l" if "i \<le> k" for i
  proof -
    have "i * unat l \<le> k * unat l" "i * 1 \<le> i * unat l" using that lp by (intro mult_le_mono; simp)+
    moreover have "k * unat l + unat l < 2 ^ 64" using k(2) by (simp add: algebra_simps)
    ultimately have i: "i * unat l < 2 ^ 64" "Suc i < 2 ^ 64" using lp by linarith+
    have "of_nat (Suc i) - 1 = (of_nat i :: usize)" by simp
    moreover have "unat (of_nat i :: usize) = i" using i(2) by (simp add: unat_of_nat)
    moreover have "(of_nat (Suc i) :: usize) \<noteq> 0" using i(2) by (simp add: word_unat_eq_iff unat_of_nat del: of_nat_Suc)
    ultimately show ?thesis using i(1) by (subst unat_page_offset) (simp_all del: of_nat_Suc)
  qed
  have items: "pr_items (list_blocks api \<lparr>pg_page = Some (of_nat (Suc i)), pg_limit = Some l\<rparr> w) =
      map b (take (unat l) (drop (i * unat l) (heights_down H)))" if "i \<le> k" for i
  proof -
    have "List.map_filter (\<lambda>h. case ba_get_block_by_height api h w of Inr b \<Rightarrow> b | Inl e \<Rightarrow> None)
        (take (unat l) (drop (i * unat l) (heights_down H))) = map b (take (unat l) (drop (i * unat l) (heights_down H)))"
      using assms(2) set_heights_down by (intro map_filter_Some) (auto dest!: in_set_takeD in_set_dropD)
    then show ?thesis using assms(1) by (simp add: list_blocks_def lim off [OF that] del: of_nat_Suc)
  qed
  have "concat (map (\<lambda>i. pr_items (list_blocks api \<lparr>pg_page = Some (of_nat (Suc i)), pg_limit = Some l\<rparr> w)) [0..<k]) =
      concat (map (\<lambda>i. map b (take (unat l) (drop (i * unat l) (heights_down H)))) [0..<k])"
    by (intro arg_cong [of _ _ concat] map_cong) (simp_all add: items del: of_nat_Suc)
  also have "\<dots> = map b (concat (map (\<lambda>i. take (unat l) (drop (i * unat l) (heights_down H))) [0..<k]))"
    by (simp add: map_concat comp_def)
  also have "\<dots> = map b (heights_down H)" using k(1) by (simp add: concat_chunks)
  finally have all: "concat (map (\<lambda>i. pr_items (list_blocks api \<lparr>pg_page = Some (of_nat (Suc i)), pg_limit = Some l\<rparr> w)) [0..<k]) =
      map b (heights_down H)" .
  have "has_next (list_blocks api \<lparr>pg_page = Some (of_nat (Suc i)), pg_limit = Some l\<rparr> w) \<longleftrightarrow>
      pr_items (list_blocks api \<lparr>pg_page = Some (of_nat (Suc (Suc i))), pg_limit = Some l\<rparr> w) \<noteq> []" if "i < k" for i
  proof -
    let ?o = "page_offset \<lparr>pg_page = Some (of_nat (Suc i)), pg_limit = Some l\<rparr>"
    have "Suc i * unat l \<le> k * unat l" using that by (intro mult_le_mono) simp_all
    moreover have oi: "unat ?o = i * unat l" using off [of i] that by simp
    ultimately have "unat ?o + unat l < 2 ^ 64" using k(2) by (simp add: algebra_simps)
    then have "unat (?o + l) = unat ?o + unat l" by (simp add: unat_word_ariths del: of_nat_Suc)
    then have "unat (?o + l) = Suc i * unat l" by (simp add: oi del: of_nat_Suc)
    then have "?o + l \<le> H \<longleftrightarrow> Suc i * unat l < Suc (unat H)" by (simp add: word_le_nat_alt less_Suc_eq_le)
    moreover have "has_next (list_blocks api \<lparr>pg_page = Some (of_nat (Suc i)), pg_limit = Some l\<rparr> w) \<longleftrightarrow> ?o + l \<le> H"
      using assms(1) by (simp add: list_blocks_def Let_def lim del: of_nat_Suc)
    ultimately show ?thesis using items [of "Suc i"] that lp(1) by (auto simp: not_le del: of_nat_Suc)
  qed
  with all show ?thesis by blast
qed

theorem rest_pages_cover_witness:
  "let X = sample_hex_externals; A = sample_api_externals; api = rest_api_impl X A (memory_ops X 0) (pool_api X (memory_ops X 0) 5)
   in concat (map (\<lambda>i. pr_items (list_blocks api \<lparr>pg_page = Some (of_nat (Suc i)), pg_limit = Some 20\<rparr> sample_world)) [0..<1]) =
        map (\<lambda>h. block_genesis X 0) (heights_down 0)"
proof -
  let ?X = sample_hex_externals
  let ?api = "rest_api_impl ?X sample_api_externals (memory_ops ?X 0) (pool_api ?X (memory_ops ?X 0) 5)"
  have st: "ms_blocks (w_storage sample_world) = [block_genesis ?X 0]"
    by (simp add: sample_world_def Let_def save_block_def memory_storage_new_def resize_to_def block_genesis_def block_new_def)
  have "ba_get_block_height ?api sample_world = Inr 0" "\<forall>h\<le>0. ba_get_block_by_height ?api h sample_world = Inr (Some (block_genesis ?X 0))"
    by (simp_all add: rest_api_impl_def memory_ops_def get_block_height_def get_block_def st)
  from rest_pages_cover [OF this, of 20 1] show ?thesis by (simp add: Let_def)
qed

text \<open>Both servers answer from the same interface.\<close>

lemma rest_rpc_same_api: "rest_api_impl X A S M = rpc_api_impl X A S M"
  by (simp add: rest_api_impl_def rpc_api_impl_def rest_send_transaction_impl_def rpc_send_transaction_impl_def fun_eq_iff)

text \<open>With a larger page size the second page starts at the size that was asked for while the first shows 100: blocks between are on no page.\<close>

lemma large_pages_skip_blocks:
  "page_limit \<lparr>pg_page = Some 1, pg_limit = Some 150\<rparr> = 100" "page_offset \<lparr>pg_page = Some 2, pg_limit = Some 150\<rparr> = 150"
  by (simp_all add: page_limit_def page_offset_def unwrap_usize_def saturating_sub_def)

end
