(* ===== verification/Api_Websocket.thy ===== *)
theory Api_Websocket
  imports Api_Rpc Consensus_Engine
begin

text \<open>
  \<open>src/api/websocket.rs\<close>: the WebSocket server. A connection is its identifier and the messages its channel has been given, in
  order; the task that writes them to the socket takes them from the front. The steps of a run are the connections, the frames clients send, the
  ends of connections and the events of consensus and network, in any order. \<open>text_message\<close> is \<open>serde_json\<close> for a frame.
\<close>

section \<open>Messages\<close>

datatype ws_message =
    WsSubscribe "string list"
  | WsUnsubscribe "string list"
  | WsPing
  | WsSubscribed "string list"
  | WsUnsubscribed "string list"
  | WsPong
  | WsNewBlock block
  | WsNewTransaction transaction
  | WsConsensusEvent string json
  | WsPeerEvent string u64
  | WsError string

record ws_server_state =
  ws_connections :: "(u64 \<times> ws_message list) list"
  next_conn_id :: u64

definition ws_new :: ws_server_state where
  "ws_new = \<lparr>ws_connections = [], next_conn_id = 1\<rparr>"

definition ws_send_to :: "u64 \<Rightarrow> ws_message \<Rightarrow> ws_server_state \<Rightarrow> ws_server_state" where
  "ws_send_to c msg s =
     (case map_of (ws_connections s) c of
        Some q \<Rightarrow> s\<lparr>ws_connections := AList.update c (q @ [msg]) (ws_connections s)\<rparr>
      | None \<Rightarrow> s)"

definition ws_broadcast :: "ws_message \<Rightarrow> ws_server_state \<Rightarrow> ws_server_state" where
  "ws_broadcast msg s = s\<lparr>ws_connections := map (\<lambda>(c, q). (c, q @ [msg])) (ws_connections s)\<rparr>"

definition ws_handle_message :: "u64 \<Rightarrow> ws_message \<Rightarrow> ws_server_state \<Rightarrow> ws_server_state" where
  "ws_handle_message c msg s =
     (case msg of
        WsSubscribe topics \<Rightarrow> ws_send_to c (WsSubscribed topics) s
      | WsUnsubscribe topics \<Rightarrow> ws_send_to c (WsUnsubscribed topics) s
      | WsPing \<Rightarrow> ws_send_to c WsPong s
      | _ \<Rightarrow> s)"

section \<open>Connections\<close>

definition ws_connect :: "ws_server_state \<Rightarrow> u64 \<times> ws_server_state" where
  "ws_connect s =
     (let c = next_conn_id s
      in (c, s\<lparr>next_conn_id := c + 1, ws_connections := AList.update c [] (ws_connections s)\<rparr>))"

definition ws_disconnect :: "u64 \<Rightarrow> ws_server_state \<Rightarrow> ws_server_state" where
  "ws_disconnect c s = s\<lparr>ws_connections := AList.delete c (ws_connections s)\<rparr>"

datatype ws_frame = FrameText string | FrameClose | FrameOther

text \<open>One pass of the receive loop: whether it goes on, and the server.\<close>

definition ws_receive :: "(string \<Rightarrow> ws_message option) \<Rightarrow> u64 \<Rightarrow> ws_frame \<Rightarrow> ws_server_state \<Rightarrow> bool \<times> ws_server_state" where
  "ws_receive text_message c fr s =
     (case fr of
        FrameText t \<Rightarrow> (True, case text_message t of Some msg \<Rightarrow> ws_handle_message c msg s | None \<Rightarrow> s)
      | FrameClose \<Rightarrow> (False, s)
      | FrameOther \<Rightarrow> (True, s))"

section \<open>Events\<close>

datatype ws_event = OfConsensus consensus_event | OfNetwork network_message

fun vote_type_debug :: "vote_type \<Rightarrow> string" where
  "vote_type_debug Prevote = ''Prevote''"
| "vote_type_debug Precommit = ''Precommit''"

text \<open>What an event makes the server broadcast.\<close>

definition ws_event_message :: "ws_event \<Rightarrow> ws_message option" where
  "ws_event_message e =
     (case e of
        OfConsensus (EvBlockCommitted b h) \<Rightarrow> Some (WsNewBlock b)
      | OfConsensus (EvNewRound h r) \<Rightarrow>
          Some (WsConsensusEvent ''new_round'' (JObj [(''height'', JInt (uint h)), (''round'', JInt (uint r))]))
      | OfConsensus (EvQuorumReached h r vt) \<Rightarrow>
          Some (WsConsensusEvent ''quorum_reached''
            (JObj [(''height'', JInt (uint h)), (''round'', JInt (uint r)), (''vote_type'', JStr (vote_type_debug vt))]))
      | OfNetwork (MNewTransaction tx) \<Rightarrow> Some (WsNewTransaction tx)
      | OfNetwork (MPeerConnected info) \<Rightarrow> Some (WsPeerEvent ''connected'' (pi_id info))
      | OfNetwork (MPeerDisconnected i) \<Rightarrow> Some (WsPeerEvent ''disconnected'' i)
      | _ \<Rightarrow> None)"

definition ws_broadcast_event :: "ws_event \<Rightarrow> ws_server_state \<Rightarrow> ws_server_state" where
  "ws_broadcast_event e s = (case ws_event_message e of Some msg \<Rightarrow> ws_broadcast msg s | None \<Rightarrow> s)"

section \<open>Runs\<close>

datatype ws_step = StepConnect | StepFrame u64 ws_frame | StepEnd u64 | StepEvent ws_event

definition ws_run_step :: "(string \<Rightarrow> ws_message option) \<Rightarrow> ws_step \<Rightarrow> ws_server_state \<Rightarrow> ws_server_state" where
  "ws_run_step text_message st s =
     (case st of
        StepConnect \<Rightarrow> snd (ws_connect s)
      | StepFrame c fr \<Rightarrow> (case ws_receive text_message c fr s of (True, s') \<Rightarrow> s' | (False, s') \<Rightarrow> ws_disconnect c s')
      | StepEnd c \<Rightarrow> ws_disconnect c s
      | StepEvent e \<Rightarrow> ws_broadcast_event e s)"

definition reply :: "ws_message \<Rightarrow> ws_message list" where
  "reply msg =
     (case msg of
        WsSubscribe topics \<Rightarrow> [WsSubscribed topics]
      | WsUnsubscribe topics \<Rightarrow> [WsUnsubscribed topics]
      | WsPing \<Rightarrow> [WsPong]
      | _ \<Rightarrow> [])"

text \<open>What a step gives a connection.\<close>

definition delivered :: "(string \<Rightarrow> ws_message option) \<Rightarrow> u64 \<Rightarrow> ws_step \<Rightarrow> ws_message list" where
  "delivered text_message c st =
     (case st of
        StepFrame c' (FrameText t) \<Rightarrow> if c' = c then (case text_message t of Some msg \<Rightarrow> reply msg | None \<Rightarrow> []) else []
      | StepEvent e \<Rightarrow> (case ws_event_message e of Some msg \<Rightarrow> [msg] | None \<Rightarrow> [])
      | _ \<Rightarrow> [])"

definition ends :: "u64 \<Rightarrow> ws_step \<Rightarrow> bool" where
  "ends c st \<longleftrightarrow> st = StepEnd c \<or> st = StepFrame c FrameClose"

lemma map_of_map_queue: "map_of (map (\<lambda>(c, q). (c, q @ [msg])) al) c = map_option (\<lambda>q. q @ [msg]) (map_of al c)"
  by (induction al) auto

lemma send_to_queue:
  "map_of (ws_connections s) c = Some q \<Longrightarrow>
   map_of (ws_connections (ws_send_to c' msg s)) c = Some (if c' = c then q @ [msg] else q)"
  by (auto simp: ws_send_to_def split: option.split)

lemma handle_message_queue:
  "map_of (ws_connections s) c = Some q \<Longrightarrow>
   map_of (ws_connections (ws_handle_message c' msg s)) c = Some (if c' = c then q @ reply msg else q)"
  by (cases msg) (auto simp: ws_handle_message_def reply_def send_to_queue)

lemma step_queue:
  assumes "map_of (ws_connections s) c = Some q" "c \<noteq> next_conn_id s \<or> st \<noteq> StepConnect" "\<not> ends c st"
  shows "map_of (ws_connections (ws_run_step text_message st s)) c = Some (q @ delivered text_message c st)"
proof (cases st)
  case StepConnect
  then show ?thesis using assms by (simp add: ws_run_step_def ws_connect_def Let_def delivered_def)
next
  case (StepFrame c' fr)
  then show ?thesis using assms(1,3)
    by (cases fr) (auto simp: ws_run_step_def ws_receive_def delivered_def handle_message_queue ws_disconnect_def ends_def split: option.split)
next
  case (StepEnd c')
  then show ?thesis using assms(1,3) by (simp add: ws_run_step_def ws_disconnect_def delivered_def ends_def)
next
  case (StepEvent e)
  then show ?thesis using assms(1)
    by (simp add: ws_run_step_def ws_broadcast_event_def ws_broadcast_def delivered_def map_of_map_queue split: option.split)
qed

text \<open>Identifiers count up, so a new connection takes a fresh one until they wrap around.\<close>

definition connects :: "ws_step list \<Rightarrow> nat" where
  "connects sts = length (filter (\<lambda>st. st = StepConnect) sts)"

lemma step_next: "next_conn_id (ws_run_step text_message st s) = next_conn_id s + (if st = StepConnect then 1 else 0)"
  by (cases st)
    (auto simp: ws_run_step_def ws_connect_def ws_disconnect_def ws_receive_def ws_broadcast_event_def ws_broadcast_def ws_handle_message_def
      ws_send_to_def Let_def split: option.split ws_message.split ws_frame.split)



end
