(* ===== verification/Storage_RocksDB.thy ===== *)
theory Storage_RocksDB
  imports Storage_Ops
begin

text \<open>
  \<open>src/storage/rocksdb.rs\<close>: the storage trait over RocksDB, with its column families, keys, metadata, counters and
  the two caches in front of the database.

  The database is the record \<open>rocks_ops\<close> of the calls the code makes, each with its error message; a failed write leaves the
  database as it was. The locale \<open>rocks_db\<close> is what its documentation promises, and a plain map interprets it. \<open>bincode\<close> is
  the record \<open>rocks_codec\<close>. Opening the database and the column families succeeds, a column family handle is a reference to it (the code makes an
  \<open>Arc\<close> of a pointer that does not come from one), and the options, the disk usage and the checkpoint call have
  no part in the state.
\<close>

section \<open>The database\<close>

datatype column_family = CfDefault | CfBlocks | CfTransactions | CfAccounts | CfStateRoots | CfMetadata

datatype rocks_write = RwPut column_family bytes bytes | RwDelete column_family bytes

record 'd rocks_ops =
  rk_get :: "column_family \<Rightarrow> bytes \<Rightarrow> 'd \<Rightarrow> string + bytes option"
  rk_put :: "column_family \<Rightarrow> bytes \<Rightarrow> bytes \<Rightarrow> 'd \<Rightarrow> string + 'd"
  rk_delete :: "column_family \<Rightarrow> bytes \<Rightarrow> 'd \<Rightarrow> string + 'd"
  rk_write :: "rocks_write list \<Rightarrow> 'd \<Rightarrow> string + 'd"
  rk_iter_end :: "column_family \<Rightarrow> 'd \<Rightarrow> (string + bytes \<times> bytes) list"

record rocks_codec =
  rc_ser_block :: "block \<Rightarrow> string + bytes"
  rc_de_block :: "bytes \<Rightarrow> string + block"
  rc_ser_transaction :: "transaction \<Rightarrow> string + bytes"
  rc_de_transaction :: "bytes \<Rightarrow> string + transaction"
  rc_ser_account :: "account \<Rightarrow> string + bytes"
  rc_de_account :: "bytes \<Rightarrow> string + account"

definition KEY_BLOCK_HEIGHT :: bytes where "KEY_BLOCK_HEIGHT = ascii ''block_height''"

definition KEY_TOTAL_BLOCKS :: bytes where "KEY_TOTAL_BLOCKS = ascii ''stats:total_blocks''"

definition KEY_TOTAL_TRANSACTIONS :: bytes where "KEY_TOTAL_TRANSACTIONS = ascii ''stats:total_transactions''"

definition rocks_result :: "string + 'a \<Rightarrow> 'a pacyte_result" where
  "rocks_result r = (case r of Inl msg \<Rightarrow> Inl (RocksDBError msg) | Inr x \<Rightarrow> Inr x)"

definition u64_of_bytes :: "bytes \<Rightarrow> u64 option" where
  "u64_of_bytes bs = (if length bs = 8 then Some (of_nat (le_nat bs)) else None)"

section \<open>The storage\<close>

record storage_stats =
  total_blocks :: u64
  total_transactions :: u64

record 'd rocksdb_storage =
  rdb :: 'd
  rdb_stats :: storage_stats
  rdb_block_cache :: "(block_height \<times> block) list"
  rdb_account_cache :: "(address \<times> account) list"

definition read_metadata :: "'d rocks_ops \<Rightarrow> bytes \<Rightarrow> 'd \<Rightarrow> u64 option" where
  "read_metadata D k d = (case rk_get D CfMetadata k d of Inr (Some bs) \<Rightarrow> u64_of_bytes bs | _ \<Rightarrow> None)"

definition rdb_update_stats :: "'d rocks_ops \<Rightarrow> 'd rocksdb_storage \<Rightarrow> 'd rocksdb_storage" where
  "rdb_update_stats D s =
     (let s1 = (case rk_get D CfDefault KEY_TOTAL_BLOCKS (rdb s) of
                  Inr (Some bs) \<Rightarrow> (case u64_of_bytes bs of Some n \<Rightarrow> s\<lparr>rdb_stats := (rdb_stats s)\<lparr>total_blocks := n\<rparr>\<rparr> | None \<Rightarrow> s)
                | _ \<Rightarrow> s)
      in case rk_get D CfDefault KEY_TOTAL_TRANSACTIONS (rdb s1) of
           Inr (Some bs) \<Rightarrow> (case u64_of_bytes bs of Some n \<Rightarrow> s1\<lparr>rdb_stats := (rdb_stats s1)\<lparr>total_transactions := n\<rparr>\<rparr> | None \<Rightarrow> s1)
         | _ \<Rightarrow> s1)"

definition rocksdb_new :: "'d rocks_ops \<Rightarrow> 'd \<Rightarrow> 'd rocksdb_storage" where
  "rocksdb_new D d =
     (let block_height = (case read_metadata D KEY_BLOCK_HEIGHT d of Some h \<Rightarrow> h | None \<Rightarrow> 0)
      in rdb_update_stats D \<lparr>rdb = d, rdb_stats = \<lparr>total_blocks = block_height + 1, total_transactions = 0\<rparr>,
           rdb_block_cache = [], rdb_account_cache = []\<rparr>)"

type_synonym ('a, 'd) rocks_call = "'a pacyte_result \<times> 'd rocksdb_storage"

definition put_cf :: "'d rocks_ops \<Rightarrow> column_family \<Rightarrow> bytes \<Rightarrow> bytes \<Rightarrow> 'd rocksdb_storage \<Rightarrow> (unit, 'd) rocks_call" where
  "put_cf D cf k v s =
     (case rk_put D cf k v (rdb s) of Inl msg \<Rightarrow> (Inl (RocksDBError msg), s) | Inr d \<Rightarrow> (Inr (), s\<lparr>rdb := d\<rparr>))"

definition write_metadata :: "'d rocks_ops \<Rightarrow> bytes \<Rightarrow> u64 \<Rightarrow> 'd rocksdb_storage \<Rightarrow> (unit, 'd) rocks_call" where
  "write_metadata D k v s = put_cf D CfMetadata k (le_bytes v) s"

definition increment_stat :: "'d rocks_ops \<Rightarrow> bytes \<Rightarrow> u64 \<Rightarrow> 'd rocksdb_storage \<Rightarrow> (unit, 'd) rocks_call" where
  "increment_stat D k delta s =
     (case rk_get D CfDefault k (rdb s) of
        Inl msg \<Rightarrow> (Inl (RocksDBError msg), s)
      | Inr r \<Rightarrow>
          (let current = (case Option.bind r u64_of_bytes of Some n \<Rightarrow> n | None \<Rightarrow> 0)
           in put_cf D CfDefault k (le_bytes (current + delta)) s))"

definition rdb_save_block :: "'d rocks_ops \<Rightarrow> rocks_codec \<Rightarrow> block \<Rightarrow> 'd rocksdb_storage \<Rightarrow> (unit, 'd) rocks_call" where
  "rdb_save_block D B b s =
     (let h = hdr_height (header b)
      in case rc_ser_block B b of
           Inl msg \<Rightarrow> (Inl (RocksDBError msg), s)
         | Inr v \<Rightarrow>
       case put_cf D CfBlocks (le_bytes h) v s of
           (Inl e, s1) \<Rightarrow> (Inl e, s1)
         | (Inr _, s1) \<Rightarrow>
       case write_metadata D KEY_BLOCK_HEIGHT h (s1\<lparr>rdb_block_cache := AList.update h b (rdb_block_cache s1)\<rparr>) of
           (Inl e, s2) \<Rightarrow> (Inl e, s2)
         | (Inr _, s2) \<Rightarrow>
       case increment_stat D KEY_TOTAL_BLOCKS 1 s2 of
           (Inl e, s3) \<Rightarrow> (Inl e, s3)
         | (Inr _, s3) \<Rightarrow> (Inr (), s3\<lparr>rdb_stats := (rdb_stats s3)\<lparr>total_blocks := h + 1\<rparr>\<rparr>))"

definition rdb_get_block ::
    "'d rocks_ops \<Rightarrow> rocks_codec \<Rightarrow> block_height \<Rightarrow> 'd rocksdb_storage \<Rightarrow> (block option, 'd) rocks_call" where
  "rdb_get_block D B h s =
     (case map_of (rdb_block_cache s) h of
        Some b \<Rightarrow> (Inr (Some b), s)
      | None \<Rightarrow>
          (case rk_get D CfBlocks (le_bytes h) (rdb s) of
             Inl msg \<Rightarrow> (Inl (RocksDBError msg), s)
           | Inr None \<Rightarrow> (Inr None, s)
           | Inr (Some bs) \<Rightarrow>
               (case rc_de_block B bs of
                  Inl msg \<Rightarrow> (Inl (RocksDBError msg), s)
                | Inr b \<Rightarrow> (Inr (Some b), s\<lparr>rdb_block_cache := AList.update h b (rdb_block_cache s)\<rparr>))))"

text \<open>The scan stops at the first error of the iterator.\<close>

fun scan_blocks :: "externals \<Rightarrow> rocks_codec \<Rightarrow> hash \<Rightarrow> (string + bytes \<times> bytes) list \<Rightarrow> block option" where
  "scan_blocks X B h (Inr (k, v) # es) =
     (case rc_de_block B v of
        Inr b \<Rightarrow> if block_hash X b = h then Some b else scan_blocks X B h es
      | Inl msg \<Rightarrow> scan_blocks X B h es)"
| "scan_blocks X B h es = None"

definition rdb_get_block_by_hash ::
    "externals \<Rightarrow> 'd rocks_ops \<Rightarrow> rocks_codec \<Rightarrow> hash \<Rightarrow> 'd rocksdb_storage \<Rightarrow> block option pacyte_result" where
  "rdb_get_block_by_hash X D B h s = Inr (scan_blocks X B h (rk_iter_end D CfBlocks (rdb s)))"

definition rdb_get_block_height :: "'d rocks_ops \<Rightarrow> 'd rocksdb_storage \<Rightarrow> block_height pacyte_result" where
  "rdb_get_block_height D s =
     (case rk_get D CfMetadata KEY_BLOCK_HEIGHT (rdb s) of
        Inl msg \<Rightarrow> Inl (RocksDBError msg)
      | Inr r \<Rightarrow> Inr (case Option.bind r u64_of_bytes of Some h \<Rightarrow> h | None \<Rightarrow> 0))"

definition rdb_account_exists :: "'d rocks_ops \<Rightarrow> address \<Rightarrow> 'd rocksdb_storage \<Rightarrow> bool pacyte_result" where
  "rdb_account_exists D a s =
     (if map_of (rdb_account_cache s) a \<noteq> None then Inr True
      else case rk_get D CfAccounts a (rdb s) of Inl msg \<Rightarrow> Inl (RocksDBError msg) | Inr r \<Rightarrow> Inr (r \<noteq> None))"

definition rdb_get_latest_block ::
    "'d rocks_ops \<Rightarrow> rocks_codec \<Rightarrow> 'd rocksdb_storage \<Rightarrow> (block option, 'd) rocks_call" where
  "rdb_get_latest_block D B s =
     (case rdb_get_block_height D s of
        Inl e \<Rightarrow> (Inl e, s)
      | Inr h \<Rightarrow>
          if h = 0
          then (case rdb_account_exists D zero32 s of
                  Inl e \<Rightarrow> (Inl e, s)
                | Inr False \<Rightarrow> (Inr None, s)
                | Inr True \<Rightarrow> rdb_get_block D B h s)
          else rdb_get_block D B h s)"

definition rdb_save_transaction ::
    "externals \<Rightarrow> 'd rocks_ops \<Rightarrow> rocks_codec \<Rightarrow> transaction \<Rightarrow> 'd rocksdb_storage \<Rightarrow> (unit, 'd) rocks_call" where
  "rdb_save_transaction X D B tx s =
     (case rc_ser_transaction B tx of
        Inl msg \<Rightarrow> (Inl (RocksDBError msg), s)
      | Inr v \<Rightarrow>
          (case put_cf D CfTransactions (tx_hash X tx) v s of
             (Inl e, s1) \<Rightarrow> (Inl e, s1)
           | (Inr _, s1) \<Rightarrow> increment_stat D KEY_TOTAL_TRANSACTIONS 1 s1))"

definition rdb_get_transaction ::
    "'d rocks_ops \<Rightarrow> rocks_codec \<Rightarrow> hash \<Rightarrow> 'd rocksdb_storage \<Rightarrow> transaction option pacyte_result" where
  "rdb_get_transaction D B h s =
     (case rk_get D CfTransactions h (rdb s) of
        Inl msg \<Rightarrow> Inl (RocksDBError msg)
      | Inr None \<Rightarrow> Inr None
      | Inr (Some bs) \<Rightarrow> (case rc_de_transaction B bs of Inl msg \<Rightarrow> Inl (RocksDBError msg) | Inr tx \<Rightarrow> Inr (Some tx)))"

definition rdb_get_transactions_by_block ::
    "'d rocks_ops \<Rightarrow> rocks_codec \<Rightarrow> block_height \<Rightarrow> 'd rocksdb_storage \<Rightarrow> (transaction list, 'd) rocks_call" where
  "rdb_get_transactions_by_block D B h s =
     (case rdb_get_block D B h s of
        (Inl e, s1) \<Rightarrow> (Inl e, s1)
      | (Inr (Some b), s1) \<Rightarrow> (Inr (transactions b), s1)
      | (Inr None, s1) \<Rightarrow> (Inr [], s1))"

definition rdb_save_account ::
    "'d rocks_ops \<Rightarrow> rocks_codec \<Rightarrow> address \<Rightarrow> account \<Rightarrow> 'd rocksdb_storage \<Rightarrow> (unit, 'd) rocks_call" where
  "rdb_save_account D B a acc s =
     (case rc_ser_account B acc of
        Inl msg \<Rightarrow> (Inl (RocksDBError msg), s)
      | Inr v \<Rightarrow>
          (case put_cf D CfAccounts a v s of
             (Inl e, s1) \<Rightarrow> (Inl e, s1)
           | (Inr _, s1) \<Rightarrow> (Inr (), s1\<lparr>rdb_account_cache := AList.update a acc (rdb_account_cache s1)\<rparr>)))"

definition rdb_get_account ::
    "'d rocks_ops \<Rightarrow> rocks_codec \<Rightarrow> address \<Rightarrow> 'd rocksdb_storage \<Rightarrow> (account option, 'd) rocks_call" where
  "rdb_get_account D B a s =
     (case map_of (rdb_account_cache s) a of
        Some acc \<Rightarrow> (Inr (Some acc), s)
      | None \<Rightarrow>
          (case rk_get D CfAccounts a (rdb s) of
             Inl msg \<Rightarrow> (Inl (RocksDBError msg), s)
           | Inr None \<Rightarrow> (Inr None, s)
           | Inr (Some bs) \<Rightarrow>
               (case rc_de_account B bs of
                  Inl msg \<Rightarrow> (Inl (RocksDBError msg), s)
                | Inr acc \<Rightarrow> (Inr (Some acc), s\<lparr>rdb_account_cache := AList.update a acc (rdb_account_cache s)\<rparr>))))"

definition rdb_delete_account :: "'d rocks_ops \<Rightarrow> address \<Rightarrow> 'd rocksdb_storage \<Rightarrow> (unit, 'd) rocks_call" where
  "rdb_delete_account D a s =
     (case rk_delete D CfAccounts a (rdb s) of
        Inl msg \<Rightarrow> (Inl (RocksDBError msg), s)
      | Inr d \<Rightarrow> (Inr (), s\<lparr>rdb := d, rdb_account_cache := AList.delete a (rdb_account_cache s)\<rparr>))"

definition rdb_save_state_root :: "'d rocks_ops \<Rightarrow> block_height \<Rightarrow> hash \<Rightarrow> 'd rocksdb_storage \<Rightarrow> (unit, 'd) rocks_call" where
  "rdb_save_state_root D h rt s = put_cf D CfStateRoots (le_bytes h) rt s"

definition rdb_get_state_root :: "'d rocks_ops \<Rightarrow> block_height \<Rightarrow> 'd rocksdb_storage \<Rightarrow> hash option pacyte_result" where
  "rdb_get_state_root D h s =
     (case rk_get D CfStateRoots (le_bytes h) (rdb s) of
        Inl msg \<Rightarrow> Inl (RocksDBError msg)
      | Inr None \<Rightarrow> Inr None
      | Inr (Some bs) \<Rightarrow> if length bs = 32 then Inr (Some bs) else Inl (RocksDBError ''Invalid state root length''))"

text \<open>The writes of a batch; the first value that cannot be encoded fails the whole batch.\<close>

fun encode_all :: "('a \<Rightarrow> string + rocks_write) \<Rightarrow> 'a list \<Rightarrow> string + rocks_write list" where
  "encode_all f [] = Inr []"
| "encode_all f (x # xs) =
     (case f x of
        Inl msg \<Rightarrow> Inl msg
      | Inr w \<Rightarrow> (case encode_all f xs of Inl msg \<Rightarrow> Inl msg | Inr ws \<Rightarrow> Inr (w # ws)))"

definition encode_block :: "rocks_codec \<Rightarrow> block_height \<times> block \<Rightarrow> string + rocks_write" where
  "encode_block B = (\<lambda>(h, b). case rc_ser_block B b of Inl msg \<Rightarrow> Inl msg | Inr v \<Rightarrow> Inr (RwPut CfBlocks (le_bytes h) v))"

definition encode_transaction :: "rocks_codec \<Rightarrow> hash \<times> transaction \<Rightarrow> string + rocks_write" where
  "encode_transaction B = (\<lambda>(h, tx). case rc_ser_transaction B tx of Inl msg \<Rightarrow> Inl msg | Inr v \<Rightarrow> Inr (RwPut CfTransactions h v))"

definition encode_account :: "rocks_codec \<Rightarrow> address \<times> account option \<Rightarrow> string + rocks_write" where
  "encode_account B = (\<lambda>(a, acc). case acc of
        Some x \<Rightarrow> (case rc_ser_account B x of Inl msg \<Rightarrow> Inl msg | Inr v \<Rightarrow> Inr (RwPut CfAccounts a v))
      | None \<Rightarrow> Inr (RwDelete CfAccounts a))"

definition encode_root :: "block_height \<times> hash \<Rightarrow> string + rocks_write" where
  "encode_root = (\<lambda>(h, rt). Inr (RwPut CfStateRoots (le_bytes h) rt))"

definition encode_batch :: "rocks_codec \<Rightarrow> write_batch \<Rightarrow> string + rocks_write list" where
  "encode_batch B b =
     (case encode_all (encode_block B) (wb_blocks b) of Inl msg \<Rightarrow> Inl msg | Inr ws1 \<Rightarrow>
      case encode_all (encode_transaction B) (wb_transactions b) of Inl msg \<Rightarrow> Inl msg | Inr ws2 \<Rightarrow>
      case encode_all (encode_account B) (wb_accounts b) of Inl msg \<Rightarrow> Inl msg | Inr ws3 \<Rightarrow>
      case encode_all encode_root (wb_state_roots b) of Inl msg \<Rightarrow> Inl msg | Inr ws4 \<Rightarrow> Inr (ws1 @ ws2 @ ws3 @ ws4))"

definition cache_account :: "address \<times> account option \<Rightarrow> (address \<times> account) list \<Rightarrow> (address \<times> account) list" where
  "cache_account e c = (case e of (a, Some acc) \<Rightarrow> AList.update a acc c | (a, None) \<Rightarrow> AList.delete a c)"

definition rdb_write_batch :: "'d rocks_ops \<Rightarrow> rocks_codec \<Rightarrow> write_batch \<Rightarrow> 'd rocksdb_storage \<Rightarrow> (unit, 'd) rocks_call" where
  "rdb_write_batch D B b s =
     (case encode_batch B b of
        Inl msg \<Rightarrow> (Inl (RocksDBError msg), s)
      | Inr ws \<Rightarrow>
          (case rk_write D ws (rdb s) of
             Inl msg \<Rightarrow> (Inl (RocksDBError msg), s)
           | Inr d \<Rightarrow>
               (Inr (), s\<lparr>rdb := d,
                  rdb_block_cache := fold (\<lambda>(h, blk). AList.update h blk) (wb_blocks b) (rdb_block_cache s),
                  rdb_account_cache := fold cache_account (wb_accounts b) (rdb_account_cache s)\<rparr>)))"

definition rdb_restore_from_snapshot :: "unit pacyte_result" where
  "rdb_restore_from_snapshot = Inl (NotImplemented ''Restore requires restart'')"

definition rdb_close :: "'d rocksdb_storage \<Rightarrow> 'd rocksdb_storage" where
  "rdb_close s = s\<lparr>rdb_block_cache := [], rdb_account_cache := []\<rparr>"

text \<open>
  The trait object. Its reads drop the filling of the caches, which changes no answer
  (\<open>get_account_transparent\<close> below), and its failed writes the state, as the record has no place for it.
\<close>

definition state_of :: "unit pacyte_result \<times> 's \<Rightarrow> 's pacyte_result" where
  "state_of r = (case r of (Inl e, s) \<Rightarrow> Inl e | (Inr _, s) \<Rightarrow> Inr s)"

definition rocksdb_ops :: "externals \<Rightarrow> 'd rocks_ops \<Rightarrow> rocks_codec \<Rightarrow> 'd rocksdb_storage storage_ops" where
  "rocksdb_ops X D B =
     \<lparr>so_save_block = (\<lambda>b s. state_of (rdb_save_block D B b s)),
      so_get_block = (\<lambda>h s. fst (rdb_get_block D B h s)),
      so_get_block_by_hash = (\<lambda>h s. rdb_get_block_by_hash X D B h s),
      so_get_transaction = (\<lambda>h s. rdb_get_transaction D B h s),
      so_get_latest_block = (\<lambda>s. fst (rdb_get_latest_block D B s)),
      so_get_block_height = rdb_get_block_height D,
      so_get_account = (\<lambda>a s. fst (rdb_get_account D B a s)),
      so_save_account = (\<lambda>a acc s. state_of (rdb_save_account D B a acc s)),
      so_account_exists = rdb_account_exists D,
      so_save_state_root = (\<lambda>h r s. state_of (rdb_save_state_root D h r s)),
      so_get_state_root = rdb_get_state_root D,
      so_write_batch = (\<lambda>b s. state_of (rdb_write_batch D B b s))\<rparr>"

section \<open>What is stored\<close>

fun apply_write :: "rocks_write \<Rightarrow> (column_family \<times> bytes \<rightharpoonup> bytes) \<Rightarrow> (column_family \<times> bytes \<rightharpoonup> bytes)" where
  "apply_write (RwPut cf k v) m = m((cf, k) \<mapsto> v)"
| "apply_write (RwDelete cf k) m = m((cf, k) := None)"

fun cf_of :: "rocks_write \<Rightarrow> column_family" where
  "cf_of (RwPut cf k v) = cf"
| "cf_of (RwDelete cf k) = cf"

definition decoded :: "(bytes \<Rightarrow> string + 'a) \<Rightarrow> bytes option \<Rightarrow> 'a option" where
  "decoded de r = (case r of Some bs \<Rightarrow> (case de bs of Inr x \<Rightarrow> Some x | Inl msg \<Rightarrow> None) | None \<Rightarrow> None)"

definition db_account :: "rocks_codec \<Rightarrow> (column_family \<times> bytes \<rightharpoonup> bytes) \<Rightarrow> address \<rightharpoonup> account" where
  "db_account B m a = decoded (rc_de_account B) (m (CfAccounts, a))"

definition db_block :: "rocks_codec \<Rightarrow> (column_family \<times> bytes \<rightharpoonup> bytes) \<Rightarrow> block_height \<rightharpoonup> block" where
  "db_block B m h = decoded (rc_de_block B) (m (CfBlocks, le_bytes h))"

definition through :: "('k \<times> 'v) list \<Rightarrow> ('k \<rightharpoonup> 'v) \<Rightarrow> 'k \<rightharpoonup> 'v" where
  "through c f k = (case map_of c k of Some v \<Rightarrow> Some v | None \<Rightarrow> f k)"

definition coherent :: "('k \<times> 'v) list \<Rightarrow> ('k \<rightharpoonup> 'v) \<Rightarrow> bool" where
  "coherent c f \<longleftrightarrow> (\<forall>k v. map_of c k = Some v \<longrightarrow> f k = Some v)"

definition rocks_accounts :: "('d \<Rightarrow> column_family \<times> bytes \<rightharpoonup> bytes) \<Rightarrow> rocks_codec \<Rightarrow> 'd rocksdb_storage \<Rightarrow> address \<rightharpoonup> account" where
  "rocks_accounts content B s = through (rdb_account_cache s) (db_account B (content (rdb s)))"

definition rocks_blocks :: "('d \<Rightarrow> column_family \<times> bytes \<rightharpoonup> bytes) \<Rightarrow> rocks_codec \<Rightarrow> 'd rocksdb_storage \<Rightarrow> block_height \<rightharpoonup> block" where
  "rocks_blocks content B s = through (rdb_block_cache s) (db_block B (content (rdb s)))"

definition rocks_roots :: "('d \<Rightarrow> column_family \<times> bytes \<rightharpoonup> bytes) \<Rightarrow> 'd rocksdb_storage \<Rightarrow> block_height \<rightharpoonup> hash" where
  "rocks_roots content s h = content (rdb s) (CfStateRoots, le_bytes h)"

definition codec_law :: "rocks_codec \<Rightarrow> bool" where
  "codec_law B \<longleftrightarrow>
     (\<forall>b v. rc_ser_block B b = Inr v \<longrightarrow> rc_de_block B v = Inr b) \<and>
     (\<forall>acc v. rc_ser_account B acc = Inr v \<longrightarrow> rc_de_account B v = Inr acc)"

definition caches_ok :: "('d \<Rightarrow> column_family \<times> bytes \<rightharpoonup> bytes) \<Rightarrow> rocks_codec \<Rightarrow> 'd rocksdb_storage \<Rightarrow> bool" where
  "caches_ok content B s \<longleftrightarrow>
     coherent (rdb_account_cache s) (db_account B (content (rdb s))) \<and> coherent (rdb_block_cache s) (db_block B (content (rdb s)))"

lemma through_coherent: "coherent c f \<Longrightarrow> through c f = f"
  by (rule ext) (simp add: through_def coherent_def split: option.split)

lemma coherent_update: "coherent c f \<Longrightarrow> coherent (AList.update k v c) (f(k \<mapsto> v))"
  unfolding coherent_def by simp

lemma coherent_fill: "coherent c f \<Longrightarrow> f k = Some v \<Longrightarrow> coherent (AList.update k v c) f"
  unfolding coherent_def by simp

lemma coherent_delete: "coherent c f \<Longrightarrow> coherent (AList.delete k c) (f(k := None))"
  unfolding coherent_def by simp

lemma coherent_Nil [simp]: "coherent [] f"
  by (simp add: coherent_def)

lemma apply_writes_other: "list_all (\<lambda>w. cf_of w \<noteq> cf) ws \<Longrightarrow> fold apply_write ws m (cf, k) = m (cf, k)"
proof (induction ws arbitrary: m)
  case (Cons w ws)
  then show ?case by (cases w) auto
qed simp

lemma encode_all_list_all: "encode_all f xs = Inr ws \<Longrightarrow> (\<And>x w. f x = Inr w \<Longrightarrow> P w) \<Longrightarrow> list_all P ws"
  by (induction xs arbitrary: ws) (auto split: sum.splits)

lemma encode_all_cf:
  "encode_all (encode_block B) bs = Inr ws1 \<Longrightarrow> list_all (\<lambda>w. cf_of w = CfBlocks) ws1"
  "encode_all (encode_transaction B) ts = Inr ws2 \<Longrightarrow> list_all (\<lambda>w. cf_of w = CfTransactions) ws2"
  "encode_all (encode_account B) es = Inr ws3 \<Longrightarrow> list_all (\<lambda>w. cf_of w = CfAccounts) ws3"
  "encode_all encode_root rs = Inr ws4 \<Longrightarrow> list_all (\<lambda>w. cf_of w = CfStateRoots) ws4"
  by (erule encode_all_list_all,
      auto simp: encode_block_def encode_transaction_def encode_account_def encode_root_def split: sum.splits option.splits)+

lemma account_writes:
  assumes "encode_all (encode_account B) es = Inr ws"
  shows "through (fold cache_account es c) (db_account B (fold apply_write ws m)) = apply_entries es (through c (db_account B m))"
  using assms
proof (induction es arbitrary: c m ws)
  case (Cons e es)
  obtain a x where e: "e = (a, x)" by (cases e)
  from Cons.prems obtain w ws' where w: "encode_account B e = Inr w" "encode_all (encode_account B) es = Inr ws'" "ws = w # ws'"
    by (auto split: sum.splits)
  have step: "through (cache_account e c) (db_account B (apply_write w m)) = (through c (db_account B m))(a := x)"
  proof
    fix b
    show "through (cache_account e c) (db_account B (apply_write w m)) b = ((through c (db_account B m))(a := x)) b"
      using w(1) by (auto simp: e encode_account_def cache_account_def through_def db_account_def decoded_def split: option.splits sum.splits)
  qed
  show ?case
    using Cons.IH [OF w(2), of "cache_account e c" "apply_write w m"] unfolding step
    by (simp only: e w(3) fold_Cons o_apply apply_entries.simps)
qed simp

lemma account_writes_coherent:
  assumes "encode_all (encode_account B) es = Inr ws" "codec_law B" "coherent c (db_account B m)"
  shows "coherent (fold cache_account es c) (db_account B (fold apply_write ws m))"
  using assms(1,3)
proof (induction es arbitrary: c m ws)
  case (Cons e es)
  obtain a x where e: "e = (a, x)" by (cases e)
  from Cons.prems obtain w ws' where w: "encode_account B e = Inr w" "encode_all (encode_account B) es = Inr ws'" "ws = w # ws'"
    by (auto split: sum.splits)
  have "db_account B (apply_write w m) = (db_account B m)(a := x)"
  proof
    fix b
    show "db_account B (apply_write w m) b = ((db_account B m)(a := x)) b"
      using w(1) assms(2) unfolding codec_law_def
      by (cases x; cases "b = a") (auto simp: e encode_account_def db_account_def decoded_def split: sum.splits)
  qed
  then have "coherent (cache_account e c) (db_account B (apply_write w m))"
    using coherent_update [OF Cons.prems(2), of a] coherent_delete [OF Cons.prems(2), of a]
    by (auto simp: e cache_account_def split: option.split)
  with Cons.IH [OF w(2)] show ?case by (simp add: w(3))
qed simp

lemma block_writes_coherent:
  assumes "encode_all (encode_block B) bs = Inr ws" "codec_law B" "coherent c (db_block B m)"
  shows "coherent (fold (\<lambda>(h, blk). AList.update h blk) bs c) (db_block B (fold apply_write ws m))"
  using assms(1,3)
proof (induction bs arbitrary: c m ws)
  case (Cons e es)
  obtain h blk where e: "e = (h, blk)" by (cases e)
  from Cons.prems obtain w ws' where w: "encode_block B e = Inr w" "encode_all (encode_block B) es = Inr ws'" "ws = w # ws'"
    by (auto split: sum.splits)
  have "db_block B (apply_write w m) = (db_block B m)(h \<mapsto> blk)"
  proof
    fix g
    show "db_block B (apply_write w m) g = ((db_block B m)(h \<mapsto> blk)) g"
      using w(1) assms(2) unfolding codec_law_def
      by (cases "g = h") (auto simp: e encode_block_def db_block_def decoded_def split: sum.splits)
  qed
  then have "coherent (AList.update h blk c) (db_block B (apply_write w m))"
    using coherent_update [OF Cons.prems(2), of h] by simp
  with Cons.IH [OF w(2)] show ?case by (simp add: w(3) e)
qed simp

lemma block_writes:
  assumes "encode_all (encode_block B) bs = Inr ws"
  shows "through (fold (\<lambda>(h, blk). AList.update h blk) bs c) (db_block B (fold apply_write ws m)) = put_blocks bs (through c (db_block B m))"
  using assms
proof (induction bs arbitrary: c m ws)
  case (Cons e es)
  obtain h blk where e: "e = (h, blk)" by (cases e)
  from Cons.prems obtain w ws' where w: "encode_block B e = Inr w" "encode_all (encode_block B) es = Inr ws'" "ws = w # ws'"
    by (auto split: sum.splits)
  have step: "through (AList.update h blk c) (db_block B (apply_write w m)) = (through c (db_block B m))(h \<mapsto> blk)"
  proof
    fix g
    show "through (AList.update h blk c) (db_block B (apply_write w m)) g = ((through c (db_block B m))(h \<mapsto> blk)) g"
      using w(1) by (cases "g = h"; cases "map_of c g") (auto simp: e encode_block_def through_def db_block_def split: sum.splits)
  qed
  show ?case
    using Cons.IH [OF w(2), of "AList.update h blk c" "apply_write w m"] unfolding step
    by (simp only: e w(3) fold_Cons o_apply prod.case put_blocks_simps fst_conv snd_conv)
qed simp

lemma root_writes:
  "encode_all encode_root rs = Inr ws \<Longrightarrow>
   (\<lambda>h. fold apply_write ws m (CfStateRoots, le_bytes h)) = apply_roots rs (\<lambda>h. m (CfStateRoots, le_bytes h))"
proof (induction rs arbitrary: m ws)
  case (Cons e es)
  obtain h rt where e: "e = (h, rt)" by (cases e)
  from Cons.prems obtain ws' where w: "encode_all encode_root es = Inr ws'" "ws = RwPut CfStateRoots (le_bytes h) rt # ws'"
    by (auto simp: e encode_root_def split: sum.splits)
  have step: "(\<lambda>g. (m((CfStateRoots, le_bytes h) \<mapsto> rt)) (CfStateRoots, le_bytes g)) = (\<lambda>g. m (CfStateRoots, le_bytes g))(h \<mapsto> rt)"
    by (rule ext) simp
  show ?case
    using Cons.IH [OF w(1), of "m((CfStateRoots, le_bytes h) \<mapsto> rt)"] unfolding step
    by (simp only: e w(2) fold_Cons o_apply apply_write.simps apply_roots.simps)
qed simp

section \<open>The promises of the database\<close>

locale rocks_db =
  fixes D :: "'d rocks_ops"
    and content :: "'d \<Rightarrow> column_family \<times> bytes \<rightharpoonup> bytes"
  assumes db_get: "rk_get D cf k d = Inr r \<Longrightarrow> r = content d (cf, k)"
    and db_put: "rk_put D cf k v d = Inr d' \<Longrightarrow> content d' = (content d)((cf, k) \<mapsto> v)"
    and db_delete: "rk_delete D cf k d = Inr d' \<Longrightarrow> content d' = (content d)((cf, k) := None)"
    and db_write: "rk_write D ws d = Inr d' \<Longrightarrow> content d' = fold apply_write ws (content d)"
begin

lemma put_cf_cases:
  assumes "put_cf D cf k v s = (r, s')"
  obtains e where "r = Inl e" "s' = s"
    | d where "r = Inr ()" "s' = s\<lparr>rdb := d\<rparr>" "content d = (content (rdb s))((cf, k) \<mapsto> v)"
  using assms db_put by (auto simp: put_cf_def split: sum.splits)

lemma caches_ok_rdb:
  assumes "caches_ok content B s" "db_account B (content d) = db_account B (content (rdb s))" "db_block B (content d) = db_block B (content (rdb s))"
  shows "caches_ok content B (s\<lparr>rdb := d\<rparr>)"
  using assms by (simp add: caches_ok_def)

lemma put_other_ok:
  assumes "caches_ok content B s" "put_cf D cf k v s = (r, s')" "cf \<noteq> CfAccounts" "cf \<noteq> CfBlocks"
  shows "caches_ok content B s'"
  using assms(2)
proof (cases rule: put_cf_cases)
  case (2 d)
  then have "db_account B (content d) = db_account B (content (rdb s))" "db_block B (content d) = db_block B (content (rdb s))"
    using assms(3,4) by (auto simp: db_account_def db_block_def fun_eq_iff)
  with assms(1) show ?thesis unfolding 2(2) by (rule caches_ok_rdb)
qed (use assms(1) in simp)

lemma increment_ok:
  assumes "caches_ok content B s" "increment_stat D k n s = (r, s')"
  shows "caches_ok content B s'"
  using assms put_other_ok [OF assms(1), of CfDefault k _ r s']
  by (auto simp: increment_stat_def Let_def split: sum.splits)

lemma save_account_ok:
  assumes "codec_law B" "caches_ok content B s" "rdb_save_account D B a acc s = (r, s')"
  shows "caches_ok content B s'" "r = Inr () \<Longrightarrow> rocks_accounts content B s' = (rocks_accounts content B s)(a \<mapsto> acc)"
proof -
  have "caches_ok content B s' \<and> (r = Inr () \<longrightarrow> rocks_accounts content B s' = (rocks_accounts content B s)(a \<mapsto> acc))"
  proof (cases "rc_ser_account B acc")
    case (Inl msg)
    then show ?thesis using assms by (auto simp: rdb_save_account_def)
  next
    case (Inr v)
    obtain r1 s1 where p: "put_cf D CfAccounts a v s = (r1, s1)" by fastforce
    from p show ?thesis
    proof (cases rule: put_cf_cases)
      case (1 e)
      then show ?thesis using assms Inr p by (auto simp: rdb_save_account_def)
    next
      case (2 d)
      have de: "rc_de_account B v = Inr acc" using assms(1) Inr by (simp add: codec_law_def)
      have "db_account B (content d) b = ((db_account B (content (rdb s)))(a \<mapsto> acc)) b" for b
        using de by (cases "b = a") (simp_all add: 2(3) db_account_def decoded_def)
      then have acc: "db_account B (content d) = (db_account B (content (rdb s)))(a \<mapsto> acc)" by blast
      have blk: "db_block B (content d) = db_block B (content (rdb s))" by (rule ext) (simp add: 2(3) db_block_def)
      have s': "r = Inr ()" "s' = s\<lparr>rdb := d, rdb_account_cache := AList.update a acc (rdb_account_cache s)\<rparr>"
        using assms(3) Inr p 2 by (simp_all add: rdb_save_account_def)
      have ok: "caches_ok content B s'"
        using assms(2) coherent_update [of "rdb_account_cache s" _ a acc] by (simp add: s' caches_ok_def acc blk)
      then have "rocks_accounts content B s' = db_account B (content d)"
        by (simp add: caches_ok_def rocks_accounts_def through_coherent s')
      moreover have "rocks_accounts content B s = db_account B (content (rdb s))"
        using assms(2) by (simp add: caches_ok_def rocks_accounts_def through_coherent)
      ultimately show ?thesis using ok acc by simp
    qed
  qed
  then show "caches_ok content B s'" "r = Inr () \<Longrightarrow> rocks_accounts content B s' = (rocks_accounts content B s)(a \<mapsto> acc)" by blast+
qed

lemma get_account_transparent:
  assumes "caches_ok content B s" "rdb_get_account D B a s = (r, s')"
  shows "caches_ok content B s'" "rocks_accounts content B s' = rocks_accounts content B s" "r = Inr x \<Longrightarrow> x = rocks_accounts content B s a"
proof -
  have "caches_ok content B s' \<and> rocks_accounts content B s' = rocks_accounts content B s \<and> (\<forall>x. r = Inr x \<longrightarrow> x = rocks_accounts content B s a)"
  proof (cases "map_of (rdb_account_cache s) a")
    case (Some acc)
    then show ?thesis using assms by (auto simp: rdb_get_account_def rocks_accounts_def through_def)
  next
    case None
    show ?thesis
    proof (cases "rk_get D CfAccounts a (rdb s)")
      case (Inl msg)
      then show ?thesis using assms None by (auto simp: rdb_get_account_def)
    next
      case (Inr ob)
      then have ob: "ob = content (rdb s) (CfAccounts, a)" by (rule db_get)
      show ?thesis
      proof (cases "\<exists>bs acc. ob = Some bs \<and> rc_de_account B bs = Inr acc")
        case True
        then obtain bs acc where bs: "ob = Some bs" "rc_de_account B bs = Inr acc" by blast
        then have acc: "db_account B (content (rdb s)) a = Some acc" using ob by (simp add: db_account_def decoded_def)
        have r: "r = Inr (Some acc)" "s' = s\<lparr>rdb_account_cache := AList.update a acc (rdb_account_cache s)\<rparr>"
          using assms(2) None Inr bs by (auto simp: rdb_get_account_def)
        have "rocks_accounts content B s' b = rocks_accounts content B s b" for b
          using acc None by (cases "b = a") (simp_all add: r rocks_accounts_def through_def)
        moreover have "caches_ok content B s'"
          using assms(1) coherent_fill [of "rdb_account_cache s" _ a acc] acc by (simp add: r caches_ok_def)
        moreover have "rocks_accounts content B s a = Some acc" using acc None by (simp add: rocks_accounts_def through_def)
        ultimately show ?thesis using r(1) by auto
      next
        case False
        then show ?thesis using assms None Inr ob
          by (auto simp: rdb_get_account_def rocks_accounts_def through_def db_account_def decoded_def split: option.splits sum.splits)
      qed
    qed
  qed
  then show "caches_ok content B s'" "rocks_accounts content B s' = rocks_accounts content B s" "r = Inr x \<Longrightarrow> x = rocks_accounts content B s a"
    by blast+
qed

lemma views:
  "caches_ok content B s \<Longrightarrow> rocks_accounts content B s = db_account B (content (rdb s))"
  "caches_ok content B s \<Longrightarrow> rocks_blocks content B s = db_block B (content (rdb s))"
  by (simp_all add: caches_ok_def rocks_accounts_def rocks_blocks_def through_coherent)

lemma reopen_views:
  "caches_ok content B (rocksdb_new D d)" "rdb (rocksdb_new D d) = d"
  by (simp_all add: rocksdb_new_def rdb_update_stats_def Let_def caches_ok_def split: sum.splits option.splits)

lemma delete_account_ok:
  assumes "caches_ok content B s" "rdb_delete_account D a s = (r, s')"
  shows "caches_ok content B s'"
proof (cases "rk_delete D CfAccounts a (rdb s)")
  case (Inr d)
  have "content d = (content (rdb s))((CfAccounts, a) := None)" using Inr by (rule db_delete)
  then have "db_account B (content d) = (db_account B (content (rdb s)))(a := None)" "db_block B (content d) = db_block B (content (rdb s))"
    by (auto simp: db_account_def db_block_def decoded_def fun_eq_iff)
  then show ?thesis using assms Inr coherent_delete [of "rdb_account_cache s"] by (auto simp: rdb_delete_account_def caches_ok_def)
qed (use assms in \<open>auto simp: rdb_delete_account_def\<close>)

lemma get_block_transparent:
  assumes "caches_ok content B s" "rdb_get_block D B h s = (r, s')"
  shows "caches_ok content B s' \<and> rdb s' = rdb s \<and> (\<forall>x. r = Inr x \<longrightarrow> x = rocks_blocks content B s h)"
proof (cases "map_of (rdb_block_cache s) h")
  case (Some b)
  then show ?thesis using assms by (auto simp: rdb_get_block_def rocks_blocks_def through_def)
next
  case None
  have v: "rocks_blocks content B s h = db_block B (content (rdb s)) h" by (simp add: rocks_blocks_def through_def None)
  show ?thesis
  proof (cases "rk_get D CfBlocks (le_bytes h) (rdb s)")
    case (Inl msg)
    then show ?thesis using assms None by (auto simp: rdb_get_block_def)
  next
    case (Inr ob)
    then have ob: "ob = content (rdb s) (CfBlocks, le_bytes h)" by (rule db_get)
    show ?thesis
    proof (cases "db_block B (content (rdb s)) h")
      case None
      then show ?thesis using assms \<open>map_of (rdb_block_cache s) h = None\<close> Inr ob v
        by (auto simp: rdb_get_block_def db_block_def decoded_def split: option.splits sum.splits)
    next
      case (Some b)
      then have "r = Inr (Some b) \<and> s' = s\<lparr>rdb_block_cache := AList.update h b (rdb_block_cache s)\<rparr>"
        using assms(2) None Inr ob by (auto simp: rdb_get_block_def db_block_def decoded_def split: option.splits sum.splits)
      then show ?thesis using assms(1) coherent_fill [where k = h and v = b and f = "db_block B (content (rdb s))"] v Some by (auto simp: caches_ok_def)
    qed
  qed
qed

lemma save_block_ok:
  assumes "codec_law B" "caches_ok content B s" "rdb_save_block D B b s = (r, s')"
  shows "caches_ok content B s' \<and> (r = Inr () \<longrightarrow>
    rocks_blocks content B s' = (rocks_blocks content B s)(hdr_height (header b) \<mapsto> b) \<and>
    content (rdb s') (CfMetadata, KEY_BLOCK_HEIGHT) = Some (le_bytes (hdr_height (header b))))"
proof (cases "rc_ser_block B b")
  case (Inl msg)
  then show ?thesis using assms by (auto simp: rdb_save_block_def)
next
  case (Inr v)
  let ?h = "hdr_height (header b)"
  obtain r1 s1 where p: "put_cf D CfBlocks (le_bytes ?h) v s = (r1, s1)" by fastforce
  from p show ?thesis
  proof (cases rule: put_cf_cases)
    case (1 e)
    then show ?thesis using assms Inr p by (auto simp: rdb_save_block_def)
  next
    case (2 d)
    have de: "rc_de_block B v = Inr b" using assms(1) Inr by (simp add: codec_law_def)
    have "db_block B (content d) g = ((db_block B (content (rdb s)))(?h \<mapsto> b)) g" for g
      using de by (cases "g = ?h") (simp_all add: 2(3) db_block_def decoded_def)
    then have blk: "db_block B (content d) = (db_block B (content (rdb s)))(?h \<mapsto> b)" by blast
    have acc: "db_account B (content d) = db_account B (content (rdb s))" by (rule ext) (simp add: 2(3) db_account_def)
    let ?s1 = "s1\<lparr>rdb_block_cache := AList.update ?h b (rdb_block_cache s1)\<rparr>"
    have ok1: "caches_ok content B ?s1"
      using assms(2) coherent_update [of "rdb_block_cache s" _ ?h b] by (simp add: 2(2) caches_ok_def acc blk)
    obtain r2 s2 where m: "put_cf D CfMetadata KEY_BLOCK_HEIGHT (le_bytes ?h) ?s1 = (r2, s2)" by fastforce
    obtain r3 s3 where i: "increment_stat D KEY_TOTAL_BLOCKS 1 s2 = (r3, s3)" by fastforce
    have ok2: "caches_ok content B s2" using put_other_ok [OF ok1 m] by simp
    then have ok3: "caches_ok content B s3" using increment_ok i by blast
    have s': "s' = s2 \<or> s' = s3 \<or> s' = s3\<lparr>rdb_stats := (rdb_stats s3)\<lparr>total_blocks := ?h + 1\<rparr>\<rparr>"
      "r = Inr () \<longrightarrow> r2 = Inr () \<and> r3 = Inr () \<and> s' = s3\<lparr>rdb_stats := (rdb_stats s3)\<lparr>total_blocks := ?h + 1\<rparr>\<rparr>"
      using assms(3) Inr p 2(1) m i by (auto simp: rdb_save_block_def write_metadata_def split: sum.splits)
    then have ok': "caches_ok content B s'" using ok2 ok3 by (auto simp: caches_ok_def)
    show ?thesis
    proof (intro conjI impI)
      show "caches_ok content B s'" by (rule ok')
      assume "r = Inr ()"
      then have r: "r2 = Inr ()" "r3 = Inr ()" "rdb s' = rdb s3" using s'(2) by auto
      obtain d2 where d2: "rdb s2 = d2" "content d2 = (content (rdb ?s1))((CfMetadata, KEY_BLOCK_HEIGHT) \<mapsto> le_bytes ?h)"
        using m r(1) by (auto elim: put_cf_cases)
      obtain w where "put_cf D CfDefault KEY_TOTAL_BLOCKS w s2 = (r3, s3)"
        using i r(2) by (auto simp: increment_stat_def Let_def split: sum.splits)
      then have d3: "content (rdb s3) = (content d2)((CfDefault, KEY_TOTAL_BLOCKS) \<mapsto> w)" using r(2) d2(1) by (auto elim!: put_cf_cases)
      have "db_block B (content (rdb s')) = (db_block B (content (rdb s)))(?h \<mapsto> b)"
        unfolding blk [symmetric] by (rule ext) (simp add: r(3) d3 d2(2) db_block_def 2(2))
      then show "rocks_blocks content B s' = (rocks_blocks content B s)(?h \<mapsto> b)"
        by (simp add: views(2) [OF ok'] views(2) [OF assms(2)])
      show "content (rdb s') (CfMetadata, KEY_BLOCK_HEIGHT) = Some (le_bytes ?h)" by (simp add: r(3) d3 d2(2))
    qed
  qed
qed

lemma batch_parts:
  assumes "rdb_write_batch D B b s = (Inr (), s')"
  obtains ws1 ws3 d m2 where "encode_all (encode_block B) (wb_blocks b) = Inr ws1" "encode_all (encode_account B) (wb_accounts b) = Inr ws3"
    "db_account B (content d) = db_account B (fold apply_write ws3 m2)" "db_account B m2 = db_account B (content (rdb s))"
    "db_block B (content d) = db_block B (fold apply_write ws1 (content (rdb s)))"
    "(\<lambda>h. content d (CfStateRoots, le_bytes h)) = apply_roots (wb_state_roots b) (\<lambda>h. content (rdb s) (CfStateRoots, le_bytes h))"
    "content d (CfMetadata, KEY_BLOCK_HEIGHT) = content (rdb s) (CfMetadata, KEY_BLOCK_HEIGHT)"
    "s' = s\<lparr>rdb := d, rdb_block_cache := fold (\<lambda>(h, blk). AList.update h blk) (wb_blocks b) (rdb_block_cache s),
        rdb_account_cache := fold cache_account (wb_accounts b) (rdb_account_cache s)\<rparr>"
proof -
  obtain ws d where d: "encode_batch B b = Inr ws" "rk_write D ws (rdb s) = Inr d"
    "s' = s\<lparr>rdb := d, rdb_block_cache := fold (\<lambda>(h, blk). AList.update h blk) (wb_blocks b) (rdb_block_cache s),
        rdb_account_cache := fold cache_account (wb_accounts b) (rdb_account_cache s)\<rparr>"
    using assms by (auto simp: rdb_write_batch_def split: sum.splits)
  then obtain ws1 ws2 ws3 ws4 where ws: "encode_all (encode_block B) (wb_blocks b) = Inr ws1"
    "encode_all (encode_transaction B) (wb_transactions b) = Inr ws2" "encode_all (encode_account B) (wb_accounts b) = Inr ws3"
    "encode_all encode_root (wb_state_roots b) = Inr ws4" "ws = ws1 @ ws2 @ ws3 @ ws4"
    by (auto simp: encode_batch_def split: sum.splits)
  note cf = encode_all_cf(1) [OF ws(1)] encode_all_cf(2) [OF ws(2)] encode_all_cf(3) [OF ws(3)] encode_all_cf(4) [OF ws(4)]
  have other: "fold apply_write us m (cf, k) = m (cf, k)" if "list_all (\<lambda>w. cf_of w = cf') us" "cf \<noteq> cf'" for us m cf cf' k
    using that by (intro apply_writes_other) (auto simp: list_all_iff)
  let ?m = "content (rdb s)"
  let ?m1 = "fold apply_write ws1 ?m"
  let ?m2 = "fold apply_write ws2 ?m1"
  let ?m3 = "fold apply_write ws3 ?m2"
  have m: "content d = fold apply_write ws4 ?m3" using db_write [OF d(2)] by (simp add: ws(5))
  have acc: "db_account B (content d) = db_account B ?m3" "db_account B ?m2 = db_account B ?m"
    by (rule ext, simp add: m db_account_def other [OF cf(4)] other [OF cf(2)] other [OF cf(1)])+
  have blk: "db_block B (content d) = db_block B ?m1"
    by (rule ext) (simp add: m db_block_def other [OF cf(4)] other [OF cf(3)] other [OF cf(2)])
  have roots: "(\<lambda>h. content d (CfStateRoots, le_bytes h)) = apply_roots (wb_state_roots b) (\<lambda>h. ?m (CfStateRoots, le_bytes h))"
    using root_writes [OF ws(4), of ?m3] by (simp add: m other [OF cf(3)] other [OF cf(2)] other [OF cf(1)])
  have height: "content d (CfMetadata, KEY_BLOCK_HEIGHT) = ?m (CfMetadata, KEY_BLOCK_HEIGHT)"
    by (simp add: m other [OF cf(4)] other [OF cf(3)] other [OF cf(2)] other [OF cf(1)])
  show thesis by (rule that [OF ws(1) ws(3) acc blk roots height d(3)])
qed

lemma batch_views:
  assumes "rdb_write_batch D B b s = (Inr (), s')"
  shows "rocks_accounts content B s' = apply_entries (wb_accounts b) (rocks_accounts content B s) \<and>
    rocks_roots content s' = apply_roots (wb_state_roots b) (rocks_roots content s)"
  using assms
proof (cases rule: batch_parts)
  case (1 ws1 ws3 d m2)
  then show ?thesis
    using account_writes [OF 1(2), of "rdb_account_cache s" m2]
    by (simp add: rocks_accounts_def rocks_roots_def [abs_def])
qed

lemma batch_blocks:
  assumes "rdb_write_batch D B b s = (Inr (), s')"
  shows "rocks_blocks content B s' = put_blocks (wb_blocks b) (rocks_blocks content B s)"
  using assms
proof (cases rule: batch_parts)
  case (1 ws1 ws3 d m2)
  then show ?thesis
    using block_writes [OF 1(1), of "rdb_block_cache s" "content (rdb s)"] by (simp add: rocks_blocks_def)
qed

lemma batch_ok:
  assumes "codec_law B" "caches_ok content B s" "rdb_write_batch D B b s = (r, s')"
  shows "caches_ok content B s'"
proof (cases r)
  case (Inl e)
  then show ?thesis using assms by (auto simp: rdb_write_batch_def split: sum.splits)
next
  case (Inr u)
  then have "rdb_write_batch D B b s = (Inr (), s')" using assms(3) by simp
  then show ?thesis
  proof (cases rule: batch_parts)
    case (1 ws1 ws3 d m2)
    have "coherent (rdb_account_cache s) (db_account B m2)" "coherent (rdb_block_cache s) (db_block B (content (rdb s)))"
      using assms(2) by (simp_all add: caches_ok_def 1(4))
    then show ?thesis
      using account_writes_coherent [OF 1(2) assms(1)] block_writes_coherent [OF 1(1) assms(1)]
      by (simp add: caches_ok_def 1(3,5,8))
  qed
qed

text \<open>Blocks written in a batch do not move the recorded height.\<close>

lemma batch_keeps_height:
  assumes "rdb_write_batch D B b s = (Inr (), s')"
    and "rdb_get_block_height D s = Inr h" "rdb_get_block_height D s' = Inr h'"
  shows "h' = h"
  using assms(1)
proof (cases rule: batch_parts)
  case (1 ws1 ws3 d m2)
  then show ?thesis
    using assms(2,3) db_get [of CfMetadata KEY_BLOCK_HEIGHT "rdb s"] db_get [of CfMetadata KEY_BLOCK_HEIGHT d]
    by (auto simp: rdb_get_block_height_def split: sum.splits)
qed

lemma put_frame:
  assumes "put_cf D cf k v s = (r, s')" "cf \<noteq> CfAccounts"
  shows "rocks_accounts content B s' = rocks_accounts content B s"
    "cf \<noteq> CfStateRoots \<Longrightarrow> rocks_roots content s' = rocks_roots content s"
proof -
  have "rocks_accounts content B s' = rocks_accounts content B s \<and> (cf \<noteq> CfStateRoots \<longrightarrow> rocks_roots content s' = rocks_roots content s)"
    using assms(1)
  proof (cases rule: put_cf_cases)
    case (2 d)
    have "db_account B (content d) = db_account B (content (rdb s))" using assms(2) by (intro ext) (simp add: db_account_def 2(3))
    then have "rocks_accounts content B s' = rocks_accounts content B s" by (simp add: rocks_accounts_def 2(2))
    moreover have "rocks_roots content s' = rocks_roots content s" if "cf \<noteq> CfStateRoots"
      by (rule ext) (use that in \<open>simp add: rocks_roots_def 2(2,3)\<close>)
    ultimately show ?thesis by blast
  qed simp
  then show "rocks_accounts content B s' = rocks_accounts content B s"
    "cf \<noteq> CfStateRoots \<Longrightarrow> rocks_roots content s' = rocks_roots content s" by blast+
qed

lemma save_block_accounts:
  assumes "rdb_save_block D B blk s = (Inr (), s')"
  shows "rocks_accounts content B s' = rocks_accounts content B s \<and> rocks_roots content s' = rocks_roots content s"
proof -
  obtain v s1 s2 s3 w where p: "put_cf D CfBlocks (le_bytes (hdr_height (header blk))) v s = (Inr (), s1)"
    "put_cf D CfMetadata KEY_BLOCK_HEIGHT (le_bytes (hdr_height (header blk)))
       (s1\<lparr>rdb_block_cache := AList.update (hdr_height (header blk)) blk (rdb_block_cache s1)\<rparr>) = (Inr (), s2)"
    "put_cf D CfDefault KEY_TOTAL_BLOCKS w s2 = (Inr (), s3)"
    "s' = s3\<lparr>rdb_stats := (rdb_stats s3)\<lparr>total_blocks := hdr_height (header blk) + 1\<rparr>\<rparr>"
    using assms by (auto simp: rdb_save_block_def write_metadata_def increment_stat_def Let_def split: sum.splits prod.splits)
  have cache: "rocks_accounts content B (s1\<lparr>rdb_block_cache := c\<rparr>) = rocks_accounts content B s1"
    "rocks_roots content (s1\<lparr>rdb_block_cache := c\<rparr>) = rocks_roots content s1" for c
    by (simp_all add: rocks_accounts_def rocks_roots_def fun_eq_iff)
  have stats: "rocks_accounts content B s' = rocks_accounts content B s3" "rocks_roots content s' = rocks_roots content s3"
    by (simp_all add: p(4) rocks_accounts_def rocks_roots_def fun_eq_iff)
  show ?thesis using put_frame [OF p(1)] put_frame [OF p(2)] put_frame [OF p(3)] by (simp add: cache stats)
qed

lemma latest_block_ok:
  assumes "caches_ok content B s" "rdb_get_latest_block D B s = (r, s')"
  shows "caches_ok content B s'"
  using assms get_block_transparent [OF assms(1)]
  by (auto simp: rdb_get_latest_block_def split: sum.splits if_splits bool.splits)

text \<open>The trait object has the contract of a storage, with any contents of the caches.\<close>

lemma trait_laws: "account_storage (rocksdb_ops X D B) (rocks_accounts content B) (rocks_roots content)"
proof
  fix a s r assume "so_get_account (rocksdb_ops X D B) a s = Inr r"
  then show "r = rocks_accounts content B s a"
    using db_get [of CfAccounts a "rdb s"]
    by (cases "map_of (rdb_account_cache s) a")
      (auto simp: rocksdb_ops_def rdb_get_account_def rocks_accounts_def through_def db_account_def decoded_def split: option.splits sum.splits)
next
  fix h s rr assume "so_get_state_root (rocksdb_ops X D B) h s = Inr rr"
  then show "rr = rocks_roots content s h"
    using db_get [of CfStateRoots "le_bytes h" "rdb s"]
    by (auto simp: rocksdb_ops_def rdb_get_state_root_def rocks_roots_def split: sum.splits option.splits if_splits)
next
  fix h rt s s' assume "so_save_state_root (rocksdb_ops X D B) h rt s = Inr s'"
  then have p: "put_cf D CfStateRoots (le_bytes h) rt s = (Inr (), s')"
    by (auto simp: rocksdb_ops_def rdb_save_state_root_def state_of_def split: prod.splits sum.splits)
  then obtain d where d: "s' = s\<lparr>rdb := d\<rparr>" "content d = (content (rdb s))((CfStateRoots, le_bytes h) \<mapsto> rt)"
    by (auto elim: put_cf_cases)
  have "rocks_roots content s' = (rocks_roots content s)(h \<mapsto> rt)" by (rule ext) (simp add: rocks_roots_def d)
  with put_frame(1) [OF p] show "rocks_accounts content B s' = rocks_accounts content B s \<and> rocks_roots content s' = (rocks_roots content s)(h \<mapsto> rt)"
    by simp
next
  fix b s s' assume "so_write_batch (rocksdb_ops X D B) b s = Inr s'"
  then have "rdb_write_batch D B b s = (Inr (), s')"
    by (auto simp: rocksdb_ops_def state_of_def split: prod.splits sum.splits)
  then show "rocks_accounts content B s' = apply_entries (wb_accounts b) (rocks_accounts content B s) \<and>
      rocks_roots content s' = apply_roots (wb_state_roots b) (rocks_roots content s)"
    by (rule batch_views)
next
  fix blk s s' assume "so_save_block (rocksdb_ops X D B) blk s = Inr s'"
  then have "rdb_save_block D B blk s = (Inr (), s')"
    by (auto simp: rocksdb_ops_def state_of_def split: prod.splits sum.splits)
  then show "rocks_accounts content B s' = rocks_accounts content B s \<and> rocks_roots content s' = rocks_roots content s"
    by (rule save_block_accounts)
qed

lemma save_account_view:
  assumes "rdb_save_account D B a acc s = (Inr (), s')"
  shows "rocks_accounts content B s' = (rocks_accounts content B s)(a \<mapsto> acc)"
proof -
  obtain v s1 where p: "put_cf D CfAccounts a v s = (Inr (), s1)"
    "s' = s1\<lparr>rdb_account_cache := AList.update a acc (rdb_account_cache s1)\<rparr>"
    using assms by (auto simp: rdb_save_account_def split: sum.splits prod.splits)
  from p(1) obtain d where d: "s1 = s\<lparr>rdb := d\<rparr>" "content d = (content (rdb s))((CfAccounts, a) \<mapsto> v)"
    by (auto elim: put_cf_cases)
  show ?thesis
  proof
    fix b
    show "rocks_accounts content B s' b = ((rocks_accounts content B s)(a \<mapsto> acc)) b"
      by (cases "b = a") (simp_all add: p(2) d rocks_accounts_def through_def db_account_def [abs_def])
  qed
qed

lemma chain_laws: "chain_storage (rocksdb_ops X D B) (rocks_accounts content B) (rocks_roots content) (rocks_blocks content B)"
proof (intro chain_storage.intro trait_laws chain_storage_axioms.intro)
  fix h s ob assume "so_get_block (rocksdb_ops X D B) h s = Inr ob"
  then show "ob = rocks_blocks content B s h"
    using db_get [of CfBlocks "le_bytes h" "rdb s"]
    by (cases "map_of (rdb_block_cache s) h")
      (auto simp: rocksdb_ops_def rdb_get_block_def rocks_blocks_def through_def db_block_def decoded_def split: option.splits sum.splits)
next
  fix b s s' assume "so_write_batch (rocksdb_ops X D B) b s = Inr s'"
  then have "rdb_write_batch D B b s = (Inr (), s')"
    by (auto simp: rocksdb_ops_def state_of_def split: prod.splits sum.splits)
  then show "put_blocks (wb_blocks b) (rocks_blocks content B s) \<subseteq>\<^sub>m rocks_blocks content B s'"
    using batch_blocks by simp
next
  fix a s x assume x: "so_account_exists (rocksdb_ops X D B) a s = Inr x" and "rocks_accounts content B s a \<noteq> None"
  then have "map_of (rdb_account_cache s) a \<noteq> None \<or> content (rdb s) (CfAccounts, a) \<noteq> None"
    by (auto simp: rocks_accounts_def through_def db_account_def decoded_def split: option.splits)
  then show x
    using x db_get [of CfAccounts a "rdb s"] by (auto simp: rocksdb_ops_def rdb_account_exists_def split: sum.splits if_splits)
next
  fix a acc s s' assume "so_save_account (rocksdb_ops X D B) a acc s = Inr s'"
  then have "rdb_save_account D B a acc s = (Inr (), s')"
    by (auto simp: rocksdb_ops_def state_of_def split: prod.splits sum.splits)
  then show "rocks_accounts content B s' = (rocks_accounts content B s)(a \<mapsto> acc)" by (rule save_account_view)
qed

end

text \<open>The storages a program can reach from an opened one.\<close>

inductive reachable_rocks :: "externals \<Rightarrow> 'd rocks_ops \<Rightarrow> rocks_codec \<Rightarrow> 'd rocksdb_storage \<Rightarrow> bool" for X D B where
  rocks_opened: "reachable_rocks X D B (rocksdb_new D d)"
| rocks_save_block: "reachable_rocks X D B s \<Longrightarrow> reachable_rocks X D B (snd (rdb_save_block D B b s))"
| rocks_get_block: "reachable_rocks X D B s \<Longrightarrow> reachable_rocks X D B (snd (rdb_get_block D B h s))"
| rocks_latest: "reachable_rocks X D B s \<Longrightarrow> reachable_rocks X D B (snd (rdb_get_latest_block D B s))"
| rocks_save_tx: "reachable_rocks X D B s \<Longrightarrow> reachable_rocks X D B (snd (rdb_save_transaction X D B tx s))"
| rocks_save_account: "reachable_rocks X D B s \<Longrightarrow> reachable_rocks X D B (snd (rdb_save_account D B a acc s))"
| rocks_get_account: "reachable_rocks X D B s \<Longrightarrow> reachable_rocks X D B (snd (rdb_get_account D B a s))"
| rocks_delete_account: "reachable_rocks X D B s \<Longrightarrow> reachable_rocks X D B (snd (rdb_delete_account D a s))"
| rocks_save_root: "reachable_rocks X D B s \<Longrightarrow> reachable_rocks X D B (snd (rdb_save_state_root D h rt s))"
| rocks_batch: "reachable_rocks X D B s \<Longrightarrow> reachable_rocks X D B (snd (rdb_write_batch D B wb s))"
| rocks_close: "reachable_rocks X D B s \<Longrightarrow> reachable_rocks X D B (rdb_close s)"

lemma reachable_caches_ok:
  assumes "rocks_db D content" "codec_law B" "reachable_rocks X D B s"
  shows "caches_ok content B s"
  using assms(3)
proof induction
  case (rocks_opened d)
  then show ?case by (rule rocks_db.reopen_views(1) [OF assms(1)])
next
  case (rocks_save_block s b)
  then show ?case using rocks_db.save_block_ok [OF assms(1,2)] by (metis prod.collapse)
next
  case (rocks_get_block s h)
  then show ?case using rocks_db.get_block_transparent [OF assms(1)] by (metis prod.collapse)
next
  case (rocks_latest s)
  then show ?case using rocks_db.latest_block_ok [OF assms(1)] by (metis prod.collapse)
next
  case (rocks_save_tx s tx)
  show ?case
  proof (cases "rc_ser_transaction B tx")
    case (Inr v)
    obtain r1 s1 where p: "put_cf D CfTransactions (tx_hash X tx) v s = (r1, s1)" by fastforce
    have "caches_ok content B s1" using rocks_db.put_other_ok [OF assms(1) rocks_save_tx.IH p] by simp
    moreover have "caches_ok content B (snd (increment_stat D KEY_TOTAL_TRANSACTIONS 1 s1))"
      using rocks_db.increment_ok [OF assms(1) calculation] by (metis prod.collapse)
    ultimately show ?thesis using Inr p by (auto simp: rdb_save_transaction_def split: sum.split)
  qed (use rocks_save_tx.IH in \<open>simp add: rdb_save_transaction_def\<close>)
next
  case (rocks_save_account s a acc)
  then show ?case using rocks_db.save_account_ok(1) [OF assms(1,2)] by (metis prod.collapse)
next
  case (rocks_get_account s a)
  then show ?case using rocks_db.get_account_transparent(1) [OF assms(1)] by (metis prod.collapse)
next
  case (rocks_delete_account s a)
  then show ?case using rocks_db.delete_account_ok [OF assms(1)] by (metis prod.collapse)
next
  case (rocks_save_root s h rt)
  then show ?case using rocks_db.put_other_ok [OF assms(1), of B s CfStateRoots "le_bytes h" rt]
    by (simp add: rdb_save_state_root_def) (metis prod.collapse)
next
  case (rocks_batch s wb)
  then show ?case using rocks_db.batch_ok [OF assms(1,2)] by (metis prod.collapse)
next
  case (rocks_close s)
  then show ?case by (simp add: rdb_close_def caches_ok_def)
qed

section \<open>A database that keeps its promises\<close>

definition map_db :: "((column_family \<times> bytes) \<times> bytes) list rocks_ops" where
  "map_db =
     \<lparr>rk_get = (\<lambda>cf k d. Inr (map_of d (cf, k))), rk_put = (\<lambda>cf k v d. Inr (AList.update (cf, k) v d)),
      rk_delete = (\<lambda>cf k d. Inr (AList.delete (cf, k) d)),
      rk_write = (\<lambda>ws d. Inr (fold (\<lambda>w d. case w of RwPut cf k v \<Rightarrow> AList.update (cf, k) v d | RwDelete cf k \<Rightarrow> AList.delete (cf, k) d) ws d)),
      rk_iter_end = (\<lambda>cf d. map (\<lambda>((cf', k), v). Inr (k, v)) (filter (\<lambda>((cf', k), v). cf' = cf) d))\<rparr>"

lemma map_db_write:
  "map_of (fold (\<lambda>w d. case w of RwPut cf k v \<Rightarrow> AList.update (cf, k) v d | RwDelete cf k \<Rightarrow> AList.delete (cf, k) d) ws d) =
   fold apply_write ws (map_of d)"
proof (induction ws arbitrary: d)
  case (Cons w ws)
  then show ?case by (cases w) (simp_all add: fun_upd_def)
qed simp

interpretation mapdb: rocks_db map_db map_of
  by unfold_locales (auto simp: map_db_def update_conv' delete_conv' map_db_write)

interpretation rocks: chain_storage "rocksdb_ops X map_db B" "rocks_accounts map_of B" "rocks_roots map_of" "rocks_blocks map_of B" for X B
  by (rule mapdb.chain_laws)

text \<open>
  C28. A batch that RocksDB accepted is durable: in every state reached through the operations of the storage, the accounts read after it
  are those before it with the entries of the batch applied in order, through the caches and
  after the storage is opened again.
\<close>

theorem rocksdb_batch_durable:
  assumes "rocks_db D content" "codec_law B" "reachable_rocks X D B s" "rdb_write_batch D B b s = (Inr (), s')"
  shows "(\<forall>a r. fst (rdb_get_account D B a s') = Inr r \<longrightarrow> r = apply_entries (wb_accounts b) (rocks_accounts content B s) a) \<and>
    (\<forall>a r. fst (rdb_get_account D B a (rocksdb_new D (rdb s'))) = Inr r \<longrightarrow> r = apply_entries (wb_accounts b) (rocks_accounts content B s) a)"
proof -
  note ok = reachable_caches_ok [OF assms(1-3)]
  have ok': "caches_ok content B s'" using rocks_db.batch_ok [OF assms(1,2) ok assms(4)] .
  have new: "caches_ok content B (rocksdb_new D (rdb s'))" "rdb (rocksdb_new D (rdb s')) = rdb s'"
    using rocks_db.reopen_views [OF assms(1)] by blast+
  have v: "rocks_accounts content B s' = apply_entries (wb_accounts b) (rocks_accounts content B s)"
    using rocks_db.batch_views [OF assms(1,4)] by blast
  have "rocks_accounts content B (rocksdb_new D (rdb s')) = rocks_accounts content B s'"
    using rocks_db.views(1) [OF assms(1) new(1)] rocks_db.views(1) [OF assms(1) ok'] new(2) by simp
  then show ?thesis
    using rocks_db.get_account_transparent(3) [OF assms(1) ok'] rocks_db.get_account_transparent(3) [OF assms(1) new(1)] v
    by (metis prod.collapse)
qed

definition sample_codec :: rocks_codec where
  "sample_codec =
     \<lparr>rc_ser_block = (\<lambda>b. Inl ''none''), rc_de_block = (\<lambda>bs. Inl ''none''), rc_ser_transaction = (\<lambda>t. Inl ''none''),
      rc_de_transaction = (\<lambda>bs. Inl ''none''), rc_ser_account = (\<lambda>a. if a = sample_account then Inr [1] else Inl ''none''),
      rc_de_account = (\<lambda>bs. if bs = [1] then Inr sample_account else Inl ''none'')\<rparr>"

definition sample_batch :: write_batch where
  "sample_batch = batch_delete_account (replicate 32 2) (add_account (replicate 32 1) sample_account batch_new)"

lemma sample_codec_law: "codec_law sample_codec"
  by (simp add: codec_law_def sample_codec_def)

theorem rocksdb_batch_durable_witness:
  "let s' = snd (rdb_write_batch map_db sample_codec sample_batch (rocksdb_new map_db []))
   in fst (rdb_write_batch map_db sample_codec sample_batch (rocksdb_new map_db [])) = Inr () \<and>
      (\<forall>r. fst (rdb_get_account map_db sample_codec (replicate 32 1) (rocksdb_new map_db (rdb s'))) = Inr r \<longrightarrow> r = Some sample_account)"
proof -
  have "fst (rdb_write_batch map_db sample_codec sample_batch (rocksdb_new map_db [])) = Inr ()"
    by (simp add: rdb_write_batch_def encode_batch_def sample_batch_def batch_delete_account_def add_account_def batch_new_def
        encode_account_def sample_codec_def map_db_def)
  then obtain s' where w: "rdb_write_batch map_db sample_codec sample_batch (rocksdb_new map_db []) = (Inr (), s')"
    by (metis prod.collapse)
  have e: "apply_entries (wb_accounts sample_batch) m (replicate 32 1) = Some sample_account" for m
    by (simp add: sample_batch_def batch_delete_account_def add_account_def batch_new_def)
  have "reachable_rocks sample_externals map_db sample_codec (rocksdb_new map_db [])" by (rule rocks_opened)
  note th = rocksdb_batch_durable [OF mapdb.rocks_db_axioms sample_codec_law this w]
  have "\<forall>r. fst (rdb_get_account map_db sample_codec (replicate 32 1) (rocksdb_new map_db (rdb s'))) = Inr r \<longrightarrow> r = Some sample_account"
    using conjunct2 [OF th, THEN spec, of "replicate 32 1"] unfolding e .
  then show ?thesis unfolding w Let_def fst_conv snd_conv by blast
qed

text \<open>A saved block is found under its height and is the latest one, also after the storage is opened again.\<close>

lemma rocksdb_block_durable:
  assumes "rocks_db D content" "codec_law B" "reachable_rocks X D B s" "rdb_save_block D B b s = (Inr (), s')"
    and "fst (rdb_get_block D B (hdr_height (header b)) (rocksdb_new D (rdb s'))) = Inr r"
    and "rdb_get_block_height D (rocksdb_new D (rdb s')) = Inr h"
  shows "r = Some b \<and> h = hdr_height (header b)"
proof -
  note ok = reachable_caches_ok [OF assms(1-3)]
  have sb: "caches_ok content B s'" "rocks_blocks content B s' = (rocks_blocks content B s)(hdr_height (header b) \<mapsto> b)"
    "content (rdb s') (CfMetadata, KEY_BLOCK_HEIGHT) = Some (le_bytes (hdr_height (header b)))"
    using rocks_db.save_block_ok [OF assms(1,2) ok assms(4)] by blast+
  have new: "caches_ok content B (rocksdb_new D (rdb s'))" "rdb (rocksdb_new D (rdb s')) = rdb s'"
    using rocks_db.reopen_views [OF assms(1)] by blast+
  obtain s2 where "rdb_get_block D B (hdr_height (header b)) (rocksdb_new D (rdb s')) = (Inr r, s2)"
    using assms(5) by (metis prod.collapse)
  then have "r = rocks_blocks content B (rocksdb_new D (rdb s')) (hdr_height (header b))"
    using rocks_db.get_block_transparent [OF assms(1) new(1)] by blast
  also have "\<dots> = rocks_blocks content B s' (hdr_height (header b))"
    using rocks_db.views(2) [OF assms(1) new(1)] rocks_db.views(2) [OF assms(1) sb(1)] new(2) by simp
  finally have "r = Some b" by (simp add: sb(2))
  moreover obtain ob where ob: "rk_get D CfMetadata KEY_BLOCK_HEIGHT (rdb s') = Inr ob"
    "h = (case Option.bind ob u64_of_bytes of Some h \<Rightarrow> h | None \<Rightarrow> 0)"
    using assms(6) new(2) by (auto simp: rdb_get_block_height_def split: sum.splits)
  then have "ob = Some (le_bytes (hdr_height (header b)))" using rocks_db.db_get [OF assms(1) ob(1)] sb(3) by simp
  then have "h = hdr_height (header b)" using ob(2) by (simp add: u64_of_bytes_def le_nat_le_bytes)
  ultimately show ?thesis by blast
qed

end
