(* ===== verification/Storage_Snapshot.thy ===== *)
theory Storage_Snapshot
  imports Storage_RocksDB "HOL-Library.Sublist"
begin

text \<open>
  \<open>src/storage/snapshot.rs\<close>: snapshot manifests, saving the blocks of a storage to files, restoring them into a storage,
  listing and pruning; and \<open>src/storage/migration.rs\<close>.

  The file system is the record \<open>fs_ops\<close> of the calls of \<open>std::fs\<close>, each with its error message. A path is the list of its
  components. The locale \<open>snapshot_fs\<close> states what a file system with room and permissions does, and a tree of files
  interprets it. Reading a file that was opened does not fail. \<open>bincode\<close> and \<open>serde_json\<close> are the record
  \<open>snapshot_codec\<close>.
\<close>

section \<open>Manifests\<close>

record snapshot_manifest =
  man_version :: u32
  man_height :: block_height
  man_block_hash :: hash
  man_state_root :: hash
  man_timestamp :: timestamp
  man_total_accounts :: u64
  man_total_supply :: u128
  man_checksum :: hash

definition manifest_new :: "timestamp \<Rightarrow> block_height \<Rightarrow> hash \<Rightarrow> hash \<Rightarrow> snapshot_manifest" where
  "manifest_new now h bh rt =
     \<lparr>man_version = 1, man_height = h, man_block_hash = bh, man_state_root = rt, man_timestamp = now,
      man_total_accounts = 0, man_total_supply = 0, man_checksum = zero32\<rparr>"

definition manifest_preimage :: "snapshot_manifest \<Rightarrow> bytes" where
  "manifest_preimage m =
     le_bytes (man_version m) @ le_bytes (man_height m) @ man_block_hash m @ man_state_root m @
     le_bytes (man_timestamp m) @ le_bytes (man_total_accounts m) @ le_bytes (man_total_supply m)"

definition manifest_compute_checksum :: "externals \<Rightarrow> snapshot_manifest \<Rightarrow> snapshot_manifest" where
  "manifest_compute_checksum X m = m\<lparr>man_checksum := sha3_256 X (manifest_preimage m)\<rparr>"

definition manifest_verify :: "externals \<Rightarrow> snapshot_manifest \<Rightarrow> bool" where
  "manifest_verify X m \<longleftrightarrow>
     man_checksum (manifest_compute_checksum X (m\<lparr>man_checksum := zero32\<rparr>)) = man_checksum m"

section \<open>Files\<close>

type_synonym path = "string list"

definition path_join :: "path \<Rightarrow> string \<Rightarrow> path" where
  "path_join p n = p @ [n]"

fun path_display :: "path \<Rightarrow> string" where
  "path_display [] = []"
| "path_display [n] = n"
| "path_display (n # m # p) = n @ ''/'' @ path_display (m # p)"

record 'f fs_ops =
  fs_create_dir_all :: "path \<Rightarrow> 'f \<Rightarrow> (string + unit) \<times> 'f"
  fs_create :: "path \<Rightarrow> 'f \<Rightarrow> (string + unit) \<times> 'f"
  fs_append :: "path \<Rightarrow> bytes \<Rightarrow> 'f \<Rightarrow> bytes \<times> (string + unit) \<times> 'f"
  fs_write :: "path \<Rightarrow> bytes \<Rightarrow> 'f \<Rightarrow> (string + unit) \<times> 'f"
  fs_read :: "path \<Rightarrow> 'f \<Rightarrow> string + bytes"
  fs_exists :: "path \<Rightarrow> 'f \<Rightarrow> bool"
  fs_is_dir :: "path \<Rightarrow> 'f \<Rightarrow> bool"
  fs_read_dir :: "path \<Rightarrow> 'f \<Rightarrow> string + (string + path) list"
  fs_remove_dir_all :: "path \<Rightarrow> 'f \<Rightarrow> (string + unit) \<times> 'f"

text \<open>
  \<open>fs_append\<close> writes to an open file and returns the bytes an error left unwritten. A \<open>BufWriter\<close> keeps
  8 KiB, and flushes once more when it is dropped.
\<close>

record file_writer =
  fw_path :: path
  fw_buffer :: bytes

definition FILE_BUF :: nat where "FILE_BUF = 8 * 1024"

definition disk_result :: "string + 'a \<Rightarrow> 'a pacyte_result" where
  "disk_result r = (case r of Inl msg \<Rightarrow> Inl (DiskIoFailure msg) | Inr x \<Rightarrow> Inr x)"

definition fw_flush :: "'f fs_ops \<Rightarrow> file_writer \<Rightarrow> 'f \<Rightarrow> unit pacyte_result \<times> file_writer \<times> 'f" where
  "fw_flush F w f =
     (if fw_buffer w = [] then (Inr (), w, f)
      else case fs_append F (fw_path w) (fw_buffer w) f of
             (rest, r, f') \<Rightarrow> (disk_result r, w\<lparr>fw_buffer := rest\<rparr>, f'))"

definition fw_write_all :: "'f fs_ops \<Rightarrow> bytes \<Rightarrow> file_writer \<Rightarrow> 'f \<Rightarrow> unit pacyte_result \<times> file_writer \<times> 'f" where
  "fw_write_all F data w f =
     (case (if length data > FILE_BUF - length (fw_buffer w) then fw_flush F w f else (Inr (), w, f)) of
        (Inl e, w1, f1) \<Rightarrow> (Inl e, w1, f1)
      | (Inr _, w1, f1) \<Rightarrow>
          if length data \<ge> FILE_BUF then
            (case fs_append F (fw_path w1) data f1 of (rest, r, f2) \<Rightarrow> (disk_result r, w1, f2))
          else (Inr (), w1\<lparr>fw_buffer := fw_buffer w1 @ data\<rparr>, f1))"

definition fw_drop :: "'f fs_ops \<Rightarrow> file_writer \<Rightarrow> 'f \<Rightarrow> 'f" where
  "fw_drop F w f = snd (snd (fw_flush F w f))"

definition fw_finish :: "'f fs_ops \<Rightarrow> unit pacyte_result \<times> file_writer \<times> 'f \<Rightarrow> unit pacyte_result \<times> 'f" where
  "fw_finish F r =
     (case r of
        (Inl e, w, f) \<Rightarrow> (Inl e, fw_drop F w f)
      | (Inr _, w, f) \<Rightarrow> (case fw_flush F w f of (r', w', f') \<Rightarrow> (r', fw_drop F w' f')))"

record snapshot_codec =
  sc_ser_block :: "block \<Rightarrow> string + bytes"
  sc_de_block :: "bytes \<Rightarrow> string + block"
  sc_ser_manifest :: "snapshot_manifest \<Rightarrow> string + bytes"
  sc_de_manifest :: "bytes \<Rightarrow> string + snapshot_manifest"

section \<open>Creating a snapshot\<close>

definition snapshot_manager_new :: "'f fs_ops \<Rightarrow> path \<Rightarrow> 'f \<Rightarrow> unit pacyte_result \<times> 'f" where
  "snapshot_manager_new F dir f = (case fs_create_dir_all F dir f of (r, f') \<Rightarrow> (disk_result r, f'))"

definition snapshot_path :: "path \<Rightarrow> block_height \<Rightarrow> path" where
  "snapshot_path dir h = path_join dir (''snapshot_'' @ show_word h)"

fun save_heights ::
    "'s storage_ops \<Rightarrow> snapshot_codec \<Rightarrow> 'f fs_ops \<Rightarrow> 's \<Rightarrow> block_height list \<Rightarrow> file_writer \<Rightarrow> 'f \<Rightarrow>
     unit pacyte_result \<times> file_writer \<times> 'f" where
  "save_heights S C F s [] w f = (Inr (), w, f)"
| "save_heights S C F s (h # hs) w f =
     (case so_get_block S h s of
        Inl e \<Rightarrow> (Inl e, w, f)
      | Inr None \<Rightarrow> save_heights S C F s hs w f
      | Inr (Some b) \<Rightarrow>
          (case sc_ser_block C b of
             Inl msg \<Rightarrow> (Inl (DiskIoFailure msg), w, f)
           | Inr bs \<Rightarrow>
               (case fw_write_all F (le_bytes (of_nat (length bs) :: u32)) w f of
                  (Inl e, w1, f1) \<Rightarrow> (Inl e, w1, f1)
                | (Inr _, w1, f1) \<Rightarrow>
                    (case fw_write_all F bs w1 f1 of
                       (Inl e, w2, f2) \<Rightarrow> (Inl e, w2, f2)
                     | (Inr _, w2, f2) \<Rightarrow> save_heights S C F s hs w2 f2))))"

definition heights_to :: "block_height \<Rightarrow> block_height list" where
  "heights_to h = map of_nat [0..<Suc (unat h)]"

definition save_blocks ::
    "'s storage_ops \<Rightarrow> snapshot_codec \<Rightarrow> 'f fs_ops \<Rightarrow> path \<Rightarrow> block_height \<Rightarrow> 's \<Rightarrow> 'f \<Rightarrow> unit pacyte_result \<times> 'f" where
  "save_blocks S C F p max_height s f =
     (let q = path_join p ''blocks.bin''
      in case fs_create F q f of
           (Inl msg, f1) \<Rightarrow> (Inl (DiskIoFailure msg), f1)
         | (Inr _, f1) \<Rightarrow> fw_finish F (save_heights S C F s (heights_to max_height) \<lparr>fw_path = q, fw_buffer = []\<rparr> f1))"

definition save_state :: "'f fs_ops \<Rightarrow> path \<Rightarrow> 'f \<Rightarrow> (u64 \<times> u128) pacyte_result \<times> 'f" where
  "save_state F p f =
     (let q = path_join p ''state.bin''; total_accounts = 0 :: u64; total_supply = 0 :: u128
      in case fs_create F q f of
           (Inl msg, f1) \<Rightarrow> (Inl (DiskIoFailure msg), f1)
         | (Inr _, f1) \<Rightarrow>
             (case fw_finish F
                (case fw_write_all F (le_bytes total_accounts) \<lparr>fw_path = q, fw_buffer = []\<rparr> f1 of
                   (Inl e, w, f2) \<Rightarrow> (Inl e, w, f2)
                 | (Inr _, w, f2) \<Rightarrow> fw_write_all F (le_bytes total_supply) w f2) of
                (Inl e, f3) \<Rightarrow> (Inl e, f3)
              | (Inr _, f3) \<Rightarrow> (Inr (total_accounts, total_supply), f3)))"

definition create_snapshot ::
    "externals \<Rightarrow> 's storage_ops \<Rightarrow> snapshot_codec \<Rightarrow> 'f fs_ops \<Rightarrow> timestamp \<Rightarrow> path \<Rightarrow> block_height \<Rightarrow> 's \<Rightarrow> 'f \<Rightarrow>
     snapshot_manifest pacyte_result \<times> 'f" where
  "create_snapshot X S C F now dir h s f =
     (case so_get_block S h s of
        Inl e \<Rightarrow> (Inl e, f)
      | Inr None \<Rightarrow> (Inl (BlockNotFound h), f)
      | Inr (Some b) \<Rightarrow>
     (case so_get_state_root S h s of
        Inl e \<Rightarrow> (Inl e, f)
      | Inr None \<Rightarrow> (Inl (StateRootMismatch (show_word h) ''Not found''), f)
      | Inr (Some rt) \<Rightarrow>
     (let p = snapshot_path dir h
      in case fs_create_dir_all F p f of
           (Inl msg, f1) \<Rightarrow> (Inl (DiskIoFailure msg), f1)
         | (Inr _, f1) \<Rightarrow>
     (case save_blocks S C F p h s f1 of
        (Inl e, f2) \<Rightarrow> (Inl e, f2)
      | (Inr _, f2) \<Rightarrow>
     (case save_state F p f2 of
        (Inl e, f3) \<Rightarrow> (Inl e, f3)
      | (Inr (accs, supply), f3) \<Rightarrow>
     (let m = manifest_compute_checksum X
                ((manifest_new now h (block_hash X b) rt)\<lparr>man_total_accounts := accs, man_total_supply := supply\<rparr>)
      in case sc_ser_manifest C m of
           Inl msg \<Rightarrow> (Inl (DiskIoFailure msg), f3)
         | Inr js \<Rightarrow>
     (case fs_write F (path_join p ''manifest.json'') js f3 of
        (Inl msg, f4) \<Rightarrow> (Inl (DiskIoFailure msg), f4)
      | (Inr _, f4) \<Rightarrow> (Inr m, f4))))))))"

section \<open>Restoring\<close>

text \<open>A frame that ends early is an error, a length that ends early ends the file.\<close>

function restore_frames ::
    "'s storage_ops \<Rightarrow> snapshot_codec \<Rightarrow> bytes \<Rightarrow> write_batch \<Rightarrow> 's \<Rightarrow> write_batch pacyte_result \<times> 's" where
  "restore_frames S C bs batch s =
     (if length bs < 4 then (Inr batch, s)
      else
        let len = le_nat (take 4 bs); rest = drop 4 bs
        in if length rest < len then (Inl (DiskIoFailure ''failed to fill whole buffer''), s)
           else case sc_de_block C (take len rest) of
                  Inl msg \<Rightarrow> (Inl (DiskIoFailure msg), s)
                | Inr b \<Rightarrow>
                    let batch' = add_block b batch
                    in if batch_len batch' \<ge> 1000
                       then (case so_write_batch S batch' s of
                               Inl e \<Rightarrow> (Inl e, s)
                             | Inr s' \<Rightarrow> restore_frames S C (drop len rest) (batch_clear batch') s')
                       else restore_frames S C (drop len rest) batch' s)"
  by pat_completeness auto
termination by (relation "measure (\<lambda>(S, C, bs, batch, s). length bs)") auto

declare restore_frames.simps [simp del]

definition restore_blocks ::
    "'s storage_ops \<Rightarrow> snapshot_codec \<Rightarrow> 'f fs_ops \<Rightarrow> path \<Rightarrow> 'f \<Rightarrow> 's \<Rightarrow> unit pacyte_result \<times> 's" where
  "restore_blocks S C F p f s =
     (case fs_read F (path_join p ''blocks.bin'') f of
        Inl msg \<Rightarrow> (Inl (DiskIoFailure msg), s)
      | Inr bs \<Rightarrow>
          (case restore_frames S C bs batch_new s of
             (Inl e, s1) \<Rightarrow> (Inl e, s1)
           | (Inr batch, s1) \<Rightarrow>
               if batch_is_empty batch then (Inr (), s1)
               else case so_write_batch S batch s1 of Inl e \<Rightarrow> (Inl e, s1) | Inr s2 \<Rightarrow> (Inr (), s2)))"

definition restore_state :: "'f fs_ops \<Rightarrow> path \<Rightarrow> 'f \<Rightarrow> unit pacyte_result" where
  "restore_state F p f =
     (case fs_read F (path_join p ''state.bin'') f of
        Inl msg \<Rightarrow> Inl (DiskIoFailure msg)
      | Inr bs \<Rightarrow> if length bs < 8 + 16 then Inl (DiskIoFailure ''failed to fill whole buffer'') else Inr ())"

definition restore_from_snapshot ::
    "externals \<Rightarrow> 's storage_ops \<Rightarrow> snapshot_codec \<Rightarrow> 'f fs_ops \<Rightarrow> path \<Rightarrow> block_height \<Rightarrow> 'f \<Rightarrow> 's \<Rightarrow> unit pacyte_result \<times> 's" where
  "restore_from_snapshot X S C F dir h f s =
     (let p = snapshot_path dir h
      in if \<not> fs_exists F p f then (Inl (DiskIoFailure (''Snapshot not found: '' @ path_display p)), s)
         else case fs_read F (path_join p ''manifest.json'') f of
                Inl msg \<Rightarrow> (Inl (DiskIoFailure msg), s)
              | Inr js \<Rightarrow>
                  (case sc_de_manifest C js of
                     Inl msg \<Rightarrow> (Inl (DiskIoFailure msg), s)
                   | Inr m \<Rightarrow>
                       if \<not> manifest_verify X m then (Inl (DiskIoFailure ''Manifest checksum mismatch''), s)
                       else case restore_blocks S C F p f s of
                              (Inl e, s1) \<Rightarrow> (Inl e, s1)
                            | (Inr _, s1) \<Rightarrow> (restore_state F p f, s1)))"

section \<open>Listing and pruning\<close>

record snapshot_info =
  inf_height :: block_height
  inf_block_hash :: hash
  inf_timestamp :: timestamp
  inf_total_accounts :: u64
  inf_path :: path

definition snapshot_at :: "snapshot_codec \<Rightarrow> 'f fs_ops \<Rightarrow> 'f \<Rightarrow> path \<Rightarrow> snapshot_info option" where
  "snapshot_at C F f p =
     (if fs_is_dir F p f \<and> fs_exists F (path_join p ''manifest.json'') f
      then case fs_read F (path_join p ''manifest.json'') f of
             Inl msg \<Rightarrow> None
           | Inr js \<Rightarrow>
               (case sc_de_manifest C js of
                  Inl msg \<Rightarrow> None
                | Inr m \<Rightarrow> Some \<lparr>inf_height = man_height m, inf_block_hash = man_block_hash m, inf_timestamp = man_timestamp m,
                    inf_total_accounts = man_total_accounts m, inf_path = p\<rparr>)
      else None)"

fun scan_entries :: "snapshot_codec \<Rightarrow> 'f fs_ops \<Rightarrow> 'f \<Rightarrow> (string + path) list \<Rightarrow> snapshot_info list pacyte_result" where
  "scan_entries C F f [] = Inr []"
| "scan_entries C F f (Inl msg # es) = Inl (DiskIoFailure msg)"
| "scan_entries C F f (Inr p # es) =
     (case scan_entries C F f es of
        Inl e \<Rightarrow> Inl e
      | Inr infs \<Rightarrow> Inr (case snapshot_at C F f p of Some i \<Rightarrow> i # infs | None \<Rightarrow> infs))"

definition list_snapshots :: "snapshot_codec \<Rightarrow> 'f fs_ops \<Rightarrow> path \<Rightarrow> 'f \<Rightarrow> snapshot_info list pacyte_result" where
  "list_snapshots C F dir f =
     (case fs_read_dir F dir f of
        Inl msg \<Rightarrow> Inl (DiskIoFailure msg)
      | Inr es \<Rightarrow> (case scan_entries C F f es of Inl e \<Rightarrow> Inl e | Inr infs \<Rightarrow> Inr (sort_key inf_height infs)))"

fun remove_snapshots :: "'f fs_ops \<Rightarrow> snapshot_info list \<Rightarrow> 'f \<Rightarrow> unit pacyte_result \<times> 'f" where
  "remove_snapshots F [] f = (Inr (), f)"
| "remove_snapshots F (i # is) f =
     (case fs_remove_dir_all F (inf_path i) f of
        (Inl msg, f1) \<Rightarrow> (Inl (DiskIoFailure msg), f1)
      | (Inr _, f1) \<Rightarrow> remove_snapshots F is f1)"

definition prune_old_snapshots :: "snapshot_codec \<Rightarrow> 'f fs_ops \<Rightarrow> path \<Rightarrow> nat \<Rightarrow> 'f \<Rightarrow> unit pacyte_result \<times> 'f" where
  "prune_old_snapshots C F dir keep_last f =
     (case list_snapshots C F dir f of
        Inl e \<Rightarrow> (Inl e, f)
      | Inr infs \<Rightarrow>
          if length infs \<le> keep_last then (Inr (), f)
          else remove_snapshots F (take (length infs - keep_last) (sort_key inf_height infs)) f)"

section \<open>Migration\<close>

definition types_FOUNDER_VESTING_ADDRESS :: address where "types_FOUNDER_VESTING_ADDRESS = replicate 32 1"
definition types_FOUNDER_ALLOCATION :: u128 where "types_FOUNDER_ALLOCATION = 55000000000000"

record migration_manager =
  mig_current_version :: u32

definition migration_manager_new :: migration_manager where
  "migration_manager_new = \<lparr>mig_current_version = 1\<rparr>"

definition needs_migration :: "u32 \<Rightarrow> migration_manager \<Rightarrow> bool" where
  "needs_migration v g \<longleftrightarrow> v < mig_current_version g"

definition migrate_v0_to_v1 :: "'s storage_ops \<Rightarrow> timestamp \<Rightarrow> 's \<Rightarrow> 's pacyte_result" where
  "migrate_v0_to_v1 S now s =
     (case so_account_exists S types_FOUNDER_VESTING_ADDRESS s of
        Inl e \<Rightarrow> Inl e
      | Inr True \<Rightarrow> Inr s
      | Inr False \<Rightarrow>
          so_save_account S types_FOUNDER_VESTING_ADDRESS
            ((account_new now types_FOUNDER_VESTING_ADDRESS types_FOUNDER_ALLOCATION)\<lparr>account_kind := System\<rparr>) s)"

function migrate_loop :: "'s storage_ops \<Rightarrow> timestamp \<Rightarrow> migration_manager \<Rightarrow> u32 \<Rightarrow> 's \<Rightarrow> 's pacyte_result" where
  "migrate_loop S now g current s =
     (if current < mig_current_version g
      then case (if current = 0 then migrate_v0_to_v1 S now s else Inr s) of
             Inl e \<Rightarrow> Inl e
           | Inr s1 \<Rightarrow> migrate_loop S now g (current + 1) s1
      else Inr s)"
  by pat_completeness auto
termination
proof (relation "measure (\<lambda>(S, now, g, current, s). unat (mig_current_version g) - unat current)")
  show "((S, now, g, current + 1, s1), S, now, g, current, s)
      \<in> measure (\<lambda>(S, now, g, current, s). unat (mig_current_version g) - unat current)"
    if "current < mig_current_version g" for S :: "'s storage_ops" and now g current s s1
  proof -
    have "current \<noteq> - 1" using that word_order.extremum_strict by blast
    then have "current < current + 1" by (rule less_succ_word)
    with that show ?thesis by (auto simp: word_less_nat_alt intro: diff_less_mono2)
  qed
qed simp

declare migrate_loop.simps [simp del]

definition migrate :: "'s storage_ops \<Rightarrow> timestamp \<Rightarrow> migration_manager \<Rightarrow> u32 \<Rightarrow> 's \<Rightarrow> 's pacyte_result" where
  "migrate S now g from_version s =
     (if from_version \<ge> mig_current_version g then Inr s else migrate_loop S now g from_version s)"

section \<open>Manifest checksums\<close>

lemma manifest_verify_iff: "manifest_verify X m \<longleftrightarrow> man_checksum m = sha3_256 X (manifest_preimage m)"
  by (auto simp: manifest_verify_def manifest_compute_checksum_def manifest_preimage_def)

lemma computed_checksum_verifies [simp]: "manifest_verify X (manifest_compute_checksum X m)"
  by (simp add: manifest_verify_iff) (simp add: manifest_compute_checksum_def manifest_preimage_def)

lemma manifest_preimage_inject:
  assumes "manifest_preimage m = manifest_preimage m'" "man_checksum m = man_checksum m'"
    and "length (man_block_hash m) = 32" "length (man_block_hash m') = 32"
    and "length (man_state_root m) = 32" "length (man_state_root m') = 32"
  shows "(m :: snapshot_manifest) = m'"
  using assms by (cases m; cases m') (simp add: manifest_preimage_def)

section \<open>Frames\<close>

definition block_frame :: "snapshot_codec \<Rightarrow> block \<Rightarrow> bytes" where
  "block_frame C b = (case sc_ser_block C b of Inr bs \<Rightarrow> le_bytes (of_nat (length bs) :: u32) @ bs | Inl msg \<Rightarrow> [])"

definition storable :: "snapshot_codec \<Rightarrow> block \<Rightarrow> bool" where
  "storable C b \<longleftrightarrow> (case sc_ser_block C b of Inr bs \<Rightarrow> length bs < 2 ^ 32 | Inl msg \<Rightarrow> False)"

definition snapshot_codec_law :: "snapshot_codec \<Rightarrow> bool" where
  "snapshot_codec_law C \<longleftrightarrow>
     (\<forall>b bs. sc_ser_block C b = Inr bs \<longrightarrow> sc_de_block C bs = Inr b) \<and>
     (\<forall>m bs. sc_ser_manifest C m = Inr bs \<longrightarrow> sc_de_manifest C bs = Inr m)"

definition block_entries :: "block list \<Rightarrow> (block_height \<times> block) list" where
  "block_entries bs = map (\<lambda>b. (hdr_height (header b), b)) bs"

definition only_blocks :: "write_batch \<Rightarrow> bool" where
  "only_blocks b \<longleftrightarrow> wb_transactions b = [] \<and> wb_accounts b = [] \<and> wb_state_roots b = [] \<and> numbered (wb_blocks b)"

lemma only_blocks_new [simp]: "only_blocks batch_new"
  by (simp add: only_blocks_def batch_new_def)

lemma only_blocks_add [simp]: "only_blocks b \<Longrightarrow> only_blocks (add_block blk b)"
  by (simp add: only_blocks_def add_block_def)

lemma only_blocks_clear [simp]: "only_blocks (batch_clear b)"
  by (simp add: only_blocks_def batch_clear_def)

lemma storable_frame:
  assumes "storable C b"
  obtains bs where "sc_ser_block C b = Inr bs" "block_frame C b = le_bytes (of_nat (length bs) :: u32) @ bs" "length bs < 2 ^ 32"
  using assms by (auto simp: storable_def block_frame_def split: sum.splits)

lemma restore_frames_Nil [simp]: "restore_frames S C [] batch s = (Inr batch, s)"
  by (simp add: restore_frames.simps)

lemma restore_frames_Cons:
  assumes "snapshot_codec_law C" "storable C b"
  shows "restore_frames S C (block_frame C b @ rest) batch s =
     (let batch' = add_block b batch
      in if batch_len batch' \<ge> 1000
         then (case so_write_batch S batch' s of
                 Inl e \<Rightarrow> (Inl e, s)
               | Inr s' \<Rightarrow> restore_frames S C rest (batch_clear batch') s')
         else restore_frames S C rest batch' s)"
proof -
  obtain bs where bs: "sc_ser_block C b = Inr bs" "block_frame C b = le_bytes (of_nat (length bs) :: u32) @ bs" "length bs < 2 ^ 32"
    using assms(2) by (rule storable_frame)
  have de: "sc_de_block C bs = Inr b" using assms(1) bs(1) by (simp add: snapshot_codec_law_def)
  have len: "length (le_bytes (of_nat (length bs) :: u32)) = 4" by simp
  have "le_nat (le_bytes (of_nat (length bs) :: u32)) = length bs"
    using bs(3) by (simp add: le_nat_le_bytes unat_of_nat)
  with len de show ?thesis
    by (subst restore_frames.simps) (simp add: bs(2) Let_def split: sum.split)
qed

lemma put_blocks_map: "put_blocks (map (\<lambda>h. (h, g h)) hs) m h = (if h \<in> set hs then Some (g h) else m h)"
  by (induction hs arbitrary: m) simp_all

lemma set_heights_to [simp]: "h \<in> set (heights_to H) \<longleftrightarrow> h \<le> H"
proof
  assume "h \<in> set (heights_to H)"
  then have "h \<in> of_nat ` {0..<Suc (unat H)}" by (simp only: heights_to_def set_map set_upt)
  then obtain n where "n \<le> unat H" "h = of_nat n" by (elim imageE) (simp add: less_Suc_eq_le)
  then show "h \<le> H" by (simp add: word_le_nat_alt unat_of_nat)
next
  assume "h \<le> H"
  then have "unat h < Suc (unat H)" "h = of_nat (unat h)" by (simp_all add: word_le_nat_alt)
  then show "h \<in> set (heights_to H)" unfolding heights_to_def by (metis atLeastLessThan_iff image_eqI le0 set_map set_upt)
qed

section \<open>What a working file system does\<close>

text \<open>What a writer holds is what is on disk followed by its buffer.\<close>

definition written :: "('f \<Rightarrow> path \<Rightarrow> bytes option) \<Rightarrow> file_writer \<Rightarrow> 'f \<Rightarrow> bytes \<Rightarrow> bool" where
  "written files w f c \<longleftrightarrow> (case files f (fw_path w) of Some c0 \<Rightarrow> c = c0 @ fw_buffer w | None \<Rightarrow> False)"

locale snapshot_fs =
  fixes F :: "'f fs_ops"
    and files :: "'f \<Rightarrow> path \<Rightarrow> bytes option"
    and dirs :: "'f \<Rightarrow> path set"
  assumes fs_mkdir: "(\<And>q. prefix q p \<Longrightarrow> files f q = None) \<Longrightarrow>
      \<exists>f'. fs_create_dir_all F p f = (Inr (), f') \<and> files f' = files f \<and> dirs f' = dirs f \<union> {q. prefix q p}"
    and fs_create_file: "p \<in> dirs f \<Longrightarrow> path_join p n \<notin> dirs f \<Longrightarrow>
      \<exists>f'. fs_create F (path_join p n) f = (Inr (), f') \<and> files f' = (files f)(path_join p n \<mapsto> []) \<and> dirs f' = dirs f"
    and fs_append_file: "files f p = Some c \<Longrightarrow>
      \<exists>f'. fs_append F p bs f = ([], Inr (), f') \<and> files f' = (files f)(p \<mapsto> c @ bs) \<and> dirs f' = dirs f"
    and fs_write_file: "p \<in> dirs f \<Longrightarrow> path_join p n \<notin> dirs f \<Longrightarrow>
      \<exists>f'. fs_write F (path_join p n) bs f = (Inr (), f') \<and> files f' = (files f)(path_join p n \<mapsto> bs) \<and> dirs f' = dirs f"
    and fs_read_file: "files f p = Some c \<Longrightarrow> fs_read F p f = Inr c"
    and fs_read_missing: "files f p = None \<Longrightarrow> \<exists>msg. fs_read F p f = Inl msg"
    and fs_exists_iff: "fs_exists F p f \<longleftrightarrow> p \<in> dirs f \<or> files f p \<noteq> None"
    and fs_is_dir_iff: "fs_is_dir F p f \<longleftrightarrow> p \<in> dirs f"
    and fs_list: "p \<in> dirs f \<Longrightarrow>
      \<exists>es. fs_read_dir F p f = Inr (map Inr es) \<and> distinct es \<and>
        set es = {q. (\<exists>n. q = path_join p n) \<and> (q \<in> dirs f \<or> files f q \<noteq> None)}"
    and fs_remove: "p \<in> dirs f \<Longrightarrow>
      \<exists>f'. fs_remove_dir_all F p f = (Inr (), f') \<and> files f' = (files f) |` {q. \<not> prefix p q} \<and>
        dirs f' = {q \<in> dirs f. \<not> prefix p q}"
begin

lemma flush_ok:
  assumes "written files w f c"
  obtains f' where "fw_flush F w f = (Inr (), w\<lparr>fw_buffer := []\<rparr>, f')" "files f' = (files f)(fw_path w \<mapsto> c)" "dirs f' = dirs f"
proof (cases "fw_buffer w = []")
  case True
  moreover from this have "w\<lparr>fw_buffer := []\<rparr> = w" by (cases w) simp
  ultimately show thesis using assms
    by (intro that [of f]) (auto simp: fw_flush_def written_def fun_upd_idem split: option.splits)
next
  case False
  obtain c0 where c0: "files f (fw_path w) = Some c0" "c = c0 @ fw_buffer w"
    using assms by (auto simp: written_def split: option.splits)
  obtain f' where f': "fs_append F (fw_path w) (fw_buffer w) f = ([], Inr (), f')" "files f' = (files f)(fw_path w \<mapsto> c)" "dirs f' = dirs f"
    using fs_append_file [OF c0(1), of "fw_buffer w"] c0(2) by blast
  from False f'(1) have "fw_flush F w f = (Inr (), w\<lparr>fw_buffer := []\<rparr>, f')" by (simp add: fw_flush_def disk_result_def)
  then show thesis using f'(2,3) by (rule that)
qed

text \<open>The step a writer takes: its file grows by the data, everything else stays.\<close>

definition grew :: "file_writer \<Rightarrow> 'f \<Rightarrow> bytes \<Rightarrow> file_writer \<Rightarrow> 'f \<Rightarrow> bool" where
  "grew w f c w' f' \<longleftrightarrow> written files w' f' c \<and> fw_path w' = fw_path w \<and> dirs f' = dirs f \<and>
     (\<forall>q. q \<noteq> fw_path w \<longrightarrow> files f' q = files f q)"

lemma write_all_ok:
  assumes "written files w f c"
  obtains w' f' where "fw_write_all F data w f = (Inr (), w', f')" "grew w f (c @ data) w' f'"
proof -
  obtain w1 f1 where 1: "(if length data > FILE_BUF - length (fw_buffer w) then fw_flush F w f else (Inr (), w, f)) = (Inr (), w1, f1)"
    "grew w f c w1 f1" "length data > FILE_BUF - length (fw_buffer w) \<or> fw_buffer w = [] \<Longrightarrow> fw_buffer w1 = []"
  proof (cases "length data > FILE_BUF - length (fw_buffer w)")
    case True
    obtain f1 where "fw_flush F w f = (Inr (), w\<lparr>fw_buffer := []\<rparr>, f1)" "files f1 = (files f)(fw_path w \<mapsto> c)" "dirs f1 = dirs f"
      by (rule flush_ok [OF assms])
    with True show thesis by (intro that [of "w\<lparr>fw_buffer := []\<rparr>" f1]) (simp_all add: grew_def written_def)
  next
    case False
    with assms show thesis by (intro that [of w f]) (simp_all add: grew_def)
  qed
  show thesis
  proof (cases "length data \<ge> FILE_BUF")
    case False
    with 1 show thesis
      by (intro that [of "w1\<lparr>fw_buffer := fw_buffer w1 @ data\<rparr>" f1])
        (auto simp: fw_write_all_def grew_def written_def split: option.splits)
  next
    case True
    then have "length data > FILE_BUF - length (fw_buffer w) \<or> fw_buffer w = []" by (cases "fw_buffer w") (auto simp: FILE_BUF_def)
    then have e: "fw_buffer w1 = []" by (rule 1(3))
    then have "files f1 (fw_path w1) = Some c" using 1(2) by (auto simp: grew_def written_def split: option.splits)
    then obtain f2 where f2: "fs_append F (fw_path w1) data f1 = ([], Inr (), f2)"
      "files f2 = (files f1)(fw_path w1 \<mapsto> c @ data)" "dirs f2 = dirs f1"
      using fs_append_file by blast
    with 1 True have "fw_write_all F data w f = (Inr (), w1, f2)" by (simp add: fw_write_all_def disk_result_def)
    moreover have "grew w f (c @ data) w1 f2" using 1(2) e f2 by (simp add: grew_def written_def)
    ultimately show thesis by (rule that)
  qed
qed

lemma grew_trans: "grew w f c w1 f1 \<Longrightarrow> grew w1 f1 c' w2 f2 \<Longrightarrow> grew w f c' w2 f2"
  by (simp add: grew_def)

lemma grew_written: "grew w f c w' f' \<Longrightarrow> written files w' f' c"
  by (simp add: grew_def)

lemma finish_ok:
  assumes "grew w f c w1 f1"
  obtains f' where "fw_finish F (Inr (), w1, f1) = (Inr (), f')" "files f' = (files f)(fw_path w \<mapsto> c)" "dirs f' = dirs f"
proof -
  have w1: "written files w1 f1 c" "fw_path w1 = fw_path w" using assms by (simp_all add: grew_def)
  obtain f2 where f2: "fw_flush F w1 f1 = (Inr (), w1\<lparr>fw_buffer := []\<rparr>, f2)" "files f2 = (files f1)(fw_path w1 \<mapsto> c)" "dirs f2 = dirs f1"
    by (rule flush_ok [OF w1(1)])
  then have "fw_finish F (Inr (), w1, f1) = (Inr (), f2)" by (simp add: fw_finish_def fw_drop_def fw_flush_def)
  moreover have "files f2 = (files f)(fw_path w \<mapsto> c)" "dirs f2 = dirs f"
    using assms f2 by (auto simp: grew_def fun_eq_iff)
  ultimately show thesis by (rule that)
qed

lemma save_heights_ok:
  assumes "written files w f c" "list_all2 (\<lambda>h b. so_get_block S h s = Inr (Some b) \<and> storable C b) hs bs"
  obtains w' f' where "save_heights S C F s hs w f = (Inr (), w', f')" "grew w f (c @ concat (map (block_frame C) bs)) w' f'"
  using assms(2,1)
proof (induction hs bs arbitrary: w f c thesis rule: list_all2_induct)
  case Nil
  then show ?case by (auto simp: grew_def)
next
  case (Cons h hs b bs)
  obtain v where v: "sc_ser_block C b = Inr v" "block_frame C b = le_bytes (of_nat (length v) :: u32) @ v"
    using Cons.hyps by (auto elim: storable_frame)
  obtain w1 f1 where 1: "fw_write_all F (le_bytes (of_nat (length v) :: u32)) w f = (Inr (), w1, f1)"
    "grew w f (c @ le_bytes (of_nat (length v) :: u32)) w1 f1" by (rule write_all_ok [OF Cons.prems(2)])
  obtain w2 f2 where 2: "fw_write_all F v w1 f1 = (Inr (), w2, f2)" "grew w1 f1 ((c @ le_bytes (of_nat (length v) :: u32)) @ v) w2 f2"
    by (rule write_all_ok [OF grew_written [OF 1(2)]])
  obtain w3 f3 where 3: "save_heights S C F s hs w2 f2 = (Inr (), w3, f3)"
    "grew w2 f2 (((c @ le_bytes (of_nat (length v) :: u32)) @ v) @ concat (map (block_frame C) bs)) w3 f3"
    by (rule Cons.IH [OF _ grew_written [OF 2(2)]])
  show ?case
  proof (rule Cons.prems(1))
    show "save_heights S C F s (h # hs) w f = (Inr (), w3, f3)" using Cons.hyps v(1) 1(1) 2(1) 3(1) by simp
    show "grew w f (c @ concat (map (block_frame C) (b # bs))) w3 f3"
      using grew_trans [OF 1(2) grew_trans [OF 2(2) 3(2)]] by (simp add: v(2))
  qed
qed

end

context snapshot_fs
begin

lemma writer_ok:
  assumes "p \<in> dirs f" "path_join p n \<notin> dirs f"
  obtains f1 where "fs_create F (path_join p n) f = (Inr (), f1)" "dirs f1 = dirs f" "files f1 = (files f)(path_join p n \<mapsto> [])"
    "written files \<lparr>fw_path = path_join p n, fw_buffer = []\<rparr> f1 []"
  using fs_create_file [OF assms] by (auto simp: written_def)

lemma save_blocks_ok:
  assumes "p \<in> dirs f" "path_join p ''blocks.bin'' \<notin> dirs f"
    and "list_all2 (\<lambda>h b. so_get_block S h s = Inr (Some b) \<and> storable C b) (heights_to H) bs"
  obtains f' where "save_blocks S C F p H s f = (Inr (), f')" "dirs f' = dirs f"
    "files f' = (files f)(path_join p ''blocks.bin'' \<mapsto> concat (map (block_frame C) bs))"
proof -
  let ?w = "\<lparr>fw_path = path_join p ''blocks.bin'', fw_buffer = []\<rparr>"
  obtain f1 where 1: "fs_create F (path_join p ''blocks.bin'') f = (Inr (), f1)" "dirs f1 = dirs f"
    "files f1 = (files f)(path_join p ''blocks.bin'' \<mapsto> [])" "written files ?w f1 []" by (rule writer_ok [OF assms(1,2)])
  obtain w2 f2 where 2: "save_heights S C F s (heights_to H) ?w f1 = (Inr (), w2, f2)"
    "grew ?w f1 ([] @ concat (map (block_frame C) bs)) w2 f2" by (rule save_heights_ok [OF 1(4) assms(3)])
  obtain f3 where "fw_finish F (Inr (), w2, f2) = (Inr (), f3)"
    "files f3 = (files f1)(fw_path ?w \<mapsto> [] @ concat (map (block_frame C) bs))" "dirs f3 = dirs f1" by (rule finish_ok [OF 2(2)])
  with 1 2 show thesis by (intro that [of f3]) (simp_all add: save_blocks_def Let_def)
qed

lemma save_state_ok:
  assumes "p \<in> dirs f" "path_join p ''state.bin'' \<notin> dirs f"
  obtains f' where "save_state F p f = (Inr (0, 0), f')" "dirs f' = dirs f"
    "files f' = (files f)(path_join p ''state.bin'' \<mapsto> le_bytes (0 :: u64) @ le_bytes (0 :: u128))"
proof -
  let ?w = "\<lparr>fw_path = path_join p ''state.bin'', fw_buffer = []\<rparr>"
  obtain f1 where 1: "fs_create F (path_join p ''state.bin'') f = (Inr (), f1)" "dirs f1 = dirs f"
    "files f1 = (files f)(path_join p ''state.bin'' \<mapsto> [])" "written files ?w f1 []" by (rule writer_ok [OF assms])
  obtain w2 f2 where 2: "fw_write_all F (le_bytes (0 :: u64)) ?w f1 = (Inr (), w2, f2)"
    "grew ?w f1 ([] @ le_bytes (0 :: u64)) w2 f2" by (rule write_all_ok [OF 1(4)])
  obtain w3 f3 where 3: "fw_write_all F (le_bytes (0 :: u128)) w2 f2 = (Inr (), w3, f3)"
    "grew w2 f2 (([] @ le_bytes (0 :: u64)) @ le_bytes (0 :: u128)) w3 f3" by (rule write_all_ok [OF grew_written [OF 2(2)]])
  obtain f4 where "fw_finish F (Inr (), w3, f3) = (Inr (), f4)" "dirs f4 = dirs f1"
    "files f4 = (files f1)(fw_path ?w \<mapsto> ([] @ le_bytes (0 :: u64)) @ le_bytes (0 :: u128))"
    by (rule finish_ok [OF grew_trans [OF 2(2) 3(2)]])
  with 1 2 3 show thesis by (intro that [of f4]) (simp_all add: save_state_def Let_def)
qed

text \<open>The snapshot on disk.\<close>

lemma create_snapshot_ok:
  assumes "so_get_block S H s = Inr (Some b)" "so_get_state_root S H s = Inr (Some rt)"
    and blocks: "list_all2 (\<lambda>h b. so_get_block S h s = Inr (Some b) \<and> storable C b) (heights_to H) bs"
    and js: "sc_ser_manifest C (manifest_compute_checksum X (manifest_new now H (block_hash X b) rt)) = Inr js"
    and free: "\<And>q. prefix q (snapshot_path dir H) \<Longrightarrow> files f q = None"
    and new: "\<And>n. path_join (snapshot_path dir H) n \<notin> dirs f"
  obtains f' where "create_snapshot X S C F now dir H s f = (Inr (manifest_compute_checksum X (manifest_new now H (block_hash X b) rt)), f')"
    "snapshot_path dir H \<in> dirs f'"
    "files f' = (files f)(path_join (snapshot_path dir H) ''blocks.bin'' \<mapsto> concat (map (block_frame C) bs),
       path_join (snapshot_path dir H) ''state.bin'' \<mapsto> le_bytes (0 :: u64) @ le_bytes (0 :: u128),
       path_join (snapshot_path dir H) ''manifest.json'' \<mapsto> js)"
proof -
  let ?p = "snapshot_path dir H"
  obtain f1 where 1: "fs_create_dir_all F ?p f = (Inr (), f1)" "files f1 = files f" "dirs f1 = dirs f \<union> {q. prefix q ?p}"
    using fs_mkdir [OF free] by blast
  have p: "?p \<in> dirs f1" and sub: "path_join ?p n \<notin> dirs f1" for n
    using 1(3) new by (auto simp: path_join_def prefix_def)
  obtain f2 where 2: "save_blocks S C F ?p H s f1 = (Inr (), f2)" "dirs f2 = dirs f1"
    "files f2 = (files f1)(path_join ?p ''blocks.bin'' \<mapsto> concat (map (block_frame C) bs))"
    by (rule save_blocks_ok [OF p sub blocks])
  obtain f3 where 3: "save_state F ?p f2 = (Inr (0, 0), f3)" "dirs f3 = dirs f2"
    "files f3 = (files f2)(path_join ?p ''state.bin'' \<mapsto> le_bytes (0 :: u64) @ le_bytes (0 :: u128))"
    by (rule save_state_ok [of ?p f2]) (use p sub 2(2) in simp_all)
  have tot: "(manifest_new now H (block_hash X b) rt)\<lparr>man_total_accounts := 0, man_total_supply := 0\<rparr> = manifest_new now H (block_hash X b) rt"
    by (simp add: manifest_new_def)
  obtain f4 where 4: "fs_write F (path_join ?p ''manifest.json'') js f3 = (Inr (), f4)" "dirs f4 = dirs f3"
    "files f4 = (files f3)(path_join ?p ''manifest.json'' \<mapsto> js)"
    using fs_write_file [of ?p f3 "''manifest.json''" js] p sub 2(2) 3(2) by auto
  have "create_snapshot X S C F now dir H s f = (Inr (manifest_compute_checksum X (manifest_new now H (block_hash X b) rt)), f4)"
    using assms(1,2) 1(1) 2(1) 3(1) js 4(1) by (simp add: create_snapshot_def tot)
  then show thesis by (rule that) (use p 1(2) 2 3 4 in simp_all)
qed

end

context reliable_chain
begin

lemma restore_frames_ok:
  assumes "snapshot_codec_law C" "list_all (storable C) bs" "only_blocks batch"
  obtains batch' s' where "restore_frames S C (concat (map (block_frame C) bs)) batch s = (Inr batch', s')" "only_blocks batch'"
    "put_blocks (wb_blocks batch @ block_entries bs) (blocks s) \<subseteq>\<^sub>m put_blocks (wb_blocks batch') (blocks s')"
    "accounts s' = accounts s" "roots s' = roots s"
  using assms(2,3)
proof (induction bs arbitrary: batch s thesis)
  case Nil
  then show ?case by (simp add: block_entries_def)
next
  case (Cons b bs)
  let ?b = "add_block b batch"
  have step: "put_blocks (wb_blocks batch @ block_entries (b # bs)) (blocks s) = put_blocks (wb_blocks ?b @ block_entries bs) (blocks s)"
    by (simp add: block_entries_def add_block_def)
  have ok: "only_blocks ?b" using Cons.prems(3) by simp
  show ?case
  proof (cases "batch_len ?b \<ge> 1000")
    case False
    obtain batch' s' where "restore_frames S C (concat (map (block_frame C) bs)) ?b s = (Inr batch', s')" "only_blocks batch'"
      "put_blocks (wb_blocks ?b @ block_entries bs) (blocks s) \<subseteq>\<^sub>m put_blocks (wb_blocks batch') (blocks s')"
      "accounts s' = accounts s" "roots s' = roots s"
      using Cons.IH [OF _ _ ok] Cons.prems(2) by auto
    with False show ?thesis
      using Cons.prems(2) by (intro Cons.prems(1) [of batch' s']) (simp_all only: step, simp_all add: restore_frames_Cons [OF assms(1)])
  next
    case True
    obtain s1 where s1: "so_write_batch S ?b s = Inr s1" using write_entries_ok by blast
    have keep: "accounts s1 = accounts s" "roots s1 = roots s" using write_entries [OF s1] ok by (simp_all add: only_blocks_def)
    have blk: "put_blocks (wb_blocks ?b) (blocks s) \<subseteq>\<^sub>m blocks s1" using write_blocks [OF s1] ok by (simp add: only_blocks_def)
    obtain batch' s' where r: "restore_frames S C (concat (map (block_frame C) bs)) (batch_clear ?b) s1 = (Inr batch', s')" "only_blocks batch'"
      "put_blocks (wb_blocks (batch_clear ?b) @ block_entries bs) (blocks s1) \<subseteq>\<^sub>m put_blocks (wb_blocks batch') (blocks s')"
      "accounts s' = accounts s1" "roots s' = roots s1"
      using Cons.IH [of "batch_clear ?b" s1] Cons.prems(2) by auto
    have "put_blocks (wb_blocks ?b @ block_entries bs) (blocks s) \<subseteq>\<^sub>m put_blocks (block_entries bs) (blocks s1)"
      using put_blocks_mono [OF blk] by simp
    also have "\<dots> \<subseteq>\<^sub>m put_blocks (wb_blocks batch') (blocks s')" using r(3) by (simp add: batch_clear_def)
    finally show ?thesis
      using True s1 r keep Cons.prems(2)
      by (intro Cons.prems(1) [of batch' s']) (simp_all only: step, simp_all add: restore_frames_Cons [OF assms(1)] Let_def)
  qed
qed

lemma restore_blocks_ok:
  assumes "snapshot_codec_law C" "list_all (storable C) bs"
    and "fs_read F (path_join p ''blocks.bin'') f = Inr (concat (map (block_frame C) bs))"
  obtains s' where "restore_blocks S C F p f s = (Inr (), s')" "put_blocks (block_entries bs) (blocks s) \<subseteq>\<^sub>m blocks s'"
    "accounts s' = accounts s" "roots s' = roots s"
proof -
  obtain batch s1 where 1: "restore_frames S C (concat (map (block_frame C) bs)) batch_new s = (Inr batch, s1)" "only_blocks batch"
    "put_blocks (wb_blocks batch_new @ block_entries bs) (blocks s) \<subseteq>\<^sub>m put_blocks (wb_blocks batch) (blocks s1)"
    "accounts s1 = accounts s" "roots s1 = roots s"
    by (rule restore_frames_ok [OF assms(1,2) only_blocks_new])
  obtain s2 where s2: "so_write_batch S batch s1 = Inr s2" using write_entries_ok by blast
  show thesis
  proof (cases "batch_is_empty batch")
    case True
    with 1 assms(3) show thesis by (intro that [of s1]) (auto simp: restore_blocks_def batch_is_empty_def batch_new_def)
  next
    case False
    have "put_blocks (block_entries bs) (blocks s) \<subseteq>\<^sub>m blocks s2"
      using map_le_trans [OF 1(3)] write_blocks [OF s2] 1(2) by (simp add: only_blocks_def batch_new_def)
    moreover have "accounts s2 = accounts s" "roots s2 = roots s"
      using write_entries [OF s2] 1(2,4,5) by (simp_all add: only_blocks_def)
    ultimately show thesis using False 1(1) s2 assms(3) by (intro that [of s2]) (simp_all add: restore_blocks_def)
  qed
qed

end

context snapshot_fs
begin

lemma scan_entries_ok: "scan_entries C F f (map Inr es) = Inr (List.map_filter (snapshot_at C F f) es)"
  by (induction es) (simp_all add: List.map_filter_simps split: option.split)

lemma snapshot_at_path: "snapshot_at C F f p = Some i \<Longrightarrow> inf_path i = p \<and> p \<in> dirs f"
  by (auto simp: snapshot_at_def fs_is_dir_iff split: if_splits sum.splits)

lemma map_filter_distinct:
  assumes "\<And>p i. g p = Some i \<Longrightarrow> inf_path i = p" "distinct es"
  shows "distinct (map inf_path (List.map_filter g es))"
proof -
  have "distinct (map inf_path (List.map_filter g es)) \<and> set (map inf_path (List.map_filter g es)) \<subseteq> set es"
    using assms(2) by (induction es) (auto simp: List.map_filter_simps dest: assms(1) split: option.splits)
  then show ?thesis by blast
qed

text \<open>The listing, as a set: the readable snapshots among the children of the directory.\<close>

lemma list_snapshots_ok:
  assumes "dir \<in> dirs f"
  obtains infs where "list_snapshots C F dir f = Inr infs" "sorted (map inf_height infs)" "distinct (map inf_path infs)"
    "set infs = {i. \<exists>n. snapshot_at C F f (path_join dir n) = Some i}"
proof -
  obtain es where es: "fs_read_dir F dir f = Inr (map Inr es)" "distinct es"
    "set es = {q. (\<exists>n. q = path_join dir n) \<and> (q \<in> dirs f \<or> files f q \<noteq> None)}" using fs_list [OF assms] by blast
  let ?infs = "List.map_filter (snapshot_at C F f) es"
  have "set ?infs = {i. \<exists>q\<in>set es. snapshot_at C F f q = Some i}"
    by (auto simp: List.map_filter_def) force
  also have "\<dots> = {i. \<exists>n. snapshot_at C F f (path_join dir n) = Some i}"
    unfolding es(3) using snapshot_at_path by blast
  finally have "set ?infs = {i. \<exists>n. snapshot_at C F f (path_join dir n) = Some i}" .
  moreover have "distinct (map inf_path ?infs)" using es(2) snapshot_at_path by (intro map_filter_distinct) blast+
  then have "distinct (map inf_path (sort_key inf_height ?infs))"
    by (simp add: distinct_map)
  ultimately show thesis
    by (intro that [of "sort_key inf_height ?infs"]) (simp_all add: list_snapshots_def es(1) scan_entries_ok)
qed

lemma remove_snapshots_ok:
  assumes "\<And>i. i \<in> set is \<Longrightarrow> inf_path i \<in> dirs f \<and> (\<exists>n. inf_path i = path_join dir n)" "distinct (map inf_path is)"
  obtains f' where "remove_snapshots F is f = (Inr (), f')"
    "files f' = files f |` {q. \<forall>i\<in>set is. \<not> prefix (inf_path i) q}" "dirs f' = {q \<in> dirs f. \<forall>i\<in>set is. \<not> prefix (inf_path i) q}"
  using assms
proof (induction "is" arbitrary: f thesis)
  case Nil
  then show ?case by simp
next
  case (Cons i "is")
  obtain f1 where f1: "fs_remove_dir_all F (inf_path i) f = (Inr (), f1)" "files f1 = files f |` {q. \<not> prefix (inf_path i) q}"
    "dirs f1 = {q \<in> dirs f. \<not> prefix (inf_path i) q}"
    using fs_remove [of "inf_path i" f] Cons.prems(2) [of i] by auto
  have "inf_path j \<in> dirs f1 \<and> (\<exists>n. inf_path j = path_join dir n)" if j: "j \<in> set is" for j
  proof -
    have "inf_path j \<noteq> inf_path i" using Cons.prems(3) j by (auto simp: rev_image_eqI)
    moreover obtain n k where "inf_path i = path_join dir n" "inf_path j = path_join dir k" "inf_path j \<in> dirs f"
      using Cons.prems(2) [of i] Cons.prems(2) [of j] j by auto
    ultimately show ?thesis by (auto simp: f1(3) path_join_def)
  qed
  then obtain f' where f': "remove_snapshots F is f1 = (Inr (), f')"
    "files f' = files f1 |` {q. \<forall>i\<in>set is. \<not> prefix (inf_path i) q}" "dirs f' = {q \<in> dirs f1. \<forall>i\<in>set is. \<not> prefix (inf_path i) q}"
    using Cons.IH [of f1] Cons.prems(3) by auto
  show ?case
  proof (rule Cons.prems(1))
    show "remove_snapshots F (i # is) f = (Inr (), f')" by (simp add: f1(1) f'(1))
    show "files f' = files f |` {q. \<forall>j\<in>set (i # is). \<not> prefix (inf_path j) q}"
      by (simp add: f1(2) f'(2) Collect_conj_eq)
    show "dirs f' = {q \<in> dirs f. \<forall>j\<in>set (i # is). \<not> prefix (inf_path j) q}" by (auto simp: f1(3) f'(3))
  qed
qed

lemma snapshot_at_frame:
  assumes "files f' (path_join p ''manifest.json'') = files f (path_join p ''manifest.json'')" "p \<in> dirs f' \<longleftrightarrow> p \<in> dirs f"
    and "path_join p ''manifest.json'' \<in> dirs f' \<longleftrightarrow> path_join p ''manifest.json'' \<in> dirs f"
  shows "snapshot_at C F f' p = snapshot_at C F f p"
proof (cases "files f (path_join p ''manifest.json'')")
  case None
  then show ?thesis
    using fs_read_missing [of f "path_join p ''manifest.json''"] fs_read_missing [of f' "path_join p ''manifest.json''"] assms(1)
    by (auto simp: snapshot_at_def)
next
  case (Some c)
  then show ?thesis
    using fs_read_file [OF Some] fs_read_file [of f' "path_join p ''manifest.json''" c] assms
    by (simp add: snapshot_at_def fs_is_dir_iff fs_exists_iff)
qed

lemma prune_ok:
  assumes "dir \<in> dirs f" "list_snapshots C F dir f = Inr infs"
  shows "\<exists>f' infs'. prune_old_snapshots C F dir keep_last f = (Inr (), f') \<and> list_snapshots C F dir f' = Inr infs' \<and>
     mset infs' = mset (drop (length infs - keep_last) infs) \<and> sorted (map inf_height infs')"
proof -
  have infs: "sorted (map inf_height infs)" "distinct (map inf_path infs)"
    "set infs = {i. \<exists>n. snapshot_at C F f (path_join dir n) = Some i}"
  proof -
    obtain infs0 where "list_snapshots C F dir f = Inr infs0" "sorted (map inf_height infs0)" "distinct (map inf_path infs0)"
      "set infs0 = {i. \<exists>n. snapshot_at C F f (path_join dir n) = Some i}" by (rule list_snapshots_ok [OF assms(1)])
    with assms(2) show "sorted (map inf_height infs)" "distinct (map inf_path infs)"
      "set infs = {i. \<exists>n. snapshot_at C F f (path_join dir n) = Some i}" by simp_all
  qed
  let ?k = "length infs - keep_last"
  show ?thesis
  proof (cases "length infs \<le> keep_last")
    case True
    then show ?thesis using assms(2) infs(1) by (auto simp: prune_old_snapshots_def)
  next
    case False
    have kids: "inf_path i \<in> dirs f \<and> (\<exists>n. inf_path i = path_join dir n)" if "i \<in> set (take ?k infs)" for i
      using in_set_takeD [OF that] snapshot_at_path by (auto simp: infs(3))
    have dt: "distinct (map inf_path (take ?k infs))" using infs(2) by (metis distinct_take take_map)
    obtain f' where f': "remove_snapshots F (take ?k infs) f = (Inr (), f')"
      "files f' = files f |` {q. \<forall>i\<in>set (take ?k infs). \<not> prefix (inf_path i) q}"
      "dirs f' = {q \<in> dirs f. \<forall>i\<in>set (take ?k infs). \<not> prefix (inf_path i) q}"
      by (rule remove_snapshots_ok [OF kids dt])
    have below: "prefix (inf_path i) (path_join dir n) \<longleftrightarrow> inf_path i = path_join dir n"
      "prefix (inf_path i) (path_join (path_join dir n) m) \<longleftrightarrow> inf_path i = path_join dir n"
      "\<not> prefix (inf_path i) dir" if "i \<in> set (take ?k infs)" for i n m
      using kids [OF that] by (auto simp: path_join_def prefix_def)
    have dir': "dir \<in> dirs f'" using assms(1) below(3) by (simp add: f'(3))
    obtain infs' where infs': "list_snapshots C F dir f' = Inr infs'" "sorted (map inf_height infs')" "distinct (map inf_path infs')"
      "set infs' = {i. \<exists>n. snapshot_at C F f' (path_join dir n) = Some i}" by (rule list_snapshots_ok [OF dir'])
    have gone: "snapshot_at C F f' (path_join dir n) = None" if "i \<in> set (take ?k infs)" "inf_path i = path_join dir n" for i n
      using that below(1) snapshot_at_path [of C f' "path_join dir n"] by (cases "snapshot_at C F f' (path_join dir n)") (auto simp: f'(3))
    have kept: "snapshot_at C F f' (path_join dir n) = snapshot_at C F f (path_join dir n)"
      if "\<forall>i\<in>set (take ?k infs). inf_path i \<noteq> path_join dir n" for n
      by (rule snapshot_at_frame) (use that below in \<open>auto simp: f'(2,3) restrict_map_def\<close>)
    have "set infs' = {i \<in> set infs. \<forall>j\<in>set (take ?k infs). inf_path j \<noteq> inf_path i}"
      unfolding infs'(4) infs(3) using gone kept snapshot_at_path
      by (auto; metis option.distinct(1))
    also have "\<dots> = set (drop ?k infs)"
    proof -
      have "set infs = set (take ?k infs) \<union> set (drop ?k infs)" by (metis append_take_drop_id set_append)
      moreover have "inf_path ` set (take ?k infs) \<inter> inf_path ` set (drop ?k infs) = {}"
        using infs(2) by (metis append_take_drop_id distinct_append map_append set_map)
      ultimately show ?thesis by auto
    qed
    finally have "set infs' = set (drop ?k infs)" .
    moreover have "distinct infs'" "distinct (drop ?k infs)" using infs(2) infs'(3) by (simp_all add: distinct_map)
    ultimately have "mset infs' = mset (drop ?k infs)" by (simp add: set_eq_iff_mset_eq_distinct)
    then show ?thesis
      using False assms(2) f'(1) infs' infs(1) by (auto simp: prune_old_snapshots_def sort_key_id_if_sorted)
  qed
qed

end

section \<open>A tree of files\<close>

datatype fs_node = DirNode | FileNode bytes

type_synonym fs_tree = "(path \<times> fs_node) list"

definition tree_file :: "fs_tree \<Rightarrow> path \<Rightarrow> bytes option" where
  "tree_file t p = (case map_of t p of Some (FileNode c) \<Rightarrow> Some c | _ \<Rightarrow> None)"

definition tree_dirs :: "fs_tree \<Rightarrow> path set" where
  "tree_dirs t = {p. map_of t p = Some DirNode}"

definition tree_put :: "path \<Rightarrow> bytes \<Rightarrow> fs_tree \<Rightarrow> (string + unit) \<times> fs_tree" where
  "tree_put p bs t =
     (if p \<noteq> [] \<and> map_of t (butlast p) = Some DirNode \<and> map_of t p \<noteq> Some DirNode
      then (Inr (), AList.update p (FileNode bs) t) else (Inl ''No such file or directory (os error 2)'', t))"

definition tree_ops :: "fs_tree fs_ops" where
  "tree_ops =
     \<lparr>fs_create_dir_all = \<lambda>p t.
        if list_all (\<lambda>q. tree_file t q = None) (prefixes p) then (Inr (), fold (\<lambda>q. AList.update q DirNode) (prefixes p) t)
        else (Inl ''Not a directory (os error 20)'', t),
      fs_create = \<lambda>p. tree_put p [],
      fs_append = \<lambda>p bs t. case tree_file t p of
          Some c \<Rightarrow> ([], Inr (), AList.update p (FileNode (c @ bs)) t)
        | None \<Rightarrow> (bs, Inl ''Bad file descriptor (os error 9)'', t),
      fs_write = tree_put,
      fs_read = \<lambda>p t. case tree_file t p of Some c \<Rightarrow> Inr c | None \<Rightarrow> Inl ''No such file or directory (os error 2)'',
      fs_exists = \<lambda>p t. map_of t p \<noteq> None,
      fs_is_dir = \<lambda>p t. map_of t p = Some DirNode,
      fs_read_dir = \<lambda>p t.
        if map_of t p = Some DirNode then Inr (map Inr (remdups (filter (\<lambda>q. q \<noteq> [] \<and> butlast q = p) (map fst t))))
        else Inl ''No such file or directory (os error 2)'',
      fs_remove_dir_all = \<lambda>p t.
        if map_of t p = Some DirNode then (Inr (), filter (\<lambda>e. \<not> prefix p (fst e)) t)
        else (Inl ''No such file or directory (os error 2)'', t)\<rparr>"

lemma map_of_fold_dirs: "map_of (fold (\<lambda>q. AList.update q DirNode) qs t) p = (if p \<in> set qs then Some DirNode else map_of t p)"
  by (induction qs arbitrary: t) auto

lemma map_of_filter_fst: "map_of (filter (\<lambda>e. P (fst e)) t) = map_of t |` {q. P q}"
  by (induction t) (auto simp: restrict_map_def fun_eq_iff)

interpretation tree: snapshot_fs tree_ops tree_file tree_dirs
proof
  fix p f assume "\<And>q. prefix q p \<Longrightarrow> tree_file f q = None"
  then show "\<exists>f'. fs_create_dir_all tree_ops p f = (Inr (), f') \<and> tree_file f' = tree_file f \<and> tree_dirs f' = tree_dirs f \<union> {q. prefix q p}"
    by (auto simp: tree_ops_def list_all_iff tree_file_def tree_dirs_def map_of_fold_dirs fun_eq_iff split: option.splits fs_node.splits)
next
  fix p f n bs assume "p \<in> tree_dirs f" "path_join p n \<notin> tree_dirs f"
  then have "tree_put (path_join p n) bs f = (Inr (), AList.update (path_join p n) (FileNode bs) f)" for bs
    by (simp add: tree_put_def tree_dirs_def path_join_def)
  moreover have "tree_file (AList.update q (FileNode bs) f) = (tree_file f)(q \<mapsto> bs)"
    "tree_dirs (AList.update q (FileNode bs) f) = tree_dirs f - {q}" for q bs
    by (auto simp: tree_file_def tree_dirs_def fun_eq_iff)
  ultimately show "\<exists>f'. fs_create tree_ops (path_join p n) f = (Inr (), f') \<and> tree_file f' = (tree_file f)(path_join p n \<mapsto> []) \<and> tree_dirs f' = tree_dirs f"
    "\<exists>f'. fs_write tree_ops (path_join p n) bs f = (Inr (), f') \<and> tree_file f' = (tree_file f)(path_join p n \<mapsto> bs) \<and> tree_dirs f' = tree_dirs f"
    using \<open>path_join p n \<notin> tree_dirs f\<close> by (simp_all add: tree_ops_def)
next
  fix f p c bs assume "tree_file f p = Some c"
  then show "\<exists>f'. fs_append tree_ops p bs f = ([], Inr (), f') \<and> tree_file f' = (tree_file f)(p \<mapsto> c @ bs) \<and> tree_dirs f' = tree_dirs f"
    by (auto simp: tree_ops_def tree_file_def tree_dirs_def fun_eq_iff split: option.splits fs_node.splits)
next
  fix p f assume "p \<in> tree_dirs f"
  then have "fs_read_dir tree_ops p f = Inr (map Inr (remdups (filter (\<lambda>q. q \<noteq> [] \<and> butlast q = p) (map fst f))))"
    by (simp add: tree_ops_def tree_dirs_def)
  moreover have "(q \<noteq> [] \<and> butlast q = p) \<longleftrightarrow> (\<exists>n. q = path_join p n)" for q
    by (cases q rule: rev_cases) (auto simp: path_join_def)
  moreover have "q \<in> fst ` set f \<longleftrightarrow> q \<in> tree_dirs f \<or> tree_file f q \<noteq> None" for q
    using map_of_eq_None_iff [of f q] by (auto simp: tree_dirs_def tree_file_def split: option.splits fs_node.splits)
  ultimately show "\<exists>es. fs_read_dir tree_ops p f = Inr (map Inr es) \<and> distinct es \<and>
      set es = {q. (\<exists>n. q = path_join p n) \<and> (q \<in> tree_dirs f \<or> tree_file f q \<noteq> None)}"
    by (intro exI [of _ "remdups (filter (\<lambda>q. q \<noteq> [] \<and> butlast q = p) (map fst f))"]) auto
next
  fix p f assume "p \<in> tree_dirs f"
  then show "\<exists>f'. fs_remove_dir_all tree_ops p f = (Inr (), f') \<and> tree_file f' = tree_file f |` {q. \<not> prefix p q} \<and>
      tree_dirs f' = {q \<in> tree_dirs f. \<not> prefix p q}"
    by (auto simp: tree_ops_def tree_file_def tree_dirs_def map_of_filter_fst [of "\<lambda>q. \<not> prefix p q" f] restrict_map_def fun_eq_iff)
qed (auto simp: tree_ops_def tree_file_def tree_dirs_def split: option.splits fs_node.splits)

text \<open>
  C29. Round trip of snapshots. A snapshot of a chain whose blocks stand at their heights, written to a working file
  system, is accepted on restore into any in-memory store; afterwards the store has
  every block of the chain up to the snapshot, and its accounts and state roots are the ones it had before: those of the snapshot
  are not restored.
\<close>

theorem snapshot_roundtrip:
  assumes "snapshot_fs F files dirs" "snapshot_codec_law C"
    and chain: "\<forall>h\<le>H. \<exists>b. get_block h s = Some b \<and> hdr_height (header b) = h \<and> storable C b"
    and root: "get_state_root H s = Some rt"
    and js: "sc_ser_manifest C (manifest_compute_checksum X (manifest_new now H (block_hash X (the (get_block H s))) rt)) = Inr js"
    and free: "\<forall>q. prefix q (snapshot_path dir H) \<longrightarrow> files f q = None" "\<forall>n. path_join (snapshot_path dir H) n \<notin> dirs f"
  shows "\<exists>m f'. create_snapshot X (memory_ops X t) C F now dir H s f = (Inr m, f') \<and>
    (\<exists>s1. restore_from_snapshot X (memory_ops X t') C F dir H f' s0 = (Inr (), s1) \<and>
       (\<forall>h\<le>H. get_block h s1 = get_block h s) \<and> (\<forall>a. get_account a s1 = get_account a s0) \<and>
       (\<forall>h. get_state_root h s1 = get_state_root h s0))"
proof -
  let ?g = "\<lambda>h. the (get_block h s)" and ?p = "snapshot_path dir H"
  let ?bs = "map ?g (heights_to H)" and ?m = "manifest_compute_checksum X (manifest_new now H (block_hash X (the (get_block H s))) rt)"
  have g: "get_block h s = Some (?g h)" "hdr_height (header (?g h)) = h" "storable C (?g h)" if "h \<le> H" for h
    using chain that by auto
  have "list_all2 (\<lambda>h b. so_get_block (memory_ops X t) h s = Inr (Some b) \<and> storable C b) (heights_to H) ?bs"
    using g by (simp add: list_all2_map2 list_all2_same memory_ops_def)
  then obtain f' where f': "create_snapshot X (memory_ops X t) C F now dir H s f = (Inr ?m, f')" "?p \<in> dirs f'"
    "files f' = (files f)(path_join ?p ''blocks.bin'' \<mapsto> concat (map (block_frame C) ?bs),
       path_join ?p ''state.bin'' \<mapsto> le_bytes (0 :: u64) @ le_bytes (0 :: u128), path_join ?p ''manifest.json'' \<mapsto> js)"
    using snapshot_fs.create_snapshot_ok [OF assms(1), of "memory_ops X t" H s "?g H" rt C ?bs X now js dir f] g(1) [of H] root js free
    by (auto simp: memory_ops_def)
  have rd: "fs_read F (path_join ?p ''blocks.bin'') f' = Inr (concat (map (block_frame C) ?bs))"
    "fs_read F (path_join ?p ''state.bin'') f' = Inr (le_bytes (0 :: u64) @ le_bytes (0 :: u128))"
    "fs_read F (path_join ?p ''manifest.json'') f' = Inr js" "fs_exists F ?p f'"
    using f'(2) by (auto intro!: snapshot_fs.fs_read_file [OF assms(1)] simp: f'(3) path_join_def snapshot_fs.fs_exists_iff [OF assms(1)])
  have st: "list_all (storable C) ?bs" using g(3) by (simp add: list_all_iff)
  obtain s1 where s1: "restore_blocks (memory_ops X t') C F ?p f' s0 = (Inr (), s1)"
    "put_blocks (block_entries ?bs) (\<lambda>h. get_block h s0) \<subseteq>\<^sub>m (\<lambda>h. get_block h s1)"
    "(\<lambda>a. get_account a s1) = (\<lambda>a. get_account a s0)" "(\<lambda>h. get_state_root h s1) = (\<lambda>h. get_state_root h s0)"
    by (rule mem.restore_blocks_ok [OF assms(2) st rd(1)])
  have e: "block_entries ?bs = map (\<lambda>h. (h, ?g h)) (heights_to H)"
    using g(2) by (simp add: block_entries_def)
  have "get_block h s1 = get_block h s" if "h \<le> H" for h
  proof -
    have "put_blocks (block_entries ?bs) (\<lambda>h. get_block h s0) h = Some (?g h)" using that unfolding e by (simp add: put_blocks_map)
    then show ?thesis using s1(2) g(1) [OF that] unfolding map_le_def by (metis domI)
  qed
  moreover have "sc_de_manifest C js = Inr ?m" using assms(2) js by (simp add: snapshot_codec_law_def)
  then have "restore_from_snapshot X (memory_ops X t') C F dir H f' s0 = (Inr (), s1)"
    using rd s1(1) by (simp add: restore_from_snapshot_def restore_state_def)
  ultimately show ?thesis using f'(1) s1(3,4) by (metis fun_cong)
qed

definition sample_snapshot_codec :: snapshot_codec where
  "sample_snapshot_codec =
     (let b0 = block_genesis sample_externals 0;
          m0 = manifest_compute_checksum sample_externals (manifest_new 7 0 (block_hash sample_externals b0) zero32)
      in \<lparr>sc_ser_block = \<lambda>b. if b = b0 then Inr [1] else Inl ''block'',
          sc_de_block = \<lambda>bs. if bs = [1] then Inr b0 else Inl ''bytes'',
          sc_ser_manifest = \<lambda>m. if m = m0 then Inr [2] else Inl ''manifest'',
          sc_de_manifest = \<lambda>bs. if bs = [2] then Inr m0 else Inl ''bytes''\<rparr>)"

definition sample_chain :: memory_storage where
  "sample_chain =
     save_account zero32 sample_account (save_state_root 0 zero32
       (save_block sample_externals 0 (block_genesis sample_externals 0) memory_storage_new))"

theorem snapshot_roundtrip_witness:
  "\<exists>m f'. create_snapshot sample_externals (memory_ops sample_externals 0) sample_snapshot_codec tree_ops 7 [''snaps''] 0 sample_chain [] = (Inr m, f') \<and>
    (\<exists>s1. restore_from_snapshot sample_externals (memory_ops sample_externals 0) sample_snapshot_codec tree_ops [''snaps''] 0 f' memory_storage_new = (Inr (), s1) \<and>
       get_block 0 s1 = Some (block_genesis sample_externals 0) \<and> get_account zero32 s1 = None)"
proof -
  have b: "get_block 0 sample_chain = Some (block_genesis sample_externals 0)" "get_state_root 0 sample_chain = Some zero32"
    "hdr_height (header (block_genesis sample_externals 0)) = 0"
    by (simp_all add: sample_chain_def get_state_root_def save_state_root_def save_account_def get_block_def save_block_def
        memory_storage_new_def Let_def block_genesis_def block_new_def)
  have law: "snapshot_codec_law sample_snapshot_codec"
    by (simp add: snapshot_codec_law_def sample_snapshot_codec_def Let_def)
  have "\<exists>m f'. create_snapshot sample_externals (memory_ops sample_externals 0) sample_snapshot_codec tree_ops 7 [''snaps''] 0 sample_chain [] = (Inr m, f') \<and>
    (\<exists>s1. restore_from_snapshot sample_externals (memory_ops sample_externals 0) sample_snapshot_codec tree_ops [''snaps''] 0 f' memory_storage_new = (Inr (), s1) \<and>
       (\<forall>h\<le>0. get_block h s1 = get_block h sample_chain) \<and> (\<forall>a. get_account a s1 = get_account a memory_storage_new) \<and>
       (\<forall>h. get_state_root h s1 = get_state_root h memory_storage_new))"
    by (rule snapshot_roundtrip [OF tree.snapshot_fs_axioms law, where rt = zero32 and js = "[2]"])
      (use b in \<open>auto simp: storable_def sample_snapshot_codec_def Let_def tree_file_def tree_dirs_def\<close>)
  then show ?thesis using b(1) by (force simp: get_account_def memory_storage_new_def)
qed

text \<open>
  Pruning keeps exactly the newest snapshots: on a working file system it succeeds, and the snapshots listed
  afterwards are the \<open>keep_last\<close> highest of those listed before, or all of them.
\<close>

theorem prune_keeps_newest:
  assumes "snapshot_fs F files dirs" "dir \<in> dirs f" "list_snapshots C F dir f = Inr infs"
  shows "\<exists>f' infs'. prune_old_snapshots C F dir keep_last f = (Inr (), f') \<and> list_snapshots C F dir f' = Inr infs' \<and>
     mset infs' = mset (drop (length infs - keep_last) infs) \<and> sorted (map inf_height infs')"
  by (rule snapshot_fs.prune_ok [OF assms])

section \<open>Migration keeps the accounts\<close>

lemma migration_creates_founder_once:
  "\<exists>s'. migrate (memory_ops X t) now migration_manager_new v s = Inr s' \<and>
     (\<forall>a. get_account a s' =
        (if v = 0 \<and> a = types_FOUNDER_VESTING_ADDRESS \<and> get_account a s = None
         then Some ((account_new now a types_FOUNDER_ALLOCATION)\<lparr>account_kind := System\<rparr>) else get_account a s)) \<and>
     migrate (memory_ops X t) now' migration_manager_new v s' = Inr s'"
proof (cases "v = 0")
  case True
  show ?thesis
    by (cases "account_exists types_FOUNDER_VESTING_ADDRESS s")
      (auto simp: True migrate_def migration_manager_new_def migrate_loop.simps migrate_v0_to_v1_def memory_ops_def account_exists_def
        get_account_def save_account_def)
next
  case False
  then have "v \<ge> 1" by (simp add: word_le_nat_alt unat_gt_0 Suc_leI)
  then show ?thesis by (auto simp: migrate_def migration_manager_new_def)
qed

end
