(* ===== verification/Crypto_Keys.thy ===== *)
theory Crypto_Keys
  imports Merkle Pacyte_Float Pacyte_Text
begin

unbundle bit_operations_syntax

text \<open>
  \<open>src/crypto/hash.rs\<close>, \<open>ed25519.rs\<close>, \<open>dilithium5.rs\<close> and \<open>mod.rs\<close>: what the code builds from hashes and signatures. The
  primitives of \<open>sha2\<close>, \<open>sha3\<close>, \<open>blake3\<close>, \<open>hmac\<close>, \<open>pbkdf2\<close>, \<open>ed25519-dalek\<close>, \<open>pqcrypto\<close> and \<open>bincode\<close> are the record
  \<open>crypto_ops\<close>; a key or a signature is its bytes, and parsing one says whether the bytes are one. Random keys are
  arguments.
\<close>

section \<open>Primitives\<close>

datatype hybrid_signature = SigEd25519 bytes | SigDilithium5 bytes | SigBoth bytes bytes

datatype hybrid_public_key = PkEd25519 bytes | PkDilithium5 bytes | PkBoth bytes bytes

record crypto_ops =
  c_sha256 :: "bytes \<Rightarrow> bytes"
  c_sha512 :: "bytes \<Rightarrow> bytes"
  c_sha3_512 :: "bytes \<Rightarrow> bytes"
  c_blake3 :: "bytes \<Rightarrow> bytes"
  c_blake3_keyed :: "bytes \<Rightarrow> bytes \<Rightarrow> bytes"
  c_blake3_derive :: "string \<Rightarrow> bytes \<Rightarrow> bytes"
  c_hmac_sha256 :: "bytes \<Rightarrow> bytes \<Rightarrow> bytes option"
  c_hkdf_sha256 :: "bytes \<Rightarrow> bytes \<Rightarrow> bytes \<Rightarrow> nat \<Rightarrow> bytes option"
  c_pbkdf2_32 :: "bytes \<Rightarrow> bytes \<Rightarrow> u32 \<Rightarrow> bytes"
  c_hex_decode :: "string \<Rightarrow> bytes option"
  ed_parse_secret :: "bytes \<Rightarrow> string + unit"
  ed_public :: "bytes \<Rightarrow> bytes"
  ed_parse_public :: "bytes \<Rightarrow> string + unit"
  ed_parse_signature :: "bytes \<Rightarrow> bool"
  ed_sign :: "bytes \<Rightarrow> bytes \<Rightarrow> bytes"
  ed_check :: "bytes \<Rightarrow> bytes \<Rightarrow> bytes \<Rightarrow> bool"
  dl_parse_public :: "bytes \<Rightarrow> bool"
  dl_parse_signature :: "bytes \<Rightarrow> bool"
  dl_sign :: "bytes \<Rightarrow> bytes \<Rightarrow> bytes"
  dl_check :: "bytes \<Rightarrow> bytes \<Rightarrow> bytes \<Rightarrow> bool"
  ser_hybrid_signature :: "hybrid_signature \<Rightarrow> bytes option"
  de_hybrid_signature :: "bytes \<Rightarrow> string + hybrid_signature"
  ser_hybrid_key :: "hybrid_public_key \<Rightarrow> bytes option"

section \<open>Hashes\<close>

definition hash_sha256 :: "crypto_ops \<Rightarrow> bytes \<Rightarrow> bytes" where "hash_sha256 C d = c_sha256 C d"

definition hash_sha512 :: "crypto_ops \<Rightarrow> bytes \<Rightarrow> bytes" where "hash_sha512 C d = c_sha512 C d"

definition hash256 :: "crypto_ops \<Rightarrow> bytes \<Rightarrow> bytes" where
  "hash256 C d = (let first = hash_sha256 C d in hash_sha256 C first)"

definition hash_sha3_256 :: "externals \<Rightarrow> bytes \<Rightarrow> hash" where "hash_sha3_256 X d = sha3_256 X d"

definition hash_sha3_512 :: "crypto_ops \<Rightarrow> bytes \<Rightarrow> bytes" where "hash_sha3_512 C d = c_sha3_512 C d"

definition hash_keccak256 :: "externals \<Rightarrow> bytes \<Rightarrow> bytes" where "hash_keccak256 X d = keccak256 X d"

definition hash_blake3 :: "crypto_ops \<Rightarrow> bytes \<Rightarrow> bytes" where "hash_blake3 C d = c_blake3 C d"

definition blake3_keyed :: "crypto_ops \<Rightarrow> bytes \<Rightarrow> bytes \<Rightarrow> bytes" where "blake3_keyed C k d = c_blake3_keyed C k d"

definition blake3_derive_key :: "crypto_ops \<Rightarrow> string \<Rightarrow> bytes \<Rightarrow> bytes" where
  "blake3_derive_key C context m = c_blake3_derive C context m"

definition hash_transaction :: "externals \<Rightarrow> bytes \<Rightarrow> bytes \<Rightarrow> u128 \<Rightarrow> u128 \<Rightarrow> u64 \<Rightarrow> u64 \<Rightarrow> hash" where
  "hash_transaction X from to amount fee n ts =
     sha3_256 X (from @ to @ le_bytes amount @ le_bytes fee @ le_bytes n @ le_bytes ts)"

definition hash_block_header :: "externals \<Rightarrow> u64 \<Rightarrow> hash \<Rightarrow> hash \<Rightarrow> hash \<Rightarrow> u64 \<Rightarrow> bytes \<Rightarrow> hash" where
  "hash_block_header X h prev tx_root st_root ts prop =
     sha3_256 X (le_bytes h @ prev @ tx_root @ st_root @ le_bytes ts @ prop)"

definition hash_to_hex :: "externals \<Rightarrow> hash \<Rightarrow> string" where
  "hash_to_hex X h = ''0x'' @ hex_encode X h"

definition hash_from_hex :: "crypto_ops \<Rightarrow> string \<Rightarrow> hash option" where
  "hash_from_hex C s =
     (case c_hex_decode C (trim_start_matches ''0x'' s) of
        None \<Rightarrow> None
      | Some bs \<Rightarrow> if length bs \<noteq> 32 then None else Some bs)"

definition constant_time_compare :: "hash \<Rightarrow> hash \<Rightarrow> bool" where
  "constant_time_compare a b \<longleftrightarrow>
     length a = length b \<and> foldl (\<lambda>acc (x, y). acc OR (x XOR y)) 0 (zip a b) = 0"

definition hash_has_prefix :: "hash \<Rightarrow> bytes \<Rightarrow> bool" where
  "hash_has_prefix h p \<longleftrightarrow> prefix p h"

definition byte_leading_zeros :: "u8 \<Rightarrow> nat" where
  "byte_leading_zeros b = 8 - bit_length (unat b)"

fun count_leading_zero_bits :: "bytes \<Rightarrow> nat" where
  "count_leading_zero_bits [] = 0"
| "count_leading_zero_bits (b # bs) = (if b = 0 then 8 + count_leading_zero_bits bs else byte_leading_zeros b)"

text \<open>\<open>None\<close> is the panic of \<open>expect\<close>.\<close>

definition hmac_sha256 :: "crypto_ops \<Rightarrow> bytes \<Rightarrow> bytes \<Rightarrow> bytes option" where
  "hmac_sha256 C k d = c_hmac_sha256 C k d"

definition hkdf_sha256 :: "crypto_ops \<Rightarrow> bytes \<Rightarrow> bytes \<Rightarrow> bytes \<Rightarrow> nat \<Rightarrow> bytes option" where
  "hkdf_sha256 C ikm salt info len = c_hkdf_sha256 C salt ikm info len"

definition pbkdf2_sha256 :: "crypto_ops \<Rightarrow> bytes \<Rightarrow> bytes \<Rightarrow> u32 \<Rightarrow> nat \<Rightarrow> bytes" where
  "pbkdf2_sha256 C pw salt iters len = take len (c_pbkdf2_32 C pw salt iters)"

section \<open>Ed25519\<close>

definition SECRET_KEY_LENGTH :: nat where "SECRET_KEY_LENGTH = 32"

record ed25519_signer =
  es_secret :: bytes
  es_public :: bytes

text \<open>\<open>None\<close> is the panic of \<open>expect\<close>.\<close>

definition ed25519_from_seed :: "crypto_ops \<Rightarrow> bytes \<Rightarrow> ed25519_signer option" where
  "ed25519_from_seed C seed =
     (case ed_parse_secret C seed of
        Inl _ \<Rightarrow> None
      | Inr _ \<Rightarrow> Some \<lparr>es_secret = seed, es_public = ed_public C seed\<rparr>)"

definition ed25519_from_secret_bytes :: "crypto_ops \<Rightarrow> bytes \<Rightarrow> ed25519_signer pacyte_result" where
  "ed25519_from_secret_bytes C bs =
     (if length bs \<noteq> SECRET_KEY_LENGTH then Inl (CryptoError (''Invalid secret key length: '' @ show_nat (length bs)))
      else case ed_parse_secret C bs of
             Inl msg \<Rightarrow> Inl (CryptoError msg)
           | Inr _ \<Rightarrow> Inr \<lparr>es_secret = bs, es_public = ed_public C bs\<rparr>)"

definition ed25519_sign :: "crypto_ops \<Rightarrow> bytes \<Rightarrow> ed25519_signer \<Rightarrow> bytes" where
  "ed25519_sign C msg s = ed_sign C (es_secret s) msg"

definition ed25519_address :: "externals \<Rightarrow> ed25519_signer \<Rightarrow> address" where
  "ed25519_address X s = sha3_256 X (es_public s)"

definition ed25519_verifier :: "crypto_ops \<Rightarrow> bytes \<Rightarrow> bytes \<Rightarrow> bytes \<Rightarrow> bool" where
  "ed25519_verifier C msg sig pk =
     (case ed_parse_public C pk of
        Inl e \<Rightarrow> False
      | Inr _ \<Rightarrow> if \<not> ed_parse_signature C sig then False else ed_check C pk msg sig)"

definition ed25519_address_from_pk :: "externals \<Rightarrow> bytes \<Rightarrow> address" where
  "ed25519_address_from_pk X pk = sha3_256 X pk"

definition verify_batch :: "crypto_ops \<Rightarrow> bytes list \<Rightarrow> bytes list \<Rightarrow> bytes list \<Rightarrow> bool" where
  "verify_batch C msgs sigs pks =
     (if length msgs \<noteq> length sigs \<or> length msgs \<noteq> length pks then False
      else list_all (\<lambda>i. ed25519_verifier C (msgs ! i) (sigs ! i) (pks ! i)) [0..<length msgs])"

section \<open>Multisignatures\<close>

record multisig =
  ms_threshold :: nat
  ms_public_keys :: "bytes list"

fun parse_keys :: "crypto_ops \<Rightarrow> bytes list \<Rightarrow> string + bytes list" where
  "parse_keys C [] = Inr []"
| "parse_keys C (k # ks) =
     (case ed_parse_public C k of
        Inl msg \<Rightarrow> Inl msg
      | Inr _ \<Rightarrow> (case parse_keys C ks of Inl msg \<Rightarrow> Inl msg | Inr pks \<Rightarrow> Inr (k # pks)))"

definition multisig_new :: "crypto_ops \<Rightarrow> nat \<Rightarrow> bytes list \<Rightarrow> multisig pacyte_result" where
  "multisig_new C threshold ks =
     (if threshold = 0 \<or> threshold > length ks
      then Inl (CryptoError (''Invalid threshold: '' @ show_nat threshold @ ''/'' @ show_nat (length ks)))
      else case parse_keys C ks of
             Inl msg \<Rightarrow> Inl (CryptoError msg)
           | Inr pks \<Rightarrow> Inr \<lparr>ms_threshold = threshold, ms_public_keys = pks\<rparr>)"

text \<open>A signature takes the first key that is not used yet and accepts it.\<close>

definition claim_key :: "crypto_ops \<Rightarrow> multisig \<Rightarrow> bytes \<Rightarrow> bytes \<Rightarrow> nat list \<Rightarrow> nat option" where
  "claim_key C m msg sig used =
     find (\<lambda>i. i \<notin> set used \<and> ed_check C (ms_public_keys m ! i) msg sig) [0..<length (ms_public_keys m)]"

fun multisig_loop :: "crypto_ops \<Rightarrow> multisig \<Rightarrow> bytes \<Rightarrow> bytes list \<Rightarrow> nat \<Rightarrow> nat list \<Rightarrow> bool" where
  "multisig_loop C m msg [] valid_count used = False"
| "multisig_loop C m msg (sig # sigs) valid_count used =
     (if \<not> ed_parse_signature C sig then multisig_loop C m msg sigs valid_count used
      else case claim_key C m msg sig used of
             Some i \<Rightarrow> if valid_count + 1 \<ge> ms_threshold m then True
                       else multisig_loop C m msg sigs (valid_count + 1) (i # used)
           | None \<Rightarrow> if valid_count \<ge> ms_threshold m then True
                     else multisig_loop C m msg sigs valid_count used)"

definition multisig_verify :: "crypto_ops \<Rightarrow> multisig \<Rightarrow> bytes \<Rightarrow> bytes list \<Rightarrow> bool" where
  "multisig_verify C m msg sigs =
     (if length sigs < ms_threshold m then False else multisig_loop C m msg sigs 0 [])"

section \<open>Dilithium\<close>

record dilithium5_signer =
  ds_public :: bytes
  ds_secret :: bytes

definition dilithium5_generate :: "bytes \<times> bytes \<Rightarrow> dilithium5_signer" where
  "dilithium5_generate fresh = \<lparr>ds_public = fst fresh, ds_secret = snd fresh\<rparr>"

text \<open>The seed is not used: \<open>fresh\<close> is the key pair the crate draws.\<close>

definition dilithium5_from_seed :: "bytes \<times> bytes \<Rightarrow> bytes \<Rightarrow> dilithium5_signer pacyte_result" where
  "dilithium5_from_seed fresh seed = Inr \<lparr>ds_public = fst fresh, ds_secret = snd fresh\<rparr>"

definition dilithium5_sign :: "crypto_ops \<Rightarrow> bytes \<Rightarrow> dilithium5_signer \<Rightarrow> bytes" where
  "dilithium5_sign C msg s = dl_sign C (ds_secret s) msg"

definition dilithium5_address :: "externals \<Rightarrow> dilithium5_signer \<Rightarrow> address" where
  "dilithium5_address X s = sha3_256 X (ds_public s)"

definition dilithium5_verifier :: "crypto_ops \<Rightarrow> bytes \<Rightarrow> bytes \<Rightarrow> bytes \<Rightarrow> bool" where
  "dilithium5_verifier C msg sig pk =
     (if \<not> dl_parse_public C pk then False
      else if \<not> dl_parse_signature C sig then False
      else dl_check C pk msg sig)"

definition dilithium5_address_from_pk :: "externals \<Rightarrow> bytes \<Rightarrow> address" where
  "dilithium5_address_from_pk X pk = sha3_256 X pk"

definition PUBLIC_KEY_SIZE :: nat where "PUBLIC_KEY_SIZE = 2592"
definition SECRET_KEY_SIZE :: nat where "SECRET_KEY_SIZE = 4864"
definition SIGNATURE_SIZE :: nat where "SIGNATURE_SIZE = 4595"

definition verify_sizes :: "nat \<Rightarrow> nat \<Rightarrow> nat \<Rightarrow> bool" where
  "verify_sizes pk_len sk_len sig_len \<longleftrightarrow>
     pk_len = PUBLIC_KEY_SIZE \<and> sk_len = SECRET_KEY_SIZE \<and> sig_len = SIGNATURE_SIZE"

section \<open>Both schemes\<close>

datatype key_type = KtEd25519 | KtDilithium5

definition from_signature_len :: "nat \<Rightarrow> key_type option" where
  "from_signature_len len = (if len = 64 then Some KtEd25519 else if len = 4595 then Some KtDilithium5 else None)"

definition from_public_key_len :: "nat \<Rightarrow> key_type option" where
  "from_public_key_len len = (if len = 32 then Some KtEd25519 else if len = 2592 then Some KtDilithium5 else None)"

datatype hybrid_signer = HsEd25519 ed25519_signer | HsDilithium5 dilithium5_signer | HsBoth ed25519_signer dilithium5_signer

fun hybrid_sign :: "crypto_ops \<Rightarrow> bytes \<Rightarrow> hybrid_signer \<Rightarrow> hybrid_signature" where
  "hybrid_sign C msg (HsEd25519 s) = SigEd25519 (ed25519_sign C msg s)"
| "hybrid_sign C msg (HsDilithium5 s) = SigDilithium5 (dilithium5_sign C msg s)"
| "hybrid_sign C msg (HsBoth e d) = SigBoth (ed25519_sign C msg e) (dilithium5_sign C msg d)"

fun hybrid_public_keys :: "hybrid_signer \<Rightarrow> hybrid_public_key" where
  "hybrid_public_keys (HsEd25519 s) = PkEd25519 (es_public s)"
| "hybrid_public_keys (HsDilithium5 s) = PkDilithium5 (ds_public s)"
| "hybrid_public_keys (HsBoth e d) = PkBoth (es_public e) (ds_public d)"

fun hybrid_address :: "externals \<Rightarrow> hybrid_signer \<Rightarrow> address" where
  "hybrid_address X (HsEd25519 s) = ed25519_address X s"
| "hybrid_address X (HsDilithium5 s) = dilithium5_address X s"
| "hybrid_address X (HsBoth e d) = ed25519_address X e"

fun hybrid_verify :: "crypto_ops \<Rightarrow> bytes \<Rightarrow> hybrid_signature \<Rightarrow> hybrid_public_key \<Rightarrow> bool" where
  "hybrid_verify C msg (SigEd25519 sig) (PkEd25519 pk) = ed25519_verifier C msg sig pk"
| "hybrid_verify C msg (SigDilithium5 sig) (PkDilithium5 pk) = dilithium5_verifier C msg sig pk"
| "hybrid_verify C msg (SigBoth e d) (PkBoth pk1 pk2) = (ed25519_verifier C msg e pk1 \<and> dilithium5_verifier C msg d pk2)"
| "hybrid_verify C msg sig pk = False"

definition hybrid_signature_to_bytes :: "crypto_ops \<Rightarrow> hybrid_signature \<Rightarrow> bytes" where
  "hybrid_signature_to_bytes C sig = (case ser_hybrid_signature C sig of Some bs \<Rightarrow> bs | None \<Rightarrow> [])"

definition hybrid_signature_from_bytes :: "crypto_ops \<Rightarrow> bytes \<Rightarrow> hybrid_signature pacyte_result" where
  "hybrid_signature_from_bytes C bs =
     (case de_hybrid_signature C bs of Inl msg \<Rightarrow> Inl (CryptoError msg) | Inr sig \<Rightarrow> Inr sig)"

fun hybrid_key_type :: "hybrid_public_key \<Rightarrow> key_type" where
  "hybrid_key_type (PkEd25519 pk) = KtEd25519"
| "hybrid_key_type (PkDilithium5 pk) = KtDilithium5"
| "hybrid_key_type (PkBoth a b) = KtDilithium5"

definition hybrid_key_to_bytes :: "crypto_ops \<Rightarrow> hybrid_public_key \<Rightarrow> bytes" where
  "hybrid_key_to_bytes C pk = (case ser_hybrid_key C pk of Some bs \<Rightarrow> bs | None \<Rightarrow> [])"

definition hybrid_key_to_address :: "externals \<Rightarrow> crypto_ops \<Rightarrow> hybrid_public_key \<Rightarrow> address" where
  "hybrid_key_to_address X C pk = (let bs = hybrid_key_to_bytes C pk in hash_sha3_256 X bs)"

section \<open>The helpers agree with the types\<close>

lemma hash_transaction_is_sighash:
  "hash_transaction X (tx_from tx) (tx_to tx) (tx_amount tx) (tx_fee tx) (tx_nonce tx) (tx_timestamp tx) = sighash X tx"
  by (simp add: hash_transaction_def sighash_def sighash_preimage_def)

lemma hash_hex_roundtrip:
  "hex_law (hex_encode X) (c_hex_decode C) \<Longrightarrow> length h = 32 \<Longrightarrow> hash_from_hex C (hash_to_hex X h) = Some h"
  using trim_hex [of "hex_encode X h"] by (simp add: hash_from_hex_def hash_to_hex_def hex_law_def)

text \<open>The comparison without branches decides equality.\<close>

lemma or_eq_0: "(a OR b = 0) = (a = 0 \<and> b = (0 :: u8))"
  by (auto simp: bit_eq_iff bit_simps)

lemma xor_eq_0: "(a XOR b = 0) = (a = (b :: u8))"
  by (auto simp: bit_eq_iff bit_simps)

lemma fold_or_zero:
  "(foldl (\<lambda>acc (x, y). acc OR (x XOR y)) a (zip xs ys) = 0) =
   (a = 0 \<and> list_all (\<lambda>(x, y). x = y) (zip xs ys))" for a :: u8
proof (induction "zip xs ys" arbitrary: xs ys a)
  case (Cons p ps)
  then obtain x xs' y ys' where "xs = x # xs'" "ys = y # ys'" by (cases xs; cases ys) auto
  then show ?case using Cons.hyps(1) [of xs' ys'] Cons.hyps(2) by (auto simp: or_eq_0 xor_eq_0)
qed auto

lemma constant_time_compare_eq: "constant_time_compare a b \<longleftrightarrow> a = b"
proof -
  have "list_all (\<lambda>(x, y). x = y) (zip a b) \<longleftrightarrow> a = b" if "length a = length b"
    using that by (auto simp: list_all_length list_eq_iff_nth_eq)
  then show ?thesis unfolding constant_time_compare_def fold_or_zero by auto
qed

section \<open>Leading zeros are a target\<close>

lemma bit_length_le_iff: "bit_length n \<le> k \<longleftrightarrow> n < 2 ^ k"
proof
  assume "bit_length n \<le> k"
  then show "n < 2 ^ k" using bit_length_less [of n] power_increasing [of "bit_length n" k "2 :: nat"] by linarith
next
  assume less: "n < 2 ^ k"
  show "bit_length n \<le> k"
  proof (cases "n = 0")
    case False
    from bit_length_le [OF this] less have "(2 :: nat) ^ (bit_length n - 1) < 2 ^ k" by linarith
    then show ?thesis by (simp add: power_strict_increasing_iff)
  qed (simp add: bit_length.simps)
qed

lemma pow256: "(256 :: nat) ^ n = 2 ^ (8 * n)"
  by (simp add: power_mult)

lemma top_digit_less:
  fixes a b c r :: nat
  assumes "r < b"
  shows "a * b + r < c * b \<longleftrightarrow> a < c"
proof
  assume "a * b + r < c * b"
  then have "a * b < c * b" by linarith
  then show "a < c" by simp
next
  assume "a < c"
  then have "Suc a * b \<le> c * b" by (intro mult_le_mono1) simp
  then show "a * b + r < c * b" using assms by simp
qed

lemma leading_zeros_Cons:
  assumes b: "b \<noteq> 0" and k: "k \<le> 8 * Suc (length bs)"
  shows "k \<le> byte_leading_zeros b \<longleftrightarrow> be_nat (b # bs) < 2 ^ (8 * Suc (length bs) - k)"
proof (cases "k \<le> 8")
  case True
  have "unat b < 2 ^ 8" using unsigned_less [of b] by simp
  then have "bit_length (unat b) \<le> 8" by (simp only: bit_length_le_iff)
  then have "k \<le> byte_leading_zeros b \<longleftrightarrow> bit_length (unat b) \<le> 8 - k"
    using True by (auto simp: byte_leading_zeros_def)
  also have "\<dots> \<longleftrightarrow> unat b * 256 ^ length bs + be_nat bs < 2 ^ (8 - k) * 256 ^ length bs"
    by (simp add: bit_length_le_iff top_digit_less be_nat_less)
  also have "2 ^ (8 - k) * (256 :: nat) ^ length bs = 2 ^ (8 * Suc (length bs) - k)"
    using True by (simp add: pow256 flip: power_add)
  finally show ?thesis by (simp add: be_nat_Cons)
next
  case False
  have "(2 :: nat) ^ (8 * Suc (length bs) - k) \<le> 256 ^ length bs"
    using False by (simp add: pow256 power_increasing)
  also have "\<dots> \<le> unat b * 256 ^ length bs" using b by (simp add: unat_gt_0 Suc_leI)
  finally show ?thesis using False by (simp add: be_nat_Cons byte_leading_zeros_def)
qed

lemma leading_zeros_target:
  "k \<le> 8 * length h \<Longrightarrow> k \<le> count_leading_zero_bits h \<longleftrightarrow> be_nat h < 2 ^ (8 * length h - k)"
proof (induction h arbitrary: k)
  case Nil
  then show ?case by (simp add: be_nat_def)
next
  case (Cons b bs)
  show ?case
  proof (cases "b = 0")
    case True
    have "be_nat bs < 2 ^ (8 * length bs)" using be_nat_less [of bs] by (simp add: pow256)
    moreover have "(2 :: nat) ^ (8 * length bs) \<le> 2 ^ (8 * Suc (length bs) - k)" if "k < 8"
      using that by (intro power_increasing) auto
    ultimately have "be_nat bs < 2 ^ (8 * Suc (length bs) - k)" if "k < 8" using that by (meson less_le_trans)
    moreover have "8 * Suc (length bs) - k = 8 * length bs - (k - 8)" if "8 \<le> k" using that by simp
    ultimately show ?thesis using True Cons.IH [of "k - 8"] Cons.prems by (cases "k < 8") (simp_all add: be_nat_Cons le_diff_conv add.commute)
  next
    case False
    then show ?thesis using leading_zeros_Cons [OF False] Cons.prems by simp
  qed
qed

section \<open>The threshold of a multisignature\<close>

definition key_owners :: "crypto_ops \<Rightarrow> bytes list \<Rightarrow> bytes \<Rightarrow> bytes list \<Rightarrow> nat set" where
  "key_owners C ks msg sigs =
     {i \<in> {..<length ks}. \<exists>sig \<in> set sigs. ed_parse_signature C sig \<and> ed_check C (ks ! i) msg sig}"

definition one_key_each :: "crypto_ops \<Rightarrow> bytes list \<Rightarrow> bytes \<Rightarrow> bytes list \<Rightarrow> bool" where
  "one_key_each C ks msg sigs \<longleftrightarrow>
     (\<forall>sig \<in> set sigs. \<forall>i < length ks. \<forall>j < length ks.
        ed_check C (ks ! i) msg sig \<longrightarrow> ed_check C (ks ! j) msg sig \<longrightarrow> i = j)"

lemma finite_key_owners [simp]: "finite (key_owners C ks msg sigs)"
  by (simp add: key_owners_def)

lemma key_owners_Nil [simp]: "key_owners C ks msg [] = {}"
  by (simp add: key_owners_def)

lemma key_owners_Cons:
  "key_owners C ks msg (sig # sigs) = key_owners C ks msg [sig] \<union> key_owners C ks msg sigs"
  by (auto simp: key_owners_def)

lemma key_owners_bad [simp]: "\<not> ed_parse_signature C sig \<Longrightarrow> key_owners C ks msg [sig] = {}"
  by (simp add: key_owners_def)

lemma claim_key_Some:
  "ed_parse_signature C sig \<Longrightarrow> claim_key C m msg sig used = Some i \<Longrightarrow>
   i \<in> key_owners C (ms_public_keys m) msg [sig] \<and> i \<notin> set used"
  by (auto simp: claim_key_def key_owners_def find_Some_iff)

lemma claim_key_None:
  "ed_parse_signature C sig \<Longrightarrow> claim_key C m msg sig used = None \<Longrightarrow>
   key_owners C (ms_public_keys m) msg [sig] \<subseteq> set used"
  by (auto simp: claim_key_def key_owners_def find_None_iff)

lemma multisig_loop_sound:
  "multisig_loop C m msg sigs n used \<Longrightarrow> n < ms_threshold m \<Longrightarrow>
   ms_threshold m \<le> n + card (key_owners C (ms_public_keys m) msg sigs - set used)"
proof (induction sigs arbitrary: n used)
  case (Cons sig sigs)
  let ?O = "key_owners C (ms_public_keys m) msg"
  have mono: "card (?O sigs - set used) \<le> card (?O (sig # sigs) - set used)"
    by (intro card_mono) (auto simp: key_owners_Cons [of _ _ _ sig sigs])
  show ?case
  proof (cases "ed_parse_signature C sig \<and> claim_key C m msg sig used \<noteq> None")
    case True
    then obtain i where claim: "claim_key C m msg sig used = Some i" and i: "i \<in> ?O [sig]" "i \<notin> set used"
      using claim_key_Some by blast
    have "Suc (card (?O sigs - set (i # used))) = card (insert i (?O sigs - set (i # used)))" by simp
    also have "\<dots> \<le> card (?O (sig # sigs) - set used)"
      using i by (intro card_mono) (auto simp: key_owners_Cons [of _ _ _ sig sigs])
    finally show ?thesis using Cons True claim by (fastforce split: if_splits)
  next
    case False
    then have "multisig_loop C m msg sigs n used" using Cons.prems by (auto split: if_splits)
    then show ?thesis using Cons.IH [of n used] Cons.prems(2) mono by linarith
  qed
qed simp

lemma multisig_loop_complete:
  "one_key_each C (ms_public_keys m) msg sigs \<Longrightarrow> n < ms_threshold m \<Longrightarrow>
   ms_threshold m \<le> n + card (key_owners C (ms_public_keys m) msg sigs - set used) \<Longrightarrow>
   multisig_loop C m msg sigs n used"
proof (induction sigs arbitrary: n used)
  case (Cons sig sigs)
  let ?O = "key_owners C (ms_public_keys m) msg"
  have rest: "one_key_each C (ms_public_keys m) msg sigs" using Cons.prems(1) by (simp add: one_key_each_def)
  show ?case
  proof (cases "ed_parse_signature C sig \<and> claim_key C m msg sig used \<noteq> None")
    case True
    then obtain i where claim: "claim_key C m msg sig used = Some i" and i: "i \<in> ?O [sig]" "i \<notin> set used"
      using claim_key_Some by blast
    have "?O [sig] = {i}" using Cons.prems(1) i by (auto simp: one_key_each_def key_owners_def)
    then have "?O (sig # sigs) - set used = insert i (?O sigs - set (i # used))"
      using i by (auto simp: key_owners_Cons [of _ _ _ sig sigs])
    then have "card (?O (sig # sigs) - set used) = Suc (card (?O sigs - set (i # used)))" by simp
    then show ?thesis using Cons.IH [OF rest, of "n + 1" "i # used"] Cons.prems True claim by auto
  next
    case False
    then have "?O [sig] \<subseteq> set used"
      using claim_key_None [of C sig m msg used] by (cases "ed_parse_signature C sig") auto
    then have "?O (sig # sigs) - set used = ?O sigs - set used" by (auto simp: key_owners_Cons [of _ _ _ sig sigs])
    then show ?thesis using Cons.IH [OF rest, of n used] Cons.prems False by auto
  qed
qed simp

lemma card_one_key_each:
  assumes "one_key_each C ks msg sigs"
  shows "card (key_owners C ks msg sigs) \<le> length sigs"
  using assms
proof (induction sigs)
  case (Cons sig sigs)
  have "\<forall>i \<in> key_owners C ks msg [sig]. \<forall>j \<in> key_owners C ks msg [sig]. i = j"
    using Cons.prems by (simp add: one_key_each_def key_owners_def)
  then have "card (key_owners C ks msg [sig]) \<le> 1" by (simp add: card_le_Suc0_iff_eq)
  moreover have "one_key_each C ks msg sigs" using Cons.prems by (simp add: one_key_each_def)
  ultimately show ?case
    using Cons.IH card_Un_le [of "key_owners C ks msg [sig]" "key_owners C ks msg sigs"]
    by (simp add: key_owners_Cons [of _ _ _ sig sigs])
qed simp

lemma parse_keys_same: "parse_keys C ks = Inr pks \<Longrightarrow> pks = ks"
  by (induction ks arbitrary: pks) (auto split: sum.splits)

lemma multisig_new_Inr:
  "multisig_new C t ks = Inr m \<Longrightarrow> 0 < t \<and> t \<le> length ks \<and> ms_threshold m = t \<and> ms_public_keys m = ks"
  by (auto simp: multisig_new_def dest: parse_keys_same split: if_splits sum.splits)


text \<open>A concrete scheme: a signature is the key followed by the message.\<close>

definition tag_crypto :: crypto_ops where
  "tag_crypto =
     \<lparr>c_sha256 = id, c_sha512 = id, c_sha3_512 = id, c_blake3 = id, c_blake3_keyed = (@), c_blake3_derive = (\<lambda>_. id),
      c_hmac_sha256 = (\<lambda>k d. Some (k @ d)), c_hkdf_sha256 = (\<lambda>s k i n. if n \<le> 8160 then Some (take n (s @ k @ i)) else None),
      c_pbkdf2_32 = (\<lambda>p s n. p @ s), c_hex_decode = (\<lambda>_. None),
      ed_parse_secret = (\<lambda>_. Inr ()), ed_public = id, ed_parse_public = (\<lambda>pk. if pk = [] then Inl ''key'' else Inr ()),
      ed_parse_signature = (\<lambda>sig. sig \<noteq> []), ed_sign = (@), ed_check = (\<lambda>pk msg sig. sig = pk @ msg),
      dl_parse_public = (\<lambda>pk. pk \<noteq> []), dl_parse_signature = (\<lambda>sig. sig \<noteq> []), dl_sign = (@),
      dl_check = (\<lambda>pk msg sig. sig = pk @ msg),
      ser_hybrid_signature = (\<lambda>_. None), de_hybrid_signature = (\<lambda>_. Inl ''bincode''), ser_hybrid_key = (\<lambda>_. None)\<rparr>"


text \<open>
  \<open>new\<close> accepts a list with the same key twice, and then one signature given twice reaches a threshold of two: a single
  key holder signs for both.
\<close>

lemma multisig_duplicate_key:
  "multisig_new tag_crypto 2 [[1], [1]] = Inr \<lparr>ms_threshold = 2, ms_public_keys = [[1], [1]]\<rparr> \<and>
   multisig_verify tag_crypto \<lparr>ms_threshold = 2, ms_public_keys = [[1], [1]]\<rparr> [9] [[1, 9], [1, 9]]"
  by (simp add: multisig_new_def multisig_verify_def claim_key_def tag_crypto_def)

section \<open>Signing and verifying\<close>

text \<open>
  What the traits \<open>Signer\<close> and \<open>Verifier\<close> promise together: a signature made with a good key verifies under its
  public key. \<open>good\<close> says of a key pair that the crate's own round trip holds for it.
\<close>

locale signing =
  fixes good :: "'s \<Rightarrow> bool"
    and sign :: "bytes \<Rightarrow> 's \<Rightarrow> 'sig"
    and public_key :: "'s \<Rightarrow> 'pk"
    and verify :: "bytes \<Rightarrow> 'sig \<Rightarrow> 'pk \<Rightarrow> bool"
  assumes sign_verify: "good s \<Longrightarrow> verify msg (sign msg s) (public_key s)"
begin

lemma batch_verifies:
  assumes "list_all good ss" "length msgs = length ss" "i < length ss"
  shows "verify (msgs ! i) (map2 sign msgs ss ! i) (map public_key ss ! i)"
  using assms by (simp add: sign_verify list_all_length)

end

locale addressed_signing = signing good sign public_key verify
  for good :: "'s \<Rightarrow> bool" and sign :: "bytes \<Rightarrow> 's \<Rightarrow> 'sig" and public_key :: "'s \<Rightarrow> 'pk"
    and verify :: "bytes \<Rightarrow> 'sig \<Rightarrow> 'pk \<Rightarrow> bool" +
  fixes signer_address :: "'s \<Rightarrow> address"
    and address_from_pk :: "'pk \<Rightarrow> address"
  assumes address_agrees: "address_from_pk (public_key s) = signer_address s"
begin

lemma sender_authentic:
  "good s \<Longrightarrow> \<exists>pk. address_from_pk pk = signer_address s \<and> verify msg (sign msg s) pk"
  using sign_verify address_agrees by blast

end

definition ed_good :: "crypto_ops \<Rightarrow> ed25519_signer \<Rightarrow> bool" where
  "ed_good C s \<longleftrightarrow> ed_parse_public C (es_public s) = Inr () \<and>
     (\<forall>msg. ed_parse_signature C (ed_sign C (es_secret s) msg) \<and>
            ed_check C (es_public s) msg (ed_sign C (es_secret s) msg))"

definition dl_good :: "crypto_ops \<Rightarrow> dilithium5_signer \<Rightarrow> bool" where
  "dl_good C s \<longleftrightarrow> dl_parse_public C (ds_public s) \<and>
     (\<forall>msg. dl_parse_signature C (dl_sign C (ds_secret s) msg) \<and>
            dl_check C (ds_public s) msg (dl_sign C (ds_secret s) msg))"

fun hybrid_good :: "crypto_ops \<Rightarrow> hybrid_signer \<Rightarrow> bool" where
  "hybrid_good C (HsEd25519 s) = ed_good C s"
| "hybrid_good C (HsDilithium5 s) = dl_good C s"
| "hybrid_good C (HsBoth e d) = (ed_good C e \<and> dl_good C d)"

interpretation ed_signing: addressed_signing "ed_good C" "ed25519_sign C" es_public "ed25519_verifier C"
  "ed25519_address X" "ed25519_address_from_pk X" for C X
  by unfold_locales
    (simp_all add: ed_good_def ed25519_sign_def ed25519_verifier_def ed25519_address_def ed25519_address_from_pk_def)

interpretation dl_signing: addressed_signing "dl_good C" "dilithium5_sign C" ds_public "dilithium5_verifier C"
  "dilithium5_address X" "dilithium5_address_from_pk X" for C X
  by unfold_locales
    (simp_all add: dl_good_def dilithium5_sign_def dilithium5_verifier_def dilithium5_address_def
      dilithium5_address_from_pk_def)

interpretation hybrid_signing: signing "hybrid_good C" "hybrid_sign C" hybrid_public_keys "hybrid_verify C" for C
proof
  fix s msg
  show "hybrid_good C s \<Longrightarrow> hybrid_verify C msg (hybrid_sign C msg s) (hybrid_public_keys s)"
    by (cases s) (simp_all add: ed_signing.sign_verify dl_signing.sign_verify)
qed

text \<open>A batch of honest signatures is accepted, and a batch is accepted only when every one of its signatures is.\<close>

lemma verify_batch_honest:
  "list_all (ed_good C) ss \<Longrightarrow> length msgs = length ss \<Longrightarrow>
   verify_batch C msgs (map2 (ed25519_sign C) msgs ss) (map es_public ss)"
  using ed_signing.batch_verifies [of C ss msgs] by (auto simp: verify_batch_def list_all_iff)

lemma verify_batch_iff:
  "verify_batch C msgs sigs pks \<longleftrightarrow>
   length msgs = length sigs \<and> length msgs = length pks \<and>
   list_all (\<lambda>(msg, sig, pk). ed25519_verifier C msg sig pk) (zip msgs (zip sigs pks))"
  by (auto simp: verify_batch_def list_all_length)

text \<open>
  A hybrid signature made with good keys verifies, and a key pair of both schemes cannot be downgraded: only a signature
  of both schemes is accepted for it, and both halves have to verify.
\<close>

theorem hybrid_no_downgrade:
  "(hybrid_good C s \<longrightarrow> hybrid_verify C msg (hybrid_sign C msg s) (hybrid_public_keys s)) \<and>
   (hybrid_verify C msg sig (hybrid_public_keys (HsBoth e d)) \<longleftrightarrow>
    (\<exists>se sd. sig = SigBoth se sd \<and> ed25519_verifier C msg se (es_public e) \<and> dilithium5_verifier C msg sd (ds_public d)))"
  using hybrid_signing.sign_verify [of C s msg] by (cases sig) auto

theorem hybrid_no_downgrade_witness:
  "hybrid_good tag_crypto (HsBoth \<lparr>es_secret = [1], es_public = [1]\<rparr> \<lparr>ds_public = [2], ds_secret = [2]\<rparr>) \<and>
   hybrid_verify tag_crypto [9] (SigBoth [1, 9] [2, 9]) (PkBoth [1] [2])"
proof -
  let ?s = "HsBoth \<lparr>es_secret = [1], es_public = [1]\<rparr> \<lparr>ds_public = [2], ds_secret = [2]\<rparr>"
  have good: "hybrid_good tag_crypto ?s" by (simp add: ed_good_def dl_good_def tag_crypto_def)
  moreover have "hybrid_sign tag_crypto [9] ?s = SigBoth [1, 9] [2, 9]"
    by (simp add: ed25519_sign_def dilithium5_sign_def tag_crypto_def)
  ultimately show ?thesis using hybrid_no_downgrade [of tag_crypto ?s "[9]"] by auto
qed

end
