(* ===== verification/Consensus_Titan.thy ===== *)
theory Consensus_Titan
  imports Crypto_Keys Consensus_Validators Execution_VM
begin

unbundle bit_operations_syntax

text \<open>
  The hardware half of \<open>src/consensus/validator.rs\<close>: what is read from \<open>CPUID\<close>, and the merit score of a \<open>TitanNode\<close>. The
  instruction itself is the parameter \<open>cpuid\<close>, a function of leaf and subleaf; the key pair and the number of cores are
  arguments.
\<close>

section \<open>CPUID\<close>

datatype cpu_arch = X86_64 | Aarch64 | OtherArch

record cpuid_result =
  cr_eax :: u32
  cr_ebx :: u32
  cr_ecx :: u32
  cr_edx :: u32

type_synonym cpuid_fn = "u32 \<Rightarrow> u32 \<Rightarrow> cpuid_result"

definition cpu_flag :: "u32 \<Rightarrow> nat \<Rightarrow> bool" where
  "cpu_flag r k \<longleftrightarrow> r AND push_bit k 1 \<noteq> 0"

text \<open>Both results; the other feature bits are only logged.\<close>

definition check_hardware_features :: "cpu_arch \<Rightarrow> cpuid_fn \<Rightarrow> bool \<times> bool" where
  "check_hardware_features arch cpuid =
     (case arch of
        X86_64 \<Rightarrow>
          (let cpuid7 = cpuid 7 0;
               has_avx512f = cpu_flag (cr_ebx cpuid7) 16;
               has_avx512bw = cpu_flag (cr_ebx cpuid7) 30;
               has_avx512dq = cpu_flag (cr_ebx cpuid7) 17;
               has_avx512vl = cpu_flag (cr_ebx cpuid7) 26
           in (True, has_avx512f \<and> has_avx512bw \<and> has_avx512dq \<and> has_avx512vl))
      | Aarch64 \<Rightarrow> (True, False)
      | OtherArch \<Rightarrow> (False, False))"

definition has_avx512 :: "cpu_arch \<Rightarrow> cpuid_fn \<Rightarrow> bool" where
  "has_avx512 arch cpuid \<longleftrightarrow>
     (case arch of
        X86_64 \<Rightarrow> (let cpuid7 = cpuid 7 0 in cpu_flag (cr_ebx cpuid7) 16 \<and> cpu_flag (cr_ebx cpuid7) 30)
      | _ \<Rightarrow> False)"

definition cpuid_bytes :: "cpuid_result \<Rightarrow> bytes" where
  "cpuid_bytes r = le_bytes (cr_eax r) @ le_bytes (cr_ebx r) @ le_bytes (cr_ecx r) @ le_bytes (cr_edx r)"

definition trim_end_nul :: "string \<Rightarrow> string" where
  "trim_end_nul s = rev (dropWhile (\<lambda>c. c = char_of (0 :: nat)) (rev s))"

definition get_cpu_info :: "cpu_arch \<Rightarrow> cpuid_fn \<Rightarrow> string" where
  "get_cpu_info arch cpuid =
     (case arch of
        X86_64 \<Rightarrow>
          (if cr_eax (cpuid 0x80000000 0) \<ge> 0x80000004 then
             let brand = cpuid_bytes (cpuid 0x80000002 0) @ cpuid_bytes (cpuid 0x80000003 0) @ cpuid_bytes (cpuid 0x80000004 0)
             in trim_text (trim_end_nul (string_of_bytes (utf8_lossy brand)))
           else ''Unknown x86_64 CPU'')
      | Aarch64 \<Rightarrow> ''ARM64 Processor''
      | OtherArch \<Rightarrow> ''Unknown CPU Architecture'')"

section \<open>Titan nodes\<close>

definition UNBONDING_PERIOD_SECS :: u64 where "UNBONDING_PERIOD_SECS = 14 * 24 * 60 * 60"

record titan_node =
  tn_id :: u64
  tn_address :: address
  tn_public_key :: bytes
  merit_score :: f64
  last_latency_ms :: u64
  consecutive_fails :: u32
  tn_is_active :: bool
  stake_amount :: u128
  tn_joined_at :: u64
  tn_cpu_info :: string
  tn_avx512_supported :: bool
  core_count :: nat

definition titan_new ::
    "crypto_ops \<Rightarrow> hybrid_signer \<Rightarrow> string \<Rightarrow> bool \<Rightarrow> nat \<Rightarrow> timestamp \<Rightarrow> u64 \<Rightarrow> address \<Rightarrow> u128 \<Rightarrow> titan_node" where
  "titan_new C keypair cpu_info avx512 cores now i addr stk =
     \<lparr>tn_id = i, tn_address = addr, tn_public_key = hybrid_key_to_bytes C (hybrid_public_keys keypair), merit_score = 100,
      last_latency_ms = 0, consecutive_fails = 0, tn_is_active = True, stake_amount = stk, tn_joined_at = now,
      tn_cpu_info = cpu_info, tn_avx512_supported = avx512, core_count = cores\<rparr>"

definition is_titan_grade :: "titan_node \<Rightarrow> bool" where
  "is_titan_grade t \<longleftrightarrow> tn_avx512_supported t \<and> core_count t \<ge> 32"

definition ZK_LATENCY_LIMIT_MS :: u64 where "ZK_LATENCY_LIMIT_MS = 800"

definition update_merit :: "u64 \<Rightarrow> titan_node \<Rightarrow> titan_node" where
  "update_merit ms t =
     (let t0 = t\<lparr>last_latency_ms := ms\<rparr>;
          t1 = (if ms > ZK_LATENCY_LIMIT_MS
                then t0\<lparr>consecutive_fails := consecutive_fails t0 + 1,
                        merit_score := fl_mul (merit_score t0) (rnd (95 / 100))\<rparr>
                else let reward_factor = (if ms < 500 then rnd (102 / 100) else 1)
                     in t0\<lparr>consecutive_fails := 0, merit_score := min (fl_mul (merit_score t0) reward_factor) 200\<rparr>)
      in if consecutive_fails t1 \<ge> 10 then t1\<lparr>tn_is_active := False\<rparr> else t1)"

definition reward_weight :: "titan_node \<Rightarrow> f64" where
  "reward_weight t =
     (if \<not> tn_is_active t \<or> \<not> tn_avx512_supported t then 0
      else fl_mul (merit_score t) (fl_sqrt (f64_of_word (stake_amount t))))"

section \<open>Hardware\<close>

text \<open>
  The features that registration asks for include the two that are reported at the start, and are more: a processor with the
  two alone is reported as supported and refused.
\<close>

lemma titan_has_avx512: "snd (check_hardware_features arch cpuid) \<Longrightarrow> has_avx512 arch cpuid"
  by (auto simp: check_hardware_features_def has_avx512_def Let_def split: cpu_arch.splits)

definition partial_cpu :: cpuid_fn where
  "partial_cpu leaf sub = \<lparr>cr_eax = 0, cr_ebx = push_bit 16 1 OR push_bit 30 1, cr_ecx = 0, cr_edx = 0\<rparr>"

lemma reported_and_refused: "has_avx512 X86_64 partial_cpu \<and> \<not> snd (check_hardware_features X86_64 partial_cpu)"
  by (simp add: has_avx512_def check_hardware_features_def cpu_flag_def partial_cpu_def)

lemma registration_needs_hardware:
  "vm_register_validator (check_hardware_features arch cpuid) now addr key stk m = Returned (Inr i, m') \<Longrightarrow>
   has_avx512 arch cpuid \<and> MIN_VALIDATOR_STAKE \<le> stk"
  by (rule conjI, rule titan_has_avx512) (auto simp: vm_register_validator_def not_less split: if_splits)

section \<open>Merit\<close>

definition too_slow :: "u64 \<Rightarrow> bool" where "too_slow ms \<longleftrightarrow> ms > ZK_LATENCY_LIMIT_MS"

definition fail_run :: "u64 list \<Rightarrow> nat" where
  "fail_run ls = length (takeWhile too_slow (rev ls))"

definition ten_failures :: "u64 list \<Rightarrow> bool" where
  "ten_failures ls \<longleftrightarrow> (\<exists>ys. sublist ys ls \<and> length ys = 10 \<and> list_all too_slow ys)"

lemma suffix_fail_run:
  "(\<exists>ys. suffix ys ls \<and> length ys = n \<and> list_all too_slow ys) \<longleftrightarrow> n \<le> fail_run ls"
proof
  assume "\<exists>ys. suffix ys ls \<and> length ys = n \<and> list_all too_slow ys"
  then obtain ys zs where "ls = zs @ ys" "length ys = n" "list_all too_slow ys" by (auto simp: suffix_def)
  then show "n \<le> fail_run ls" by (simp add: fail_run_def list_all_iff takeWhile_append)
next
  assume "n \<le> fail_run ls"
  moreover have "prefix (take n (takeWhile too_slow (rev ls))) (rev ls)"
    by (meson prefix_order.trans take_is_prefix takeWhile_is_prefix)
  moreover have "list_all too_slow (take n (takeWhile too_slow (rev ls)))"
    by (auto simp: list_all_iff dest: in_set_takeD set_takeWhileD)
  ultimately show "\<exists>ys. suffix ys ls \<and> length ys = n \<and> list_all too_slow ys"
    by (intro exI [of _ "rev (take n (takeWhile too_slow (rev ls)))"]) (simp add: fail_run_def suffix_to_prefix)
qed

lemma fail_run_snoc [simp]: "fail_run (ls @ [ms]) = (if too_slow ms then Suc (fail_run ls) else 0)"
  by (simp add: fail_run_def)

lemma ten_failures_snoc: "ten_failures (ls @ [ms]) \<longleftrightarrow> ten_failures ls \<or> 10 \<le> fail_run (ls @ [ms])"
  unfolding ten_failures_def suffix_fail_run [symmetric] sublist_snoc by blast

lemma fl_scale_le:
  assumes "0 \<le> m" "0 \<le> c"
  shows "0 \<le> fl_mul m (rnd c)" "fl_mul m (rnd c) \<le> m * (c * (1 + half_ulp) * (1 + half_ulp))"
proof -
  have c: "0 \<le> rnd c" "rnd c \<le> c * (1 + half_ulp)" using assms(2) by (rule rnd_nonneg rnd_le)+
  then show "0 \<le> fl_mul m (rnd c)" using assms by (simp add: fl_mul_def rnd_nonneg)
  have "fl_mul m (rnd c) \<le> m * rnd c * (1 + half_ulp)" using assms c by (simp add: fl_mul_def rnd_le)
  also have "\<dots> \<le> m * (c * (1 + half_ulp)) * (1 + half_ulp)"
    using assms c by (intro mult_right_mono mult_left_mono) (simp_all add: half_ulp_def)
  finally show "fl_mul m (rnd c) \<le> m * (c * (1 + half_ulp) * (1 + half_ulp))" by (simp add: mult.assoc)
qed

definition titan_inv :: "u64 list \<Rightarrow> titan_node \<Rightarrow> bool" where
  "titan_inv ls t \<longleftrightarrow> 0 \<le> merit_score t \<and> merit_score t \<le> 200 \<and> (tn_is_active t \<longleftrightarrow> \<not> ten_failures ls) \<and>
     consecutive_fails t = of_nat (fail_run ls)"

lemma merit_step:
  assumes "0 \<le> merit_score t" "merit_score t \<le> 200"
  shows "0 \<le> merit_score (update_merit ms t) \<and> merit_score (update_merit ms t) \<le> 200"
proof (cases "too_slow ms")
  case True
  have "merit_score t * (95 / 100 * (1 + half_ulp) * (1 + half_ulp)) \<le> merit_score t * 1"
    using assms by (intro mult_left_mono) (simp_all add: half_ulp_def)
  then show ?thesis using assms True fl_scale_le [of "merit_score t" "95 / 100"]
    by (auto simp: update_merit_def too_slow_def Let_def)
next
  case False
  have "0 \<le> fl_mul (merit_score t) 1" using assms by (simp add: fl_mul_def rnd_nonneg)
  then show ?thesis using assms False fl_scale_le(1) [of "merit_score t" "102 / 100"]
    by (auto simp: update_merit_def too_slow_def Let_def)
qed

lemma long_run_ten: "10 \<le> fail_run ls \<Longrightarrow> ten_failures ls"
  unfolding ten_failures_def suffix_fail_run [symmetric] by blast

lemma active_step:
  assumes "titan_inv ls t"
  shows "tn_is_active (update_merit ms t) \<longleftrightarrow> \<not> ten_failures (ls @ [ms])"
proof (cases "ten_failures ls")
  case True
  then show ?thesis using assms by (auto simp: titan_inv_def ten_failures_snoc update_merit_def Let_def)
next
  case False
  then have short: "fail_run ls < 10" using long_run_ten not_le by blast
  then have "unat (of_nat (Suc (fail_run ls)) :: u32) = Suc (fail_run ls)" by (simp only: unat_of_nat) (simp add: take_bit_eq_mod)
  then have "(10 \<le> (of_nat (Suc (fail_run ls)) :: u32)) = (10 \<le> Suc (fail_run ls))" by (simp only: word_le_nat_alt) simp
  moreover have "\<not> (10 :: u32) \<le> 0" by (simp add: word_le_nat_alt)
  ultimately show ?thesis using assms False
    by (auto simp: titan_inv_def ten_failures_snoc update_merit_def too_slow_def Let_def add.commute)
qed

lemma titan_inv_step: "titan_inv ls t \<Longrightarrow> titan_inv (ls @ [ms]) (update_merit ms t)"
  using active_step [of ls t ms] merit_step [of t ms]
  by (auto simp: titan_inv_def) (auto simp: update_merit_def too_slow_def Let_def)

text \<open>
  After any sequence of latencies the merit score is between 0 and 200, and a node is active exactly as long as no ten
  latencies in a row were over the limit: once it is inactive no result makes it active again, not even when the counter of
  failures wraps around.
\<close>

theorem titan_merit:
  "0 \<le> merit_score (fold update_merit ls (titan_new C kp cpu avx cores now i a stk)) \<and>
   merit_score (fold update_merit ls (titan_new C kp cpu avx cores now i a stk)) \<le> 200 \<and>
   (tn_is_active (fold update_merit ls (titan_new C kp cpu avx cores now i a stk)) \<longleftrightarrow> \<not> ten_failures ls)"
proof -
  have "titan_inv ls (fold update_merit ls (titan_new C kp cpu avx cores now i a stk))"
  proof (induction ls rule: rev_induct)
    case Nil
    then show ?case by (simp add: titan_inv_def titan_new_def ten_failures_def fail_run_def)
  next
    case (snoc ms ls)
    then show ?case using titan_inv_step by simp
  qed
  then show ?thesis by (simp add: titan_inv_def)
qed

end
