(* ===== verification/Node_Utils.thy ===== *)
theory Node_Utils
  imports Pacyte_Float Pacyte_Text Pacyte_Error
begin

text \<open>
  \<open>src/utils/time.rs\<close>, \<open>mod.rs\<close>, \<open>logger.rs\<close> and \<open>metrics.rs\<close>. An \<open>Instant\<close> and a \<open>Duration\<close> are numbers of nanoseconds,
  \<open>Instant::now()\<close> is the argument \<open>now\<close>, a random number is an argument. What is logged or counted is returned as a
  list. The future of a retried operation is a function on the state it changes, and a sleep is recorded with its length.
\<close>

section \<open>Time\<close>

definition as_secs :: "nat \<Rightarrow> nat" where "as_secs d = d div 1000000000"
definition as_millis :: "nat \<Rightarrow> nat" where "as_millis d = d div 1000000"
definition from_millis :: "u64 \<Rightarrow> nat" where "from_millis ms = unat ms * 1000000"
definition from_secs :: "u64 \<Rightarrow> nat" where "from_secs s = unat s * 1000000000"

definition human_readable_duration :: "nat \<Rightarrow> string" where
  "human_readable_duration secs =
     (if secs < 60 then show_nat secs @ ''s''
      else if secs < 3600 then show_nat (secs div 60) @ ''m '' @ show_nat (secs mod 60) @ ''s''
      else if secs < 86400 then show_nat (secs div 3600) @ ''h '' @ show_nat (secs mod 3600 div 60) @ ''m''
      else show_nat (secs div 86400) @ ''d '' @ show_nat (secs mod 86400 div 3600) @ ''h'')"

definition format_duration :: "nat \<Rightarrow> string" where
  "format_duration d =
     (let secs = as_secs d
      in if secs < 60 then show_nat secs @ ''s''
         else if secs < 3600 then show_nat (secs div 60) @ ''m '' @ show_nat (secs mod 60) @ ''s''
         else if secs < 86400 then show_nat (secs div 3600) @ ''h '' @ show_nat (secs mod 3600 div 60) @ ''m''
         else show_nat (secs div 86400) @ ''d '' @ show_nat (secs mod 86400 div 3600) @ ''h'')"

definition TARGET_BLOCK_TIME_MS :: u64 where "TARGET_BLOCK_TIME_MS = 1000"

definition expected_block_time :: "u64 \<Rightarrow> u64 \<Rightarrow> u64" where
  "expected_block_time previous_time target_ms = previous_time + target_ms div 1000"

text \<open>The quotient of two integers as \<open>f64\<close>, with the infinity and the NaN of a division by zero.\<close>

definition time_ratio :: "u64 \<Rightarrow> u64 \<Rightarrow> factor" where
  "time_ratio a e =
     (if e = 0 then (if a = 0 then NotANumber else Infinite) else Finite (fl_div (f64_of_word a) (f64_of_word e)))"

definition calculate_difficulty_adjustment :: "u64 \<Rightarrow> u64 \<Rightarrow> u64 \<Rightarrow> u64" where
  "calculate_difficulty_adjustment actual_time expected_time current_difficulty =
     (let easier = word_of_f64 (fl_mul (f64_of_word current_difficulty) (rnd (9 / 10)));
          harder = word_of_f64 (fl_mul (f64_of_word current_difficulty) (rnd (11 / 10)))
      in case time_ratio actual_time expected_time of
           NotANumber \<Rightarrow> current_difficulty
         | Infinite \<Rightarrow> easier
         | Finite ratio \<Rightarrow>
             if ratio > 3 / 2 then easier
             else if ratio < 1 / 2 then harder
             else current_difficulty)"

record stop_timer =
  st_start :: nat

definition timer_new :: "nat \<Rightarrow> stop_timer" where "timer_new now = \<lparr>st_start = now\<rparr>"
definition st_elapsed :: "nat \<Rightarrow> stop_timer \<Rightarrow> nat" where "st_elapsed now t = now - st_start t"
definition st_elapsed_ms :: "nat \<Rightarrow> stop_timer \<Rightarrow> u64" where "st_elapsed_ms now t = of_nat (as_millis (st_elapsed now t))"
definition st_reset :: "nat \<Rightarrow> stop_timer \<Rightarrow> stop_timer" where "st_reset now t = t\<lparr>st_start := now\<rparr>"
definition has_elapsed :: "nat \<Rightarrow> nat \<Rightarrow> stop_timer \<Rightarrow> bool" where "has_elapsed now d t \<longleftrightarrow> st_elapsed now t \<ge> d"

record interval =
  iv_period :: nat
  last_tick :: nat

definition interval_new :: "nat \<Rightarrow> nat \<Rightarrow> interval" where
  "interval_new now period = \<lparr>iv_period = period, last_tick = now\<rparr>"

definition interval_from_millis :: "nat \<Rightarrow> u64 \<Rightarrow> interval" where
  "interval_from_millis now ms = interval_new now (from_millis ms)"

definition interval_from_secs :: "nat \<Rightarrow> u64 \<Rightarrow> interval" where
  "interval_from_secs now s = interval_new now (from_secs s)"

definition interval_tick :: "nat \<Rightarrow> interval \<Rightarrow> bool \<times> interval" where
  "interval_tick now iv =
     (if now - last_tick iv \<ge> iv_period iv then (True, iv\<lparr>last_tick := now\<rparr>) else (False, iv))"

definition interval_reset :: "nat \<Rightarrow> interval \<Rightarrow> interval" where
  "interval_reset now iv = iv\<lparr>last_tick := now\<rparr>"

definition interval_remaining :: "nat \<Rightarrow> interval \<Rightarrow> nat" where
  "interval_remaining now iv =
     (let el = now - last_tick iv in if el \<ge> iv_period iv then 0 else iv_period iv - el)"

record deadline =
  dl_deadline :: nat

definition deadline_new :: "nat \<Rightarrow> nat \<Rightarrow> deadline" where
  "deadline_new now timeout = \<lparr>dl_deadline = now + timeout\<rparr>"

definition deadline_from_millis :: "nat \<Rightarrow> u64 \<Rightarrow> deadline" where
  "deadline_from_millis now ms = deadline_new now (from_millis ms)"

definition deadline_from_secs :: "nat \<Rightarrow> u64 \<Rightarrow> deadline" where
  "deadline_from_secs now s = deadline_new now (from_secs s)"

definition deadline_is_expired :: "nat \<Rightarrow> deadline \<Rightarrow> bool" where
  "deadline_is_expired now d \<longleftrightarrow> now \<ge> dl_deadline d"

definition deadline_remaining :: "nat \<Rightarrow> deadline \<Rightarrow> nat" where
  "deadline_remaining now d = (if now \<ge> dl_deadline d then 0 else dl_deadline d - now)"

definition deadline_remaining_millis :: "nat \<Rightarrow> deadline \<Rightarrow> u64" where
  "deadline_remaining_millis now d = of_nat (as_millis (deadline_remaining now d))"

section \<open>Helpers\<close>

definition bytes_to_hex :: "(bytes \<Rightarrow> string) \<Rightarrow> bytes \<Rightarrow> string" where
  "bytes_to_hex enc bs = ''0x'' @ enc bs"

definition hex_to_bytes :: "(string \<Rightarrow> bytes option) \<Rightarrow> string \<Rightarrow> bytes option" where
  "hex_to_bytes dec s = dec (trim_start_matches ''0x'' s)"

text \<open>\<open>format!\<close> with two decimals of a nonnegative number: the exact value rounded to the nearest, ties to even.\<close>

definition show_fixed2 :: "f64 \<Rightarrow> string" where
  "show_fixed2 x =
     (let n = nat (round_even (x * 100))
      in show_nat (n div 100) @ ''.'' @ show_nat (n mod 100 div 10) @ show_nat (n mod 10))"

fun scale_size :: "f64 \<Rightarrow> string list \<Rightarrow> f64 \<times> string" where
  "scale_size sz [] = (sz, [])"
| "scale_size sz [u] = (sz, u)"
| "scale_size sz (u # v # us) =
     (if sz \<ge> 1024 then scale_size (fl_div sz 1024) (v # us) else (sz, u))"

definition human_readable_size :: "u64 \<Rightarrow> string" where
  "human_readable_size n =
     (case scale_size (f64_of_word n) [''B'', ''KB'', ''MB'', ''GB'', ''TB''] of
        (sz, u) \<Rightarrow> show_fixed2 sz @ '' '' @ u)"

text \<open>One attempt per element of \<open>0..=max_retries\<close>; the result carries the sleeps in their order.\<close>

function retry_loop ::
    "('s \<Rightarrow> ('e + 'a) \<times> 's) \<Rightarrow> (nat \<Rightarrow> u64) \<Rightarrow> nat \<Rightarrow> nat \<Rightarrow> 's \<Rightarrow> ('e + 'a) \<times> u64 list \<times> 's" where
  "retry_loop f delay_at max_retries attempt s =
     (case f s of
        (Inr r, s') \<Rightarrow> (Inr r, [], s')
      | (Inl e, s') \<Rightarrow>
          if attempt < max_retries
          then (case retry_loop f delay_at max_retries (attempt + 1) s' of
                  (res, ds, s'') \<Rightarrow> (res, delay_at attempt # ds, s''))
          else (Inl e, [], s'))"
  by pat_completeness auto
termination by (relation "measure (\<lambda>(f, d, m, a, s). m - a)") auto

declare retry_loop.simps [simp del]

definition retry :: "('s \<Rightarrow> ('e + 'a) \<times> 's) \<Rightarrow> nat \<Rightarrow> u64 \<Rightarrow> 's \<Rightarrow> ('e + 'a) \<times> u64 list \<times> 's" where
  "retry f max_retries delay_ms s = retry_loop f (\<lambda>_. delay_ms) max_retries 0 s"

text \<open>\<open>2u64.pow(attempt as u32)\<close> and the product wrap around.\<close>

definition backoff_delay :: "u64 \<Rightarrow> nat \<Rightarrow> u64" where
  "backoff_delay base attempt = base * 2 ^ unat (of_nat attempt :: u32)"

definition retry_with_backoff :: "('s \<Rightarrow> ('e + 'a) \<times> 's) \<Rightarrow> nat \<Rightarrow> u64 \<Rightarrow> 's \<Rightarrow> ('e + 'a) \<times> u64 list \<times> 's" where
  "retry_with_backoff f max_retries base_delay_ms s = retry_loop f (backoff_delay base_delay_ms) max_retries 0 s"

fun weighted_pick :: "f64 \<Rightarrow> ('a \<times> f64) list \<Rightarrow> 'a option" where
  "weighted_pick random [] = None"
| "weighted_pick random ((item, weight) # items) =
     (let random' = fl_sub random weight in if random' \<le> 0 then Some item else weighted_pick random' items)"

text \<open>\<open>r\<close> is the random number of \<open>gen::<f64>()\<close>, in \<open>[0, 1)\<close>.\<close>

definition weighted_random :: "f64 \<Rightarrow> ('a \<times> f64) list \<Rightarrow> 'a option" where
  "weighted_random r items =
     (let total_weight = foldl fl_add 0 (map snd items)
      in if total_weight = 0 then None
         else case weighted_pick (fl_mul r total_weight) items of
                Some item \<Rightarrow> Some item
              | None \<Rightarrow> if items = [] then None else Some (fst (last items)))"

record id_generator =
  next_id :: u64

definition id_generator_new :: id_generator where "id_generator_new = \<lparr>next_id = 1\<rparr>"

definition id_next :: "id_generator \<Rightarrow> u64 \<times> id_generator" where
  "id_next g = (next_id g, g\<lparr>next_id := next_id g + 1\<rparr>)"

section \<open>Logging\<close>

datatype log_format = Pretty | Json | Compact

datatype log_output = Stdout | Stderr | LogFile | AllOutputs

record logger_config =
  lc_level :: string
  lc_format :: log_format
  lc_output :: log_output
  lc_file_path :: "string option"
  enable_ansi :: bool
  show_target :: bool
  show_thread_ids :: bool
  show_file_line :: bool

definition logger_config_default :: logger_config where
  "logger_config_default =
     \<lparr>lc_level = ''info'', lc_format = Pretty, lc_output = Stdout, lc_file_path = None, enable_ansi = True, show_target = True,
      show_thread_ids = True, show_file_line = False\<rparr>"

text \<open>
  A layer of the subscriber with its settings; a setting that the code does not make keeps the default of the crate and is
  \<open>None\<close>. The layer without \<open>with_writer\<close> writes to the crate's default.
\<close>

datatype log_writer = ToStdout | ToStderr | ToFile string | ToDefault

record log_layer =
  ll_format :: log_format
  ll_ansi :: "bool option"
  ll_target :: bool
  ll_thread_ids :: bool
  ll_file_line :: bool
  ll_span_close :: bool
  ll_writer :: log_writer

definition pretty_layer :: "logger_config \<Rightarrow> log_writer \<Rightarrow> log_layer" where
  "pretty_layer c w =
     \<lparr>ll_format = Pretty, ll_ansi = Some (enable_ansi c), ll_target = show_target c, ll_thread_ids = show_thread_ids c,
      ll_file_line = show_file_line c, ll_span_close = True, ll_writer = w\<rparr>"

text \<open>
  The installed subscriber: the filter directive (\<open>None\<close> is the one of the environment) and its layers. \<open>Inr None\<close> is a
  call that installs nothing.
\<close>

definition init_logger ::
    "bool \<Rightarrow> (string \<Rightarrow> string + unit) \<Rightarrow> logger_config \<Rightarrow> string + (string option \<times> log_layer list) option" where
  "init_logger env_ok open_file c =
     (let env_filter = (if env_ok then None else Some (lc_level c))
      in case lc_format c of
           Pretty \<Rightarrow>
             (case lc_output c of
                Stdout \<Rightarrow> Inr (Some (env_filter, [pretty_layer c ToStdout]))
              | Stderr \<Rightarrow> Inr (Some (env_filter, [pretty_layer c ToStderr]))
              | LogFile \<Rightarrow>
                  (case lc_file_path c of
                     None \<Rightarrow> Inr None
                   | Some path \<Rightarrow>
                       (case open_file path of
                          Inl e \<Rightarrow> Inl e
                        | Inr _ \<Rightarrow> Inr (Some (env_filter, [pretty_layer c (ToFile path)]))))
              | AllOutputs \<Rightarrow>
                  (case lc_file_path c of
                     None \<Rightarrow> Inr (Some (env_filter, [pretty_layer c ToStdout]))
                   | Some path \<Rightarrow>
                       (case open_file path of
                          Inl e \<Rightarrow> Inl e
                        | Inr _ \<Rightarrow> Inr (Some (env_filter, [pretty_layer c ToStdout, pretty_layer c (ToFile path)])))))
         | Json \<Rightarrow>
             Inr (Some (env_filter,
               [\<lparr>ll_format = Json, ll_ansi = None, ll_target = show_target c, ll_thread_ids = show_thread_ids c,
                 ll_file_line = show_file_line c, ll_span_close = True, ll_writer = ToDefault\<rparr>]))
         | Compact \<Rightarrow>
             Inr (Some (env_filter,
               [\<lparr>ll_format = Compact, ll_ansi = Some (enable_ansi c), ll_target = show_target c,
                 ll_thread_ids = show_thread_ids c, ll_file_line = show_file_line c, ll_span_close = False,
                 ll_writer = ToDefault\<rparr>])))"

record progress_logger =
  pl_total :: u64
  pl_current :: u64
  last_log :: nat
  log_interval_ms :: u64
  pl_prefix :: string

definition progress_new :: "nat \<Rightarrow> u64 \<Rightarrow> string \<Rightarrow> progress_logger" where
  "progress_new now tot pre =
     \<lparr>pl_total = tot, pl_current = 0, last_log = now, log_interval_ms = 1000, pl_prefix = pre\<rparr>"

definition progress_with_interval :: "u64 \<Rightarrow> progress_logger \<Rightarrow> progress_logger" where
  "progress_with_interval ms p = p\<lparr>log_interval_ms := ms\<rparr>"

definition show_fixed1 :: "f64 \<Rightarrow> string" where
  "show_fixed1 x = (let n = nat (round_even (x * 10)) in show_nat (n div 10) @ ''.'' @ show_nat (n mod 10))"

definition progress_log :: "progress_logger \<Rightarrow> string" where
  "progress_log p =
     (let percentage = (if pl_total p > 0 then fl_mul (fl_div (f64_of_word (pl_current p)) (f64_of_word (pl_total p))) 100
                        else 0)
      in pl_prefix p @ '': '' @ show_word (pl_current p) @ ''/'' @ show_word (pl_total p) @ '' ('' @
         show_fixed1 percentage @ ''%)'')"

definition progress_check :: "nat \<Rightarrow> progress_logger \<Rightarrow> string list \<times> progress_logger" where
  "progress_check now p =
     (if as_millis (now - last_log p) \<ge> unat (log_interval_ms p) then ([progress_log p], p\<lparr>last_log := now\<rparr>) else ([], p))"

definition progress_update :: "nat \<Rightarrow> u64 \<Rightarrow> progress_logger \<Rightarrow> string list \<times> progress_logger" where
  "progress_update now delta p = progress_check now (p\<lparr>pl_current := pl_current p + delta\<rparr>)"

definition progress_set :: "nat \<Rightarrow> u64 \<Rightarrow> progress_logger \<Rightarrow> string list \<times> progress_logger" where
  "progress_set now v p = progress_check now (p\<lparr>pl_current := v\<rparr>)"

definition progress_finish :: "progress_logger \<Rightarrow> string list" where
  "progress_finish p = [progress_log p, pl_prefix p @ '': Completed!'']"

section \<open>Metrics\<close>

datatype metric_kind = Gauge | Counter | Histogram "f64 list"

record metric_desc =
  md_name :: string
  md_kind :: metric_kind
  md_labels :: "string list"

definition gauge_vec :: "string \<Rightarrow> string list \<Rightarrow> metric_desc" where
  "gauge_vec n ls = \<lparr>md_name = n, md_kind = Gauge, md_labels = ls\<rparr>"

definition counter_vec :: "string \<Rightarrow> string list \<Rightarrow> metric_desc" where
  "counter_vec n ls = \<lparr>md_name = n, md_kind = Counter, md_labels = ls\<rparr>"

definition histogram_vec :: "string \<Rightarrow> string list \<Rightarrow> rat list \<Rightarrow> metric_desc" where
  "histogram_vec n ls bs = \<lparr>md_name = n, md_kind = Histogram (map rnd bs), md_labels = ls\<rparr>"

text \<open>The fields of \<open>PacyteMetrics\<close> with what each registers, in the order of registration.\<close>

definition pacyte_metrics :: "(string \<times> metric_desc) list" where
  "pacyte_metrics =
     [(''block_height'', gauge_vec ''pacyte_block_height'' [''node_id'']),
      (''block_time_seconds'', histogram_vec ''pacyte_block_time_seconds'' [''node_id''] [1 / 10, 1 / 4, 1 / 2, 1, 2, 5, 10]),
      (''blocks_produced_total'', counter_vec ''pacyte_blocks_produced_total'' [''node_id'', ''validator'']),
      (''block_size_bytes'', histogram_vec ''pacyte_block_size_bytes'' [''node_id''] [1024, 10240, 102400, 1048576, 4194304]),
      (''transactions_total'', counter_vec ''pacyte_transactions_total'' [''node_id'', ''type'']),
      (''transactions_pending'', gauge_vec ''pacyte_transactions_pending'' [''node_id'']),
      (''transaction_size_bytes'', histogram_vec ''pacyte_transaction_size_bytes'' [''node_id''] [100, 250, 500, 1000, 5000]),
      (''transaction_gas_used'', histogram_vec ''pacyte_transaction_gas_used'' [''node_id'']
         [21000, 50000, 100000, 500000, 1000000]),
      (''transaction_fee'', histogram_vec ''pacyte_transaction_fee'' [''node_id''] [1 / 1000, 1 / 100, 1 / 10, 1, 10, 100]),
      (''peers_connected'', gauge_vec ''pacyte_peers_connected'' [''node_id'']),
      (''peer_messages_total'', counter_vec ''pacyte_peer_messages_total'' [''node_id'', ''direction'', ''type'']),
      (''peer_latency_ms'', histogram_vec ''pacyte_peer_latency_ms'' [''node_id'', ''peer_id''] [10, 50, 100, 250, 500, 1000]),
      (''consensus_round'', gauge_vec ''pacyte_consensus_round'' [''node_id'', ''height'']),
      (''consensus_proposals_total'', counter_vec ''pacyte_consensus_proposals_total'' [''node_id'', ''result'']),
      (''consensus_votes_total'', counter_vec ''pacyte_consensus_votes_total'' [''node_id'', ''type'']),
      (''consensus_timeouts_total'', counter_vec ''pacyte_consensus_timeouts_total'' [''node_id'', ''phase'']),
      (''mempool_size'', gauge_vec ''pacyte_mempool_size'' [''node_id'']),
      (''mempool_bytes'', gauge_vec ''pacyte_mempool_bytes'' [''node_id'']),
      (''storage_disk_bytes'', gauge_vec ''pacyte_storage_disk_bytes'' [''node_id'', ''type'']),
      (''storage_read_latency'', histogram_vec ''pacyte_storage_read_latency_seconds'' [''node_id'']
         [1 / 10000, 1 / 2000, 1 / 1000, 1 / 200, 1 / 100, 1 / 20]),
      (''storage_write_latency'', histogram_vec ''pacyte_storage_write_latency_seconds'' [''node_id'']
         [1 / 10000, 1 / 2000, 1 / 1000, 1 / 200, 1 / 100, 1 / 20]),
      (''api_requests_total'', counter_vec ''pacyte_api_requests_total'' [''node_id'', ''method'', ''path'', ''status'']),
      (''api_request_duration'', histogram_vec ''pacyte_api_request_duration_seconds'' [''node_id'', ''method'', ''path'']
         [1 / 1000, 1 / 100, 1 / 10, 1 / 2, 1, 5]),
      (''system_cpu_percent'', gauge_vec ''pacyte_system_cpu_percent'' [''node_id'']),
      (''system_memory_bytes'', gauge_vec ''pacyte_system_memory_bytes'' [''node_id'', ''type'']),
      (''system_uptime_seconds'', gauge_vec ''pacyte_system_uptime_seconds'' [''node_id''])]"

text \<open>Registration in the default registry of the \<open>prometheus\<close> crate, a parameter; the first error ends it.\<close>

fun register_metrics ::
    "(metric_desc \<Rightarrow> 'r \<Rightarrow> (string + unit) \<times> 'r) \<Rightarrow> (string \<times> metric_desc) list \<Rightarrow> 'r \<Rightarrow> (string + unit) \<times> 'r" where
  "register_metrics reg [] r = (Inr (), r)"
| "register_metrics reg ((n, d) # ds) r =
     (case reg d r of (Inl e, r') \<Rightarrow> (Inl e, r') | (Inr _, r') \<Rightarrow> register_metrics reg ds r')"

definition pacyte_metrics_new ::
    "(metric_desc \<Rightarrow> 'r \<Rightarrow> (string + unit) \<times> 'r) \<Rightarrow> 'r \<Rightarrow> (string + (string \<times> metric_desc) list) \<times> 'r" where
  "pacyte_metrics_new reg r =
     (case register_metrics reg pacyte_metrics r of (Inl e, r') \<Rightarrow> (Inl e, r') | (Inr _, r') \<Rightarrow> (Inr pacyte_metrics, r'))"

record 'r metrics_server =
  ms_node_id :: string
  ms_registry :: 'r

definition metrics_server_new ::
    "(metric_desc \<Rightarrow> 'r \<Rightarrow> (string + unit) \<times> 'r) \<Rightarrow> 'r \<Rightarrow> u64 \<Rightarrow> 'r \<Rightarrow> (string + 'r metrics_server) \<times> 'r" where
  "metrics_server_new reg fresh node_id glob =
     (case pacyte_metrics_new reg glob of
        (Inl e, r) \<Rightarrow> (Inl e, r)
      | (Inr _, r) \<Rightarrow> (Inr \<lparr>ms_node_id = show_word node_id, ms_registry = fresh\<rparr>, r))"

definition metrics_handler :: "('r \<Rightarrow> string option) \<Rightarrow> 'r \<Rightarrow> string" where
  "metrics_handler encode r = (case encode r of Some t \<Rightarrow> t | None \<Rightarrow> [])"

text \<open>What a recorder does to a metric: its field, the label values and the change.\<close>

datatype metric_op = SetTo f64 | Inc | Observe f64

type_synonym metric_event = "string \<times> string list \<times> metric_op"

definition f64_of_usize :: "nat \<Rightarrow> f64" where "f64_of_usize n = rnd (of_nat n)"

definition record_block :: "string \<Rightarrow> u64 \<Rightarrow> f64 \<Rightarrow> u64 \<Rightarrow> bool \<Rightarrow> metric_event list" where
  "record_block nid h time_secs size_bytes is_validator =
     [(''block_height'', [nid], SetTo (f64_of_word h)), (''block_time_seconds'', [nid], Observe time_secs),
      (''block_size_bytes'', [nid], Observe (f64_of_word size_bytes))] @
     (if is_validator then [(''blocks_produced_total'', [nid, ''true''], Inc)] else [])"

definition record_transaction :: "string \<Rightarrow> string \<Rightarrow> nat \<Rightarrow> u64 \<Rightarrow> u128 \<Rightarrow> metric_event list" where
  "record_transaction nid tx_type size_bytes gas_used fee =
     [(''transactions_total'', [nid, tx_type], Inc), (''transaction_size_bytes'', [nid], Observe (f64_of_usize size_bytes)),
      (''transaction_gas_used'', [nid], Observe (f64_of_word gas_used)),
      (''transaction_fee'', [nid], Observe (fl_div (f64_of_word fee) 1000000))]"

definition record_peer :: "string \<Rightarrow> nat \<Rightarrow> metric_event list" where
  "record_peer nid n = [(''peers_connected'', [nid], SetTo (f64_of_usize n))]"

definition record_peer_message :: "string \<Rightarrow> string \<Rightarrow> string \<Rightarrow> metric_event list" where
  "record_peer_message nid direction msg_type = [(''peer_messages_total'', [nid, direction, msg_type], Inc)]"

definition record_consensus_round :: "string \<Rightarrow> u64 \<Rightarrow> u64 \<Rightarrow> metric_event list" where
  "record_consensus_round nid h rd = [(''consensus_round'', [nid, show_word h], SetTo (f64_of_word rd))]"

definition record_consensus_proposal :: "string \<Rightarrow> bool \<Rightarrow> metric_event list" where
  "record_consensus_proposal nid accepted =
     [(''consensus_proposals_total'', [nid, if accepted then ''accepted'' else ''rejected''], Inc)]"

definition record_consensus_vote :: "string \<Rightarrow> string \<Rightarrow> metric_event list" where
  "record_consensus_vote nid vt = [(''consensus_votes_total'', [nid, vt], Inc)]"

definition record_consensus_timeout :: "string \<Rightarrow> string \<Rightarrow> metric_event list" where
  "record_consensus_timeout nid phase = [(''consensus_timeouts_total'', [nid, phase], Inc)]"

definition record_mempool :: "string \<Rightarrow> nat \<Rightarrow> nat \<Rightarrow> metric_event list" where
  "record_mempool nid sz bytes =
     [(''mempool_size'', [nid], SetTo (f64_of_usize sz)), (''mempool_bytes'', [nid], SetTo (f64_of_usize bytes))]"

definition record_api_request :: "string \<Rightarrow> string \<Rightarrow> string \<Rightarrow> u16 \<Rightarrow> f64 \<Rightarrow> metric_event list" where
  "record_api_request nid meth path status secs =
     [(''api_requests_total'', [nid, meth, path, show_word status], Inc),
      (''api_request_duration'', [nid, meth, path], Observe secs)]"

section \<open>Throttling\<close>

fun run_acts :: "(nat \<Rightarrow> 'i \<Rightarrow> 's \<Rightarrow> bool \<times> 's) \<Rightarrow> (nat \<times> 'i) list \<Rightarrow> 's \<Rightarrow> nat \<times> 's" where
  "run_acts act [] s = (0, s)"
| "run_acts act ((now, i) # is) s =
     (case act now i s of (b, s') \<Rightarrow> (case run_acts act is s' of (n, s'') \<Rightarrow> ((if b then Suc n else n), s'')))"

text \<open>
  The contract of what acts at most once in a period: when it acts, a period has passed since the time it remembers, which
  becomes the current time; when it does not, it remembers the same time. \<open>act\<close> takes the time and an input.
\<close>

locale throttled =
  fixes act :: "nat \<Rightarrow> 'i \<Rightarrow> 's \<Rightarrow> bool \<times> 's"
    and last_time :: "'s \<Rightarrow> nat"
    and gap :: "'s \<Rightarrow> nat"
  assumes acted: "act now i s = (True, s') \<Longrightarrow> gap s \<le> now - last_time s \<and> last_time s' = now"
    and idle: "act now i s = (False, s') \<Longrightarrow> last_time s' = last_time s"
    and gap_kept: "act now i s = (b, s') \<Longrightarrow> gap s' = gap s"
begin

lemma acts_bounded:
  "sorted (last_time s # map fst is) \<Longrightarrow> run_acts act is s = (n, s') \<Longrightarrow>
   n * gap s + last_time s \<le> last_time s' \<and> last_time s' \<le> last (last_time s # map fst is)"
proof (induction "is" arbitrary: s n)
  case (Cons p "is")
  obtain now i where p: "p = (now, i)" by force
  obtain b s1 where act: "act now i s = (b, s1)" by force
  obtain m where acts: "run_acts act is s1 = (m, s')" and n: "n = (if b then Suc m else m)"
    using Cons.prems(2) act p by (auto split: prod.splits)
  have now: "last_time s \<le> now" "sorted (now # map fst is)" using Cons.prems(1) p by auto
  have last: "last (last_time s1 # map fst is) \<le> last (now # map fst is)"
    using now(1) act acted idle by (cases b) fastforce+
  show ?case
  proof (cases b)
    case True
    then have "gap s \<le> now - last_time s" "last_time s1 = now" using act acted [of now i s s1] by auto
    moreover have "m * gap s + now \<le> last_time s'"
      using Cons.IH [of s1 m] acts now(2) gap_kept [OF act] calculation by simp
    ultimately show ?thesis using Cons.IH [of s1 m] acts now n True p by auto
  next
    case False
    then have same: "last_time s1 = last_time s" using act idle [of now i s s1] by auto
    have "sorted (last_time s1 # map fst is)" using now same by auto
    then show ?thesis using Cons.IH [of s1 m] acts n False same gap_kept [OF act] last p by auto
  qed
qed auto

lemma acts_rate:
  assumes "sorted (last_time s # map fst is)"
  shows "fst (run_acts act is s) * gap s \<le> last (last_time s # map fst is) - last_time s"
  using acts_bounded [OF assms, of "fst (run_acts act is s)" "snd (run_acts act is s)"]
  by (simp del: last.simps add: le_diff_conv2)

end

interpretation ticks: throttled "\<lambda>now (_ :: unit). interval_tick now" last_tick iv_period
  by unfold_locales (auto simp: interval_tick_def split: if_splits)

text \<open>\<open>update\<close> and \<open>set\<close> of the progress logger, and whether they log.\<close>

datatype progress_call = Update u64 | SetCurrent u64

fun progress_step :: "nat \<Rightarrow> progress_call \<Rightarrow> progress_logger \<Rightarrow> bool \<times> progress_logger" where
  "progress_step now (Update d) p = (case progress_update now d p of (ls, p') \<Rightarrow> (ls \<noteq> [], p'))"
| "progress_step now (SetCurrent v) p = (case progress_set now v p of (ls, p') \<Rightarrow> (ls \<noteq> [], p'))"

lemma millis_le: "unat ms \<le> as_millis d \<Longrightarrow> from_millis ms \<le> d"
  unfolding as_millis_def from_millis_def by linarith

lemma progress_check_gap:
  "progress_check now p = (ls, p') \<Longrightarrow>
   (if ls = [] then last_log p' = last_log p
    else last_log p' = now \<and> from_millis (log_interval_ms p) \<le> now - last_log p) \<and>
   log_interval_ms p' = log_interval_ms p"
  using millis_le by (auto simp: progress_check_def split: if_splits)

interpretation progress: throttled progress_step last_log "\<lambda>p. from_millis (log_interval_ms p)"
proof
  fix now i s b s'
  have kept: "log_interval_ms s' = log_interval_ms s \<and>
      (if b then last_log s' = now \<and> from_millis (log_interval_ms s) \<le> now - last_log s else last_log s' = last_log s)"
    if "progress_step now i s = (b, s')" for b :: bool
    using that by (cases i) (auto simp: progress_update_def progress_set_def split: prod.splits dest!: progress_check_gap)
  show "progress_step now i s = (True, s') \<Longrightarrow> from_millis (log_interval_ms s) \<le> now - last_log s \<and> last_log s' = now"
    "progress_step now i s = (False, s') \<Longrightarrow> last_log s' = last_log s"
    "progress_step now i s = (b, s') \<Longrightarrow> from_millis (log_interval_ms s') = from_millis (log_interval_ms s)"
    using kept by fastforce+
qed

text \<open>
  At times that do not go back, an interval fires at most once per period and the progress logger logs at most once per
  interval: between its creation at \<open>t0\<close> and the last call.
\<close>

theorem interval_rate:
  assumes "sorted (t0 # ts)"
  shows "fst (run_acts (\<lambda>now (_ :: unit). interval_tick now) (map (\<lambda>t. (t, ())) ts) (interval_new t0 period)) * period
           \<le> last (t0 # ts) - t0"
  using ticks.acts_rate [of "interval_new t0 period" "map (\<lambda>t. (t, ())) ts"] assms by (simp add: interval_new_def comp_def)

theorem interval_rate_witness:
  "fst (run_acts (\<lambda>now (_ :: unit). interval_tick now) [(4, ()), (10, ()), (14, ()), (25, ())] (interval_new 0 10)) = 2 \<and>
   2 * 10 \<le> (25 :: nat)"
  using interval_rate [of 0 "[4, 10, 14, 25]" 10] by (simp add: interval_tick_def interval_new_def)

lemma progress_rate:
  assumes "sorted (t0 # map fst calls)"
  shows "fst (run_acts progress_step calls (progress_with_interval ms (progress_new t0 tot pre))) * from_millis ms
           \<le> last (t0 # map fst calls) - t0"
  using progress.acts_rate [of "progress_with_interval ms (progress_new t0 tot pre)" calls] assms
  by (simp add: progress_with_interval_def progress_new_def)

text \<open>A deadline and what remains of it.\<close>

lemma deadline_remaining_spec:
  "deadline_is_expired now d \<longleftrightarrow> deadline_remaining now d = 0"
  "\<not> deadline_is_expired now d \<Longrightarrow> now + deadline_remaining now d = dl_deadline d"
  by (auto simp: deadline_is_expired_def deadline_remaining_def)

lemma interval_remaining_spec:
  "last_tick iv \<le> now \<Longrightarrow> fst (interval_tick (now + interval_remaining now iv) iv)"
  by (simp add: interval_tick_def interval_remaining_def Let_def)

section \<open>Retries\<close>

text \<open>The state after a number of attempts.\<close>

primrec after_attempts :: "('s \<Rightarrow> 'r \<times> 's) \<Rightarrow> nat \<Rightarrow> 's \<Rightarrow> 's" where
  "after_attempts f 0 s = s"
| "after_attempts f (Suc n) s = after_attempts f n (snd (f s))"

lemma retry_loop_success:
  "\<lbrakk>\<And>i. i < k \<Longrightarrow> isl (fst (f (after_attempts f i s))); fst (f (after_attempts f k s)) = Inr r; a + k \<le> m\<rbrakk> \<Longrightarrow>
   retry_loop f d m a s = (Inr r, map d [a..<a + k], after_attempts f (Suc k) s)"
proof (induction k arbitrary: a s)
  case 0
  then show ?case by (cases "f s") (simp add: retry_loop.simps [of f])
next
  case (Suc k)
  obtain e s' where fs: "f s = (Inl e, s')" using Suc.prems(1) [of 0] by (cases "f s"; cases "fst (f s)") auto
  have "retry_loop f d m (a + 1) s' = (Inr r, map d [a + 1..<a + 1 + k], after_attempts f (Suc k) s')"
  proof (rule Suc.IH)
    show "isl (fst (f (after_attempts f i s')))" if "i < k" for i
      using Suc.prems(1) [of "Suc i"] that fs by simp
    show "fst (f (after_attempts f k s')) = Inr r" using Suc.prems(2) fs by simp
  qed (use Suc.prems(3) in simp)
  then show ?case using fs Suc.prems(3)
    by (simp add: retry_loop.simps [of f d m a] upt_rec [of a] del: upt_Suc)
qed

lemma retry_loop_failure:
  "\<lbrakk>\<And>i. a + i \<le> m \<Longrightarrow> isl (fst (f (after_attempts f i s))); a \<le> m\<rbrakk> \<Longrightarrow>
   retry_loop f d m a s = (fst (f (after_attempts f (m - a) s)), map d [a..<m], after_attempts f (Suc (m - a)) s)"
proof (induction "m - a" arbitrary: a s)
  case 0
  then have "a = m" by simp
  moreover obtain e s' where fs: "f s = (Inl e, s')" using 0(2) [of 0] 0 by (cases "f s"; cases "fst (f s)") auto
  ultimately show ?case using fs by (simp add: retry_loop.simps [of f])
next
  case (Suc n)
  obtain e s' where fs: "f s = (Inl e, s')" using Suc.prems(1) [of 0] Suc.prems(2) by (cases "f s"; cases "fst (f s)") auto
  have "retry_loop f d m (a + 1) s' =
      (fst (f (after_attempts f (m - (a + 1)) s')), map d [a + 1..<m], after_attempts f (Suc (m - (a + 1))) s')"
  proof (rule Suc.hyps(1))
    show "isl (fst (f (after_attempts f i s')))" if "a + 1 + i \<le> m" for i
      using Suc.prems(1) [of "Suc i"] that fs by simp
  qed (use Suc.hyps(2) in auto)
  moreover have "m - a = Suc (m - (a + 1))" "a < m" using Suc.hyps(2) by auto
  ultimately show ?case using fs
    by (simp add: retry_loop.simps [of f d m a] upt_rec [of a])
qed

text \<open>
  An operation that succeeds at attempt \<open>k\<close> of at most \<open>max_retries + 1\<close> is called exactly \<open>k + 1\<close> times, with the
  doubled delays between the calls; one that never succeeds is called \<open>max_retries + 1\<close> times, sleeps \<open>max_retries\<close>
  times, and its last error is the result.
\<close>

theorem retry_with_backoff_spec:
  "((\<forall>i < k. isl (fst (f (after_attempts f i s)))) \<and> fst (f (after_attempts f k s)) = Inr r \<and> k \<le> max_retries \<longrightarrow>
      retry_with_backoff f max_retries base s = (Inr r, map (backoff_delay base) [0..<k], after_attempts f (Suc k) s)) \<and>
   ((\<forall>i \<le> max_retries. isl (fst (f (after_attempts f i s)))) \<longrightarrow>
      retry_with_backoff f max_retries base s =
        (fst (f (after_attempts f max_retries s)), map (backoff_delay base) [0..<max_retries],
         after_attempts f (Suc max_retries) s))"
  using retry_loop_success [of k f s r 0 max_retries] retry_loop_failure [of 0 max_retries f s]
  unfolding retry_with_backoff_def by simp

text \<open>The delay doubles until it no longer fits, and from attempt 64 on it is zero.\<close>

lemma backoff_delay_doubles:
  assumes "unat base * 2 ^ attempt < 2 ^ 64" "base \<noteq> 0"
  shows "unat (backoff_delay base attempt) = unat base * 2 ^ attempt"
proof -
  have "2 ^ attempt \<le> unat base * 2 ^ attempt" using assms(2) by (simp add: unat_gt_0 Suc_leI)
  then have "(2 :: nat) ^ attempt < 2 ^ 64" using assms(1) by linarith
  then have "attempt < 64" by (rule power_less_imp_less_exp [rotated]) simp
  then have "unat (of_nat attempt :: u32) = attempt" by (simp add: unat_of_nat)
  then have "backoff_delay base attempt = of_nat (unat base * 2 ^ attempt)" by (simp add: backoff_delay_def)
  then show ?thesis using assms(1) by (simp only: unat_of_nat) (simp add: take_bit_eq_mod)
qed

lemma backoff_delay_vanishes: "64 \<le> attempt \<Longrightarrow> attempt < 2 ^ 32 \<Longrightarrow> backoff_delay base attempt = 0"
proof -
  assume a: "64 \<le> attempt" "attempt < 2 ^ 32"
  then have "unat (of_nat attempt :: u32) = attempt" by (simp add: unat_of_nat take_bit_eq_mod)
  moreover have "(2 :: u64) ^ attempt = 0" using a(1) by (intro exp_eq_zero_iff [THEN iffD2]) simp
  ultimately show ?thesis unfolding backoff_delay_def by (simp only: mult_zero_right)
qed

section \<open>Identifiers, hexadecimal text and weighted choice\<close>

primrec take_ids :: "nat \<Rightarrow> id_generator \<Rightarrow> u64 list" where
  "take_ids 0 g = []"
| "take_ids (Suc n) g = (case id_next g of (i, g') \<Rightarrow> i # take_ids n g')"

lemma take_ids_eq: "take_ids n g = map (\<lambda>k. next_id g + of_nat k) [0..<n]"
proof (induction n arbitrary: g)
  case (Suc n)
  then show ?case by (simp add: id_next_def map_upt_Suc algebra_simps del: upt_Suc)
qed simp

text \<open>Two to the 64 identifiers are drawn before one comes again.\<close>

theorem ids_distinct: "n \<le> 2 ^ 64 \<Longrightarrow> distinct (take_ids n g)"
proof -
  assume n: "n \<le> 2 ^ 64"
  have "inj_on (\<lambda>k. next_id g + of_nat k) {0..<n}"
  proof (rule inj_onI)
    fix i j assume "i \<in> {0..<n}" "j \<in> {0..<n}" "next_id g + of_nat i = next_id g + of_nat j"
    then have "unat (of_nat i :: u64) = unat (of_nat j :: u64)" "i < 2 ^ 64" "j < 2 ^ 64" using n by auto
    then show "i = j" by (simp add: unat_of_nat take_bit_eq_mod)
  qed
  then show ?thesis by (simp add: take_ids_eq distinct_map)
qed

lemma bytes_hex_roundtrip: "hex_law enc dec \<Longrightarrow> hex_to_bytes dec (bytes_to_hex enc bs) = Some bs"
  using trim_hex [of "enc bs"] by (simp add: hex_to_bytes_def bytes_to_hex_def hex_law_def)

lemma weighted_pick_in: "weighted_pick r items = Some x \<Longrightarrow> x \<in> fst ` set items"
  by (induction r items rule: weighted_pick.induct) (auto simp: Let_def split: if_splits)

lemma weighted_random_in:
  "weighted_random r items = Some x \<Longrightarrow> x \<in> fst ` set items"
  by (auto simp: weighted_random_def Let_def dest: weighted_pick_in split: if_splits option.splits)

lemma weighted_random_None: "weighted_random r items = None \<longleftrightarrow> foldl fl_add 0 (map snd items) = 0"
  by (auto simp: weighted_random_def Let_def split: option.splits)

section \<open>Difficulty\<close>

text \<open>The bounds of a ratio are excluded: one and a half and one half leave the difficulty as it is.\<close>

lemma f64_of_small: "unat w < 2 ^ 53 \<Longrightarrow> f64_of_word w = of_nat (unat w)"
  unfolding f64_of_word_def by (rule rnd_of_nat)

lemma difficulty_at_bounds:
  "calculate_difficulty_adjustment 1500 1000 d = d" "calculate_difficulty_adjustment 500 1000 d = d"
proof -
  have "rnd (3 / 2) = 3 / 2" "rnd (1 / 2) = 1 / 2"
    using rnd_exact [of 3 "- 1"] rnd_exact [of 1 "- 1"] by (simp_all add: power_int_minus)
  then have "time_ratio 1500 1000 = Finite (3 / 2)" "time_ratio 500 1000 = Finite (1 / 2)"
    by (simp_all add: time_ratio_def fl_div_def f64_of_small)
  then show "calculate_difficulty_adjustment 1500 1000 d = d" "calculate_difficulty_adjustment 500 1000 d = d"
    by (simp_all add: calculate_difficulty_adjustment_def)
qed

text \<open>A difficulty of zero is never left, and it is reached: a difficulty of one is eased to zero.\<close>

lemma difficulty_zero_stays: "calculate_difficulty_adjustment actual expected 0 = 0"
  by (simp add: calculate_difficulty_adjustment_def f64_of_word_def fl_mul_def rnd_def word_of_f64_def Let_def
      split: factor.splits)

lemma difficulty_one_lost: "calculate_difficulty_adjustment 2000 1000 1 = 0"
proof -
  have "rnd (9 / 10) \<le> 9 / 10 * (1 + half_ulp)" "0 \<le> rnd (9 / 10)" by (rule rnd_le rnd_nonneg; simp)+
  moreover have "rnd (rnd (9 / 10)) \<le> rnd (9 / 10) * (1 + half_ulp)" using calculation by (intro rnd_le)
  ultimately have "rnd (rnd (9 / 10)) < 1" by (simp add: half_ulp_def)
  moreover have "0 \<le> rnd (rnd (9 / 10))" by (intro rnd_nonneg) simp
  ultimately have "word_of_f64 (rnd (rnd (9 / 10))) = (0 :: u64)"
    by (simp add: word_of_f64_def floor_eq_iff)
  moreover have "time_ratio 2000 1000 = Finite 2"
    using rnd_of_nat [of 2] by (simp add: time_ratio_def fl_div_def f64_of_small)
  ultimately show ?thesis
    by (simp add: calculate_difficulty_adjustment_def f64_of_small fl_mul_def)
qed

lemma size_of_bytes: "human_readable_size 500 = ''500.00 B''"
proof -
  have "round_even 50000 = 50000" using round_even_of_int [of 50000] by simp
  then show ?thesis by (simp add: human_readable_size_def f64_of_small show_fixed2_def show_nat.simps char_of_def bit_0)
qed

section \<open>Recorders and registration\<close>

definition event_fits :: "metric_event \<Rightarrow> bool" where
  "event_fits e =
     (case e of (field, labels, op) \<Rightarrow>
        (case map_of pacyte_metrics field of
           None \<Rightarrow> False
         | Some d \<Rightarrow>
             length labels = length (md_labels d) \<and>
             (case (op, md_kind d) of
                (SetTo _, Gauge) \<Rightarrow> True | (Inc, Counter) \<Rightarrow> True | (Observe _, Histogram _) \<Rightarrow> True | _ \<Rightarrow> False)))"

datatype recorder_call =
    RBlock u64 f64 u64 bool
  | RTransaction string nat u64 u128
  | RPeer nat
  | RPeerMessage string string
  | RRound u64 u64
  | RProposal bool
  | RVote string
  | RTimeout string
  | RMempool nat nat
  | RApi string string u16 f64

fun recorder_run :: "string \<Rightarrow> recorder_call \<Rightarrow> metric_event list" where
  "recorder_run nid (RBlock h t sz v) = record_block nid h t sz v"
| "recorder_run nid (RTransaction ty sz gas fee) = record_transaction nid ty sz gas fee"
| "recorder_run nid (RPeer n) = record_peer nid n"
| "recorder_run nid (RPeerMessage d ty) = record_peer_message nid d ty"
| "recorder_run nid (RRound h rd) = record_consensus_round nid h rd"
| "recorder_run nid (RProposal a) = record_consensus_proposal nid a"
| "recorder_run nid (RVote ty) = record_consensus_vote nid ty"
| "recorder_run nid (RTimeout ph) = record_consensus_timeout nid ph"
| "recorder_run nid (RMempool n b) = record_mempool nid n b"
| "recorder_run nid (RApi m p st t) = record_api_request nid m p st t"

lemmas recorder_defs =
  record_block_def record_transaction_def record_peer_def record_peer_message_def record_consensus_round_def
  record_consensus_proposal_def record_consensus_vote_def record_consensus_timeout_def record_mempool_def
  record_api_request_def

lemmas metric_table = pacyte_metrics_def gauge_vec_def counter_vec_def histogram_vec_def

text \<open>
  Every call of the recorder uses a metric that is registered, gives it as many label values as it has labels (a different
  number is a panic of \<open>with_label_values\<close>) and changes it the way its kind allows; the registered names are distinct.
\<close>

theorem recorder_never_panics: "list_all event_fits (recorder_run nid c)"
  by (cases c) (simp_all add: recorder_defs event_fits_def metric_table)

lemma metric_names_distinct: "distinct (map (\<lambda>(f, d). md_name d) pacyte_metrics) \<and> distinct (map fst pacyte_metrics)"
  by (simp add: metric_table)

text \<open>The page that is served is that of the fresh registry, whatever has been registered and recorded.\<close>

lemma metrics_page_empty:
  "fst (metrics_server_new reg fresh nid glob) = Inr srv \<Longrightarrow> metrics_handler encode (ms_registry srv) = metrics_handler encode fresh"
  by (auto simp: metrics_server_new_def split: prod.splits sum.splits)

text \<open>Output to a file without a path installs no subscriber, and two formats ignore the output that is chosen.\<close>

lemma file_log_without_path:
  "lc_format c = Pretty \<Longrightarrow> lc_output c = LogFile \<Longrightarrow> lc_file_path c = None \<Longrightarrow> init_logger e op c = Inr None"
  by (simp add: init_logger_def)

lemma json_log_ignores_output:
  "lc_format c = Json \<or> lc_format c = Compact \<Longrightarrow> init_logger e op (c\<lparr>lc_output := out\<rparr>) = init_logger e op c"
  by (auto simp: init_logger_def Let_def)

end
