(* ===== verification/Node_Boot.thy ===== *)
theory Node_Boot
  imports Crypto_Keys Storage_Snapshot Vault_Manager Consensus_Engine Network_P2P Api_Rpc
begin

text \<open>
  \<open>src/types/config.rs\<close> and the assembly of a node in \<open>src/main.rs\<close>: the configuration and its file, what the command
  line makes of it, and the start up to the point where the tasks are spawned. Opening the database, the printed form of
  a socket address and the YAML serialiser are parameters, and so is the hybrid key pair that is drawn. A path is the list
  of its components.
\<close>

section \<open>Configuration\<close>

record node_config =
  ncf_node_id :: u64
  ncf_node_name :: string
  ncf_validator_key_path :: path
  ncf_listen_addr :: socket_addr
  ncf_public_addr :: "socket_addr option"
  ncf_bootstrap_peers :: "string list"
  ncf_max_peers :: usize
  ncf_min_peers :: usize
  ncf_handshake_timeout_ms :: u64
  ncf_ping_interval_ms :: u64
  ncf_is_validator :: bool
  ncf_validator_stake :: u128
  ncf_block_time_target_ms :: u64
  ncf_consensus_timeout_ms :: u64
  ncf_max_block_size :: usize
  ncf_data_dir :: path
  ncf_rocksdb_max_open_files :: "32 word"
  ncf_rocksdb_cache_size_mb :: usize
  ncf_wal_enabled :: bool
  ncf_wal_sync_interval_ms :: u64
  ncf_mempool_max_size :: usize
  ncf_mempool_max_tx_age_secs :: u64
  ncf_min_fee_per_byte :: u64
  ncf_api_enabled :: bool
  ncf_api_listen_addr :: socket_addr
  ncf_rpc_enabled :: bool
  ncf_rpc_listen_addr :: socket_addr
  ncf_ws_enabled :: bool
  ncf_ws_listen_addr :: socket_addr
  ncf_metrics_enabled :: bool
  ncf_metrics_listen_addr :: socket_addr
  ncf_log_level :: string
  ncf_dev_mode :: bool
  ncf_unsafe_rpc :: bool

definition ipv4_addr :: "string \<Rightarrow> u16 \<Rightarrow> socket_addr" where
  "ipv4_addr ip port = \<lparr>sa_ip = ip, sa_v6 = False, sa_port = port\<rparr>"

definition node_config_default :: node_config where
  "node_config_default =
     \<lparr>ncf_node_id = 1, ncf_node_name = ''pacyte-titan'', ncf_validator_key_path = [''.'', ''keys'', ''validator.json''],
      ncf_listen_addr = ipv4_addr ''0.0.0.0'' 9333, ncf_public_addr = None, ncf_bootstrap_peers = [],
      ncf_max_peers = 50, ncf_min_peers = 3, ncf_handshake_timeout_ms = 5000, ncf_ping_interval_ms = 30000,
      ncf_is_validator = False, ncf_validator_stake = 0, ncf_block_time_target_ms = 1000, ncf_consensus_timeout_ms = 3000,
      ncf_max_block_size = 4 * 1024 * 1024, ncf_data_dir = [''.'', ''data''], ncf_rocksdb_max_open_files = 1000,
      ncf_rocksdb_cache_size_mb = 512, ncf_wal_enabled = True, ncf_wal_sync_interval_ms = 100,
      ncf_mempool_max_size = 10000, ncf_mempool_max_tx_age_secs = 3600, ncf_min_fee_per_byte = 1, ncf_api_enabled = True,
      ncf_api_listen_addr = ipv4_addr ''127.0.0.1'' 8080, ncf_rpc_enabled = True,
      ncf_rpc_listen_addr = ipv4_addr ''127.0.0.1'' 9332, ncf_ws_enabled = False,
      ncf_ws_listen_addr = ipv4_addr ''127.0.0.1'' 9334, ncf_metrics_enabled = True,
      ncf_metrics_listen_addr = ipv4_addr ''127.0.0.1'' 9090, ncf_log_level = ''info'', ncf_dev_mode = False,
      ncf_unsafe_rpc = False\<rparr>"

text \<open>The serialiser of \<open>serde_yaml\<close>, to and from the bytes of a text file; a byte sequence that is no text is an error of reading.\<close>

record yaml_codec =
  yaml_to :: "node_config \<Rightarrow> string + bytes"
  yaml_utf8 :: "bytes \<Rightarrow> string + bytes"
  yaml_from :: "bytes \<Rightarrow> string + node_config"

definition config_result :: "string + 'a \<Rightarrow> 'a pacyte_result" where
  "config_result r = (case r of Inl msg \<Rightarrow> Inl (ConfigError msg) | Inr x \<Rightarrow> Inr x)"

definition config_from_file :: "yaml_codec \<Rightarrow> 'f fs_ops \<Rightarrow> path \<Rightarrow> 'f \<Rightarrow> node_config pacyte_result" where
  "config_from_file Y F p f =
     (case fs_read F p f of
        Inl msg \<Rightarrow> Inl (ConfigError msg)
      | Inr bs \<Rightarrow>
          (case yaml_utf8 Y bs of
             Inl msg \<Rightarrow> Inl (ConfigError msg)
           | Inr contents \<Rightarrow> config_result (yaml_from Y contents)))"

definition config_save_to_file :: "yaml_codec \<Rightarrow> 'f fs_ops \<Rightarrow> path \<Rightarrow> node_config \<Rightarrow> 'f \<Rightarrow> unit pacyte_result \<times> 'f" where
  "config_save_to_file Y F p c f =
     (case yaml_to Y c of
        Inl msg \<Rightarrow> (Inl (ConfigError msg), f)
      | Inr contents \<Rightarrow> (case fs_write F p contents f of (r, f') \<Rightarrow> (config_result r, f')))"

definition enable_validator :: "u128 \<Rightarrow> node_config \<Rightarrow> node_config" where
  "enable_validator stk c = c\<lparr>ncf_is_validator := True, ncf_validator_stake := stk\<rparr>"

definition add_bootstrap_peer :: "string \<Rightarrow> node_config \<Rightarrow> node_config" where
  "add_bootstrap_peer addr c =
     (if addr \<notin> set (ncf_bootstrap_peers c) then c\<lparr>ncf_bootstrap_peers := ncf_bootstrap_peers c @ [addr]\<rparr> else c)"

definition db_path :: "node_config \<Rightarrow> path" where "db_path c = path_join (ncf_data_dir c) ''db''"
definition wal_path :: "node_config \<Rightarrow> path" where "wal_path c = path_join (ncf_data_dir c) ''wal''"
definition keys_dir :: "node_config \<Rightarrow> path" where "keys_dir c = path_join (ncf_data_dir c) ''keys''"

definition ensure_data_dir :: "'f fs_ops \<Rightarrow> node_config \<Rightarrow> 'f \<Rightarrow> unit pacyte_result \<times> 'f" where
  "ensure_data_dir F c f =
     (case fs_create_dir_all F (ncf_data_dir c) f of
        (Inl msg, f1) \<Rightarrow> (Inl (ConfigError msg), f1)
      | (Inr _, f1) \<Rightarrow>
          (let f2 = snd (fs_create_dir_all F (db_path c) f1);
               f3 = snd (fs_create_dir_all F (wal_path c) f2);
               f4 = snd (fs_create_dir_all F (keys_dir c) f3)
           in (Inr (), f4)))"

section \<open>Command line\<close>

record cli_args =
  arg_node_id :: u64
  arg_port :: u16
  arg_bootstrap :: "string option"
  arg_data_dir :: path
  arg_validator :: bool
  arg_stake :: u128

definition cli_args_default :: cli_args where
  "cli_args_default =
     \<lparr>arg_node_id = 1, arg_port = 9333, arg_bootstrap = None, arg_data_dir = [''.'', ''data''], arg_validator = False,
      arg_stake = 1000000\<rparr>"

text \<open>\<open>str::split\<close> on one character.\<close>

fun split_char :: "char \<Rightarrow> string \<Rightarrow> string list" where
  "split_char c [] = [[]]"
| "split_char c (x # xs) =
     (if x = c then [] # split_char c xs
      else case split_char c xs of [] \<Rightarrow> [[x]] | p # ps \<Rightarrow> (x # p) # ps)"

definition node_configure :: "cli_args \<Rightarrow> node_config" where
  "node_configure args =
     (let c = node_config_default\<lparr>ncf_node_id := arg_node_id args, ncf_data_dir := arg_data_dir args,
                ncf_listen_addr := ipv4_addr ''0.0.0.0'' (arg_port args)\<rparr>;
          c1 = (if arg_validator args then enable_validator (arg_stake args * 1000000) c else c)
      in case arg_bootstrap args of
           None \<Rightarrow> c1
         | Some bootstrap \<Rightarrow> fold (\<lambda>peer. add_bootstrap_peer (trim_text peer)) (split_char (CHR '','') bootstrap) c1)"

definition mempool_config_of :: "node_config \<Rightarrow> mempool_config" where
  "mempool_config_of c =
     mempool_config_default\<lparr>mc_max_size := ncf_mempool_max_size c, max_tx_age_secs := ncf_mempool_max_tx_age_secs c,
       min_fee_per_byte := ncf_min_fee_per_byte c\<rparr>"

definition network_config_of :: "(string \<Rightarrow> socket_addr option) \<Rightarrow> node_config \<Rightarrow> network_config" where
  "network_config_of parse_addr c =
     \<lparr>nc_node_id = ncf_node_id c, listen_addr = ncf_listen_addr c, public_addr = ncf_public_addr c,
      bootstrap_peers = List.map_filter parse_addr (ncf_bootstrap_peers c), nc_max_peers = ncf_max_peers c,
      min_peers = ncf_min_peers c, handshake_timeout_ms = ncf_handshake_timeout_ms c,
      ping_interval_ms = ncf_ping_interval_ms c, max_message_size = 16 * 1024 * 1024\<rparr>"

definition consensus_config_of :: "node_config \<Rightarrow> consensus_config" where
  "consensus_config_of c =
     consensus_config_default\<lparr>validator_count := 21, block_time_target_ms := ncf_block_time_target_ms c\<rparr>"

definition api_config_of :: "node_config \<Rightarrow> api_config" where
  "api_config_of c =
     api_config_default\<lparr>api_enabled := True, rest_enabled := True, rpc_enabled := ncf_rpc_enabled c,
       ws_enabled := ncf_ws_enabled c, rest_addr := addr_string (ncf_api_listen_addr c),
       rpc_addr := addr_string (ncf_rpc_listen_addr c), ws_addr := addr_string (ncf_ws_listen_addr c)\<rparr>"

section \<open>Start\<close>

text \<open>The accounts of the genesis are created when the state has none.\<close>

definition node_genesis :: "'s storage_ops \<Rightarrow> timestamp \<Rightarrow> 's vault_manager \<Rightarrow> unit pacyte_result \<times> 's vault_manager" where
  "node_genesis S now v =
     (case sm_account_exists S GENESIS_VAULT_ADDRESS (vm_state v) of
        (Inl e, sm) \<Rightarrow> (Inl e, v\<lparr>vm_state := sm\<rparr>)
      | (Inr ex, sm) \<Rightarrow>
          (let v1 = v\<lparr>vm_state := sm\<rparr> in (Inr (), if ex then v1 else initialize_genesis now v1)))"

text \<open>A validator is registered with a manager of its own, which is dropped; the result is logged.\<close>

definition node_register ::
    "externals \<Rightarrow> crypto_ops \<Rightarrow> bool \<times> bool \<Rightarrow> timestamp \<Rightarrow> hybrid_signer \<Rightarrow> node_config \<Rightarrow> u64 pacyte_result option outcome" where
  "node_register X C hw now kp c =
     (if ncf_is_validator c then
        (case vm_register_validator hw now (hybrid_address X kp) (hybrid_key_to_bytes C (hybrid_public_keys kp))
                (ncf_validator_stake c) validator_manager_new of
           Blocked \<Rightarrow> Blocked
         | Returned (r, m) \<Rightarrow> Returned (Some r))
      else Returned None)"

record 's node =
  n_config :: node_config
  n_vault :: "'s vault_manager"
  n_mempool :: mempool_impl
  n_network :: p2p_network
  n_engine :: "('s, mempool_impl) engine"
  n_registration :: "u64 pacyte_result option"
  n_api :: "api_server option"

definition node_boot ::
    "externals \<Rightarrow> 's storage_ops \<Rightarrow> crypto_ops \<Rightarrow> bool \<times> bool \<Rightarrow> timestamp \<Rightarrow> hybrid_signer \<Rightarrow>
     (string \<Rightarrow> socket_addr option) \<Rightarrow> (path \<Rightarrow> 's pacyte_result) \<Rightarrow> 'f fs_ops \<Rightarrow> 'f \<Rightarrow> cli_args \<Rightarrow>
     's node pacyte_result outcome" where
  "node_boot X S C hw now kp parse_addr open_db F f args =
     (let config = node_configure args in
      case ensure_data_dir F config f of
        (Inl e, f1) \<Rightarrow> Returned (Inl e)
      | (Inr _, f1) \<Rightarrow>
      case open_db (db_path config) of
        Inl e \<Rightarrow> Returned (Inl e)
      | Inr storage \<Rightarrow>
      case node_genesis S now (vault_manager_new (state_manager_new X storage)) of
        (Inl e, v) \<Rightarrow> Returned (Inl e)
      | (Inr _, v) \<Rightarrow>
      case so_get_block S 0 (sm_storage (vm_state v)) of
        Inl e \<Rightarrow> Returned (Inl e)
      | Inr ob \<Rightarrow>
          (let mempool = mempool_new (mempool_config_of config);
               genesis_hash = (case ob of Some b \<Rightarrow> block_hash X b | None \<Rightarrow> zero32);
               network = p2p_network_new (network_config_of parse_addr config) genesis_hash;
               consensus = engine_new (consensus_config_of config) (vm_state v) mempool
           in case node_register X C hw now kp config of
                Blocked \<Rightarrow> Blocked
              | Returned reg \<Rightarrow>
                  Returned (Inr \<lparr>n_config = config, n_vault = v, n_mempool = mempool, n_network = network,
                    n_engine = consensus, n_registration = reg,
                    n_api = (if ncf_api_enabled config then Some (snd (api_server_start (api_server_new (api_config_of config))))
                             else None)\<rparr>)))"

section \<open>The configuration file\<close>

text \<open>What is saved is read back, on a file system that has room and permissions and for a serialiser that reads what it wrote.\<close>

context snapshot_fs
begin

lemma config_roundtrip:
  assumes codec: "yaml_to Y c = Inr bs" "yaml_utf8 Y bs = Inr bs" "yaml_from Y bs = Inr c"
    and dir: "p \<in> dirs f" "path_join p n \<notin> dirs f"
  shows "\<exists>f'. config_save_to_file Y F (path_join p n) c f = (Inr (), f') \<and> config_from_file Y F (path_join p n) f' = Inr c"
proof -
  obtain f' where "fs_write F (path_join p n) bs f = (Inr (), f')" "files f' = (files f)(path_join p n \<mapsto> bs)"
    using fs_write_file [OF dir, of bs] by blast
  moreover from this have "fs_read F (path_join p n) f' = Inr bs" by (intro fs_read_file) simp
  ultimately show ?thesis using codec by (simp add: config_save_to_file_def config_from_file_def config_result_def)
qed

end

lemma config_roundtrip_tree:
  "yaml_to Y c = Inr bs \<Longrightarrow> yaml_utf8 Y bs = Inr bs \<Longrightarrow> yaml_from Y bs = Inr c \<Longrightarrow>
   p \<in> tree_dirs f \<Longrightarrow> path_join p n \<notin> tree_dirs f \<Longrightarrow>
   \<exists>f'. config_save_to_file Y tree_ops (path_join p n) c f = (Inr (), f') \<and>
        config_from_file Y tree_ops (path_join p n) f' = Inr c"
  by (rule tree.config_roundtrip)

section \<open>The command line\<close>

lemma add_peers_distinct:
  "distinct (ncf_bootstrap_peers c) \<Longrightarrow>
   distinct (ncf_bootstrap_peers (fold (\<lambda>p. add_bootstrap_peer (g p)) ps c)) \<and>
   set (ncf_bootstrap_peers (fold (\<lambda>p. add_bootstrap_peer (g p)) ps c)) = set (ncf_bootstrap_peers c) \<union> g ` set ps"
  by (induction ps arbitrary: c) (auto simp: add_bootstrap_peer_def)

lemma split_char_join:
  "split_char c s \<noteq> [] \<and> concat (map (\<lambda>p. c # p) (split_char c s)) = c # s \<and> (\<forall>p \<in> set (split_char c s). c \<notin> set p)"
proof (induction s)
  case (Cons x xs)
  then show ?case by (cases "split_char c xs") auto
qed simp

text \<open>The bootstrap peers are the trimmed pieces of the argument between commas, each once.\<close>

lemma configured_peers:
  "distinct (ncf_bootstrap_peers (node_configure args)) \<and>
   set (ncf_bootstrap_peers (node_configure args)) =
     (case arg_bootstrap args of None \<Rightarrow> {} | Some b \<Rightarrow> trim_text ` set (split_char (CHR '','') b))"
  using add_peers_distinct [of _ trim_text]
  by (auto simp: node_configure_def node_config_default_def enable_validator_def Let_def split: option.splits)

section \<open>The start\<close>

lemma node_register_returns: "\<exists>r. node_register X C hw now kp c = Returned r"
  by (simp add: node_register_def vm_register_validator_def validator_manager_new_def insert_validator_def
      update_validator_set_def MAX_VALIDATORS_def Let_def)

lemma genesis_not_founder: "GENESIS_VAULT_ADDRESS \<noteq> FOUNDER_VESTING_ADDRESS"
  by (simp add: GENESIS_VAULT_ADDRESS_def FOUNDER_VESTING_ADDRESS_def)

lemma node_genesis_spec:
  assumes "so_get_account S GENESIS_VAULT_ADDRESS st = Inr r"
  shows "\<exists>v. node_genesis S now (vault_manager_new (state_manager_new X st)) = (Inr (), v) \<and>
     sm_storage (vm_state v) = st \<and>
     fst (sm_get_account S GENESIS_VAULT_ADDRESS (vm_state v)) =
       Inr (Some (case r of Some acc \<Rightarrow> acc | None \<Rightarrow> genesis_sovereign now GENESIS_BALANCE))"
  using assms genesis_not_founder
  by (cases r)
    (auto simp: node_genesis_def sm_account_exists_def sm_get_account_def vault_manager_new_def state_manager_new_def
      initialize_genesis_def set_account_def Let_def)

text \<open>
  C40. Once the directories are there and the store can be opened and read, a node starts. Its genesis account is the stored one
  or, when there is none, a new one; its engine works on the state of the vault and its network carries the hash of block 0.
  Nothing is written: the store is the one that was opened. And whatever the command line says, the engine knows no
  validator, not even itself.
\<close>

theorem node_boot_spec:
  assumes dirs: "fst (ensure_data_dir F (node_configure args) f) = Inr ()"
    and opened: "open_db (db_path (node_configure args)) = Inr st"
    and genesis: "so_get_account S GENESIS_VAULT_ADDRESS st = Inr r"
    and block: "so_get_block S 0 st = Inr ob"
  shows "\<exists>n. node_boot X S C hw now kp parse_addr open_db F f args = Returned (Inr n) \<and>
     fst (sm_get_account S GENESIS_VAULT_ADDRESS (vm_state (n_vault n))) =
       Inr (Some (case r of Some acc \<Rightarrow> acc | None \<Rightarrow> genesis_sovereign now GENESIS_BALANCE)) \<and>
     eng_sm (n_engine n) = vm_state (n_vault n) \<and>
     p2p_genesis_hash (n_network n) = (case ob of Some b \<Rightarrow> block_hash X b | None \<Rightarrow> zero32) \<and>
     sm_storage (vm_state (n_vault n)) = st \<and>
     eng_set (n_engine n) = validator_set_new \<and> my_validator_id (n_engine n) = None"
proof -
  obtain v where v: "node_genesis S now (vault_manager_new (state_manager_new X st)) = (Inr (), v)"
    "sm_storage (vm_state v) = st"
    "fst (sm_get_account S GENESIS_VAULT_ADDRESS (vm_state v)) =
       Inr (Some (case r of Some acc \<Rightarrow> acc | None \<Rightarrow> genesis_sovereign now GENESIS_BALANCE))"
    using node_genesis_spec [OF genesis] by blast
  obtain reg where reg: "node_register X C hw now kp (node_configure args) = Returned reg"
    using node_register_returns by blast
  obtain f1 where "ensure_data_dir F (node_configure args) f = (Inr (), f1)" using dirs by (metis prod.collapse)
  then show ?thesis using opened v block reg
    by (simp add: node_boot_def Let_def engine_new_def p2p_network_new_def split: option.splits)
qed

theorem node_boot_spec_witness:
  "\<exists>n. node_boot sample_externals (memory_ops sample_externals 0) tag_crypto (True, True) 7
         (HsEd25519 \<lparr>es_secret = [1], es_public = [1]\<rparr>) (\<lambda>_. None) (\<lambda>p. Inr memory_storage_new) tree_ops []
         (cli_args_default\<lparr>arg_validator := True\<rparr>) = Returned (Inr n) \<and>
       fst (sm_get_account (memory_ops sample_externals 0) GENESIS_VAULT_ADDRESS (vm_state (n_vault n))) =
         Inr (Some (genesis_sovereign 7 GENESIS_BALANCE)) \<and>
       my_validator_id (n_engine n) = None"
proof -
  let ?S = "memory_ops sample_externals 0" and ?args = "cli_args_default\<lparr>arg_validator := True\<rparr>"
  have "fst (ensure_data_dir tree_ops (node_configure ?args) []) = Inr ()"
    by (simp add: ensure_data_dir_def tree_ops_def tree_file_def list_all_iff Let_def)
  moreover have "so_get_account ?S GENESIS_VAULT_ADDRESS memory_storage_new = Inr None"
    by (simp add: memory_ops_def get_account_def memory_storage_new_def)
  moreover have "so_get_block ?S 0 memory_storage_new = Inr (get_block 0 memory_storage_new)" by (simp add: memory_ops_def)
  ultimately show ?thesis
    using node_boot_spec [of tree_ops ?args "[]" "\<lambda>p. Inr memory_storage_new" memory_storage_new ?S None _ sample_externals
        tag_crypto "(True, True)" 7 "HsEd25519 \<lparr>es_secret = [1], es_public = [1]\<rparr>" "\<lambda>_. None"]
    by fastforce
qed

text \<open>
  The genesis accounts stay in the cache of the state manager. A second start from the store a first one leaves behind
  finds no genesis account and creates another, with its own time stamps.
\<close>

lemma genesis_created_again:
  assumes "so_get_account S GENESIS_VAULT_ADDRESS st = Inr None"
    and "node_genesis S now (vault_manager_new (state_manager_new X st)) = (Inr (), v)"
  shows "\<exists>w. node_genesis S later (vault_manager_new (state_manager_new X (sm_storage (vm_state v)))) = (Inr (), w) \<and>
    fst (sm_get_account S GENESIS_VAULT_ADDRESS (vm_state w)) = Inr (Some (genesis_sovereign later GENESIS_BALANCE))"
  using node_genesis_spec [OF assms(1), of now X] node_genesis_spec [OF assms(1), of later X] assms(2) by auto

text \<open>The stake of the command line is in whole coins; the product with a million wraps around.\<close>

lemma configured_stake:
  "arg_validator args \<Longrightarrow> unat (arg_stake args) * 1000000 < 2 ^ 128 \<Longrightarrow>
   unat (ncf_validator_stake (node_configure args)) = unat (arg_stake args) * 1000000"
proof -
  assume v: "arg_validator args" and small: "unat (arg_stake args) * 1000000 < 2 ^ 128"
  have peers: "ncf_validator_stake (fold (\<lambda>p. add_bootstrap_peer (trim_text p)) ps c) = ncf_validator_stake c" for ps c
    by (induction ps arbitrary: c) (simp_all add: add_bootstrap_peer_def)
  have "ncf_validator_stake (node_configure args) = arg_stake args * 1000000"
    using v by (simp add: node_configure_def enable_validator_def Let_def peers split: option.split)
  then show ?thesis using small by (simp add: unat_word_ariths)
qed

end
