(* ===== verification/Spec2Isabelle.thy ===== *)
theory Spec2Isabelle
  imports Vault_Bridge Vault_Fees Consensus_Rounds Consensus_Sentinel Execution_Contracts State_Ledger Storage_Wal Storage_Cache
    Mempool_Order Network_P2P Api_Middleware Api_Rest Api_Websocket Storage_Snapshot
    Consensus_Titan Node_Utils Node_Boot
begin

text \<open>
  \<^bold>\<open>Pacyte: verification of a blockchain node written in Rust.\<close>

  A node keeps accounts in a storage backend behind a state manager, collects transactions in a
  mempool, agrees on blocks with a HotStuff-like engine, applies them to the state, moves value
  through a vault (fees, burning, dormancy, a bridge to other shards) and runs contracts on a
  small virtual machine. This development models the program's own logic, component by
  component, and proves what each component guarantees; where the code does
  not do what it means to do, the theorem states what it does.

  \<^bold>\<open>Theories and sources\<close> (paths under \<open>src/src\<close>).

  \<^item> \<open>Pacyte_Prelude\<close>: machine integers with Rust's saturating and checked operations, byte encodings,
    decimal printing, lock guards, association lists; \<open>Pacyte_Text\<close>: hexadecimal text; \<open>Pacyte_Float\<close>: \<open>f64\<close>; \<open>Pacyte_Error\<close>:
    \<open>types/error.rs\<close>.
  \<^item> \<open>Core_Types\<close>: \<open>types/account.rs\<close>, \<open>transaction.rs\<close>, \<open>block.rs\<close>, \<open>mod.rs\<close>. Accounts conserve
    balance plus stake, the signing hash determines the signed fields.
  \<^item> \<open>Merkle\<close>: \<open>crypto/merkle.rs\<close>. Proofs are complete and sound up to hash collisions; the block's
    transaction root is the tree's root. \<open>Crypto_Keys\<close>: \<open>crypto/hash.rs\<close>, \<open>ed25519.rs\<close>, \<open>dilithium5.rs\<close>, \<open>mod.rs\<close>.
    A multisignature has enough signers, a hybrid key cannot be downgraded, leading zeros are a target.
  \<^item> \<open>Storage_Ops\<close>: \<open>storage/mod.rs\<close>, the storage trait, its contract and the in-memory store;
    \<open>Storage_Wal\<close>: \<open>storage/wal.rs\<close>; \<open>Storage_Cache\<close>: \<open>storage/cache.rs\<close>; \<open>Storage_RocksDB\<close>:
    \<open>storage/rocksdb.rs\<close>; \<open>Storage_Snapshot\<close>: \<open>storage/snapshot.rs\<close>, \<open>migration.rs\<close>. What is flushed to
    the log is recovered; eviction is by least recent use; what RocksDB accepted is read back through the
    caches and after reopening; a snapshot restores its blocks, pruning keeps the newest snapshots.
  \<^item> \<open>State_Manager\<close>: \<open>storage/state.rs\<close>; \<open>State_Ledger\<close> is its abstract specification, a map from
    addresses to accounts, and the refinement of any chain of blocks.
  \<^item> \<open>Mempool_Pool\<close>: \<open>mempool/mod.rs\<close>, \<open>validator.rs\<close>, \<open>pool.rs\<close>. The indexes agree with
    the pool in every reachable state; selection and cleanup. \<open>Mempool_Order\<close>: \<open>fee.rs\<close>,
    \<open>ordering.rs\<close>, \<open>pruning.rs\<close>. The queue drains by priority, pruning restores every limit.
  \<^item> \<open>Consensus_Validators\<close> (\<open>consensus/mod.rs\<close>, \<open>validator.rs\<close>), \<open>Consensus_Votes\<close> (\<open>vote.rs\<close>,
    \<open>safety.rs\<close>), \<open>Consensus_Engine\<close> (\<open>engine.rs\<close>), \<open>Consensus_Rounds\<close> (\<open>round.rs\<close>, \<open>pacemaker.rs\<close>),
    \<open>Consensus_Sentinel\<close> (\<open>sentinel.rs\<close>). Quorums intersect, proposers rotate, a commit needs a
    quorum, backoff is bounded, evidence of double votes is sound. \<open>Consensus_Titan\<close>: the hardware probe and the merit
    score of \<open>validator.rs\<close>.
  \<^item> \<open>Vault_Supply\<close> (\<open>vault/mod.rs\<close>, \<open>burn.rs\<close>, \<open>dormancy.rs\<close>), \<open>Vault_Manager\<close> (\<open>manager.rs\<close>),
    \<open>Vault_Bridge\<close> (\<open>bridge.rs\<close>), \<open>Vault_Fees\<close> (\<open>fee.rs\<close>, \<open>sovereign.rs\<close>). Supply and burn ledger balance, fee shares add up with
    every rounding, the bridge is a state machine with its invariant, the sovereign hook refines a set of
    frozen accounts.
  \<^item> \<open>Execution_Word\<close>, \<open>Execution_Gas\<close>, \<open>Execution_VM\<close>, \<open>Execution_Executor\<close>: \<open>execution/vm.rs\<close>,
    \<open>gas.rs\<close>, \<open>mod.rs\<close>, \<open>executor.rs\<close>. Word arithmetic, type preservation, termination by gas, the
    executor over the vault. \<open>Execution_Contracts\<close>: \<open>contract.rs\<close>, \<open>precompiles.rs\<close>. Gas of the precompiles,
    deployment as a round trip.
  \<^item> \<open>Network_Messages\<close> (\<open>network/message.rs\<close>, \<open>gossip.rs\<close>, \<open>handshake.rs\<close>), \<open>Network_Peers\<close> (\<open>peer.rs\<close>),
    \<open>Network_P2P\<close> (\<open>p2p.rs\<close>, \<open>mod.rs\<close>). A message is relayed once in its time to live, the peer table and its
    index agree, and what a connection writes under any interleaving of the tasks.
  \<^item> \<open>Api_Middleware\<close>: \<open>api/middleware.rs\<close>. The rate limit holds in every window. \<open>Api_Rpc\<close> (\<open>api/mod.rs\<close>, \<open>rpc.rs\<close>),
    \<open>Api_Rest\<close> (\<open>rest.rs\<close>), \<open>Api_Websocket\<close> (\<open>websocket.rs\<close>). Block numbers and hashes that are printed are read back,
    the pages of the block list show each block once, and what a WebSocket client receives in any interleaving.
  \<^item> \<open>Node_Utils\<close> (\<open>utils/time.rs\<close>, \<open>mod.rs\<close>, \<open>logger.rs\<close>, \<open>metrics.rs\<close>), \<open>Node_Boot\<close> (\<open>types/config.rs\<close>, \<open>main.rs\<close>).
    Intervals and progress logs keep their rate, retries make the calls and pauses they announce, recorded metrics fit
    their labels, and the state in which a node starts.

  \<^bold>\<open>How the code is modelled.\<close>

  \<^item> A struct is a record, an enum a datatype, an operation a function that returns its result and the
    changed state. An error or early return is a value: nothing is undone that the code does not undo.
  \<^item> Integers are words of their width and wrap around as in a release build; lengths of
    collections are natural numbers. A panic is a value of its own where the code can reach it.
  \<^item> A hash map is an association list (its order stands for the iteration order), an ordered map a
    sorted one. The clock is the argument \<open>now\<close>, an \<open>Instant\<close> a number of nanoseconds.
  \<^item> \<open>parking_lot\<close> locks are not re-entrant: operations that take a lock carry the guards their
    thread holds, and the outcome \<open>Blocked\<close> is a thread that waits for itself.
  \<^item> \<open>f64\<close> is exact arithmetic followed by rounding to 53 bits, see \<open>Pacyte_Float\<close>.
  \<^item> Loops over channels and timers are lists of the events they receive. The only loop without a
    bound, the run of a contract, is a partial function whose value \<open>None\<close> is divergence: with a gas
    limit below \<open>2 ^ 64 - 32000\<close> it is shown to return, and no fuel is used anywhere.
  \<^item> Code of other crates is a parameter: the record \<open>externals\<close> (hashes, serialisers, signature
    checks), \<open>wal_externals\<close>, \<open>lru_ops\<close>, \<open>code_ops\<close>, \<open>kv_ops\<close>,
    \<open>contract_externals\<close>, \<open>json_externals\<close>, \<open>net_externals\<close>, \<open>rocks_ops\<close>, \<open>rocks_codec\<close>, \<open>fs_ops\<close>,
    \<open>snapshot_codec\<close>, \<open>api_externals\<close>, \<open>crypto_ops\<close>, \<open>yaml_codec\<close>. What a theorem needs of them is a hypothesis
    in its statement, and its witness instantiates them.
  \<^item> Trait objects are records of operations, their contracts are locales: \<open>account_storage\<close>,
    \<open>reliable_storage\<close>, \<open>chain_storage\<close> and \<open>reliable_chain\<close> (interpreted as \<open>mem\<close> on the in-memory store and as
    \<open>rocks\<close> on RocksDB), \<open>rocks_db\<close> (\<open>mapdb\<close>), \<open>snapshot_fs\<close> (\<open>tree\<close>), \<open>block_mempool\<close> (\<open>pool\<close> on
    the mempool), \<open>log_disk\<close> (\<open>wdir\<close> on a directory), \<open>bounded_cache\<close> (\<open>recent\<close>),
    \<open>priced_precompile\<close> (each of the nine precompiles), \<open>signing\<close> and \<open>addressed_signing\<close> (both schemes and the hybrid),
    \<open>throttled\<close> (\<open>ticks\<close> on intervals, \<open>progress\<close> on the progress logger). Their clients
    are proved once inside the locale and used through the interpretation.

  \<^bold>\<open>Not modelled.\<close> Sockets and the routing of HTTP requests, RocksDB's options and checkpoints, logging output and the metrics server, the parsing of the command line, the WASM runtime, reporting
  functions (percentages, statistics, \<open>Display\<close>), and, outside the network, the interleaving
  of concurrent tasks inside one operation.
\<close>

end
